(* ===== verification/Prelude.thy ===== *)
theory Prelude
  imports Main "HOL-Library.AList" "HOL-Library.Product_Lexorder" "HOL-Library.List_Lexorder"
    "HOL-Library.Char_ord"
begin

text \<open>
  Shared vocabulary of the development: the pieces of the JavaScript standard library that
  the modelled TypeScript uses (truthiness of strings, the insertion-ordered \<open>Set\<close> and
  \<open>Map\<close>, \<open>trim\<close>, \<open>toLowerCase\<close>, \<open>join\<close>), the result type of code that
  throws, and the lemma collections the component theories extend.

  Strings are lists of characters (the code's identifiers, paths and codecs are ASCII).
  Instants are integers: a JavaScript \<open>Date\<close> holds a whole number of milliseconds.
\<close>

named_theorems js_simps \<open>evaluation of the modelled library functions\<close>
named_theorems model_defs \<open>definitions unfolded when a component is evaluated\<close>

section \<open>Results of code that throws\<close>

type_synonym ('e, 'a) result = "'e + 'a"

fun ok :: "'e + 'a \<Rightarrow> bool" where
  "ok (Inl _) = False"
| "ok (Inr _) = True"

lemma ok_iff: "ok r \<longleftrightarrow> (\<exists>x. r = Inr x)"
  by (cases r) auto

definition assert_that :: "bool \<Rightarrow> 'e \<Rightarrow> 'e + unit" where
  "assert_that b e = (if b then Inr () else Inl e)"

lemma assert_that_simps [simp]:
  "assert_that True e = Inr ()" "assert_that False e = Inl e"
  "ok (assert_that b e) = b" "(assert_that b e = Inr ()) = b"
  by (auto simp: assert_that_def)

section \<open>Truthiness and the insertion-ordered Set\<close>

text \<open>\<open>Boolean(s)\<close> for a value of type \<open>string | null | undefined\<close>.\<close>

definition truthy :: "string option \<Rightarrow> bool" where
  "truthy x = (case x of None \<Rightarrow> False | Some s \<Rightarrow> s \<noteq> [])"

lemma truthy_simps [simp]: "truthy None = False" "truthy (Some s) = (s \<noteq> [])"
  by (simp_all add: truthy_def)

text \<open>\<open>xs.filter((id): id is string => Boolean(id))\<close>.\<close>

definition truthy_ids :: "string option list \<Rightarrow> string list" where
  "truthy_ids xs = map the (filter truthy xs)"

lemma set_truthy_ids: "set (truthy_ids xs) = {s. s \<noteq> [] \<and> Some s \<in> set xs}"
  by (force simp: truthy_ids_def truthy_def split: option.splits)

text \<open>\<open>Array.from(new Set(xs))\<close>: the first occurrence of each element, in order.\<close>

primrec uniq :: "'a list \<Rightarrow> 'a list" where
  "uniq [] = []"
| "uniq (x # xs) = x # filter (\<lambda>y. y \<noteq> x) (uniq xs)"

lemma set_uniq [simp]: "set (uniq xs) = set xs"
  by (induction xs) auto

lemma distinct_uniq [simp]: "distinct (uniq xs)"
  by (induction xs) auto

lemma uniq_distinct: "distinct xs \<Longrightarrow> uniq xs = xs"
proof (induction xs)
  case (Cons x xs)
  then show ?case by (auto simp: filter_id_conv)
qed simp

lemma uniq_eq_Nil [simp]: "uniq xs = [] \<longleftrightarrow> xs = []"
  by (cases xs) auto

lemma length_uniq_le: "length (uniq xs) \<le> length xs"
  by (induction xs) (auto intro: le_trans [OF length_filter_le])

section \<open>Lists of rows\<close>

lemma find_Some_mem: "find P xs = Some x \<Longrightarrow> x \<in> set xs \<and> P x"
  by (induction xs) (auto split: if_splits)

lemma find_None_all: "find P xs = None \<longleftrightarrow> (\<forall>x\<in>set xs. \<not> P x)"
  by (induction xs) auto

lemma find_unique_key:
  assumes "distinct (map k xs)" and "x \<in> set xs"
  shows "find (\<lambda>y. k y = k x) xs = Some x"
  using assms by (induction xs) (auto simp: image_iff)

lemma inj_key: "distinct (map k xs) \<Longrightarrow> x \<in> set xs \<Longrightarrow> y \<in> set xs \<Longrightarrow> k x = k y \<Longrightarrow> x = y"
  by (induction xs) (auto simp: image_iff)

lemma list_all2_partner: "list_all2 P xs ys \<Longrightarrow> y \<in> set ys \<Longrightarrow> \<exists>x\<in>set xs. P x y"
  by (induction rule: list_all2_induct) auto

section \<open>Strings\<close>

text \<open>
  \<open>s.toLowerCase()\<close> and \<open>s.trim()\<close> on ASCII strings, and \<open>String(x ?? '')\<close> for a
  value of type \<open>string | null | undefined\<close>.
\<close>

definition js_lower_char :: "char \<Rightarrow> char" where
  "js_lower_char c = (if 65 \<le> (of_char c :: nat) \<and> (of_char c :: nat) \<le> 90
     then char_of ((of_char c :: nat) + 32) else c)"

definition js_lower :: "string \<Rightarrow> string" where
  "js_lower s = map js_lower_char s"

definition js_space :: "char \<Rightarrow> bool" where
  "js_space c \<longleftrightarrow> c \<in> {CHR 0x20, CHR 0x09, CHR 0x0A, CHR 0x0B, CHR 0x0C, CHR 0x0D}"

definition js_trim :: "string \<Rightarrow> string" where
  "js_trim s = rev (dropWhile js_space (rev (dropWhile js_space s)))"

definition or_empty :: "string option \<Rightarrow> string" where
  "or_empty x = (case x of None \<Rightarrow> [] | Some s \<Rightarrow> s)"

lemma js_trim_Nil [simp]: "js_trim [] = []"
  by (simp add: js_trim_def)

lemma js_trim_ends:
  assumes "js_trim s \<noteq> []"
  shows "\<not> js_space (hd (js_trim s)) \<and> \<not> js_space (last (js_trim s))"
proof -
  let ?t = "dropWhile js_space s" and ?u = "dropWhile js_space (rev (dropWhile js_space s))"
  from assms have u: "?u \<noteq> []" by (simp add: js_trim_def)
  then have "\<not> js_space (last (rev ?u))" by (simp add: last_rev hd_dropWhile)
  moreover have "\<not> js_space (hd (rev ?u))"
  proof -
    have "?t \<noteq> []" using u by (metis dropWhile.simps(1) rev.simps(1))
    then have "\<not> js_space (hd ?t)" by (rule hd_dropWhile)
    moreover obtain zs where "rev ?t = zs @ ?u" by (metis takeWhile_dropWhile_id)
    then have "?t = rev ?u @ rev zs" by (metis rev_append rev_rev_ident)
    ultimately show ?thesis using u by (metis hd_append2 rev_is_Nil_conv)
  qed
  ultimately show ?thesis by (simp add: js_trim_def)
qed

text \<open>\<open>s.split(d)\<close> for a single character.\<close>

fun split_on :: "char \<Rightarrow> string \<Rightarrow> string list" where
  "split_on d [] = [[]]"
| "split_on d (c # s) = (if c = d then [] # split_on d s
     else (case split_on d s of [] \<Rightarrow> [[c]] | l # ls \<Rightarrow> (c # l) # ls))"

lemma split_on_nonempty [simp]: "split_on d s \<noteq> []"
  by (induction s) (auto split: list.split)

lemma split_on_single: "d \<notin> set s \<Longrightarrow> split_on d s = [s]"
  by (induction s) auto

lemma split_on_append: "split_on d (s @ d # t) = split_on d s @ split_on d t"
proof (induction s)
  case (Cons c s)
  then show ?case by (cases "split_on d s") auto
qed simp

text \<open>\<open>xs.join(sep)\<close>.\<close>

fun js_join :: "string \<Rightarrow> string list \<Rightarrow> string" where
  "js_join sep [] = []"
| "js_join sep [x] = x"
| "js_join sep (x # y # ys) = x @ sep @ js_join sep (y # ys)"

text \<open>Decimal digits: \<open>String(n)\<close> for a whole number, and \<open>padStart(w, '0')\<close>.\<close>

definition digit_char :: "nat \<Rightarrow> char" where
  "digit_char d = char_of (48 + d)"

fun dec_digits :: "nat \<Rightarrow> string" where
  "dec_digits n = (if n < 10 then [digit_char n] else dec_digits (n div 10) @ [digit_char (n mod 10)])"

declare dec_digits.simps [simp del]

definition pad_start :: "nat \<Rightarrow> string \<Rightarrow> string" where
  "pad_start w s = replicate (w - length s) (CHR ''0'') @ s"

definition int_dec :: "int \<Rightarrow> string" where
  "int_dec i = (if i < 0 then CHR ''-'' # dec_digits (nat (- i)) else dec_digits (nat i))"

lemma dec_digits_nonempty [simp]: "dec_digits n \<noteq> []"
  by (subst dec_digits.simps) simp

definition char_val :: "char \<Rightarrow> nat" where
  "char_val c = of_char c - 48"

lemma char_val_digit: "d < 10 \<Longrightarrow> char_val (digit_char d) = d"
  by (simp add: char_val_def digit_char_def)

definition dec_val :: "string \<Rightarrow> nat" where
  "dec_val s = foldl (\<lambda>n c. 10 * n + char_val c) 0 s"

lemma dec_val_digits: "dec_val (dec_digits n) = n"
proof (induction n rule: dec_digits.induct)
  case (1 n)
  show ?case
  proof (cases "n < 10")
    case True
    then show ?thesis by (subst dec_digits.simps) (simp add: dec_val_def char_val_digit)
  next
    case False
    with 1 have "dec_val (dec_digits (n div 10)) = n div 10" by simp
    with False show ?thesis
      by (subst dec_digits.simps) (simp add: dec_val_def char_val_digit)
  qed
qed

lemma dec_digits_inj: "dec_digits m = dec_digits n \<Longrightarrow> m = n"
  by (metis dec_val_digits)

definition is_digit :: "char \<Rightarrow> bool" where
  "is_digit c \<longleftrightarrow> 48 \<le> (of_char c :: nat) \<and> (of_char c :: nat) \<le> 57"

lemma dec_digits_are_digits: "c \<in> set (dec_digits n) \<Longrightarrow> is_digit c"
proof (induction n rule: dec_digits.induct)
  case (1 n)
  have d: "k < 10 \<Longrightarrow> is_digit (digit_char k)" for k
    by (simp add: is_digit_def digit_char_def)
  show ?case
  proof (cases "n < 10")
    case True
    with "1.prems" d show ?thesis by (subst (asm) dec_digits.simps) auto
  next
    case False
    with "1.prems" have "c \<in> set (dec_digits (n div 10)) \<or> c = digit_char (n mod 10)"
      by (subst (asm) dec_digits.simps) auto
    with 1 False d show ?thesis by auto
  qed
qed

section \<open>Lines and fixed-point numbers\<close>

abbreviation nl :: char where "nl \<equiv> CHR 0x0A"

fun split_lines :: "string \<Rightarrow> string list" where
  "split_lines [] = [[]]"
| "split_lines (c # s) = (if c = nl then [] # split_lines s
     else (case split_lines s of [] \<Rightarrow> [[c]] | l # ls \<Rightarrow> (c # l) # ls))"

lemma split_lines_single: "nl \<notin> set l \<Longrightarrow> split_lines l = [l]"
  by (induction l) auto

lemma split_lines_append: "nl \<notin> set l \<Longrightarrow> split_lines (l @ nl # s) = l # split_lines s"
  by (induction l) auto

lemma split_lines_join:
  "ls \<noteq> [] \<Longrightarrow> \<forall>l\<in>set ls. nl \<notin> set l \<Longrightarrow> split_lines (js_join [nl] ls) = ls"
proof (induction ls)
  case (Cons l ls)
  then show ?case by (cases ls) (simp_all add: split_lines_single split_lines_append)
qed simp

lemma dec_val_append: "dec_val (s @ t) = dec_val s * 10 ^ length t + dec_val t"
proof -
  let ?f = "\<lambda>n c. 10 * n + char_val c"
  have "foldl ?f k t = k * 10 ^ length t + foldl ?f 0 t" for k
  proof (induction t arbitrary: k rule: rev_induct)
    case (snoc c t)
    show ?case by (simp add: snoc [of k] distrib_left)
  qed simp
  from this [of "foldl ?f 0 s"] show ?thesis by (simp add: dec_val_def)
qed

lemma dec_val_zeros: "dec_val (replicate k (CHR ''0'') @ s) = dec_val s"
proof -
  have "dec_val (replicate k (CHR ''0'')) = 0"
    by (induction k) (simp_all add: dec_val_def char_val_def)
  then show ?thesis by (simp add: dec_val_append)
qed

lemma dec_digits_length: "n < 10 ^ Suc k \<Longrightarrow> length (dec_digits n) \<le> Suc k"
proof (induction k arbitrary: n)
  case 0
  then show ?case by (subst dec_digits.simps) simp
next
  case (Suc k)
  show ?case
  proof (cases "n < 10")
    case True
    then show ?thesis by (subst dec_digits.simps) simp
  next
    case False
    have "n div 10 < 10 ^ Suc k" using Suc.prems by (simp add: div_less_iff_less_mult)
    from Suc.IH [OF this] False show ?thesis by (subst dec_digits.simps) simp
  qed
qed

text \<open>\<open>(ms / 1000).toFixed(3)\<close> for a whole number of thousandths.\<close>

definition toFixed3 :: "int \<Rightarrow> string" where
  "toFixed3 ms = (if ms < 0 then ''-'' else []) @ dec_digits (nat \<bar>ms\<bar> div 1000) @ ''.'' @
     pad_start 3 (dec_digits (nat \<bar>ms\<bar> mod 1000))"

definition read_fixed3 :: "string \<Rightarrow> int" where
  "read_fixed3 s = int (dec_val (filter is_digit s))"

lemma read_fixed3_toFixed3: "0 \<le> ms \<Longrightarrow> read_fixed3 (toFixed3 ms) = ms"
proof -
  assume "0 \<le> ms"
  let ?q = "nat ms div 1000" and ?r = "nat ms mod 1000"
  have digits: "filter is_digit (dec_digits n) = dec_digits n" for n
    by (simp add: filter_id_conv dec_digits_are_digits)
  have "length (dec_digits ?r) \<le> Suc 2" by (rule dec_digits_length) simp
  then have len: "length (pad_start 3 (dec_digits ?r)) = 3" by (simp add: pad_start_def)
  have "filter is_digit (pad_start 3 (dec_digits ?r)) = pad_start 3 (dec_digits ?r)"
    by (simp add: pad_start_def digits) (simp add: is_digit_def)
  moreover have "\<not> is_digit (CHR ''.'')" by (simp add: is_digit_def)
  ultimately have "filter is_digit (toFixed3 ms) = dec_digits ?q @ pad_start 3 (dec_digits ?r)"
    using \<open>0 \<le> ms\<close> by (simp add: toFixed3_def digits)
  then have "read_fixed3 (toFixed3 ms) = int (?q * 1000 + ?r)"
    by (simp only: read_fixed3_def dec_val_append len)
      (simp add: pad_start_def dec_val_zeros dec_val_digits)
  moreover have "int (?q * 1000 + ?r) = ms" using \<open>0 \<le> ms\<close> by (metis div_mult_mod_eq int_nat_eq)
  ultimately show ?thesis by (rule trans)
qed

lemma nl_not_digit: "\<not> is_digit nl"
  by (simp add: is_digit_def)

lemma toFixed3_one_line: "nl \<notin> set (toFixed3 ms)"
  using nl_not_digit by (auto simp: toFixed3_def pad_start_def dest: dec_digits_are_digits)

lemma int_dec_one_line: "nl \<notin> set (int_dec i)"
  using nl_not_digit by (auto simp: int_dec_def dest: dec_digits_are_digits)

text \<open>\<open>String(ms / 1000)\<close> for a whole number of thousandths: no trailing zeros.\<close>

definition js_thousandths :: "int \<Rightarrow> string" where
  "js_thousandths ms =
     (if ms mod 1000 = 0 then int_dec (ms div 1000)
      else rev (dropWhile (\<lambda>c. c = CHR ''0'') (rev (toFixed3 ms))))"

section \<open>Calendar\<close>

text \<open>\<open>new Date(ms).toISOString()\<close> for the years 0 to 9999: the proleptic Gregorian date of a
  day number counted from 1970-01-01, then the time of day.\<close>

definition civil_from_days :: "int \<Rightarrow> int \<times> int \<times> int" where
  "civil_from_days d =
     (let z = d + 719468; era = z div 146097; doe = z mod 146097;
          yoe = (doe - doe div 1460 + doe div 36524 - doe div 146096) div 365;
          doy = doe - (365 * yoe + yoe div 4 - yoe div 100);
          mp = (5 * doy + 2) div 153;
          day = doy - (153 * mp + 2) div 5 + 1;
          month = (if mp < 10 then mp + 3 else mp - 9)
      in (yoe + era * 400 + (if month \<le> 2 then 1 else 0), month, day))"

definition padded :: "nat \<Rightarrow> int \<Rightarrow> string" where
  "padded w i = pad_start w (dec_digits (nat i))"

definition toISOString :: "int \<Rightarrow> string" where
  "toISOString ms =
     (let (y, m, d) = civil_from_days (ms div 86400000); t = ms mod 86400000
      in padded 4 y @ ''-'' @ padded 2 m @ ''-'' @ padded 2 d @ ''T'' @ padded 2 (t div 3600000) @ '':'' @
         padded 2 (t div 60000 mod 60) @ '':'' @ padded 2 (t div 1000 mod 60) @ ''.'' @
         padded 3 (t mod 1000) @ ''Z'')"

lemma padded_one_line: "nl \<notin> set (padded w i)"
  using nl_not_digit by (auto simp: padded_def pad_start_def dest: dec_digits_are_digits)

lemma toISOString_one_line: "nl \<notin> set (toISOString ms)"
  by (simp add: toISOString_def Let_def padded_one_line split: prod.split)

lemma js_thousandths_one_line: "nl \<notin> set (js_thousandths ms)"
  by (auto simp: js_thousandths_def int_dec_one_line toFixed3_one_line dest: set_dropWhileD)

section \<open>Instants\<close>

text \<open>
  A value of type \<open>Date | string | number | null | undefined\<close>: absent, unusable
  (\<open>new Date(x)\<close> is invalid), or an instant in milliseconds. \<open>toMs\<close> of the modules
  reads it.
\<close>

datatype instant = Absent | Invalid | At int

fun toMs :: "instant \<Rightarrow> int option" where
  "toMs Absent = None"
| "toMs Invalid = None"
| "toMs (At ms) = Some ms"


section \<open>Maps as association lists\<close>

text \<open>\<open>Map.set\<close> and \<open>Map.delete\<close> on a list in insertion order.\<close>

lemmas js_map_conv = update_conv' delete_conv'

lemma map_of_key_unique: "distinct (map fst xs) \<Longrightarrow> map_of xs k = Some v \<longleftrightarrow> (k, v) \<in> set xs"
  by simp

lemma length_update_le: "length (AList.update k v xs) \<le> Suc (length xs)"
  by (induction xs) auto

lemma length_update_present: "map_of xs k \<noteq> None \<Longrightarrow> length (AList.update k v xs) = length xs"
  by (induction xs) auto

lemma length_update_absent: "map_of xs k = None \<Longrightarrow> length (AList.update k v xs) = Suc (length xs)"
  by (induction xs) (auto split: if_splits)

lemma length_delete_present:
  "distinct (map fst xs) \<Longrightarrow> map_of xs k \<noteq> None \<Longrightarrow> Suc (length (AList.delete k xs)) = length xs"
proof (induction xs)
  case (Cons x xs)
  show ?case
  proof (cases "fst x = k")
    case True
    with Cons.prems have "AList.delete k xs = xs" by (intro delete_id) auto
    with True show ?thesis by simp
  next
    case False
    with Cons show ?thesis by (cases x) simp
  qed
qed simp

section \<open>Invariants of transition systems\<close>

locale transition_invariant =
  fixes init :: "'s \<Rightarrow> bool" and step :: "'s \<Rightarrow> 's \<Rightarrow> bool" and inv :: "'s \<Rightarrow> bool"
  assumes init_inv: "init s \<Longrightarrow> inv s"
    and step_inv: "inv s \<Longrightarrow> step s t \<Longrightarrow> inv t"
begin

definition reached :: "'s \<Rightarrow> bool" where
  "reached t \<longleftrightarrow> (\<exists>s. init s \<and> step\<^sup>*\<^sup>* s t)"

lemma steps_inv: "step\<^sup>*\<^sup>* s t \<Longrightarrow> inv s \<Longrightarrow> inv t"
  by (induction rule: rtranclp_induct) (auto intro: step_inv)

lemma reached_inv: "reached t \<Longrightarrow> inv t"
  unfolding reached_def by (blast intro: steps_inv init_inv)

end

end
