(* ===== verification/Access_Control.thy ===== *)
theory Access_Control
  imports Prelude
begin

text \<open>
  \<open>access-control/access-control.service.ts\<close>: who may see, move, record and administer a
  camera. The state is the part of the database the service reads: cameras, permission rows
  and camera groups. A Prisma \<open>findMany\<close> is the list of rows that satisfy its
  \<open>where\<close> clause, \<open>findUnique\<close> the row with that id. Every gate and every list of
  the service is a function of that state and of the calling user.
\<close>

section \<open>Data\<close>

datatype level = VIEW | CONTROL | RECORD | ADMIN

fun levelWeight :: "level \<Rightarrow> nat" where
  "levelWeight VIEW = 1"
| "levelWeight CONTROL = 2"
| "levelWeight RECORD = 3"
| "levelWeight ADMIN = 4"

lemma levelWeight_inj: "levelWeight a = levelWeight b \<Longrightarrow> a = b"
  by (cases a; cases b) auto

text \<open>Levels are ordered by their weight, so \<open>\<ge>\<close> of the library is the code's test.\<close>

instantiation level :: linorder
begin
definition less_eq_level :: "level \<Rightarrow> level \<Rightarrow> bool" where
  "less_eq_level a b = (levelWeight a \<le> levelWeight b)"
definition less_level :: "level \<Rightarrow> level \<Rightarrow> bool" where
  "less_level a b = (levelWeight a < levelWeight b)"
instance
  by standard (auto simp: less_eq_level_def less_level_def intro: levelWeight_inj)
end

lemma VIEW_le [simp]: "VIEW \<le> l"
  by (cases l) (auto simp: less_eq_level_def)

lemma le_ADMIN [simp]: "l \<le> ADMIN"
  by (cases l) (auto simp: less_eq_level_def)

lemma levels_increase [simp]: "VIEW \<le> CONTROL" "CONTROL \<le> RECORD" "RECORD \<le> ADMIN"
  by (auto simp: less_eq_level_def)

datatype role = SUPER_ADMIN | ADMINISTRATOR | OPERATOR | VIEWER

datatype access_status = ACTIVE | RESTRICTED | SUSPENDED

record auth_user =
  u_id :: string
  u_role :: role

record camera =
  cam_id :: string
  cam_group :: "string option"
  isPrivate :: bool
  ownerUserId :: "string option"

record permission =
  perm_id :: string
  perm_user :: string
  perm_camera :: "string option"
  perm_group :: "string option"
  perm_level :: level

record camera_group =
  grp_id :: string
  grp_active :: bool
  accessStatus :: access_status

record db =
  cameras :: "camera list"
  permissions :: "permission list"
  groups :: "camera_group list"

datatype access_error = Forbidden

section \<open>Operations\<close>

definition isPrivileged :: "auth_user \<Rightarrow> bool" where
  "isPrivileged user = (u_role user = SUPER_ADMIN \<or> u_role user = ADMINISTRATOR)"

definition findCamera :: "db \<Rightarrow> string \<Rightarrow> camera option" where
  "findCamera db cid = find (\<lambda>c. cam_id c = cid) (cameras db)"

definition findGroup :: "db \<Rightarrow> string \<Rightarrow> camera_group option" where
  "findGroup db gid = find (\<lambda>g. grp_id g = gid) (groups db)"

definition filterAllowedGroupIds :: "db \<Rightarrow> string list \<Rightarrow> string list" where
  "filterAllowedGroupIds db groupIds =
     (if groupIds = [] then []
      else map grp_id (filter (\<lambda>g. grp_id g \<in> set groupIds \<and> grp_active g
                                    \<and> accessStatus g \<noteq> SUSPENDED) (groups db)))"

text \<open>The ids of cameras the user holds a direct permission row for.\<close>

definition directCameraIds :: "db \<Rightarrow> auth_user \<Rightarrow> string list" where
  "directCameraIds db user =
     truthy_ids (map perm_camera
       (filter (\<lambda>p. perm_user p = u_id user \<and> perm_camera p \<noteq> None) (permissions db)))"

definition authorizedPrivateIds :: "db \<Rightarrow> auth_user \<Rightarrow> string list" where
  "authorizedPrivateIds db user =
     (let ownedPrivate = filter (\<lambda>c. isPrivate c \<and> ownerUserId c = Some (u_id user)) (cameras db);
          directIds = directCameraIds db user;
          directPrivate = (if directIds = [] then []
            else filter (\<lambda>c. cam_id c \<in> set directIds \<and> isPrivate c) (cameras db))
      in uniq (map cam_id ownedPrivate @ map cam_id directPrivate))"

definition getAccessibleCameraIds :: "db \<Rightarrow> auth_user \<Rightarrow> string list" where
  "getAccessibleCameraIds db user =
     (let directIds = directCameraIds db user;
          authorized = authorizedPrivateIds db user
      in if isPrivileged user
         then uniq (map cam_id (filter (\<lambda>c. \<not> isPrivate c) (cameras db)) @ authorized)
         else
           (let groupIds = truthy_ids (map perm_group
                  (filter (\<lambda>p. perm_user p = u_id user \<and> perm_group p \<noteq> None) (permissions db)));
                allowedGroupIds = (if groupIds = [] then [] else filterAllowedGroupIds db groupIds);
                groupCameras = (if allowedGroupIds = [] then []
                  else filter (\<lambda>c. \<exists>g\<in>set allowedGroupIds. cam_group c = Some g) (cameras db));
                candidate = uniq (directIds @ map cam_id groupCameras);
                privateSet = map cam_id (filter isPrivate groupCameras)
            in filter (\<lambda>cid. cid \<notin> set privateSet \<or> cid \<in> set authorized) candidate))"

definition getAdminGroupIds :: "db \<Rightarrow> auth_user \<Rightarrow> string list" where
  "getAdminGroupIds db user =
     (if isPrivileged user then map grp_id (groups db)
      else truthy_ids (map perm_group
        (filter (\<lambda>p. perm_user p = u_id user \<and> perm_group p \<noteq> None \<and> perm_level p = ADMIN)
          (permissions db))))"

definition canAdminGroup :: "db \<Rightarrow> auth_user \<Rightarrow> string \<Rightarrow> bool" where
  "canAdminGroup db user gid =
     (if isPrivileged user then True
      else find (\<lambda>p. perm_user p = u_id user \<and> perm_group p = Some gid \<and> perm_level p = ADMIN)
             (permissions db) \<noteq> None)"

definition assertCanAdminGroup :: "db \<Rightarrow> auth_user \<Rightarrow> string \<Rightarrow> access_error + unit" where
  "assertCanAdminGroup db user gid = assert_that (canAdminGroup db user gid) Forbidden"

text \<open>The loop of \<open>getMaxPermissionLevel\<close> over the rows found.\<close>

fun maxLevel :: "level \<Rightarrow> level list \<Rightarrow> level" where
  "maxLevel m [] = m"
| "maxLevel m (l # ls) = maxLevel (if levelWeight l > levelWeight m then l else m) ls"

definition permissionLevels :: "db \<Rightarrow> string \<Rightarrow> camera \<Rightarrow> level list" where
  "permissionLevels db userId c =
     (let allowed = (if truthy (cam_group c) then filterAllowedGroupIds db [the (cam_group c)] else [])
      in map perm_level (filter (\<lambda>p. perm_user p = userId \<and>
             (perm_camera p = Some (cam_id c) \<or>
              (allowed \<noteq> [] \<and> perm_group p = Some (hd allowed)))) (permissions db)))"

definition getMaxPermissionLevel :: "db \<Rightarrow> string \<Rightarrow> string \<Rightarrow> level option" where
  "getMaxPermissionLevel db userId cid =
     (case findCamera db cid of
        None \<Rightarrow> None
      | Some c \<Rightarrow> (case permissionLevels db userId c of
           [] \<Rightarrow> None
         | l # ls \<Rightarrow> Some (maxLevel l (l # ls))))"

definition hasLevel :: "db \<Rightarrow> auth_user \<Rightarrow> string \<Rightarrow> level \<Rightarrow> bool" where
  "hasLevel db user cid minLevel =
     (if isPrivileged user then True
      else case getMaxPermissionLevel db (u_id user) cid of
             None \<Rightarrow> False
           | Some m \<Rightarrow> levelWeight m \<ge> levelWeight minLevel)"

text \<open>The outcome \<open>None\<close> stands for \<open>null\<close>: the camera is not private.\<close>

definition hasPrivateContentLevel :: "db \<Rightarrow> auth_user \<Rightarrow> string \<Rightarrow> level \<Rightarrow> bool option" where
  "hasPrivateContentLevel db user cid minLevel =
     (case findCamera db cid of
        None \<Rightarrow> None
      | Some c \<Rightarrow>
          if \<not> isPrivate c then None
          else if ownerUserId c = Some (u_id user) then Some True
          else Some (\<exists>p\<in>set (permissions db). perm_user p = u_id user \<and> perm_camera p = Some cid
                       \<and> levelWeight (perm_level p) \<ge> levelWeight minLevel))"

definition canViewCamera :: "db \<Rightarrow> auth_user \<Rightarrow> string \<Rightarrow> bool" where
  "canViewCamera db user cid =
     (case hasPrivateContentLevel db user cid VIEW of
        Some b \<Rightarrow> b | None \<Rightarrow> hasLevel db user cid VIEW)"

definition canControlCamera :: "db \<Rightarrow> auth_user \<Rightarrow> string \<Rightarrow> bool" where
  "canControlCamera db user cid =
     (case hasPrivateContentLevel db user cid CONTROL of
        Some b \<Rightarrow> b | None \<Rightarrow> hasLevel db user cid CONTROL)"

definition canRecordCamera :: "db \<Rightarrow> auth_user \<Rightarrow> string \<Rightarrow> bool" where
  "canRecordCamera db user cid =
     (case hasPrivateContentLevel db user cid RECORD of
        Some b \<Rightarrow> b | None \<Rightarrow> hasLevel db user cid RECORD)"

definition canAdminCamera :: "db \<Rightarrow> auth_user \<Rightarrow> string \<Rightarrow> bool" where
  "canAdminCamera db user cid = hasLevel db user cid ADMIN"

definition canPlaybackCamera :: "db \<Rightarrow> auth_user \<Rightarrow> string \<Rightarrow> bool" where
  "canPlaybackCamera db user cid =
     (if \<not> canViewCamera db user cid then False
      else if isPrivileged user then True
      else case findCamera db cid of
             None \<Rightarrow> True
           | Some c \<Rightarrow>
               if \<not> truthy (cam_group c) then True
               else (case findGroup db (the (cam_group c)) of
                       None \<Rightarrow> True
                     | Some g \<Rightarrow> accessStatus g \<noteq> RESTRICTED))"

definition getPlaybackCameraIds :: "db \<Rightarrow> auth_user \<Rightarrow> string list" where
  "getPlaybackCameraIds db user =
     (let accessibleIds = getAccessibleCameraIds db user
      in if accessibleIds = [] \<or> isPrivileged user then accessibleIds
         else
           (let cams = filter (\<lambda>c. cam_id c \<in> set accessibleIds) (cameras db);
                groupIds = uniq (truthy_ids (map cam_group cams))
            in if groupIds = [] then map cam_id cams
               else
                 (let restrictedIds = map grp_id (filter (\<lambda>g. grp_id g \<in> set groupIds
                        \<and> accessStatus g = RESTRICTED) (groups db))
                  in map cam_id (filter (\<lambda>c. \<not> truthy (cam_group c)
                        \<or> the (cam_group c) \<notin> set restrictedIds) cams))))"

definition assertCanViewCamera :: "db \<Rightarrow> auth_user \<Rightarrow> string \<Rightarrow> access_error + unit" where
  "assertCanViewCamera db user cid = assert_that (canViewCamera db user cid) Forbidden"

definition assertCanPlaybackCamera :: "db \<Rightarrow> auth_user \<Rightarrow> string \<Rightarrow> access_error + unit" where
  "assertCanPlaybackCamera db user cid = assert_that (canPlaybackCamera db user cid) Forbidden"

definition assertCanControlCamera :: "db \<Rightarrow> auth_user \<Rightarrow> string \<Rightarrow> access_error + unit" where
  "assertCanControlCamera db user cid = assert_that (canControlCamera db user cid) Forbidden"

definition assertCanRecordCamera :: "db \<Rightarrow> auth_user \<Rightarrow> string \<Rightarrow> access_error + unit" where
  "assertCanRecordCamera db user cid = assert_that (canRecordCamera db user cid) Forbidden"

definition assertCanAdminCamera :: "db \<Rightarrow> auth_user \<Rightarrow> string \<Rightarrow> access_error + unit" where
  "assertCanAdminCamera db user cid = assert_that (canAdminCamera db user cid) Forbidden"

section \<open>The shape of the database\<close>

text \<open>
  What the schema guarantees: primary keys are unique, and the foreign key of a permission
  row points to a camera that exists (\<open>onDelete: Cascade\<close>); identifiers are never empty.
\<close>

definition db_ok :: "db \<Rightarrow> bool" where
  "db_ok db \<longleftrightarrow> distinct (map cam_id (cameras db)) \<and> distinct (map grp_id (groups db))
     \<and> distinct (map perm_id (permissions db))
     \<and> (\<forall>p\<in>set (permissions db). \<forall>cid. perm_camera p = Some cid \<longrightarrow> cid \<in> cam_id ` set (cameras db))
     \<and> (\<forall>c\<in>set (cameras db). cam_id c \<noteq> [] \<and> cam_group c \<noteq> Some [])"

lemma findCamera_id: "db_ok db \<Longrightarrow> c \<in> set (cameras db) \<Longrightarrow> findCamera db (cam_id c) = Some c"
  unfolding findCamera_def db_ok_def by (blast intro: find_unique_key)

lemma findCamera_SomeD: "findCamera db cid = Some c \<Longrightarrow> c \<in> set (cameras db) \<and> cam_id c = cid"
  unfolding findCamera_def by (blast dest: find_Some_mem)

lemma findCamera_NoneD: "findCamera db cid = None \<Longrightarrow> cid \<notin> cam_id ` set (cameras db)"
  by (auto simp: findCamera_def find_None_all)

lemma findGroup_id: "db_ok db \<Longrightarrow> g \<in> set (groups db) \<Longrightarrow> findGroup db (grp_id g) = Some g"
  unfolding findGroup_def db_ok_def by (blast intro: find_unique_key)

lemma findGroup_SomeD: "findGroup db gid = Some g \<Longrightarrow> g \<in> set (groups db) \<and> grp_id g = gid"
  unfolding findGroup_def by (blast dest: find_Some_mem)

section \<open>Gates as thresholds\<close>

text \<open>
  A content gate compares the level asked for with the levels granted. The two sources of
  grants (every row that applies, direct rows only) have the same contract.
\<close>

locale level_gate =
  fixes gate :: "'k \<Rightarrow> level \<Rightarrow> bool" and granted :: "'k \<Rightarrow> level set"
  assumes gate_iff: "gate k l \<longleftrightarrow> (\<exists>x\<in>granted k. l \<le> x)"
begin

lemma gate_antimono: "gate k l \<Longrightarrow> l' \<le> l \<Longrightarrow> gate k l'"
  by (meson gate_iff order_trans)

lemma gate_VIEW: "gate k VIEW \<longleftrightarrow> granted k \<noteq> {}"
  by (auto simp: gate_iff)

lemma gate_ADMIN: "gate k ADMIN \<longleftrightarrow> ADMIN \<in> granted k"
  by (metis gate_iff le_ADMIN order_antisym order_refl)

lemma gate_denied: "granted k = {} \<Longrightarrow> \<not> gate k l"
  by (simp add: gate_iff)

end

lemma maxLevel_ge: "x \<in> insert m (set ls) \<Longrightarrow> levelWeight x \<le> levelWeight (maxLevel m ls)"
proof (induction ls arbitrary: m x)
  case (Cons l ls)
  let ?m = "if levelWeight l > levelWeight m then l else m"
  have "levelWeight ?m \<le> levelWeight (maxLevel ?m ls)" by (rule Cons.IH) simp
  moreover have "x \<in> set ls \<Longrightarrow> levelWeight x \<le> levelWeight (maxLevel ?m ls)" by (rule Cons.IH) simp
  ultimately show ?case using Cons.prems by (auto split: if_splits)
qed auto

lemma maxLevel_mem: "maxLevel m ls \<in> insert m (set ls)"
  by (induction ls arbitrary: m) (auto split: if_splits)

text \<open>The rows that count for a camera: its own, and those of its group while it is allowed.\<close>

definition group_allowed :: "db \<Rightarrow> string \<Rightarrow> bool" where
  "group_allowed db gid \<longleftrightarrow>
     (\<exists>g\<in>set (groups db). grp_id g = gid \<and> grp_active g \<and> accessStatus g \<noteq> SUSPENDED)"

lemma set_filterAllowedGroupIds:
  "set (filterAllowedGroupIds db gs) = {gid. gid \<in> set gs \<and> group_allowed db gid}"
  by (auto simp: filterAllowedGroupIds_def group_allowed_def)

definition granting :: "db \<Rightarrow> string \<Rightarrow> camera \<Rightarrow> permission \<Rightarrow> bool" where
  "granting db uid c p \<longleftrightarrow> p \<in> set (permissions db) \<and> perm_user p = uid \<and>
     (perm_camera p = Some (cam_id c) \<or>
      (\<exists>gid. gid \<noteq> [] \<and> cam_group c = Some gid \<and> perm_group p = Some gid \<and> group_allowed db gid))"

lemma hd_filterAllowed:
  assumes "filterAllowedGroupIds db [g] \<noteq> []"
  shows "hd (filterAllowedGroupIds db [g]) = g \<and> group_allowed db g"
proof -
  from assms have "hd (filterAllowedGroupIds db [g]) \<in> set (filterAllowedGroupIds db [g])" by simp
  then show ?thesis by (auto simp: set_filterAllowedGroupIds)
qed

lemma filterAllowed_single: "group_allowed db g \<Longrightarrow> filterAllowedGroupIds db [g] \<noteq> []"
proof -
  assume "group_allowed db g"
  then have "g \<in> set (filterAllowedGroupIds db [g])" by (simp add: set_filterAllowedGroupIds)
  then show ?thesis by auto
qed

lemma set_permissionLevels: "set (permissionLevels db uid c) = perm_level ` {p. granting db uid c p}"
proof -
  have "set (permissionLevels db uid c) = perm_level ` {p \<in> set (permissions db). perm_user p = uid \<and>
      (perm_camera p = Some (cam_id c) \<or>
       (\<exists>gid. gid \<noteq> [] \<and> cam_group c = Some gid \<and> perm_group p = Some gid \<and> group_allowed db gid))}"
  proof (cases "truthy (cam_group c)")
    case False
    then show ?thesis by (auto simp: permissionLevels_def Let_def truthy_def split: option.splits)
  next
    case True
    then obtain g where g: "cam_group c = Some g" "g \<noteq> []"
      by (auto simp: truthy_def split: option.splits)
    show ?thesis
    proof (cases "group_allowed db g")
      case True
      then have "filterAllowedGroupIds db [g] \<noteq> []" by (rule filterAllowed_single)
      with g True hd_filterAllowed [OF this] show ?thesis
        by (auto simp: permissionLevels_def Let_def)
    next
      case False
      then have "filterAllowedGroupIds db [g] = []" using hd_filterAllowed by blast
      with g False show ?thesis by (auto simp: permissionLevels_def Let_def)
    qed
  qed
  then show ?thesis by (simp add: granting_def)
qed

lemma getMaxPermissionLevel_ge:
  "(case getMaxPermissionLevel db uid cid of None \<Rightarrow> False | Some m \<Rightarrow> levelWeight m \<ge> levelWeight l)
     \<longleftrightarrow> (\<exists>c. findCamera db cid = Some c \<and> (\<exists>p. granting db uid c p \<and> l \<le> perm_level p))"
proof (cases "findCamera db cid")
  case None
  then show ?thesis by (simp add: getMaxPermissionLevel_def)
next
  case (Some c)
  let ?ls = "permissionLevels db uid c"
  have ex: "(\<exists>p. granting db uid c p \<and> l \<le> perm_level p) \<longleftrightarrow> (\<exists>x\<in>set ?ls. l \<le> x)"
    by (auto simp: set_permissionLevels)
  show ?thesis
  proof (cases ?ls)
    case Nil
    then show ?thesis using Some ex by (simp add: getMaxPermissionLevel_def)
  next
    case (Cons a as)
    have "levelWeight l \<le> levelWeight (maxLevel a (a # as)) \<longleftrightarrow> (\<exists>x\<in>set (a # as). l \<le> x)"
      using maxLevel_ge [of _ a "a # as"] maxLevel_mem [of a "a # as"]
      by (auto simp: less_eq_level_def simp del: maxLevel.simps intro: order_trans)
    with Some Cons ex show ?thesis by (simp add: getMaxPermissionLevel_def del: maxLevel.simps)
  qed
qed

interpretation grp_gate: level_gate
  "\<lambda>(db, uid, cid) l. case getMaxPermissionLevel db uid cid of
      None \<Rightarrow> False | Some m \<Rightarrow> levelWeight m \<ge> levelWeight l"
  "\<lambda>(db, uid, cid). {perm_level p | p c. findCamera db cid = Some c \<and> granting db uid c p}"
  by standard (clarsimp simp only: prod.case getMaxPermissionLevel_ge, blast)

definition direct_rows :: "db \<Rightarrow> string \<Rightarrow> string \<Rightarrow> permission set" where
  "direct_rows db uid cid = {p \<in> set (permissions db). perm_user p = uid \<and> perm_camera p = Some cid}"

interpretation own_gate: level_gate
  "\<lambda>(db, uid, cid) l. \<exists>p\<in>set (permissions db). perm_user p = uid \<and> perm_camera p = Some cid
      \<and> levelWeight (perm_level p) \<ge> levelWeight l"
  "\<lambda>(db, uid, cid). perm_level ` direct_rows db uid cid"
  by standard (auto simp: direct_rows_def less_eq_level_def)

section \<open>What each gate and list decides\<close>

lemma hasLevel_iff:
  "hasLevel db user cid l \<longleftrightarrow> isPrivileged user \<or>
     (\<exists>c. findCamera db cid = Some c \<and> (\<exists>p. granting db (u_id user) c p \<and> l \<le> perm_level p))"
  unfolding hasLevel_def getMaxPermissionLevel_ge by simp

definition content_gate :: "db \<Rightarrow> auth_user \<Rightarrow> string \<Rightarrow> level \<Rightarrow> bool" where
  "content_gate db user cid l =
     (case hasPrivateContentLevel db user cid l of Some b \<Rightarrow> b | None \<Rightarrow> hasLevel db user cid l)"

lemma content_gates:
  "canViewCamera db user cid = content_gate db user cid VIEW"
  "canControlCamera db user cid = content_gate db user cid CONTROL"
  "canRecordCamera db user cid = content_gate db user cid RECORD"
  by (simp_all add: canViewCamera_def canControlCamera_def canRecordCamera_def content_gate_def)

lemma content_gate_private:
  assumes "db_ok db" "c \<in> set (cameras db)" "isPrivate c"
  shows "content_gate db user (cam_id c) l \<longleftrightarrow>
    ownerUserId c = Some (u_id user) \<or> (\<exists>p\<in>direct_rows db (u_id user) (cam_id c). l \<le> perm_level p)"
  using assms(3) by (auto simp: content_gate_def hasPrivateContentLevel_def findCamera_id [OF assms(1,2)]
      direct_rows_def less_eq_level_def)

lemma content_gate_common:
  assumes "db_ok db" "c \<in> set (cameras db)" "\<not> isPrivate c"
  shows "content_gate db user (cam_id c) l \<longleftrightarrow>
    isPrivileged user \<or> (\<exists>p. granting db (u_id user) c p \<and> l \<le> perm_level p)"
  using assms(3) by (simp add: content_gate_def hasPrivateContentLevel_def hasLevel_iff
      findCamera_id [OF assms(1,2)])

lemma content_gate_unknown: "findCamera db cid = None \<Longrightarrow> content_gate db user cid l = isPrivileged user"
  by (simp add: content_gate_def hasPrivateContentLevel_def hasLevel_iff)

lemma content_gate_antimono:
  assumes "content_gate db user cid l" "l' \<le> l"
  shows "content_gate db user cid l'"
  using assms by (auto simp: content_gate_def hasPrivateContentLevel_def hasLevel_iff less_eq_level_def
      intro: order_trans split: option.splits if_splits)

lemma cam_key: "db_ok db \<Longrightarrow> c \<in> set (cameras db) \<Longrightarrow> c' \<in> set (cameras db) \<Longrightarrow> cam_id c' = cam_id c \<Longrightarrow> c' = c"
  unfolding db_ok_def by (blast dest: inj_key)

lemma perm_camera_known:
  assumes "db_ok db" "p \<in> set (permissions db)" "perm_camera p = Some cid"
  shows "\<exists>c\<in>set (cameras db). cam_id c = cid" and "cid \<noteq> []"
proof -
  from assms have "cid \<in> cam_id ` set (cameras db)" unfolding db_ok_def by blast
  then obtain c where c: "c \<in> set (cameras db)" "cam_id c = cid" by blast
  then show "\<exists>c\<in>set (cameras db). cam_id c = cid" by blast
  from assms(1) c show "cid \<noteq> []" unfolding db_ok_def by blast
qed

lemma set_directCameraIds:
  assumes "db_ok db"
  shows "set (directCameraIds db user) = {cid. direct_rows db (u_id user) cid \<noteq> {}}"
proof -
  have "cid \<in> set (directCameraIds db user) \<longleftrightarrow> direct_rows db (u_id user) cid \<noteq> {}" for cid
  proof -
    have "cid \<in> set (directCameraIds db user) \<longleftrightarrow> cid \<noteq> [] \<and> direct_rows db (u_id user) cid \<noteq> {}"
      by (auto simp: directCameraIds_def set_truthy_ids direct_rows_def image_iff)
    then show ?thesis using perm_camera_known(2) [OF assms] by (auto simp: direct_rows_def)
  qed
  then show ?thesis by blast
qed

lemma direct_row_camera:
  "db_ok db \<Longrightarrow> direct_rows db uid cid \<noteq> {} \<Longrightarrow> \<exists>c\<in>set (cameras db). cam_id c = cid"
  using perm_camera_known(1) by (fastforce simp: direct_rows_def)

lemma authorizedPrivateIds_iff:
  assumes "db_ok db" "c \<in> set (cameras db)"
  shows "cam_id c \<in> set (authorizedPrivateIds db user) \<longleftrightarrow>
    isPrivate c \<and> (ownerUserId c = Some (u_id user) \<or> direct_rows db (u_id user) (cam_id c) \<noteq> {})"
proof -
  have key: "cam_id c \<in> cam_id ` {c' \<in> set (cameras db). Q c'} \<longleftrightarrow> Q c" for Q
    using cam_key [OF assms] assms(2) by (auto simp: image_iff)
  show ?thesis unfolding authorizedPrivateIds_def Let_def
    by (cases "directCameraIds db user = []")
      (use set_directCameraIds [OF assms(1), of user] in \<open>auto simp: key\<close>)
qed

lemma accessible_known:
  assumes "db_ok db" "cid \<in> set (getAccessibleCameraIds db user)"
  shows "\<exists>c\<in>set (cameras db). cam_id c = cid"
proof -
  have d: "cid \<in> set (directCameraIds db user) \<Longrightarrow> ?thesis"
    using assms(1) direct_row_camera set_directCameraIds by fastforce
  have a: "cid \<in> set (authorizedPrivateIds db user) \<Longrightarrow> ?thesis"
    by (auto simp: authorizedPrivateIds_def Let_def split: if_splits)
  show ?thesis using assms(2) d a
    by (auto simp: getAccessibleCameraIds_def Let_def split: if_splits)
qed

text \<open>The cameras a user reaches through an allowed group.\<close>

definition group_grant :: "db \<Rightarrow> string \<Rightarrow> camera \<Rightarrow> bool" where
  "group_grant db uid c \<longleftrightarrow> (\<exists>p\<in>set (permissions db). \<exists>gid. gid \<noteq> [] \<and> perm_user p = uid \<and>
     perm_group p = Some gid \<and> cam_group c = Some gid \<and> group_allowed db gid)"

lemma granting_split:
  "(\<exists>p. granting db uid c p) \<longleftrightarrow> direct_rows db uid (cam_id c) \<noteq> {} \<or> group_grant db uid c"
  unfolding granting_def direct_rows_def group_grant_def by blast

lemma accessible_plain_iff:
  assumes "db_ok db" "c \<in> set (cameras db)" "\<not> isPrivileged user"
  shows "cam_id c \<in> set (getAccessibleCameraIds db user) \<longleftrightarrow>
    (direct_rows db (u_id user) (cam_id c) \<noteq> {} \<or> group_grant db (u_id user) c) \<and>
    (isPrivate c \<longrightarrow> ownerUserId c = Some (u_id user) \<or> direct_rows db (u_id user) (cam_id c) \<noteq> {})"
proof -
  define gids where "gids = truthy_ids (map perm_group
    (filter (\<lambda>p. perm_user p = u_id user \<and> perm_group p \<noteq> None) (permissions db)))"
  define allowed where "allowed = (if gids = [] then [] else filterAllowedGroupIds db gids)"
  define gcams where "gcams = (if allowed = [] then []
    else filter (\<lambda>c. \<exists>g\<in>set allowed. cam_group c = Some g) (cameras db))"
  have allowed: "set allowed = {g. g \<noteq> [] \<and> group_allowed db g \<and>
      (\<exists>p\<in>set (permissions db). perm_user p = u_id user \<and> perm_group p = Some g)}"
  proof -
    have "set gids = {g. g \<noteq> [] \<and> (\<exists>p\<in>set (permissions db). perm_user p = u_id user \<and> perm_group p = Some g)}"
      by (auto simp: gids_def set_truthy_ids image_iff)
    moreover have "set allowed = {g \<in> set gids. group_allowed db g}"
      by (auto simp: allowed_def set_filterAllowedGroupIds)
    ultimately show ?thesis by blast
  qed
  have gc: "c' \<in> set gcams \<longleftrightarrow> c' \<in> set (cameras db) \<and> group_grant db (u_id user) c'" for c'
    unfolding gcams_def group_grant_def using allowed by (cases "allowed = []") auto
  have gcset: "set gcams = {c' \<in> set (cameras db). group_grant db (u_id user) c'}"
    using gc by blast
  have mem: "cam_id c \<in> cam_id ` {c' \<in> set gcams. Q c'} \<longleftrightarrow> group_grant db (u_id user) c \<and> Q c" for Q
    unfolding gcset using cam_key [OF assms(1,2)] assms(2) by (auto simp: image_iff)
  have "getAccessibleCameraIds db user = filter (\<lambda>cid. cid \<notin> set (map cam_id (filter isPrivate gcams))
      \<or> cid \<in> set (authorizedPrivateIds db user)) (uniq (directCameraIds db user @ map cam_id gcams))"
    using assms(3) unfolding getAccessibleCameraIds_def Let_def gcams_def allowed_def gids_def by simp
  then have "cam_id c \<in> set (getAccessibleCameraIds db user) \<longleftrightarrow>
      (cam_id c \<in> set (directCameraIds db user) \<or> cam_id c \<in> cam_id ` {c' \<in> set gcams. True}) \<and>
      (cam_id c \<notin> cam_id ` {c' \<in> set gcams. isPrivate c'} \<or> cam_id c \<in> set (authorizedPrivateIds db user))"
    by simp
  also have "\<dots> \<longleftrightarrow> (direct_rows db (u_id user) (cam_id c) \<noteq> {} \<or> group_grant db (u_id user) c) \<and>
      (\<not> (group_grant db (u_id user) c \<and> isPrivate c) \<or> cam_id c \<in> set (authorizedPrivateIds db user))"
    unfolding mem set_directCameraIds [OF assms(1)] by simp
  also have "\<dots> \<longleftrightarrow> (direct_rows db (u_id user) (cam_id c) \<noteq> {} \<or> group_grant db (u_id user) c) \<and>
    (isPrivate c \<longrightarrow> ownerUserId c = Some (u_id user) \<or> direct_rows db (u_id user) (cam_id c) \<noteq> {})"
    unfolding authorizedPrivateIds_iff [OF assms(1,2)] by blast
  finally show ?thesis .
qed

lemma accessible_admin_iff:
  assumes "db_ok db" "c \<in> set (cameras db)" "isPrivileged user"
  shows "cam_id c \<in> set (getAccessibleCameraIds db user) \<longleftrightarrow>
    (isPrivate c \<longrightarrow> ownerUserId c = Some (u_id user) \<or> direct_rows db (u_id user) (cam_id c) \<noteq> {})"
proof -
  have "cam_id c \<in> cam_id ` {c \<in> set (cameras db). \<not> isPrivate c} \<longleftrightarrow> \<not> isPrivate c"
    using cam_key [OF assms(1,2)] assms(2) by (auto simp: image_iff)
  then show ?thesis
    using assms(3) authorizedPrivateIds_iff [OF assms(1,2), of user]
    by (auto simp: getAccessibleCameraIds_def Let_def)
qed

lemma view_iff:
  assumes "db_ok db" "c \<in> set (cameras db)"
  shows "canViewCamera db user (cam_id c) \<longleftrightarrow>
    (if isPrivate c
     then ownerUserId c = Some (u_id user) \<or> direct_rows db (u_id user) (cam_id c) \<noteq> {}
     else isPrivileged user \<or> direct_rows db (u_id user) (cam_id c) \<noteq> {} \<or> group_grant db (u_id user) c)"
proof (cases "isPrivate c")
  case True
  then show ?thesis by (auto simp: content_gates content_gate_private [OF assms])
next
  case False
  then show ?thesis
    by (simp add: content_gates content_gate_common [OF assms] granting_split)
qed

section \<open>Properties\<close>

text \<open>A small installation: two groups (one suspended), three cameras, three users.\<close>

definition sample_db :: db where
  "sample_db = \<lparr>cameras =
      [\<lparr>cam_id = ''c1'', cam_group = Some ''g1'', isPrivate = False, ownerUserId = None\<rparr>,
       \<lparr>cam_id = ''c2'', cam_group = Some ''g1'', isPrivate = True, ownerUserId = Some ''ana''\<rparr>,
       \<lparr>cam_id = ''c3'', cam_group = Some ''g2'', isPrivate = False, ownerUserId = None\<rparr>],
     permissions =
      [\<lparr>perm_id = ''p1'', perm_user = ''bob'', perm_camera = None, perm_group = Some ''g1'', perm_level = RECORD\<rparr>,
       \<lparr>perm_id = ''p2'', perm_user = ''bob'', perm_camera = None, perm_group = Some ''g2'', perm_level = ADMIN\<rparr>],
     groups =
      [\<lparr>grp_id = ''g1'', grp_active = True, accessStatus = RESTRICTED\<rparr>,
       \<lparr>grp_id = ''g2'', grp_active = True, accessStatus = SUSPENDED\<rparr>]\<rparr>"

definition ana :: auth_user where "ana = \<lparr>u_id = ''ana'', u_role = VIEWER\<rparr>"
definition bob :: auth_user where "bob = \<lparr>u_id = ''bob'', u_role = OPERATOR\<rparr>"
definition root :: auth_user where "root = \<lparr>u_id = ''root'', u_role = SUPER_ADMIN\<rparr>"

lemma sample_ok [simp]: "db_ok sample_db"
  by (simp add: db_ok_def sample_db_def)

lemma sample_cameras:
  "set (cameras sample_db) = {\<lparr>cam_id = ''c1'', cam_group = Some ''g1'', isPrivate = False, ownerUserId = None\<rparr>,
     \<lparr>cam_id = ''c2'', cam_group = Some ''g1'', isPrivate = True, ownerUserId = Some ''ana''\<rparr>,
     \<lparr>cam_id = ''c3'', cam_group = Some ''g2'', isPrivate = False, ownerUserId = None\<rparr>}"
  by (simp add: sample_db_def)

lemma sample_no_direct [simp]: "direct_rows sample_db uid cid = {}"
  by (auto simp: direct_rows_def sample_db_def)

text \<open>C1 (privacy). The content of a private camera is closed to everybody but its owner and the
  holders of a direct permission row: no role, the administrators' included, and no group
  permission opens the live view, the PTZ, the recording control or the history of it, and
  neither listing shows it.\<close>

theorem private_camera_content_closed:
  assumes "db_ok db" "c \<in> set (cameras db)" "isPrivate c"
    and "ownerUserId c \<noteq> Some (u_id user)" "direct_rows db (u_id user) (cam_id c) = {}"
  shows "\<not> canViewCamera db user (cam_id c) \<and> \<not> canControlCamera db user (cam_id c)
    \<and> \<not> canRecordCamera db user (cam_id c) \<and> \<not> canPlaybackCamera db user (cam_id c)
    \<and> cam_id c \<notin> set (getAccessibleCameraIds db user)
    \<and> cam_id c \<notin> set (getPlaybackCameraIds db user)"
proof -
  have gates: "\<not> content_gate db user (cam_id c) l" for l
    using assms(4,5) by (simp add: content_gate_private [OF assms(1-3)])
  have list: "cam_id c \<notin> set (getAccessibleCameraIds db user)"
    using assms(3-5) accessible_plain_iff [OF assms(1,2), of user] accessible_admin_iff [OF assms(1,2), of user]
    by (cases "isPrivileged user") auto
  have "set (getPlaybackCameraIds db user) \<subseteq> set (getAccessibleCameraIds db user)"
    by (auto simp: getPlaybackCameraIds_def Let_def)
  with gates list show ?thesis by (auto simp: content_gates canPlaybackCamera_def)
qed

theorem private_camera_content_closed_witness:
  "\<not> canViewCamera sample_db root ''c2'' \<and> ''c2'' \<notin> set (getPlaybackCameraIds sample_db root)"
  using private_camera_content_closed [of sample_db
      "\<lparr>cam_id = ''c2'', cam_group = Some ''g1'', isPrivate = True, ownerUserId = Some ''ana''\<rparr>" root]
  by (simp add: sample_cameras root_def)

text \<open>C40 (lists against gates). For a camera of the database, the listing of accessible cameras
  agrees with the live-view gate, with one exception the equation makes explicit: the list of a
  user who is not an administrator holds only cameras that some permission row reaches, so the
  owner of a private camera who holds no row for it passes the gate and does not see the camera
  in the list.\<close>

theorem accessible_iff_view:
  assumes "db_ok db" "c \<in> set (cameras db)"
  shows "cam_id c \<in> set (getAccessibleCameraIds db user) \<longleftrightarrow>
    canViewCamera db user (cam_id c) \<and> (isPrivileged user \<or> (\<exists>p. granting db (u_id user) c p))"
  using accessible_plain_iff [OF assms, of user] accessible_admin_iff [OF assms, of user]
  by (cases "isPrivileged user") (auto simp: view_iff [OF assms] granting_split)

theorem accessible_iff_view_witness:
  "canViewCamera sample_db ana ''c2'' \<and> ''c2'' \<notin> set (getAccessibleCameraIds sample_db ana)"
proof -
  let ?c = "\<lparr>cam_id = ''c2'', cam_group = Some ''g1'', isPrivate = True, ownerUserId = Some ''ana''\<rparr>"
  have c: "?c \<in> set (cameras sample_db)" by (simp add: sample_cameras)
  have "canViewCamera sample_db ana (cam_id ?c)"
    unfolding view_iff [OF sample_ok c] by (simp add: ana_def)
  moreover have "\<not> (\<exists>p. granting sample_db (u_id ana) ?c p)"
    by (auto simp: granting_def sample_db_def ana_def)
  ultimately show ?thesis
    using accessible_iff_view [OF sample_ok c, of ana] by (simp add: isPrivileged_def ana_def)
qed

lemma playback_of_accessible:
  assumes "db_ok db" "c \<in> set (cameras db)" "\<not> isPrivileged user"
  shows "cam_id c \<in> set (getPlaybackCameraIds db user) \<longleftrightarrow>
    cam_id c \<in> set (getAccessibleCameraIds db user) \<and>
    \<not> (\<exists>g\<in>set (groups db). cam_group c = Some (grp_id g) \<and> grp_id g \<noteq> [] \<and> accessStatus g = RESTRICTED)"
proof -
  let ?acc = "getAccessibleCameraIds db user"
  define cams where "cams = filter (\<lambda>c. cam_id c \<in> set ?acc) (cameras db)"
  define gids where "gids = uniq (truthy_ids (map cam_group cams))"
  define rids where "rids = map grp_id (filter (\<lambda>g. grp_id g \<in> set gids \<and> accessStatus g = RESTRICTED) (groups db))"
  have eq: "set (getPlaybackCameraIds db user) = cam_id ` {c' \<in> set cams.
      \<not> truthy (cam_group c') \<or> the (cam_group c') \<notin> set rids}"
  proof (cases "?acc = []")
    case True
    then show ?thesis by (simp add: getPlaybackCameraIds_def cams_def)
  next
    case False
    have none: "\<not> truthy (cam_group c')" if "gids = []" "c' \<in> set cams" for c'
      using that by (auto simp: gids_def truthy_ids_def filter_empty_conv)
    have "getPlaybackCameraIds db user = (if gids = [] then map cam_id cams
        else map cam_id (filter (\<lambda>c. \<not> truthy (cam_group c) \<or> the (cam_group c) \<notin> set rids) cams))"
      using False assms(3) by (simp only: getPlaybackCameraIds_def Let_def cams_def gids_def rids_def simp_thms if_False)
    then show ?thesis using none by (cases "gids = []") auto
  qed
  have mem: "cam_id c \<in> cam_id ` {c' \<in> set cams. Q c'} \<longleftrightarrow> cam_id c \<in> set ?acc \<and> Q c" for Q
    using cam_key [OF assms(1,2)] assms(2) by (auto simp: cams_def image_iff)
  have "set gids = {g. g \<noteq> [] \<and> (\<exists>c'\<in>set cams. cam_group c' = Some g)}"
    by (auto simp: gids_def set_truthy_ids image_iff) metis
  then have rids: "set rids = {grp_id g | g. g \<in> set (groups db) \<and> grp_id g \<noteq> [] \<and> accessStatus g = RESTRICTED
      \<and> (\<exists>c'\<in>set cams. cam_group c' = Some (grp_id g))}"
    by (auto simp: rids_def)
  have "cam_id c \<in> set ?acc \<Longrightarrow> c \<in> set cams" using assms(2) by (simp add: cams_def)
  then show ?thesis unfolding eq mem rids
    by (cases "cam_group c") auto
qed

text \<open>(history). The listing that feeds the recording queries shows exactly the accessible
  cameras whose history gate is open: in particular a group under restriction keeps the live
  view of its cameras and loses their recordings in both places at once.\<close>

theorem playback_list_iff_gate:
  assumes "db_ok db" "c \<in> set (cameras db)"
  shows "cam_id c \<in> set (getPlaybackCameraIds db user) \<longleftrightarrow>
    cam_id c \<in> set (getAccessibleCameraIds db user) \<and> canPlaybackCamera db user (cam_id c)"
proof (cases "isPrivileged user")
  case True
  then show ?thesis using accessible_iff_view [OF assms, of user]
    by (auto simp: getPlaybackCameraIds_def canPlaybackCamera_def)
next
  case False
  have grp: "(case findGroup db gid of None \<Rightarrow> True | Some g \<Rightarrow> accessStatus g \<noteq> RESTRICTED) \<longleftrightarrow>
      \<not> (\<exists>g\<in>set (groups db). gid = grp_id g \<and> accessStatus g = RESTRICTED)" for gid
  proof (cases "findGroup db gid")
    case None
    then have "\<forall>g\<in>set (groups db). grp_id g \<noteq> gid" by (simp add: findGroup_def find_None_all)
    with None show ?thesis by auto
  next
    case (Some g)
    then have g: "g \<in> set (groups db)" "grp_id g = gid" by (auto dest: findGroup_SomeD)
    have "(\<exists>g'\<in>set (groups db). gid = grp_id g' \<and> accessStatus g' = RESTRICTED) \<longleftrightarrow> accessStatus g = RESTRICTED"
      using g findGroup_id [OF assms(1)] Some by (metis option.inject)
    with Some show ?thesis by simp
  qed
  have "canPlaybackCamera db user (cam_id c) \<longleftrightarrow> canViewCamera db user (cam_id c) \<and>
      \<not> (\<exists>g\<in>set (groups db). cam_group c = Some (grp_id g) \<and> grp_id g \<noteq> [] \<and> accessStatus g = RESTRICTED)"
  proof (cases "truthy (cam_group c)")
    case True
    then obtain gid where gid: "cam_group c = Some gid" "gid \<noteq> []"
      by (auto simp: truthy_def split: option.splits)
    have "canPlaybackCamera db user (cam_id c) \<longleftrightarrow> canViewCamera db user (cam_id c) \<and>
        (case findGroup db gid of None \<Rightarrow> True | Some g \<Rightarrow> accessStatus g \<noteq> RESTRICTED)"
      unfolding canPlaybackCamera_def findCamera_id [OF assms] using False gid by (simp del: not_None_eq)
    also have "\<dots> \<longleftrightarrow> canViewCamera db user (cam_id c) \<and>
        \<not> (\<exists>g\<in>set (groups db). gid = grp_id g \<and> accessStatus g = RESTRICTED)"
      by (rule arg_cong [OF grp])
    finally show ?thesis using gid by fastforce
  next
    case noGroup: False
    then have "canPlaybackCamera db user (cam_id c) = canViewCamera db user (cam_id c)"
      unfolding canPlaybackCamera_def findCamera_id [OF assms] using False by simp
    then show ?thesis using noGroup by (auto simp: truthy_def)
  qed
  then show ?thesis
    using playback_of_accessible [OF assms False] accessible_iff_view [OF assms, of user] by blast
qed

theorem playback_list_iff_gate_witness:
  "''c1'' \<in> set (getAccessibleCameraIds sample_db bob) \<and> ''c1'' \<notin> set (getPlaybackCameraIds sample_db bob)"
proof -
  let ?c = "\<lparr>cam_id = ''c1'', cam_group = Some ''g1'', isPrivate = False, ownerUserId = None\<rparr>"
  have c: "?c \<in> set (cameras sample_db)" by (simp add: sample_cameras)
  have "''c1'' \<in> set (getAccessibleCameraIds sample_db bob)"
    using accessible_plain_iff [OF sample_ok c, of bob]
    by (simp add: isPrivileged_def bob_def group_grant_def group_allowed_def sample_db_def)
  moreover have "\<not> canPlaybackCamera sample_db bob ''c1''"
    by (simp add: canPlaybackCamera_def isPrivileged_def bob_def findCamera_def findGroup_def sample_db_def)
  ultimately show ?thesis using playback_list_iff_gate [OF sample_ok c, of bob] by simp
qed

text \<open>(commercial block). A user who is not an administrator and holds no direct row reaches
  nothing of a shared camera whose group is suspended, inactive or unknown, whatever the group
  permission they hold: every gate is closed and the camera is in no list.\<close>

theorem suspended_group_grants_nothing:
  assumes "db_ok db" "c \<in> set (cameras db)" "\<not> isPrivileged user" "\<not> isPrivate c"
    and "direct_rows db (u_id user) (cam_id c) = {}"
    and "\<forall>gid. cam_group c = Some gid \<longrightarrow> \<not> group_allowed db gid"
  shows "\<not> canViewCamera db user (cam_id c) \<and> \<not> canControlCamera db user (cam_id c)
    \<and> \<not> canRecordCamera db user (cam_id c) \<and> \<not> canAdminCamera db user (cam_id c)
    \<and> \<not> canPlaybackCamera db user (cam_id c)
    \<and> cam_id c \<notin> set (getAccessibleCameraIds db user)"
proof -
  have none: "\<not> granting db (u_id user) c p" for p
    using assms(5,6) granting_split [of db "u_id user" c] by (auto simp: group_grant_def)
  then have "\<not> content_gate db user (cam_id c) l" for l
    using assms(3) by (simp add: content_gate_common [OF assms(1,2,4)])
  then show ?thesis using none assms(3) accessible_iff_view [OF assms(1,2), of user]
    by (auto simp: content_gates canPlaybackCamera_def canAdminCamera_def hasLevel_iff
        findCamera_id [OF assms(1,2)])
qed

theorem suspended_group_grants_nothing_witness:
  "\<not> canViewCamera sample_db bob ''c3'' \<and> \<not> canAdminCamera sample_db bob ''c3''"
  using suspended_group_grants_nothing [of sample_db
      "\<lparr>cam_id = ''c3'', cam_group = Some ''g2'', isPrivate = False, ownerUserId = None\<rparr>" bob]
  by (simp add: sample_cameras bob_def isPrivileged_def) (simp add: group_allowed_def sample_db_def)

end
