(* ===== verification/Camera_Permissions.thy ===== *)
theory Camera_Permissions
  imports Access_Control
begin

text \<open>
  \<open>camera-permissions/camera-permissions.service.ts\<close>: granting, changing and removing
  permission rows. The operations read and write the same database as the gates. Between the
  reads that check a grant and the write that commits it another request may run, so
  \<open>grant\<close> takes two states: \<open>db\<close>, where the checks read, and \<open>now\<close>, the one the
  insert or update reaches (they are equal when nothing ran in between). The unique
  constraints of the table turn a lost race into the error P2002, which the code answers by
  updating the winner's row.
\<close>

section \<open>Data\<close>

record grant_dto =
  dto_user :: string
  dto_camera :: "string option"
  dto_group :: "string option"
  dto_level :: level

datatype permission_error =
    BadRequest
  | NotFound
  | PermissionForbidden
  | RecordNotFound       \<comment> \<open>Prisma P2025: \<open>update\<close> or \<open>delete\<close> of a row that is gone\<close>
  | UniqueViolation      \<comment> \<open>Prisma P2002, when the row that won the race is gone again\<close>
  | ForeignKeyViolation  \<comment> \<open>Prisma P2003: the camera or group of a new row is gone\<close>

section \<open>Operations\<close>

definition lift_access :: "access_error + 'a \<Rightarrow> permission_error + 'a" where
  "lift_access r = (case r of Inl _ \<Rightarrow> Inl PermissionForbidden | Inr x \<Rightarrow> Inr x)"

definition assertTargetUserIsManaged :: "db \<Rightarrow> auth_user \<Rightarrow> string \<Rightarrow> permission_error + unit" where
  "assertTargetUserIsManaged db actor target =
     (let groupIds = getAdminGroupIds db actor
      in if groupIds = [] then Inl PermissionForbidden
         else if find (\<lambda>p. perm_user p = target \<and> (\<exists>g\<in>set groupIds. perm_group p = Some g)) (permissions db) = None
         then Inl PermissionForbidden else Inr ())"

definition assertCanManagePermission :: "db \<Rightarrow> auth_user \<Rightarrow> string \<Rightarrow> permission_error + permission" where
  "assertCanManagePermission db actor pid =
     (case find (\<lambda>p. perm_id p = pid) (permissions db) of
        None \<Rightarrow> Inl NotFound
      | Some p \<Rightarrow>
          if isPrivileged actor then Inr p
          else if \<not> truthy (perm_group p) then Inl BadRequest
          else (case assertCanAdminGroup db actor (the (perm_group p)) of
                  Inl _ \<Rightarrow> Inl PermissionForbidden | Inr _ \<Rightarrow> Inr p))"

text \<open>\<open>list\<close>; the \<open>createdAt\<close> order of the answer is left out (rows keep the table's order).\<close>

definition listPermissions :: "db \<Rightarrow> auth_user \<Rightarrow> string option \<Rightarrow> permission list" where
  "listPermissions db actor userId =
     (let groupIds = (if isPrivileged actor then None else Some (getAdminGroupIds db actor))
      in if groupIds = Some [] then []
         else filter (\<lambda>p. (truthy userId \<longrightarrow> Some (perm_user p) = userId) \<and>
                (case groupIds of None \<Rightarrow> True | Some gs \<Rightarrow> \<exists>g\<in>set gs. perm_group p = Some g))
              (permissions db))"

definition validateTarget :: "string list \<Rightarrow> db \<Rightarrow> grant_dto \<Rightarrow> permission_error + unit" where
  "validateTarget userIds db dto =
     (if truthy (dto_camera dto) = truthy (dto_group dto) then Inl BadRequest
      else if dto_user dto \<notin> set userIds then Inl NotFound
      else if truthy (dto_camera dto) \<and> findCamera db (the (dto_camera dto)) = None then Inl NotFound
      else if truthy (dto_group dto) \<and> findGroup db (the (dto_group dto)) = None then Inl NotFound
      else Inr ())"

definition updateLevel :: "db \<Rightarrow> string \<Rightarrow> level \<Rightarrow> permission_error + db" where
  "updateLevel db pid l =
     (if pid \<in> perm_id ` set (permissions db)
      then Inr (db\<lparr>permissions := map (\<lambda>p. if perm_id p = pid then p\<lparr>perm_level := l\<rparr> else p) (permissions db)\<rparr>)
      else Inl RecordNotFound)"

definition same_target :: "grant_dto \<Rightarrow> permission \<Rightarrow> bool" where
  "same_target dto p = (perm_user p = dto_user dto \<and> perm_camera p = dto_camera dto \<and> perm_group p = dto_group dto)"

text \<open>
  The insert: the constraints of the table decide between a new row and P2002 (\<open>None\<close>). The
  unique indexes are on user and camera, and on user and group, where the column is not null.
\<close>

definition conflicts :: "grant_dto \<Rightarrow> permission \<Rightarrow> bool" where
  "conflicts dto p = (perm_user p = dto_user dto \<and>
     ((dto_camera dto \<noteq> None \<and> perm_camera p = dto_camera dto) \<or>
      (dto_group dto \<noteq> None \<and> perm_group p = dto_group dto)))"

definition createPermission :: "db \<Rightarrow> string \<Rightarrow> grant_dto \<Rightarrow> (permission_error + db) option" where
  "createPermission db newId dto =
     (if \<exists>p\<in>set (permissions db). conflicts dto p then None
      else if (\<exists>c. dto_camera dto = Some c \<and> findCamera db c = None) \<or>
              (\<exists>g. dto_group dto = Some g \<and> findGroup db g = None) then Some (Inl ForeignKeyViolation)
      else Some (Inr (db\<lparr>permissions := permissions db @
             [\<lparr>perm_id = newId, perm_user = dto_user dto, perm_camera = dto_camera dto,
               perm_group = dto_group dto, perm_level = dto_level dto\<rparr>]\<rparr>)))"

definition commitGrant :: "db \<Rightarrow> db \<Rightarrow> string \<Rightarrow> grant_dto \<Rightarrow> permission_error + db" where
  "commitGrant db now newId dto =
     (case find (same_target dto) (permissions db) of
        Some existing \<Rightarrow> updateLevel now (perm_id existing) (dto_level dto)
      | None \<Rightarrow> (case createPermission now newId dto of
           Some r \<Rightarrow> r
         | None \<Rightarrow> (case find (same_target dto) (permissions now) of
              None \<Rightarrow> Inl UniqueViolation
            | Some winner \<Rightarrow> updateLevel now (perm_id winner) (dto_level dto))))"

definition grant :: "string list \<Rightarrow> db \<Rightarrow> db \<Rightarrow> string \<Rightarrow> auth_user \<Rightarrow> grant_dto \<Rightarrow> permission_error + db" where
  "grant userIds db now newId actor dto =
     (case validateTarget userIds db dto of
        Inl e \<Rightarrow> Inl e
      | Inr _ \<Rightarrow>
          if isPrivileged actor then commitGrant db now newId dto
          else if \<not> truthy (dto_group dto) \<or> truthy (dto_camera dto) then Inl BadRequest
          else (case assertCanAdminGroup db actor (the (dto_group dto)) of
                  Inl _ \<Rightarrow> Inl PermissionForbidden
                | Inr _ \<Rightarrow>
                    (case assertTargetUserIsManaged db actor (dto_user dto) of
                       Inl e \<Rightarrow> Inl e
                     | Inr _ \<Rightarrow> commitGrant db now newId dto)))"

definition updatePermission :: "db \<Rightarrow> auth_user \<Rightarrow> string \<Rightarrow> level \<Rightarrow> permission_error + db" where
  "updatePermission db actor pid l =
     (case assertCanManagePermission db actor pid of
        Inl e \<Rightarrow> Inl e | Inr _ \<Rightarrow> updateLevel db pid l)"

definition removePermission :: "db \<Rightarrow> auth_user \<Rightarrow> string \<Rightarrow> permission_error + db" where
  "removePermission db actor pid =
     (case assertCanManagePermission db actor pid of
        Inl e \<Rightarrow> Inl e
      | Inr _ \<Rightarrow> Inr (db\<lparr>permissions := filter (\<lambda>p. perm_id p \<noteq> pid) (permissions db)\<rparr>))"

section \<open>Lemmas\<close>

definition target_key :: "permission \<Rightarrow> string \<times> string option \<times> string option" where
  "target_key p = (perm_user p, perm_camera p, perm_group p)"

text \<open>What the partial unique indexes of the table say: one row per user and camera or group.\<close>

definition same_index :: "permission \<Rightarrow> permission \<Rightarrow> bool" where
  "same_index p q \<longleftrightarrow> perm_user p = perm_user q \<and>
     ((perm_camera p \<noteq> None \<and> perm_camera p = perm_camera q) \<or>
      (perm_group p \<noteq> None \<and> perm_group p = perm_group q))"

definition unique_rows :: "db \<Rightarrow> bool" where
  "unique_rows db \<longleftrightarrow> (\<forall>p\<in>set (permissions db). \<forall>q\<in>set (permissions db). same_index p q \<longrightarrow> p = q)"

text \<open>Nothing changes the target of an existing row, so a row keeps it between two states.\<close>

definition targets_kept :: "db \<Rightarrow> db \<Rightarrow> bool" where
  "targets_kept db now \<longleftrightarrow> (\<forall>p\<in>set (permissions db). \<forall>q\<in>set (permissions now).
     perm_id p = perm_id q \<longrightarrow> target_key p = target_key q)"

lemma same_target_key:
  "same_target dto p \<longleftrightarrow> target_key p = (dto_user dto, dto_camera dto, dto_group dto)"
  by (auto simp: same_target_def target_key_def)

lemma updateLevel_maps:
  assumes "updateLevel db pid l = Inr db'"
  shows "map target_key (permissions db') = map target_key (permissions db)"
    and "map perm_id (permissions db') = map perm_id (permissions db)"
    and "cameras db' = cameras db" and "groups db' = groups db"
  using assms by (auto simp: updateLevel_def target_key_def split: if_splits)

lemma updateLevel_row:
  assumes "updateLevel db pid l = Inr db'" "p \<in> set (permissions db')"
  shows "p \<in> set (permissions db) \<or> (perm_id p = pid \<and> (\<exists>q\<in>set (permissions db). p = q\<lparr>perm_level := l\<rparr>))"
  using assms by (auto simp: updateLevel_def split: if_splits)

lemma db_ok_updateLevel:
  assumes "updateLevel db pid l = Inr db'" "db_ok db"
  shows "db_ok db'"
proof -
  have "map perm_camera (permissions db') = map perm_camera (permissions db)"
    using arg_cong [OF updateLevel_maps(1) [OF assms(1)], of "map (fst \<circ> snd)"]
    by (simp add: target_key_def comp_def)
  then have "perm_camera ` set (permissions db') = perm_camera ` set (permissions db)"
    by (metis set_map)
  then have "\<forall>p\<in>set (permissions db'). \<forall>cid. perm_camera p = Some cid \<longrightarrow> cid \<in> cam_id ` set (cameras db')"
    using assms(2) unfolding db_ok_def updateLevel_maps(3) [OF assms(1)] by (metis (no_types, lifting) imageE image_eqI)
  then show ?thesis using assms(2) updateLevel_maps [OF assms(1)] by (simp add: db_ok_def)
qed

lemma unique_rows_updateLevel:
  assumes "updateLevel db pid l = Inr db'" "unique_rows db"
  shows "unique_rows db'"
proof -
  have idx: "same_index (if a then p\<lparr>perm_level := l\<rparr> else p) (if b then q\<lparr>perm_level := l\<rparr> else q) = same_index p q"
    for a b p q by (simp add: same_index_def)
  from assms(1) have db': "permissions db' = map (\<lambda>p. if perm_id p = pid then p\<lparr>perm_level := l\<rparr> else p) (permissions db)"
    by (auto simp: updateLevel_def split: if_splits)
  show ?thesis using assms(2) unfolding unique_rows_def db' by (auto simp only: set_map ball_simps idx)
qed

lemma updateLevel_outside:
  assumes "updateLevel db pid l = Inr db'" "\<And>p. p \<in> set (permissions db) \<Longrightarrow> perm_id p = pid \<Longrightarrow> same_target dto p"
  shows "{p \<in> set (permissions db'). \<not> same_target dto p} = {p \<in> set (permissions db). \<not> same_target dto p}"
proof -
  from assms(1) have db': "permissions db' = map (\<lambda>p. if perm_id p = pid then p\<lparr>perm_level := l\<rparr> else p) (permissions db)"
    by (auto simp: updateLevel_def split: if_splits)
  have upd: "same_target dto (p\<lparr>perm_level := l\<rparr>) = same_target dto p" for p by (simp add: same_target_def)
  show ?thesis unfolding db' using assms(2) by (auto simp: upd image_iff split: if_splits)
qed

text \<open>The ways a committed grant can have been written.\<close>

lemma commitGrant_cases:
  assumes "commitGrant db now newId dto = Inr db'" "targets_kept db now" "db_ok now"
  obtains (update) pid where "updateLevel now pid (dto_level dto) = Inr db'"
      "\<And>p. p \<in> set (permissions now) \<Longrightarrow> perm_id p = pid \<Longrightarrow> same_target dto p"
  | (create) "createPermission now newId dto = Some (Inr db')"
proof (cases "find (same_target dto) (permissions db)")
  case (Some e)
  then have e: "e \<in> set (permissions db)" "same_target dto e" by (auto dest: find_Some_mem)
  have "same_target dto p" if "p \<in> set (permissions now)" "perm_id p = perm_id e" for p
    using assms(2) e that unfolding targets_kept_def same_target_key by metis
  then show ?thesis using assms(1) Some by (intro update [of "perm_id e"]) (auto simp: commitGrant_def)
next
  case None
  show ?thesis
  proof (cases "createPermission now newId dto")
    case (Some r)
    with None assms(1) show ?thesis by (intro create) (simp add: commitGrant_def)
  next
    case c: None
    then obtain w where w: "find (same_target dto) (permissions now) = Some w"
      using None assms(1) by (auto simp: commitGrant_def split: option.splits)
    then have "w \<in> set (permissions now)" "same_target dto w" by (auto dest: find_Some_mem)
    moreover have "distinct (map perm_id (permissions now))" using assms(3) by (simp add: db_ok_def)
    ultimately have "same_target dto p" if "p \<in> set (permissions now)" "perm_id p = perm_id w" for p
      using that inj_key by metis
    then show ?thesis using w c None assms(1) by (intro update [of "perm_id w"]) (auto simp: commitGrant_def)
  qed
qed

lemma createPermission_Inr:
  assumes "createPermission db newId dto = Some (Inr db')"
  obtains r where "permissions db' = permissions db @ [r]" "cameras db' = cameras db" "groups db' = groups db"
    "same_target dto r" "perm_id r = newId"
    "\<And>p. p \<in> set (permissions db) \<Longrightarrow> \<not> same_index p r" "\<And>p. p \<in> set (permissions db) \<Longrightarrow> \<not> same_index r p"
    "\<And>c. perm_camera r = Some c \<Longrightarrow> findCamera db c \<noteq> None"
proof -
  let ?r = "\<lparr>perm_id = newId, perm_user = dto_user dto, perm_camera = dto_camera dto,
               perm_group = dto_group dto, perm_level = dto_level dto\<rparr>"
  from assms have nc: "\<forall>p\<in>set (permissions db). \<not> conflicts dto p"
    and db': "db' = db\<lparr>permissions := permissions db @ [?r]\<rparr>"
    and fk: "\<not> (\<exists>c. dto_camera dto = Some c \<and> findCamera db c = None)"
    by (auto simp: createPermission_def split: if_splits)
  have idx: "same_index p ?r \<longleftrightarrow> conflicts dto p" "same_index ?r p \<longleftrightarrow> conflicts dto p" for p
    unfolding same_index_def conflicts_def by simp_all (metis option.distinct(1))+
  show ?thesis
    by (rule that [of ?r]) (use nc fk in \<open>auto simp: db' same_target_def idx\<close>)
qed

lemma commitGrant_frame:
  assumes "commitGrant db now newId dto = Inr db'" "targets_kept db now" "db_ok now"
  shows "{p \<in> set (permissions db'). \<not> same_target dto p} = {p \<in> set (permissions now). \<not> same_target dto p}"
    and "cameras db' = cameras now" and "groups db' = groups now"
  using assms
  by (cases rule: commitGrant_cases; auto elim!: createPermission_Inr dest: updateLevel_maps
      simp: updateLevel_outside)+

lemma commitGrant_invariants:
  assumes "commitGrant db now newId dto = Inr db'" "targets_kept db now" "db_ok now" "unique_rows now"
    and "newId \<notin> perm_id ` set (permissions now)"
  shows "db_ok db' \<and> unique_rows db'"
  using assms(1-3)
proof (cases rule: commitGrant_cases)
  case (update pid)
  then show ?thesis using assms(3,4) db_ok_updateLevel unique_rows_updateLevel by blast
next
  case create
  then show ?thesis
  proof (rule createPermission_Inr)
    fix r
    assume r: "permissions db' = permissions now @ [r]" "cameras db' = cameras now" "groups db' = groups now"
      "perm_id r = newId" "\<And>p. p \<in> set (permissions now) \<Longrightarrow> \<not> same_index p r"
      "\<And>p. p \<in> set (permissions now) \<Longrightarrow> \<not> same_index r p"
      "\<And>c. perm_camera r = Some c \<Longrightarrow> findCamera now c \<noteq> None"
    have "cid \<in> cam_id ` set (cameras now)" if "perm_camera r = Some cid" for cid
      using r(7) [OF that] by (auto dest: findCamera_SomeD)
    then have "db_ok db'" using assms(3,5) r(1-4) by (auto simp: db_ok_def)
    moreover have "unique_rows db'" using assms(4) r(1,5,6) by (auto simp: unique_rows_def)
    ultimately show ?thesis ..
  qed
qed

text \<open>What a successful grant by somebody who is not an administrator has passed.\<close>

lemma grant_passed:
  assumes "grant userIds db now newId actor dto = Inr db'"
  shows "commitGrant db now newId dto = Inr db'"
    and "\<not> isPrivileged actor \<Longrightarrow> \<exists>gid. dto_group dto = Some gid \<and> gid \<noteq> [] \<and> \<not> truthy (dto_camera dto)
      \<and> canAdminGroup db actor gid \<and> assertTargetUserIsManaged db actor (dto_user dto) = Inr ()"
  using assms by (auto simp: grant_def assertCanAdminGroup_def truthy_def split: sum.splits if_splits option.splits)

section \<open>Properties\<close>

definition sample_grant :: grant_dto where
  "sample_grant = \<lparr>dto_user = ''bob'', dto_camera = None, dto_group = Some ''g1'', dto_level = CONTROL\<rparr>"

lemma sample_unique [simp]: "unique_rows sample_db" "targets_kept sample_db sample_db"
  by (auto simp: unique_rows_def same_index_def targets_kept_def sample_db_def)

text \<open>(no duplicate grants). Whatever ran between the checks and the write, a successful grant
  leaves the database well-formed and keeps one row per user and target: the loser of a race
  becomes an update of the winner's row.\<close>

theorem grant_keeps_invariants:
  assumes "grant userIds db now newId actor dto = Inr db'"
    and "targets_kept db now" "db_ok now" "unique_rows now" "newId \<notin> perm_id ` set (permissions now)"
  shows "db_ok db' \<and> unique_rows db'"
  using commitGrant_invariants [OF grant_passed(1) [OF assms(1)] assms(2-5)] .

theorem grant_keeps_invariants_witness:
  "\<exists>db'. grant [''bob''] sample_db sample_db ''p9'' root sample_grant = Inr db' \<and> unique_rows db'"
proof -
  have g: "\<exists>db'. grant [''bob''] sample_db sample_db ''p9'' root sample_grant = Inr db'"
    by (simp add: grant_def validateTarget_def findGroup_def isPrivileged_def root_def sample_grant_def
        commitGrant_def same_target_def updateLevel_def sample_db_def)
  then obtain db' where "grant [''bob''] sample_db sample_db ''p9'' root sample_grant = Inr db'" ..
  moreover have "''p9'' \<notin> perm_id ` set (permissions sample_db)" by (simp add: sample_db_def)
  ultimately show ?thesis using grant_keeps_invariants [of "[''bob'']" sample_db sample_db "''p9''" root sample_grant db']
    by simp
qed

text \<open>(confinement of group administrators). When somebody who is not an administrator of the
  installation grants a permission, they hold ADMIN on the group named by the request, the
  person receiving it already belongs to a group they administer, and the only rows that can
  differ afterwards are that person's rows for that group.\<close>

theorem group_admin_grant_confined:
  assumes "grant userIds db now newId actor dto = Inr db'" "\<not> isPrivileged actor"
    and "targets_kept db now" "db_ok now"
  shows "\<exists>gid. dto_group dto = Some gid \<and> canAdminGroup db actor gid \<and>
    (\<exists>p\<in>set (permissions db). \<exists>g. perm_user p = dto_user dto \<and> perm_group p = Some g \<and> canAdminGroup db actor g) \<and>
    (\<forall>p. \<not> (perm_user p = dto_user dto \<and> perm_group p = Some gid) \<longrightarrow>
       (p \<in> set (permissions db') \<longleftrightarrow> p \<in> set (permissions now)))"
proof -
  from grant_passed(2) [OF assms(1,2)] obtain gid where gid: "dto_group dto = Some gid" "canAdminGroup db actor gid"
    and managed: "assertTargetUserIsManaged db actor (dto_user dto) = Inr ()" by blast
  have admin: "canAdminGroup db actor g" if "g \<in> set (getAdminGroupIds db actor)" for g
    using that assms(2) by (auto simp: canAdminGroup_def getAdminGroupIds_def set_truthy_ids find_None_all
        simp del: not_None_eq)
  from managed obtain p where "find (\<lambda>p. perm_user p = dto_user dto \<and>
      (\<exists>g\<in>set (getAdminGroupIds db actor). perm_group p = Some g)) (permissions db) = Some p"
    by (auto simp: assertTargetUserIsManaged_def Let_def split: if_splits)
  then have "p \<in> set (permissions db) \<and> perm_user p = dto_user dto \<and>
      (\<exists>g\<in>set (getAdminGroupIds db actor). perm_group p = Some g)"
    by (rule find_Some_mem)
  moreover have "p \<in> set (permissions db') \<longleftrightarrow> p \<in> set (permissions now)"
    if "\<not> (perm_user p = dto_user dto \<and> perm_group p = Some gid)" for p
    using commitGrant_frame(1) [OF grant_passed(1) [OF assms(1)] assms(3,4)] that gid(1)
    by (auto simp: same_target_def set_eq_iff)
  ultimately show ?thesis using gid admin by blast
qed

theorem group_admin_grant_confined_witness:
  "canAdminGroup sample_db bob ''g2'' \<and>
   (\<exists>db'. grant [''bob''] sample_db sample_db ''p9'' bob (sample_grant\<lparr>dto_group := Some ''g2''\<rparr>) = Inr db')"
proof -
  let ?dto = "sample_grant\<lparr>dto_group := Some ''g2''\<rparr>"
  have "\<exists>db'. grant [''bob''] sample_db sample_db ''p9'' bob ?dto = Inr db'"
    by (simp add: grant_def validateTarget_def findGroup_def isPrivileged_def bob_def sample_grant_def
        assertCanAdminGroup_def canAdminGroup_def assertTargetUserIsManaged_def getAdminGroupIds_def
        truthy_ids_def commitGrant_def same_target_def updateLevel_def sample_db_def)
  then obtain db' where g: "grant [''bob''] sample_db sample_db ''p9'' bob ?dto = Inr db'" ..
  have "\<not> isPrivileged bob" by (simp add: isPrivileged_def bob_def)
  from group_admin_grant_confined [OF g this sample_unique(2) sample_ok] g show ?thesis
    by (auto simp: sample_grant_def)
qed

text \<open>(a grant opens no camera outside the group). The grant of somebody who is not an
  administrator changes no gate, at any level and for any user, on a camera of another group.\<close>

theorem group_admin_grant_other_groups:
  assumes "grant userIds db now newId actor dto = Inr db'" "\<not> isPrivileged actor"
    and "targets_kept db now" "db_ok now" "db_ok db'"
    and "c \<in> set (cameras now)" "cam_group c \<noteq> dto_group dto"
  shows "canViewCamera db' user (cam_id c) = canViewCamera now user (cam_id c)
    \<and> canControlCamera db' user (cam_id c) = canControlCamera now user (cam_id c)
    \<and> canRecordCamera db' user (cam_id c) = canRecordCamera now user (cam_id c)
    \<and> canAdminCamera db' user (cam_id c) = canAdminCamera now user (cam_id c)"
proof -
  note commit = grant_passed(1) [OF assms(1)]
  note frame = commitGrant_frame [OF commit assms(3,4)]
  have c': "c \<in> set (cameras db')" using assms(6) frame(2) by simp
  have "dto_camera dto \<noteq> Some (cam_id c)"
    using grant_passed(2) [OF assms(1,2)] assms(4,6) by (auto simp: db_ok_def)
  then have relevant: "\<not> same_target dto p" if "perm_camera p = Some (cam_id c) \<or> perm_group p = cam_group c" for p
    using that assms(7) by (auto simp: same_target_def)
  have mem: "p \<in> set (permissions db') \<longleftrightarrow> p \<in> set (permissions now)" if "\<not> same_target dto p" for p
    using frame(1) that by (auto simp: set_eq_iff)
  have allowed: "group_allowed db' = group_allowed now" by (simp add: group_allowed_def frame(3) fun_eq_iff)
  have direct: "direct_rows db' uid (cam_id c) = direct_rows now uid (cam_id c)" for uid
    using mem relevant by (auto simp: direct_rows_def)
  have grant: "granting db' uid c p = granting now uid c p" for uid p
  proof (cases "same_target dto p")
    case True
    then have "perm_camera p \<noteq> Some (cam_id c)" "perm_group p \<noteq> cam_group c" using relevant by blast+
    then show ?thesis by (auto simp: granting_def)
  qed (simp add: granting_def mem allowed)
  have gate: "content_gate db' user (cam_id c) l = content_gate now user (cam_id c) l" for l
    by (cases "isPrivate c") (simp_all add: content_gate_private [OF assms(4,6)] content_gate_private [OF assms(5) c']
        content_gate_common [OF assms(4,6)] content_gate_common [OF assms(5) c'] direct grant)
  have "canAdminCamera db' user (cam_id c) = canAdminCamera now user (cam_id c)"
    by (simp add: canAdminCamera_def hasLevel_iff findCamera_id [OF assms(4,6)] findCamera_id [OF assms(5) c'] grant)
  with gate show ?thesis by (simp add: content_gates)
qed

theorem group_admin_grant_other_groups_witness:
  "\<exists>db'. grant [''bob''] sample_db sample_db ''p9'' bob (sample_grant\<lparr>dto_group := Some ''g2''\<rparr>) = Inr db' \<and>
     canRecordCamera db' bob ''c1'' = canRecordCamera sample_db bob ''c1''"
proof -
  let ?dto = "sample_grant\<lparr>dto_group := Some ''g2''\<rparr>"
  have "\<exists>db'. grant [''bob''] sample_db sample_db ''p9'' bob ?dto = Inr db'"
    by (simp add: grant_def validateTarget_def findGroup_def isPrivileged_def bob_def sample_grant_def
        assertCanAdminGroup_def canAdminGroup_def assertTargetUserIsManaged_def getAdminGroupIds_def
        truthy_ids_def commitGrant_def same_target_def updateLevel_def sample_db_def)
  then obtain db' where g: "grant [''bob''] sample_db sample_db ''p9'' bob ?dto = Inr db'" ..
  let ?c = "\<lparr>cam_id = ''c1'', cam_group = Some ''g1'', isPrivate = False, ownerUserId = None\<rparr>"
  have fresh: "''p9'' \<notin> perm_id ` set (permissions sample_db)" by (simp add: sample_db_def)
  have "\<not> isPrivileged bob" by (simp add: isPrivileged_def bob_def)
  moreover have "db_ok db'"
    using commitGrant_invariants [OF grant_passed(1) [OF g] sample_unique(2) sample_ok sample_unique(1) fresh] ..
  moreover have "?c \<in> set (cameras sample_db)" by (simp add: sample_cameras)
  moreover have "cam_group ?c \<noteq> dto_group ?dto" by (simp add: sample_grant_def)
  ultimately have "canRecordCamera db' bob (cam_id ?c) = canRecordCamera sample_db bob (cam_id ?c)"
    using group_admin_grant_other_groups [OF g _ sample_unique(2) sample_ok] by blast
  with g show ?thesis by auto
qed

end
