(* ===== verification/Recording_Segments.thy ===== *)
theory Recording_Segments
  imports Prelude
begin

text \<open>
  What \<open>recordings/helpers/range-export.helper.ts\<close> and \<open>vod-playlist.helper.ts\<close> have in
  common: the usable end of a recorded segment, the choice of the segments that overlap the
  interval asked for, their order and the cut at \<open>maxSegments\<close>. Both files carry their own
  copy of these lines; the shared definitions are used by both theories.

  Times are whole milliseconds. A duration or an offset in seconds has millisecond precision
  (\<open>roundSeconds(ms) = Math.round(ms) / 1000\<close>), so it is kept here as its number of
  thousandths. \<open>a.id.localeCompare(b.id)\<close> compares collation keys: the key function \<open>ck\<close>
  is a parameter.
\<close>

definition roundSeconds :: "int \<Rightarrow> int" where
  "roundSeconds ms = ms"

definition normalizeCodec :: "string option \<Rightarrow> string" where
  "normalizeCodec codec = js_lower (js_trim (or_empty codec))"

text \<open>\<open>endMs\<close>: the recorded end when it is after the start, else the start plus the duration.\<close>

definition segment_end :: "int \<Rightarrow> instant \<Rightarrow> int option \<Rightarrow> int option" where
  "segment_end startMs endedAt durationSeconds =
     (case toMs endedAt of
        Some e \<Rightarrow> if e > startMs then Some e
                  else (case durationSeconds of
                          Some d \<Rightarrow> if d > 0 then Some (startMs + d * 1000) else None | None \<Rightarrow> None)
      | None \<Rightarrow> (case durationSeconds of
                   Some d \<Rightarrow> if d > 0 then Some (startMs + d * 1000) else None | None \<Rightarrow> None))"

lemma segment_end_after: "segment_end s e d = Some t \<Longrightarrow> s < t"
  by (auto simp: segment_end_def split: option.splits if_splits)

text \<open>The candidates sorted and cut: \<open>(selected, truncated)\<close>.\<close>

definition select_candidates :: "('c \<Rightarrow> 'k::linorder) \<Rightarrow> int \<Rightarrow> 'c list \<Rightarrow> 'c list \<times> bool" where
  "select_candidates key maxSegments candidates =
     (let sorted = sort_key key candidates;
          truncated = int (length sorted) > maxSegments
      in (if truncated then take (nat maxSegments) sorted else sorted, truncated))"

lemma selected_sorted: "sorted (map key (fst (select_candidates key m cs)))"
  by (simp add: select_candidates_def Let_def sorted_wrt_take take_map [symmetric])

lemma selected_subset: "set (fst (select_candidates key m cs)) \<subseteq> set cs"
  by (auto simp: select_candidates_def Let_def dest: in_set_takeD)

lemma selected_complete: "\<not> snd (select_candidates key m cs) \<Longrightarrow> set (fst (select_candidates key m cs)) = set cs"
  by (auto simp: select_candidates_def Let_def)

text \<open>What the cut leaves out is never earlier than what it keeps.\<close>

lemma selected_earliest:
  assumes "x \<in> set (fst (select_candidates key m cs))" "y \<in> set cs" "y \<notin> set (fst (select_candidates key m cs))"
  shows "key x \<le> key y"
proof -
  let ?s = "sort_key key cs"
  from assms have t: "int (length ?s) > m" and x: "x \<in> set (take (nat m) ?s)"
    by (auto simp: select_candidates_def Let_def split: if_splits)
  from assms t have "y \<in> set (drop (nat m) ?s)"
    by (auto simp: select_candidates_def Let_def) (metis Un_iff append_take_drop_id set_append set_sort)
  moreover have "sorted (map key (take (nat m) ?s) @ map key (drop (nat m) ?s))"
    by (simp flip: map_append)
  ultimately show ?thesis using x by (auto simp: sorted_append)
qed

section \<open>Segments in start order\<close>

text \<open>
  The two plans walk the selected segments in start order. The contract they rest on: a
  segment ends after it starts, and the sort key respects the start.
\<close>

locale segment_timeline =
  fixes startMs endMs :: "'c \<Rightarrow> int" and key :: "'c \<Rightarrow> 'k::linorder" and usable :: "'c \<Rightarrow> bool"
  assumes nonempty: "usable c \<Longrightarrow> startMs c < endMs c"
    and key_start: "key c \<le> key d \<Longrightarrow> startMs c \<le> startMs d"
begin

lemma key_order_starts: "sorted (map key xs) \<Longrightarrow> sorted (map startMs xs)"
  by (induction xs) (auto intro: key_start)

lemma selected_starts: "sorted (map startMs (fst (select_candidates key m cs)))"
  by (rule key_order_starts) (rule selected_sorted)

lemma selected_nonempty:
  "\<forall>c\<in>set cs. usable c \<Longrightarrow> c \<in> set (fst (select_candidates key m cs)) \<Longrightarrow> startMs c < endMs c"
  using subsetD [OF selected_subset [of key m cs], of c] nonempty [of c] by simp

text \<open>The cut drops only segments that start at or after every segment it keeps.\<close>

lemma selected_starts_first:
  "x \<in> set (fst (select_candidates key m cs)) \<Longrightarrow> y \<in> set cs \<Longrightarrow>
   y \<notin> set (fst (select_candidates key m cs)) \<Longrightarrow> startMs x \<le> startMs y"
  by (rule key_start) (rule selected_earliest)

end

end
