(* ===== verification/Range_Export.thy ===== *)
theory Range_Export
  imports Recording_Segments
begin

text \<open>
  \<open>recordings/helpers/range-export.helper.ts\<close>: the plan of an export that crosses recorded
  segments (which part of which file, copied or transcoded, which holes the interval has), the
  manifest of the \<open>concat\<close> demuxer and the arguments of the stream copy. The transcode
  commands are not modelled here (they belong to the hardware-acceleration helper).
\<close>

section \<open>Data\<close>

record range_segment =
  rs_id :: string
  rs_filePath :: string
  rs_startedAt :: instant
  rs_endedAt :: instant
  rs_durationSeconds :: "int option"
  rs_videoCodec :: "string option"
  rs_audioCodec :: "string option"

datatype strategy = Copy | Transcode

record export_part =
  recordingId :: string
  filePath :: string
  inpointSeconds :: int
  outpointSeconds :: int
  durationSeconds :: int
  offsetSeconds :: int
  segmentStartedAt :: int
  fileDurationSeconds :: int

record export_gap =
  gap_from :: int
  gap_to :: int
  gap_seconds :: int

datatype strategy_reason =
    CodecDesconhecido string
  | CodecVideoMisto "string list"
  | CodecVideoNaoCopiavel string
  | AudioMisto "string list"
  | CodecAudioNaoCopiavel string
  | PerfilCompativelSolicitado

record export_plan =
  requestedFrom :: int
  requestedTo :: int
  parts :: "export_part list"
  plan_strategy :: strategy
  strategyReasons :: "strategy_reason list"
  plan_videoCodec :: "string option"
  tagHvc1 :: bool
  totalDurationSeconds :: int
  coveredFrom :: "int option"
  coveredTo :: "int option"
  requestedSeconds :: int
  coveredSeconds :: int
  gaps :: "export_gap list"
  continuous :: bool
  leadInSeconds :: int
  leadOutSeconds :: int
  plan_truncated :: bool
  plan_skipped :: nat

record export_input =
  in_segments :: "range_segment list"
  in_from :: instant
  in_to :: instant
  gapToleranceSeconds :: "int option"
  maxSegments :: "int option"
  copySafetySeconds :: "int option"
  forceTranscode :: bool

datatype export_error = TypeError | RangeError

record candidate =
  c_id :: string
  c_filePath :: string
  c_startMs :: int
  c_endMs :: int
  c_videoCodec :: string
  c_audioCodec :: string

definition DEFAULT_GAP_TOLERANCE_SECONDS :: int where "DEFAULT_GAP_TOLERANCE_SECONDS = 1"
definition DEFAULT_MAX_SEGMENTS :: int where "DEFAULT_MAX_SEGMENTS = 240"
definition DEFAULT_COPY_SAFETY_SECONDS :: int where "DEFAULT_COPY_SAFETY_SECONDS = 2"

definition COPY_SAFE_VIDEO :: "string set" where "COPY_SAFE_VIDEO = {''h264'', ''hevc'', ''h265''}"
definition COPY_SAFE_AUDIO :: "string set" where "COPY_SAFE_AUDIO = {''aac'', ''mp3''}"
definition HEVC_CODECS :: "string set" where "HEVC_CODECS = {''hevc'', ''h265''}"

section \<open>Operations\<close>

definition decideStrategy ::
  "candidate list \<Rightarrow> bool \<Rightarrow> strategy \<times> strategy_reason list \<times> string option" where
  "decideStrategy candidates force =
     (let videoCodec = (case candidates of [] \<Rightarrow> None
            | c # _ \<Rightarrow> if c_videoCodec c = [] then None else Some (c_videoCodec c));
          unknown = map (\<lambda>c. CodecDesconhecido (c_id c)) (filter (\<lambda>c. c_videoCodec c = []) candidates);
          videos = uniq (filter (\<lambda>v. v \<noteq> []) (map c_videoCodec candidates));
          mixed = (if length videos > 1 then [CodecVideoMisto videos] else []);
          notCopy = map CodecVideoNaoCopiavel (filter (\<lambda>v. v \<notin> COPY_SAFE_VIDEO) videos);
          audios = uniq (map c_audioCodec candidates);
          audioMixed = (if length audios > 1
            then [AudioMisto (map (\<lambda>a. if a = [] then ''sem_audio'' else a) audios)] else []);
          audioNotCopy = map CodecAudioNaoCopiavel (filter (\<lambda>a. a \<noteq> [] \<and> a \<notin> COPY_SAFE_AUDIO) audios);
          forced = (if force then [PerfilCompativelSolicitado] else []);
          reasons = unknown @ mixed @ notCopy @ audioMixed @ audioNotCopy @ forced
      in (if reasons = [] then Copy else Transcode, uniq reasons, videoCodec))"

text \<open>The collecting loop: the number of segments skipped, and the candidates.\<close>

fun collectCandidates :: "int \<Rightarrow> int \<Rightarrow> range_segment list \<Rightarrow> nat \<times> candidate list" where
  "collectCandidates fromMs toMsValue [] = (0, [])"
| "collectCandidates fromMs toMsValue (raw # raws) =
     (let (skipped, candidates) = collectCandidates fromMs toMsValue raws
      in case toMs (rs_startedAt raw) of
           None \<Rightarrow> (skipped, candidates)
         | Some startMs \<Rightarrow>
             (case segment_end startMs (rs_endedAt raw) (rs_durationSeconds raw) of
                None \<Rightarrow> (if startMs < toMsValue then skipped + 1 else skipped, candidates)
              | Some endMs \<Rightarrow>
                  if endMs \<le> fromMs \<or> startMs \<ge> toMsValue then (skipped, candidates)
                  else (skipped, \<lparr>c_id = rs_id raw, c_filePath = rs_filePath raw,
                          c_startMs = startMs, c_endMs = endMs,
                          c_videoCodec = normalizeCodec (rs_videoCodec raw),
                          c_audioCodec = normalizeCodec (rs_audioCodec raw)\<rparr> # candidates)))"

text \<open>The cut of one file: where the part starts and ends inside it.\<close>

definition fileDurationMs :: "candidate \<Rightarrow> int" where
  "fileDurationMs c = c_endMs c - c_startMs c"

definition rawInMs :: "int \<Rightarrow> candidate \<Rightarrow> int" where
  "rawInMs fromMs c = max 0 (fromMs - c_startMs c)"

definition rawOutMs :: "int \<Rightarrow> candidate \<Rightarrow> int" where
  "rawOutMs toMsValue c = min (fileDurationMs c) (toMsValue - c_startMs c)"

definition inMs :: "int \<Rightarrow> int \<Rightarrow> candidate \<Rightarrow> int" where
  "inMs fromMs margemMs c =
     (if rawInMs fromMs c > 0 then max 0 (rawInMs fromMs c - margemMs) else 0)"

definition outMs :: "int \<Rightarrow> int \<Rightarrow> candidate \<Rightarrow> int" where
  "outMs toMsValue margemMs c =
     (if rawOutMs toMsValue c < fileDurationMs c
      then min (fileDurationMs c) (rawOutMs toMsValue c + margemMs) else fileDurationMs c)"

text \<open>The loop over the selected segments: the parts, the final cursor, lead-in and lead-out.\<close>

fun buildParts :: "int \<Rightarrow> int \<Rightarrow> int \<Rightarrow> int \<Rightarrow> int \<Rightarrow> int \<Rightarrow> candidate list \<Rightarrow> export_part list \<times> int \<times> int \<times> int" where
  "buildParts fromMs toMsValue margemMs cursorMs leadInMs leadOutMs [] = ([], cursorMs, leadInMs, leadOutMs)"
| "buildParts fromMs toMsValue margemMs cursorMs leadInMs leadOutMs (current # rest) =
     (let inM = inMs fromMs margemMs current;
          outM = outMs toMsValue margemMs current;
          leadIn = (if rawInMs fromMs current > 0 then rawInMs fromMs current - inM else leadInMs);
          leadOut = (if rawOutMs toMsValue current < fileDurationMs current
                     then outM - rawOutMs toMsValue current else leadOutMs);
          durationMs = outM - inM
      in if durationMs \<le> 0 then buildParts fromMs toMsValue margemMs cursorMs leadIn leadOut rest
         else (let (ps, fin) = buildParts fromMs toMsValue margemMs (cursorMs + durationMs) leadIn leadOut rest
               in (\<lparr>recordingId = c_id current, filePath = c_filePath current,
                    inpointSeconds = roundSeconds inM, outpointSeconds = roundSeconds outM,
                    durationSeconds = roundSeconds durationMs, offsetSeconds = roundSeconds cursorMs,
                    segmentStartedAt = c_startMs current,
                    fileDurationSeconds = roundSeconds (fileDurationMs current)\<rparr> # ps, fin)))"

definition partFromMs :: "export_part \<Rightarrow> int" where
  "partFromMs p = segmentStartedAt p + inpointSeconds p"

definition partToMs :: "export_part \<Rightarrow> int" where
  "partToMs p = segmentStartedAt p + outpointSeconds p"

definition mkGap :: "int \<Rightarrow> int \<Rightarrow> export_gap" where
  "mkGap a b = \<lparr>gap_from = a, gap_to = b, gap_seconds = roundSeconds (b - a)\<rparr>"

fun buildGaps :: "int \<Rightarrow> int \<Rightarrow> export_part list \<Rightarrow> export_gap list \<times> int" where
  "buildGaps toleranceMs cursorClockMs [] = ([], cursorClockMs)"
| "buildGaps toleranceMs cursorClockMs (part # rest) =
     (let (gs, fin) = buildGaps toleranceMs (max cursorClockMs (partToMs part)) rest
      in (if partFromMs part - cursorClockMs > toleranceMs
          then mkGap cursorClockMs (partFromMs part) # gs else gs, fin))"

definition allGaps :: "int \<Rightarrow> int \<Rightarrow> int \<Rightarrow> export_part list \<Rightarrow> export_gap list" where
  "allGaps toleranceMs fromMs toMsValue ps =
     (let (gs, cursorClockMs) = buildGaps toleranceMs fromMs ps
      in if toMsValue - cursorClockMs > toleranceMs then gs @ [mkGap cursorClockMs toMsValue] else gs)"

definition toleranceMs :: "export_input \<Rightarrow> int" where
  "toleranceMs input = max 0 (case gapToleranceSeconds input of
     None \<Rightarrow> DEFAULT_GAP_TOLERANCE_SECONDS * 1000 | Some s \<Rightarrow> s * 1000)"

definition exportKey :: "(string \<Rightarrow> 'k::linorder) \<Rightarrow> candidate \<Rightarrow> int \<times> 'k" where
  "exportKey ck c = (c_startMs c, ck (c_id c))"

definition selectedSegments :: "(string \<Rightarrow> 'k::linorder) \<Rightarrow> export_input \<Rightarrow> int \<Rightarrow> int \<Rightarrow> candidate list \<times> bool" where
  "selectedSegments ck input fromMs toMsValue =
     select_candidates (exportKey ck)
       (max 1 (case maxSegments input of None \<Rightarrow> DEFAULT_MAX_SEGMENTS | Some m \<Rightarrow> m))
       (snd (collectCandidates fromMs toMsValue (in_segments input)))"

definition marginMs :: "export_input \<Rightarrow> strategy \<Rightarrow> int" where
  "marginMs input st =
     (let safetySeconds = max 0 (case copySafetySeconds input of
            None \<Rightarrow> DEFAULT_COPY_SAFETY_SECONDS | Some s \<Rightarrow> s)
      in if st = Copy then safetySeconds * 1000 else 0)"

definition planRangeExport :: "(string \<Rightarrow> 'k::linorder) \<Rightarrow> export_input \<Rightarrow> export_error + export_plan" where
  "planRangeExport ck input =
     (case (toMs (in_from input), toMs (in_to input)) of
        (Some fromMs, Some toMsValue) \<Rightarrow>
          if toMsValue \<le> fromMs then Inl RangeError
          else
            (let (selected, truncated) = selectedSegments ck input fromMs toMsValue;
                 (st, reasons, videoCodec) = decideStrategy selected (forceTranscode input);
                 (ps, cursorMs, leadInMs, leadOutMs) =
                    buildParts fromMs toMsValue (marginMs input st) 0 0 0 selected;
                 gs = allGaps (toleranceMs input) fromMs toMsValue ps;
                 requested = roundSeconds (toMsValue - fromMs);
                 gapTotal = sum_list (map gap_seconds gs)
             in Inr \<lparr>requestedFrom = fromMs, requestedTo = toMsValue, parts = ps,
                     plan_strategy = st, strategyReasons = reasons, plan_videoCodec = videoCodec,
                     tagHvc1 = (st = Copy \<and> (case videoCodec of None \<Rightarrow> False | Some v \<Rightarrow> v \<in> HEVC_CODECS)),
                     totalDurationSeconds = roundSeconds cursorMs,
                     coveredFrom = (if ps = [] then None else Some (partFromMs (hd ps))),
                     coveredTo = (if ps = [] then None else Some (partToMs (last ps))),
                     requestedSeconds = requested,
                     coveredSeconds = max 0 (roundSeconds (requested - gapTotal)),
                     gaps = gs,
                     continuous = (ps \<noteq> [] \<and> gs = []),
                     leadInSeconds = roundSeconds leadInMs, leadOutSeconds = roundSeconds leadOutMs,
                     plan_truncated = truncated,
                     plan_skipped = fst (collectCandidates fromMs toMsValue (in_segments input))\<rparr>)
      | _ \<Rightarrow> Inl TypeError)"

section \<open>Lemmas\<close>

lemma collected:
  "c \<in> set (snd (collectCandidates f t raws)) \<longleftrightarrow>
   (\<exists>raw\<in>set raws. toMs (rs_startedAt raw) = Some (c_startMs c) \<and>
      segment_end (c_startMs c) (rs_endedAt raw) (rs_durationSeconds raw) = Some (c_endMs c) \<and>
      f < c_endMs c \<and> c_startMs c < t \<and> c_id c = rs_id raw \<and> c_filePath c = rs_filePath raw \<and>
      c_videoCodec c = normalizeCodec (rs_videoCodec raw) \<and>
      c_audioCodec c = normalizeCodec (rs_audioCodec raw))"
  by (induction raws) (auto simp: Let_def split: prod.splits option.splits if_splits)

text \<open>A candidate overlaps the interval and ends after it starts.\<close>

definition overlapping :: "int \<Rightarrow> int \<Rightarrow> candidate \<Rightarrow> bool" where
  "overlapping f t c \<longleftrightarrow> c_startMs c < c_endMs c \<and> f < c_endMs c \<and> c_startMs c < t"

lemma collected_overlapping: "c \<in> set (snd (collectCandidates f t raws)) \<Longrightarrow> overlapping f t c"
  by (auto simp: collected overlapping_def dest: segment_end_after)

interpretation export_timeline: segment_timeline c_startMs c_endMs "exportKey ck" "overlapping f t" for ck f t
  by standard (auto simp: overlapping_def exportKey_def)

lemma selected_overlapping:
  "c \<in> set (fst (selectedSegments ck inp f t)) \<Longrightarrow> overlapping f t c"
  unfolding selectedSegments_def by (meson collected_overlapping selected_subset subsetD)

lemma selected_in_order: "sorted (map c_startMs (fst (selectedSegments ck inp f t)))"
  unfolding selectedSegments_def by (rule export_timeline.selected_starts)

text \<open>The cut of an overlapping segment is never empty and never loses what was asked for.\<close>

lemma cut_bounds:
  assumes "overlapping f t c" "f < t" "0 \<le> m"
  shows "0 \<le> inMs f m c" "inMs f m c < outMs t m c" "outMs t m c \<le> fileDurationMs c"
    and "c_startMs c + inMs f m c \<le> max (c_startMs c) f"
    and "max (c_startMs c) f - m \<le> c_startMs c + inMs f m c"
    and "min (c_endMs c) t \<le> c_startMs c + outMs t m c"
    and "c_startMs c + outMs t m c \<le> min (c_endMs c) t + m"
  using assms by (auto simp: overlapping_def inMs_def outMs_def rawInMs_def rawOutMs_def fileDurationMs_def)

definition partOf :: "int \<Rightarrow> int \<Rightarrow> int \<Rightarrow> candidate \<Rightarrow> export_part \<Rightarrow> bool" where
  "partOf f t m c p \<longleftrightarrow> recordingId p = c_id c \<and> filePath p = c_filePath c \<and>
     segmentStartedAt p = c_startMs c \<and> inpointSeconds p = inMs f m c \<and> outpointSeconds p = outMs t m c \<and>
     durationSeconds p = outMs t m c - inMs f m c \<and> fileDurationSeconds p = fileDurationMs c"

text \<open>The loop keeps one part per selected segment, laid end to end.\<close>

lemma buildParts_parts:
  assumes "buildParts f t m cur li lo cs = (ps, cur', li', lo')" "\<forall>c\<in>set cs. overlapping f t c" "f < t" "0 \<le> m"
  shows "list_all2 (partOf f t m) cs ps"
  using assms
proof (induction cs arbitrary: cur li lo ps)
  case (Cons c cs)
  then have "inMs f m c < outMs t m c" by (auto intro: cut_bounds)
  with Cons show ?case
    by (auto simp: Let_def partOf_def roundSeconds_def split: prod.splits)
qed simp

lemma buildParts_offsets:
  assumes "buildParts f t m cur li lo cs = (ps, cur', li', lo')"
  shows "(\<forall>i<length ps. offsetSeconds (ps ! i) = cur + sum_list (map durationSeconds (take i ps)))
    \<and> cur' = cur + sum_list (map durationSeconds ps)"
  using assms
proof (induction cs arbitrary: cur li lo ps)
  case (Cons c cs)
  let ?i = "inMs f m c" and ?o = "outMs t m c"
  show ?case
  proof (cases "?o - ?i \<le> 0")
    case True
    with Cons.prems Cons.IH show ?thesis by (simp add: Let_def)
  next
    case False
    define li2 where "li2 = (if rawInMs f c > 0 then rawInMs f c - ?i else li)"
    define lo2 where "lo2 = (if rawOutMs t c < fileDurationMs c then ?o - rawOutMs t c else lo)"
    obtain p qs where ps: "ps = p # qs" and p: "durationSeconds p = ?o - ?i" "offsetSeconds p = cur"
      and r: "buildParts f t m (cur + (?o - ?i)) li2 lo2 cs = (qs, cur', li', lo')"
      using Cons.prems False
      by (auto simp: Let_def roundSeconds_def li2_def [symmetric] lo2_def [symmetric] split: prod.splits)
    have IH: "\<forall>i<length qs. offsetSeconds (qs ! i) = cur + durationSeconds p + sum_list (map durationSeconds (take i qs))"
      "cur' = cur + durationSeconds p + sum_list (map durationSeconds qs)"
      using Cons.IH [OF r] p by auto
    show ?thesis
    proof (intro conjI allI impI)
      fix i assume "i < length ps"
      then show "offsetSeconds (ps ! i) = cur + sum_list (map durationSeconds (take i ps))"
        using IH(1) p by (cases i) (auto simp: ps)
    qed (use IH(2) in \<open>simp add: ps\<close>)
  qed
qed simp

lemma partFrom_ordered:
  assumes "sorted (map c_startMs cs)" "list_all2 (partOf f t m) cs ps" "0 \<le> m"
  shows "sorted (map partFromMs ps)"
proof -
  have mono: "c_startMs c + inMs f m c \<le> c_startMs d + inMs f m d" if "c_startMs c \<le> c_startMs d" for c d
    using that assms(3) by (auto simp: inMs_def rawInMs_def)
  have "map partFromMs ps = map (\<lambda>c. c_startMs c + inMs f m c) cs"
    using assms(2) by (induction rule: list_all2_induct) (auto simp: partFromMs_def partOf_def)
  then show ?thesis using assms(1) mono by (simp add: sorted_iff_nth_mono)
qed

section \<open>Holes\<close>

text \<open>The instants a part, or a hole, holds.\<close>

definition in_part :: "int \<Rightarrow> export_part \<Rightarrow> bool" where
  "in_part u p \<longleftrightarrow> partFromMs p \<le> u \<and> u < partToMs p"

definition in_gap :: "int \<Rightarrow> export_gap \<Rightarrow> bool" where
  "in_gap u g \<longleftrightarrow> gap_from g \<le> u \<and> u < gap_to g"

lemma buildGaps_cursor:
  "buildGaps tol cur ps = (gs, fin) \<Longrightarrow> cur \<le> fin \<and> (\<forall>p\<in>set ps. partToMs p \<le> fin)"
proof (induction ps arbitrary: cur gs)
  case (Cons p ps)
  obtain gs' where "buildGaps tol (max cur (partToMs p)) ps = (gs', fin)"
    using Cons.prems by (auto simp: Let_def split: prod.splits)
  from Cons.IH [OF this] show ?case by auto
qed auto

lemma buildGaps_disjoint:
  assumes "buildGaps tol cur ps = (gs, fin)" "sorted (map partFromMs ps)" "g \<in> set gs" "in_gap u g"
  shows "cur \<le> u \<and> (\<forall>p\<in>set ps. \<not> in_part u p)"
  using assms
proof (induction ps arbitrary: cur gs)
  case (Cons p ps)
  obtain gs' where r: "buildGaps tol (max cur (partToMs p)) ps = (gs', fin)"
    using Cons.prems(1) by (auto simp: Let_def split: prod.splits)
  have gs: "gs = (if partFromMs p - cur > tol then mkGap cur (partFromMs p) # gs' else gs')"
    using Cons.prems(1) r by (simp add: Let_def)
  show ?case
  proof (cases "g \<in> set gs'")
    case True
    from Cons.IH [OF r _ True Cons.prems(4)] Cons.prems(2) show ?thesis by (auto simp: in_part_def)
  next
    case False
    with gs Cons.prems(3) have "g = mkGap cur (partFromMs p)" by (auto split: if_splits)
    with Cons.prems(2,4) show ?thesis by (fastforce simp: in_gap_def in_part_def mkGap_def)
  qed
qed simp

lemma buildGaps_complete:
  assumes "buildGaps tol cur ps = (gs, fin)" "sorted (map partFromMs ps)" "cur \<le> u" "u < fin"
    "\<forall>p\<in>set ps. \<not> in_part u p" "\<forall>g\<in>set gs. \<not> in_gap u g"
  shows "\<exists>a b. cur \<le> a \<and> a \<le> u \<and> u < b \<and> b - a \<le> tol \<and> (\<forall>v. a \<le> v \<and> v < b \<longrightarrow> (\<forall>p\<in>set ps. \<not> in_part v p))"
  using assms
proof (induction ps arbitrary: cur gs)
  case (Cons p ps)
  obtain gs' where r: "buildGaps tol (max cur (partToMs p)) ps = (gs', fin)"
    using Cons.prems(1) by (auto simp: Let_def split: prod.splits)
  have gs: "gs = (if partFromMs p - cur > tol then mkGap cur (partFromMs p) # gs' else gs')"
    using Cons.prems(1) r by (simp add: Let_def)
  show ?case
  proof (cases "u < partFromMs p")
    case True
    have "partFromMs p - cur \<le> tol"
      using Cons.prems(3,6) True gs by (force simp: in_gap_def mkGap_def split: if_splits)
    moreover have "\<forall>v. cur \<le> v \<and> v < partFromMs p \<longrightarrow> (\<forall>q\<in>set (p # ps). \<not> in_part v q)"
      using Cons.prems(2) by (fastforce simp: in_part_def)
    ultimately show ?thesis using Cons.prems(3) True by blast
  next
    case False
    then have "partToMs p \<le> u" using Cons.prems(5) by (auto simp: in_part_def)
    then obtain a b where ab: "max cur (partToMs p) \<le> a" "a \<le> u" "u < b" "b - a \<le> tol"
      "\<forall>v. a \<le> v \<and> v < b \<longrightarrow> (\<forall>q\<in>set ps. \<not> in_part v q)"
      using Cons.IH [OF r] Cons.prems gs by (auto split: if_splits)
    then have "\<forall>v. a \<le> v \<and> v < b \<longrightarrow> (\<forall>q\<in>set (p # ps). \<not> in_part v q)"
      by (auto simp: in_part_def)
    with ab show ?thesis by (metis max.bounded_iff)
  qed
qed simp

lemma allGaps_spec:
  assumes "sorted (map partFromMs ps)" "0 \<le> tol"
  shows "(\<forall>g\<in>set (allGaps tol f t ps). \<forall>u. in_gap u g \<and> u < t \<longrightarrow> f \<le> u \<and> (\<forall>p\<in>set ps. \<not> in_part u p))"
    and "f \<le> u \<Longrightarrow> u < t \<Longrightarrow> \<forall>p\<in>set ps. \<not> in_part u p \<Longrightarrow> \<forall>g\<in>set (allGaps tol f t ps). \<not> in_gap u g \<Longrightarrow>
      \<exists>a b. f \<le> a \<and> a \<le> u \<and> u < b \<and> b - a \<le> tol \<and> (\<forall>v. a \<le> v \<and> v < b \<longrightarrow> (\<forall>p\<in>set ps. \<not> in_part v p))"
proof -
  obtain gs fin where b: "buildGaps tol f ps = (gs, fin)" by fastforce
  note cur = buildGaps_cursor [OF b]
  have all: "allGaps tol f t ps = (if t - fin > tol then gs @ [mkGap fin t] else gs)"
    by (simp add: allGaps_def b)
  have tail: "\<forall>p\<in>set ps. \<not> in_part v p" if "fin \<le> v" for v
    using cur that by (auto simp: in_part_def)
  show "(\<forall>g\<in>set (allGaps tol f t ps). \<forall>u. in_gap u g \<and> u < t \<longrightarrow> f \<le> u \<and> (\<forall>p\<in>set ps. \<not> in_part u p))"
    using buildGaps_disjoint [OF b assms(1)] tail cur
    by (auto simp: all in_gap_def mkGap_def split: if_splits)
  assume u: "f \<le> u" "u < t" "\<forall>p\<in>set ps. \<not> in_part u p" "\<forall>g\<in>set (allGaps tol f t ps). \<not> in_gap u g"
  show "\<exists>a b. f \<le> a \<and> a \<le> u \<and> u < b \<and> b - a \<le> tol \<and> (\<forall>v. a \<le> v \<and> v < b \<longrightarrow> (\<forall>p\<in>set ps. \<not> in_part v p))"
  proof (cases "u < fin")
    case True
    show ?thesis by (rule buildGaps_complete [OF b assms(1) u(1) True u(3)]) (use u(4) in \<open>auto simp: all split: if_splits\<close>)
  next
    case False
    then have "t - fin \<le> tol" using u(2,4) by (auto simp: all in_gap_def mkGap_def split: if_splits)
    then show ?thesis using False u(1,2) cur tail by (intro exI [of _ fin] exI [of _ t]) auto
  qed
qed

section \<open>The plan\<close>

text \<open>What a successful plan is made of.\<close>

lemma planRangeExport_Inr:
  assumes "planRangeExport ck inp = Inr plan"
  obtains f t cs m where "toMs (in_from inp) = Some f" "toMs (in_to inp) = Some t" "f < t"
    "cs = fst (selectedSegments ck inp f t)" "plan_truncated plan = snd (selectedSegments ck inp f t)"
    "m = marginMs inp (plan_strategy plan)" "0 \<le> m"
    "list_all2 (partOf f t m) cs (parts plan)"
    "(plan_strategy plan, strategyReasons plan, plan_videoCodec plan) = decideStrategy cs (forceTranscode inp)"
    "gaps plan = allGaps (toleranceMs inp) f t (parts plan)"
    "continuous plan = (parts plan \<noteq> [] \<and> gaps plan = [])"
    "(\<forall>i<length (parts plan). offsetSeconds (parts plan ! i) = sum_list (map durationSeconds (take i (parts plan))))
      \<and> totalDurationSeconds plan = sum_list (map durationSeconds (parts plan))"
    "sorted (map partFromMs (parts plan))"
proof -
  from assms obtain f t where ft: "toMs (in_from inp) = Some f" "toMs (in_to inp) = Some t" "f < t"
    by (auto simp: planRangeExport_def split: option.splits if_splits)
  obtain cs tr where sel: "selectedSegments ck inp f t = (cs, tr)" by fastforce
  obtain st rs vc where ds: "decideStrategy cs (forceTranscode inp) = (st, rs, vc)" by (cases "decideStrategy cs (forceTranscode inp)") auto
  let ?m = "marginMs inp st"
  obtain ps cur li lo where bp: "buildParts f t ?m 0 0 0 cs = (ps, cur, li, lo)"
    by (cases "buildParts f t ?m 0 0 0 cs") auto
  have plan: "parts plan = ps" "plan_strategy plan = st" "strategyReasons plan = rs" "plan_videoCodec plan = vc"
    "gaps plan = allGaps (toleranceMs inp) f t ps" "plan_truncated plan = tr" "totalDurationSeconds plan = cur"
    "continuous plan = (ps \<noteq> [] \<and> allGaps (toleranceMs inp) f t ps = [])"
    using assms ft(3) by (auto simp: planRangeExport_def ft(1,2) sel ds bp Let_def roundSeconds_def)
  have m: "0 \<le> ?m" by (auto simp: marginMs_def Let_def)
  have ov: "\<forall>c\<in>set cs. overlapping f t c" using selected_overlapping sel by (metis fst_conv)
  have all2: "list_all2 (partOf f t ?m) cs ps" by (rule buildParts_parts [OF bp ov ft(3) m])
  have "sorted (map c_startMs cs)" using selected_in_order [of ck inp f t] by (simp add: sel)
  then have srt: "sorted (map partFromMs ps)" by (rule partFrom_ordered [OF _ all2 m])
  show ?thesis
    by (rule that [of f t cs ?m])
      (use ft sel plan ds all2 srt m buildParts_offsets [OF bp] in auto)
qed

lemma export_order [simp]: "toleranceMs inp \<ge> 0"
  by (simp add: toleranceMs_def)

section \<open>The manifest and the copy command\<close>

text \<open>\<open>filePath.replace(/'/g, "'\\''")\<close>.\<close>

definition quoted :: "string \<Rightarrow> string" where
  "quoted path = concat (map (\<lambda>c. if c = CHR 0x27 then [CHR 0x27, CHR 0x5C, CHR 0x27, CHR 0x27] else [c]) path)"

definition part_lines :: "export_part \<Rightarrow> string list" where
  "part_lines part =
     [''file '' @ [CHR 0x27] @ quoted (filePath part) @ [CHR 0x27]] @
     (if inpointSeconds part > 0 then [''inpoint '' @ toFixed3 (inpointSeconds part)] else []) @
     (if 2 * outpointSeconds part < 2 * fileDurationSeconds part - 1
      then [''outpoint '' @ toFixed3 (outpointSeconds part)] else [])"

text \<open>The left value is the id of the recording whose path has a line break.\<close>

definition buildConcatManifest :: "export_plan \<Rightarrow> string + string" where
  "buildConcatManifest plan =
     (case find (\<lambda>p. nl \<in> set (filePath p) \<or> CHR 0x0D \<in> set (filePath p)) (parts plan) of
        Some p \<Rightarrow> Inl (recordingId p)
      | None \<Rightarrow> Inr (js_join [nl]
          ([''ffconcat version 1.0''] @ concat (map part_lines (parts plan)) @ [[]])))"

definition buildRangeCopyArgs :: "string \<Rightarrow> string \<Rightarrow> bool \<Rightarrow> string list" where
  "buildRangeCopyArgs manifestPath output tag =
     [''-y'', ''-fflags'', ''+genpts'', ''-f'', ''concat'', ''-safe'', ''0'', ''-i'', manifestPath,
      ''-map'', ''0:v:0'', ''-map'', ''0:a:0?'', ''-c'', ''copy''] @
     (if tag then [''-tag:v'', ''hvc1''] else []) @
     [''-avoid_negative_ts'', ''make_zero'', ''-movflags'', ''+faststart'', output]"

text \<open>A reader of the manifest: the quoting rule of the demuxer's scripts (inside quotes every
  character stands for itself, outside them a backslash takes the next one), one directive a line.\<close>

datatype directive = File string | Inpoint int | Outpoint int | Other string

fun unquoted :: "bool \<Rightarrow> string \<Rightarrow> string option" where
  "unquoted inside [] = (if inside then None else Some [])"
| "unquoted True (c # s) = (if c = CHR 0x27 then unquoted False s else map_option ((#) c) (unquoted True s))"
| "unquoted False (c # s) =
     (if c = CHR 0x27 then unquoted True s
      else if c = CHR 0x5C then (case s of [] \<Rightarrow> None | d # s' \<Rightarrow> map_option ((#) d) (unquoted False s'))
      else map_option ((#) c) (unquoted False s))"

definition read_line :: "string \<Rightarrow> directive" where
  "read_line l =
     (if take 5 l = ''file '' then (case unquoted False (drop 5 l) of Some p \<Rightarrow> File p | None \<Rightarrow> Other l)
      else if take 8 l = ''inpoint '' then Inpoint (read_fixed3 (drop 8 l))
      else if take 9 l = ''outpoint '' then Outpoint (read_fixed3 (drop 9 l))
      else Other l)"

definition part_directives :: "export_part \<Rightarrow> directive list" where
  "part_directives p = [File (filePath p)] @ (if 0 < inpointSeconds p then [Inpoint (inpointSeconds p)] else []) @
     (if outpointSeconds p < fileDurationSeconds p then [Outpoint (outpointSeconds p)] else [])"

lemma unquoted_quoted: "unquoted True (quoted s @ CHR 0x27 # t) = map_option ((@) s) (unquoted False t)"
proof (induction s)
  case (Cons c s)
  then show ?case
    by (cases "c = CHR 0x27") (simp_all add: quoted_def option.map_comp comp_def)
qed (simp add: quoted_def option.map_id option.map_ident)

lemma quoted_one_line: "nl \<notin> set s \<Longrightarrow> nl \<notin> set (quoted s)"
  by (auto simp: quoted_def)

lemma part_lines_one_line: "nl \<notin> set (filePath p) \<Longrightarrow> l \<in> set (part_lines p) \<Longrightarrow> nl \<notin> set l"
  by (auto simp: part_lines_def quoted_one_line toFixed3_one_line split: if_splits)

lemma read_part_lines:
  "0 \<le> outpointSeconds p \<Longrightarrow> map read_line (part_lines p) = part_directives p"
  by (simp add: part_lines_def part_directives_def read_line_def unquoted_quoted read_fixed3_toFixed3)

lemma buildConcatManifest_Inr:
  "buildConcatManifest plan = Inr text \<Longrightarrow>
   split_lines text = ''ffconcat version 1.0'' # concat (map part_lines (parts plan)) @ [[]]"
  by (auto simp: buildConcatManifest_def find_None_all split: option.splits
      intro!: split_lines_join) (meson part_lines_one_line)

section \<open>Properties\<close>

definition sample_export :: export_input where
  "sample_export = \<lparr>in_segments =
     [\<lparr>rs_id = ''b'', rs_filePath = ''/rec/b.mp4'', rs_startedAt = At 70000, rs_endedAt = At 100000,
       rs_durationSeconds = Some 30, rs_videoCodec = Some ''H264'', rs_audioCodec = None\<rparr>,
      \<lparr>rs_id = ''a'', rs_filePath = ''/rec/a.mp4'', rs_startedAt = At 0, rs_endedAt = Absent,
       rs_durationSeconds = Some 60, rs_videoCodec = Some '' h264 '', rs_audioCodec = None\<rparr>],
     in_from = At 30000, in_to = At 90000, gapToleranceSeconds = None, maxSegments = None,
     copySafetySeconds = None, forceTranscode = False\<rparr>"

definition sample_key :: "string \<Rightarrow> string" where "sample_key s = s"

lemma sample_plan: "\<exists>plan. planRangeExport sample_key sample_export = Inr plan \<and> \<not> plan_truncated plan
    \<and> plan_strategy plan = Copy \<and> gaps plan = [mkGap 60000 70000]"
proof -
  have codec: "normalizeCodec (Some ''H264'') = ''h264''" "normalizeCodec (Some '' h264 '') = ''h264''"
    "normalizeCodec None = []"
    by code_simp+
  show ?thesis
    by (simp add: planRangeExport_def sample_export_def selectedSegments_def select_candidates_def exportKey_def
        sample_key_def segment_end_def codec decideStrategy_def Let_def COPY_SAFE_VIDEO_def
        DEFAULT_MAX_SEGMENTS_def marginMs_def DEFAULT_COPY_SAFETY_SECONDS_def inMs_def outMs_def rawInMs_def
        rawOutMs_def fileDurationMs_def allGaps_def toleranceMs_def DEFAULT_GAP_TOLERANCE_SECONDS_def
        partFromMs_def partToMs_def roundSeconds_def mkGap_def)
qed

text \<open>C10 (the export covers at least what was asked for). Unless the plan was cut at the segment
  limit, every recorded segment that overlaps the interval has a part in the plan, that part lies
  inside its file and covers the whole overlap of the segment with the interval; a copied part
  exceeds the overlap by at most the keyframe margin at each end, a transcoded part is exact.\<close>

theorem export_covers_request:
  assumes "planRangeExport ck inp = Inr plan" "\<not> plan_truncated plan"
    and "toMs (in_from inp) = Some f" "toMs (in_to inp) = Some t"
    and "raw \<in> set (in_segments inp)" "toMs (rs_startedAt raw) = Some s"
    and "segment_end s (rs_endedAt raw) (rs_durationSeconds raw) = Some e" "f < e" "s < t"
  shows "\<exists>p\<in>set (parts plan). recordingId p = rs_id raw \<and> filePath p = rs_filePath raw \<and>
    segmentStartedAt p = s \<and> 0 \<le> inpointSeconds p \<and> outpointSeconds p \<le> e - s \<and>
    (let margin = marginMs inp (plan_strategy plan) in
       max s f - margin \<le> partFromMs p \<and> partFromMs p \<le> max s f \<and>
       min e t \<le> partToMs p \<and> partToMs p \<le> min e t + margin \<and>
       (plan_strategy plan = Transcode \<longrightarrow> margin = 0))"
proof (rule planRangeExport_Inr [OF assms(1)])
  fix f' t' cs m
  assume "toMs (in_from inp) = Some f'" "toMs (in_to inp) = Some t'" and lt: "f' < t'"
    and cs: "cs = fst (selectedSegments ck inp f' t')" "plan_truncated plan = snd (selectedSegments ck inp f' t')"
    and m: "m = marginMs inp (plan_strategy plan)" "0 \<le> m" and all2: "list_all2 (partOf f' t' m) cs (parts plan)"
  then have ft: "f' = f" "t' = t" using assms(3,4) by auto
  let ?c = "\<lparr>c_id = rs_id raw, c_filePath = rs_filePath raw, c_startMs = s, c_endMs = e,
    c_videoCodec = normalizeCodec (rs_videoCodec raw), c_audioCodec = normalizeCodec (rs_audioCodec raw)\<rparr>"
  have "?c \<in> set (snd (collectCandidates f t (in_segments inp)))"
    using assms(5-9) by (auto simp: collected)
  then have c: "?c \<in> set cs" "overlapping f t ?c"
    using selected_complete cs assms(2) collected_overlapping by (auto simp: selectedSegments_def ft)
  then obtain p where p: "p \<in> set (parts plan)" "partOf f t m ?c p"
    using all2 by (metis ft list_all2_conv_all_nth in_set_conv_nth)
  show ?thesis
    using p cut_bounds [OF c(2), of m] m lt ft
    by (intro bexI [OF _ p(1)]) (auto simp: partOf_def partFromMs_def partToMs_def fileDurationMs_def marginMs_def Let_def)
qed

theorem export_covers_request_witness:
  "\<exists>plan. planRangeExport sample_key sample_export = Inr plan \<and>
     (\<exists>p\<in>set (parts plan). recordingId p = ''a'' \<and> partFromMs p \<le> 30000 \<and> 60000 \<le> partToMs p)"
proof -
  obtain plan where plan: "planRangeExport sample_key sample_export = Inr plan" "\<not> plan_truncated plan"
    using sample_plan by blast
  let ?raw = "in_segments sample_export ! 1"
  have raw: "?raw \<in> set (in_segments sample_export)" "toMs (rs_startedAt ?raw) = Some 0"
    "segment_end 0 (rs_endedAt ?raw) (rs_durationSeconds ?raw) = Some 60000" "rs_id ?raw = ''a''"
    by (simp_all add: sample_export_def segment_end_def)
  have ft: "toMs (in_from sample_export) = Some 30000" "toMs (in_to sample_export) = Some 90000"
    by (simp_all add: sample_export_def)
  show ?thesis
    using plan export_covers_request [OF plan ft raw(1-3)] raw(4) by (auto simp: Let_def)
qed

text \<open>(holes are reported, neither hidden nor invented). Inside the interval, an instant of a
  reported hole belongs to no part; an instant that belongs to no part and to no reported hole
  lies in a recording-free stretch no longer than the tolerance.\<close>

theorem export_gaps_exact:
  assumes "planRangeExport ck inp = Inr plan" "toMs (in_from inp) = Some f" "toMs (in_to inp) = Some t"
    and "f \<le> u" "u < t"
  shows "((\<exists>g\<in>set (gaps plan). in_gap u g) \<longrightarrow> (\<forall>p\<in>set (parts plan). \<not> in_part u p)) \<and>
    ((\<forall>p\<in>set (parts plan). \<not> in_part u p) \<longrightarrow> (\<exists>g\<in>set (gaps plan). in_gap u g) \<or>
      (\<exists>a b. f \<le> a \<and> a \<le> u \<and> u < b \<and> b - a \<le> toleranceMs inp \<and>
         (\<forall>v. a \<le> v \<and> v < b \<longrightarrow> (\<forall>p\<in>set (parts plan). \<not> in_part v p))))"
proof (rule planRangeExport_Inr [OF assms(1)])
  fix f' t' cs m
  assume "toMs (in_from inp) = Some f'" "toMs (in_to inp) = Some t'"
    and g: "gaps plan = allGaps (toleranceMs inp) f' t' (parts plan)" and srt: "sorted (map partFromMs (parts plan))"
  then have ft: "f' = f" "t' = t" using assms(2,3) by auto
  note none = allGaps_spec(1) [OF srt export_order [of inp], of f t]
    and short = allGaps_spec(2) [OF srt export_order [of inp] assms(4,5)]
  show ?thesis unfolding g ft using none short assms(5) by blast
qed

theorem export_gaps_exact_witness:
  "\<exists>plan. planRangeExport sample_key sample_export = Inr plan \<and> (\<forall>p\<in>set (parts plan). \<not> in_part 65000 p)"
proof -
  obtain plan where plan: "planRangeExport sample_key sample_export = Inr plan" "gaps plan = [mkGap 60000 70000]"
    using sample_plan by blast
  have ft: "toMs (in_from sample_export) = Some 30000" "toMs (in_to sample_export) = Some 90000"
    by (simp_all add: sample_export_def)
  show ?thesis
    using plan export_gaps_exact [OF plan(1) ft, of 65000] by (auto simp: in_gap_def mkGap_def)
qed

text \<open>(the parts lie end to end). Each part starts, on the time line of the exported file,
  where the previous ones end, and the total duration is the sum of theirs.\<close>

theorem export_parts_contiguous:
  assumes "planRangeExport ck inp = Inr plan"
  shows "(\<forall>i<length (parts plan). offsetSeconds (parts plan ! i) = sum_list (map durationSeconds (take i (parts plan))))
    \<and> totalDurationSeconds plan = sum_list (map durationSeconds (parts plan))"
  by (rule planRangeExport_Inr [OF assms])

theorem export_parts_contiguous_witness:
  "\<exists>plan. planRangeExport sample_key sample_export = Inr plan \<and>
     totalDurationSeconds plan = sum_list (map durationSeconds (parts plan))"
proof -
  obtain plan where plan: "planRangeExport sample_key sample_export = Inr plan" using sample_plan by blast
  with export_parts_contiguous [OF plan] show ?thesis by blast
qed

lemma uniq_short: "length (uniq xs) \<le> 1 \<longleftrightarrow> (\<forall>x\<in>set xs. \<forall>y\<in>set xs. x = y)"
proof -
  have "length (uniq xs) = card (set xs)" by (metis distinct_card distinct_uniq set_uniq)
  then show ?thesis by (simp add: card_le_Suc0_iff_eq)
qed

text \<open>(stream copy only when it is safe). The plan copies exactly when no transcode was asked
  for, every selected segment has a known video codec that MP4 takes by copy, all of them the
  same, and their audio is all absent or all the same copyable codec.\<close>

theorem export_copy_iff_safe:
  "fst (decideStrategy cs force) = Copy \<longleftrightarrow> \<not> force \<and>
    (\<forall>c\<in>set cs. c_videoCodec c \<in> COPY_SAFE_VIDEO \<and> (c_audioCodec c = [] \<or> c_audioCodec c \<in> COPY_SAFE_AUDIO)) \<and>
    (\<forall>c\<in>set cs. \<forall>d\<in>set cs. c_videoCodec c = c_videoCodec d \<and> c_audioCodec c = c_audioCodec d)"
proof -
  let ?vs = "filter (\<lambda>v. v \<noteq> []) (map c_videoCodec cs)"
  have eq: "fst (decideStrategy cs force) = Copy \<longleftrightarrow> \<not> force \<and> (\<forall>c\<in>set cs. c_videoCodec c \<noteq> []) \<and>
      length (uniq ?vs) \<le> 1 \<and> (\<forall>v\<in>set ?vs. v \<in> COPY_SAFE_VIDEO) \<and>
      length (uniq (map c_audioCodec cs)) \<le> 1 \<and> (\<forall>a\<in>set (map c_audioCodec cs). a = [] \<or> a \<in> COPY_SAFE_AUDIO)"
    by (auto simp: decideStrategy_def Let_def filter_empty_conv)
  have safe: "[] \<notin> COPY_SAFE_VIDEO" by (simp add: COPY_SAFE_VIDEO_def)
  have vs: "\<forall>c\<in>set cs. c_videoCodec c \<noteq> [] \<Longrightarrow> set ?vs = c_videoCodec ` set cs" by auto
  have audio: "set (map c_audioCodec cs) = c_audioCodec ` set cs" by simp
  show ?thesis
  proof (cases "\<forall>c\<in>set cs. c_videoCodec c \<noteq> []")
    case True
    show ?thesis unfolding eq uniq_short vs [OF True] audio ball_simps using True by blast
  next
    case False
    then obtain c where c: "c \<in> set cs" "c_videoCodec c = []" by blast
    with safe have "c_videoCodec c \<notin> COPY_SAFE_VIDEO" by simp
    with c show ?thesis unfolding eq by blast
  qed
qed

theorem export_copy_iff_safe_witness:
  "fst (decideStrategy [\<lparr>c_id = ''a'', c_filePath = ''f'', c_startMs = 0, c_endMs = 1,
     c_videoCodec = ''hevc'', c_audioCodec = ''aac''\<rparr>] False) = Copy"
  by (subst export_copy_iff_safe) (simp add: COPY_SAFE_VIDEO_def COPY_SAFE_AUDIO_def)

text \<open>(the manifest names exactly the planned parts). A successful manifest, read back line by
  line, gives the header and then, in order, the file, in point and out point of each part of the
  plan: no path can end its quotes or add a line of its own.\<close>

theorem manifest_reads_back:
  assumes "buildConcatManifest plan = Inr text" "\<forall>p\<in>set (parts plan). 0 \<le> outpointSeconds p"
  shows "map read_line (split_lines text) =
    [Other ''ffconcat version 1.0''] @ concat (map part_directives (parts plan)) @ [Other []]"
proof -
  have "map read_line (concat (map part_lines (parts plan))) = concat (map part_directives (parts plan))"
    using assms(2) by (simp add: map_concat comp_def read_part_lines cong: map_cong)
  then show ?thesis by (simp add: buildConcatManifest_Inr [OF assms(1)]) (simp add: read_line_def)
qed

definition sample_manifest_plan :: export_plan where
  "sample_manifest_plan = \<lparr>requestedFrom = 0, requestedTo = 9000, parts =
     [\<lparr>recordingId = ''a'', filePath = [CHR ''/'', CHR 0x27, CHR ''x''], inpointSeconds = 1500, outpointSeconds = 9000,
       durationSeconds = 7500, offsetSeconds = 0, segmentStartedAt = 0, fileDurationSeconds = 9000\<rparr>],
     plan_strategy = Copy, strategyReasons = [], plan_videoCodec = None, tagHvc1 = False,
     totalDurationSeconds = 7500, coveredFrom = None, coveredTo = None, requestedSeconds = 9000,
     coveredSeconds = 7500, gaps = [], continuous = True, leadInSeconds = 0, leadOutSeconds = 0,
     plan_truncated = False, plan_skipped = 0\<rparr>"

theorem manifest_reads_back_witness:
  "\<exists>text. buildConcatManifest sample_manifest_plan = Inr text \<and>
     map read_line (split_lines text) = [Other ''ffconcat version 1.0'',
       File [CHR ''/'', CHR 0x27, CHR ''x''], Inpoint 1500, Other []]"
proof -
  have "\<exists>text. buildConcatManifest sample_manifest_plan = Inr text"
    by (simp add: buildConcatManifest_def sample_manifest_plan_def)
  moreover have "\<forall>p\<in>set (parts sample_manifest_plan). 0 \<le> outpointSeconds p"
    by (simp add: sample_manifest_plan_def)
  ultimately show ?thesis using manifest_reads_back
    by (fastforce simp: sample_manifest_plan_def part_directives_def)
qed

end
