(* ===== verification/Vod_Playlist.thy ===== *)
theory Vod_Playlist
  imports Recording_Segments
begin

text \<open>
  \<open>recordings/helpers/vod-playlist.helper.ts\<close>: the plan of a continuous VOD playlist over an
  interval (which segments, in which order, at which offset, where the time line breaks, where
  the player must seek) and its M3U8 text. Instants of the plan are kept in milliseconds and
  printed by \<open>toISOString\<close> in the text, durations as thousandths of a second.
\<close>

section \<open>Data\<close>

record vod_source =
  vs_id :: string
  vs_startedAt :: instant
  vs_endedAt :: instant
  vs_durationSeconds :: "int option"
  vs_codec :: "string option"

datatype discontinuity_reason = Gap | Overlap | CodecChange

record vod_candidate =
  vc_id :: string
  vc_startMs :: int
  vc_endMs :: int
  vc_codec :: "string option"

record vod_segment =
  vp_recordingId :: string
  vp_startedAt :: int
  vp_endedAt :: int
  vp_durationSeconds :: int
  vp_offsetSeconds :: int
  vp_discontinuity :: bool
  vp_reason :: "discontinuity_reason option"
  vp_codec :: "string option"

record vod_plan =
  vod_from :: int
  vod_to :: int
  vod_segments :: "vod_segment list"
  targetDurationSeconds :: int
  vod_totalSeconds :: int
  startOffsetSeconds :: int
  discontinuities :: nat
  vod_skipped :: nat
  vod_truncated :: bool
  coverage_startedAt :: "int option"
  coverage_endedAt :: "int option"

record vod_input =
  vi_segments :: "vod_source list"
  vi_from :: instant
  vi_to :: instant
  vi_gapToleranceSeconds :: "int option"
  vi_maxSegments :: "int option"

definition VOD_GAP_TOLERANCE_SECONDS :: int where "VOD_GAP_TOLERANCE_SECONDS = 1"
definition VOD_MAX_SEGMENTS :: int where "VOD_MAX_SEGMENTS = 720"

section \<open>The plan\<close>

definition vodCodec :: "string option \<Rightarrow> string option" where
  "vodCodec codec = (let clean = normalizeCodec codec in if clean = [] then None else Some clean)"

fun collectVod :: "int \<Rightarrow> int \<Rightarrow> vod_source list \<Rightarrow> nat \<times> vod_candidate list" where
  "collectVod fromMs toMsValue [] = (0, [])"
| "collectVod fromMs toMsValue (raw # raws) =
     (let (skipped, candidates) = collectVod fromMs toMsValue raws
      in case toMs (vs_startedAt raw) of
           None \<Rightarrow> (skipped, candidates)
         | Some s \<Rightarrow>
             (case segment_end s (vs_endedAt raw) (vs_durationSeconds raw) of
                None \<Rightarrow> (if s < toMsValue then Suc skipped else skipped, candidates)
              | Some e \<Rightarrow>
                  if e \<le> fromMs \<or> s \<ge> toMsValue then (skipped, candidates)
                  else (skipped, \<lparr>vc_id = vs_id raw, vc_startMs = s, vc_endMs = e,
                          vc_codec = vodCodec (vs_codec raw)\<rparr> # candidates)))"

definition vodKey :: "(string \<Rightarrow> 'k::linorder) \<Rightarrow> vod_candidate \<Rightarrow> int \<times> 'k" where
  "vodKey ck c = (vc_startMs c, ck (vc_id c))"

definition breakReason :: "int \<Rightarrow> vod_candidate option \<Rightarrow> vod_candidate \<Rightarrow> discontinuity_reason option" where
  "breakReason toleranceMs previous current =
     (case previous of
        None \<Rightarrow> None
      | Some p \<Rightarrow>
          let deltaMs = vc_startMs current - vc_endMs p
          in if deltaMs > toleranceMs then Some Gap
             else if deltaMs < - toleranceMs then Some Overlap
             else if vc_codec p \<noteq> None \<and> vc_codec current \<noteq> None \<and> vc_codec p \<noteq> vc_codec current
               then Some CodecChange else None)"

text \<open>The loop over the selected segments: the playlist segments, and the final values of
  \<open>cursorMs\<close>, \<open>discontinuities\<close> and \<open>maxDurationSeconds\<close>.\<close>

fun walkVod :: "int \<Rightarrow> vod_candidate option \<Rightarrow> int \<Rightarrow> nat \<Rightarrow> int \<Rightarrow> vod_candidate list \<Rightarrow>
    vod_segment list \<times> int \<times> nat \<times> int" where
  "walkVod toleranceMs previous cursorMs discs maxDuration [] = ([], cursorMs, discs, maxDuration)"
| "walkVod toleranceMs previous cursorMs discs maxDuration (current # rest) =
     (let reason = breakReason toleranceMs previous current;
          duration = roundSeconds (vc_endMs current - vc_startMs current);
          segment = \<lparr>vp_recordingId = vc_id current, vp_startedAt = vc_startMs current,
            vp_endedAt = vc_endMs current, vp_durationSeconds = duration,
            vp_offsetSeconds = roundSeconds cursorMs, vp_discontinuity = (reason \<noteq> None),
            vp_reason = reason, vp_codec = vc_codec current\<rparr>;
          (segments, final) = walkVod toleranceMs (Some current)
            (cursorMs + (vc_endMs current - vc_startMs current))
            (if reason \<noteq> None then Suc discs else discs)
            (if duration > maxDuration then duration else maxDuration) rest
      in (segment # segments, final))"

definition vodTolerance :: "vod_input \<Rightarrow> int" where
  "vodTolerance inp = max 0 ((case vi_gapToleranceSeconds inp of None \<Rightarrow> VOD_GAP_TOLERANCE_SECONDS | Some g \<Rightarrow> g) * 1000)"

definition vodSelected :: "(string \<Rightarrow> 'k::linorder) \<Rightarrow> vod_input \<Rightarrow> int \<Rightarrow> int \<Rightarrow> vod_candidate list \<times> bool" where
  "vodSelected ck inp fromMs toMsValue =
     select_candidates (vodKey ck)
       (max 1 (case vi_maxSegments inp of None \<Rightarrow> VOD_MAX_SEGMENTS | Some m \<Rightarrow> m))
       (snd (collectVod fromMs toMsValue (vi_segments inp)))"

text \<open>\<open>Math.ceil\<close> of a number of thousandths.\<close>

definition ceil_seconds :: "int \<Rightarrow> int" where
  "ceil_seconds ms = - ((- ms) div 1000)"

text \<open>\<open>None\<close> is the \<open>TypeError\<close> of an unusable interval.\<close>

definition planVodPlaylist :: "(string \<Rightarrow> 'k::linorder) \<Rightarrow> vod_input \<Rightarrow> vod_plan option" where
  "planVodPlaylist ck inp =
     (case (toMs (vi_from inp), toMs (vi_to inp)) of
        (Some fromMs, Some toMsValue) \<Rightarrow>
          let (selected, truncated) = vodSelected ck inp fromMs toMsValue;
              (segments, cursorMs, discs, maxDuration) = walkVod (vodTolerance inp) None 0 0 0 selected;
              startOffset = (case selected of [] \<Rightarrow> 0
                | first # _ \<Rightarrow> max 0 (roundSeconds (min fromMs (vc_endMs first) - vc_startMs first)))
          in Some \<lparr>vod_from = fromMs, vod_to = toMsValue, vod_segments = segments,
               targetDurationSeconds = max 1 (ceil_seconds maxDuration),
               vod_totalSeconds = roundSeconds cursorMs, startOffsetSeconds = startOffset,
               discontinuities = discs, vod_skipped = fst (collectVod fromMs toMsValue (vi_segments inp)),
               vod_truncated = truncated,
               coverage_startedAt = (case selected of [] \<Rightarrow> None | c # _ \<Rightarrow> Some (vc_startMs c)),
               coverage_endedAt = (case selected of [] \<Rightarrow> None | _ \<Rightarrow> Some (vc_endMs (last selected)))\<rparr>
      | _ \<Rightarrow> None)"

section \<open>The text\<close>

definition disc_lines :: "vod_segment \<Rightarrow> string list" where
  "disc_lines segment = (if vp_discontinuity segment then [''#EXT-X-DISCONTINUITY''] else [])"

definition segment_lines :: "bool \<Rightarrow> (vod_segment \<Rightarrow> string) \<Rightarrow> vod_segment \<Rightarrow> string list" where
  "segment_lines includePdt buildSegmentUrl segment =
     disc_lines segment @
     (if includePdt then [''#EXT-X-PROGRAM-DATE-TIME:'' @ toISOString (vp_startedAt segment)] else []) @
     [''#EXTINF:'' @ toFixed3 (vp_durationSeconds segment) @ '','', buildSegmentUrl segment]"

definition playlist_head :: "vod_plan \<Rightarrow> string list" where
  "playlist_head plan = [''#EXTM3U'', ''#EXT-X-VERSION:3'', ''#EXT-X-PLAYLIST-TYPE:VOD'',
     ''#EXT-X-TARGETDURATION:'' @ int_dec (targetDurationSeconds plan), ''#EXT-X-MEDIA-SEQUENCE:0'',
     ''#DRAC-START-OFFSET:'' @ js_thousandths (startOffsetSeconds plan)]"

definition renderVodPlaylist :: "vod_plan \<Rightarrow> (vod_segment \<Rightarrow> string) \<Rightarrow> bool option \<Rightarrow> string" where
  "renderVodPlaylist plan buildSegmentUrl includeProgramDateTime =
     js_join [nl] (playlist_head plan @
       concat (map (segment_lines (includeProgramDateTime \<noteq> Some False) buildSegmentUrl) (vod_segments plan)) @
       [''#EXT-X-ENDLIST''])"

section \<open>Lemmas\<close>

text \<open>A candidate: a source that overlaps the interval, with a usable end.\<close>

definition vod_usable :: "int \<Rightarrow> int \<Rightarrow> vod_candidate \<Rightarrow> bool" where
  "vod_usable f t c \<longleftrightarrow> vc_startMs c < vc_endMs c \<and> f < vc_endMs c \<and> vc_startMs c < t"

interpretation vod_timeline: segment_timeline vc_startMs vc_endMs "vodKey ck" "vod_usable f t" for ck f t
  by unfold_locales (auto simp: vod_usable_def vodKey_def less_eq_prod_def)

definition source_of :: "vod_source \<Rightarrow> vod_candidate \<Rightarrow> bool" where
  "source_of raw c \<longleftrightarrow> vs_id raw = vc_id c \<and> toMs (vs_startedAt raw) = Some (vc_startMs c) \<and>
     segment_end (vc_startMs c) (vs_endedAt raw) (vs_durationSeconds raw) = Some (vc_endMs c) \<and>
     vc_codec c = vodCodec (vs_codec raw)"

lemma collectVod_iff:
  "c \<in> set (snd (collectVod f t raws)) \<longleftrightarrow> f < vc_endMs c \<and> vc_startMs c < t \<and> (\<exists>raw\<in>set raws. source_of raw c)"
  by (induction raws)
    (auto simp: source_of_def Let_def split: prod.splits option.splits if_splits)

lemma collectVod_usable: "c \<in> set (snd (collectVod f t raws)) \<Longrightarrow> vod_usable f t c"
  by (auto simp: collectVod_iff vod_usable_def source_of_def dest: segment_end_after)

definition segment_of :: "vod_candidate \<Rightarrow> vod_segment \<Rightarrow> bool" where
  "segment_of c s \<longleftrightarrow> vp_recordingId s = vc_id c \<and> vp_startedAt s = vc_startMs c \<and> vp_endedAt s = vc_endMs c \<and>
     vp_durationSeconds s = vc_endMs c - vc_startMs c \<and> vp_codec s = vc_codec c \<and>
     vp_discontinuity s = (vp_reason s \<noteq> None)"

lemma walkVod_ConsE:
  assumes "walkVod tol prev cur d m (c # cs) = (segs, cur', d', m')"
  obtains seg segs' where "segs = seg # segs'" "segment_of c seg" "vp_offsetSeconds seg = cur"
    "vp_reason seg = breakReason tol prev c"
    "walkVod tol (Some c) (cur + vp_durationSeconds seg) (if vp_discontinuity seg then Suc d else d)
       (max m (vp_durationSeconds seg)) cs = (segs', cur', d', m')"
proof -
  let ?seg = "\<lparr>vp_recordingId = vc_id c, vp_startedAt = vc_startMs c,
    vp_endedAt = vc_endMs c, vp_durationSeconds = vc_endMs c - vc_startMs c,
    vp_offsetSeconds = cur, vp_discontinuity = (breakReason tol prev c \<noteq> None),
    vp_reason = breakReason tol prev c, vp_codec = vc_codec c\<rparr>"
  have mx: "(if x > m then x else m) = max m x" for x :: int by simp
  from assms show ?thesis
    by (intro that [of ?seg "tl segs"])
      (auto simp: Let_def roundSeconds_def segment_of_def mx split: prod.splits)
qed

lemma walkVod_segments:
  "walkVod tol prev cur d m cs = (segs, cur', d', m') \<Longrightarrow> list_all2 segment_of cs segs"
  by (induction cs arbitrary: prev cur d m segs) (auto elim!: walkVod_ConsE simp del: walkVod.simps(2))

lemma walkVod_offsets:
  "walkVod tol prev cur d m cs = (segs, cur', d', m') \<Longrightarrow>
   cur' = cur + sum_list (map vp_durationSeconds segs) \<and>
   (\<forall>i<length segs. vp_offsetSeconds (segs ! i) = cur + sum_list (map vp_durationSeconds (take i segs)))"
proof (induction cs arbitrary: prev cur d m segs)
  case (Cons c cs)
  from Cons.prems show ?case
    by (rule walkVod_ConsE) (auto dest!: Cons.IH simp: nth_Cons' take_Cons')
qed simp

lemma walkVod_counts:
  "walkVod tol prev cur d m cs = (segs, cur', d', m') \<Longrightarrow>
   d' = d + length (filter vp_discontinuity segs) \<and> m \<le> m' \<and>
   (\<forall>s\<in>set segs. vp_durationSeconds s \<le> m') \<and> (m' = m \<or> (\<exists>s\<in>set segs. m' = vp_durationSeconds s))"
proof (induction cs arbitrary: prev cur d m segs)
  case (Cons c cs)
  from Cons.prems show ?case
    by (rule walkVod_ConsE) (auto dest!: Cons.IH simp: max_def split: if_splits)
qed simp

lemma walkVod_reasons:
  "walkVod tol prev cur d m cs = (segs, cur', d', m') \<Longrightarrow> i < length segs \<Longrightarrow>
   vp_reason (segs ! i) = breakReason tol (if i = 0 then prev else Some (cs ! (i - 1))) (cs ! i)"
proof (induction cs arbitrary: prev cur d m segs i)
  case (Cons c cs)
  from Cons.prems(1) obtain seg segs' where segs: "segs = seg # segs'"
    "vp_reason seg = breakReason tol prev c"
    and rest: "walkVod tol (Some c) (cur + vp_durationSeconds seg) (if vp_discontinuity seg then Suc d else d)
       (max m (vp_durationSeconds seg)) cs = (segs', cur', d', m')" by (rule walkVod_ConsE)
  show ?case
  proof (cases i)
    case (Suc j)
    with Cons.IH [OF rest, of j] Cons.prems(2) segs show ?thesis by (cases j) simp_all
  qed (simp add: segs)
qed simp

lemma breakReason_iff:
  "0 \<le> tol \<Longrightarrow> breakReason tol (Some p) c \<noteq> None \<longleftrightarrow> tol < \<bar>vc_startMs c - vc_endMs p\<bar> \<or>
     vc_codec p \<noteq> None \<and> vc_codec c \<noteq> None \<and> vc_codec p \<noteq> vc_codec c"
  by (simp add: breakReason_def Let_def abs_if)

lemma segment_break:
  assumes "segment_of c s" and "0 < i \<Longrightarrow> segment_of d p"
    and "vp_reason s = breakReason tol (if i = 0 then None else Some d) c" and "0 \<le> tol"
  shows "vp_discontinuity s \<longleftrightarrow> 0 < (i::nat) \<and> (let p = p in tol < \<bar>vp_startedAt s - vp_endedAt p\<bar> \<or>
      vp_codec p \<noteq> None \<and> vp_codec s \<noteq> None \<and> vp_codec p \<noteq> vp_codec s)"
proof (cases "i = 0")
  case True
  with assms show ?thesis by (simp add: segment_of_def breakReason_def)
next
  case False
  with assms(1,2) have d: "segment_of c s" "segment_of d p" by auto
  from assms(1,3) False have "vp_discontinuity s \<longleftrightarrow> breakReason tol (Some d) c \<noteq> None"
    by (simp add: segment_of_def)
  also have "\<dots> \<longleftrightarrow> tol < \<bar>vp_startedAt s - vp_endedAt p\<bar> \<or>
      vp_codec p \<noteq> None \<and> vp_codec s \<noteq> None \<and> vp_codec p \<noteq> vp_codec s"
    using d by (subst breakReason_iff [OF assms(4)]) (simp add: segment_of_def)
  finally show ?thesis using False by (simp add: Let_def)
qed

lemma planVodPlaylist_interval:
  "planVodPlaylist ck inp = Some plan \<Longrightarrow>
   toMs (vi_from inp) = Some (vod_from plan) \<and> toMs (vi_to inp) = Some (vod_to plan)"
  by (auto simp: planVodPlaylist_def Let_def split: option.splits prod.splits)

lemma planVodPlaylist_Some:
  assumes "planVodPlaylist ck inp = Some plan"
    and ft: "toMs (vi_from inp) = Some f" "toMs (vi_to inp) = Some t"
  obtains cs m where "cs = fst (vodSelected ck inp f t)" "vod_truncated plan = snd (vodSelected ck inp f t)"
    "walkVod (vodTolerance inp) None 0 0 0 cs = (vod_segments plan, vod_totalSeconds plan, discontinuities plan, m)"
    "targetDurationSeconds plan = max 1 (ceil_seconds m)"
    "startOffsetSeconds plan = (case cs of [] \<Rightarrow> 0 | c # _ \<Rightarrow> max 0 (min f (vc_endMs c) - vc_startMs c))"
    "\<forall>c\<in>set cs. vod_usable f t c" "sorted (map vc_startMs cs)"
proof -
  let ?cs = "fst (vodSelected ck inp f t)"
  have usable: "\<forall>c\<in>set ?cs. vod_usable f t c"
    using selected_subset collectVod_usable by (fastforce simp: vodSelected_def)
  have sorted: "sorted (map vc_startMs ?cs)"
    by (simp add: vodSelected_def vod_timeline.selected_starts)
  obtain segs cur' d' m' where w: "walkVod (vodTolerance inp) None 0 0 0 ?cs = (segs, cur', d', m')"
    by (metis prod_cases4)
  have "vod_segments plan = segs \<and> vod_totalSeconds plan = cur' \<and> discontinuities plan = d' \<and>
      targetDurationSeconds plan = max 1 (ceil_seconds m') \<and> vod_truncated plan = snd (vodSelected ck inp f t) \<and>
      startOffsetSeconds plan = (case ?cs of [] \<Rightarrow> 0 | c # _ \<Rightarrow> max 0 (min f (vc_endMs c) - vc_startMs c))"
    using assms(1) w unfolding planVodPlaylist_def ft roundSeconds_def
    by (auto simp: case_prod_beta Let_def)
  then show ?thesis using w usable sorted by (intro that [OF refl]) auto
qed

section \<open>Properties\<close>

text \<open>(the playlist holds exactly the overlapping recordings). Unless the segment limit cut
  it, the playlist has a segment for a recording exactly when the recording has a usable end and
  overlaps the interval (touching a border is not overlapping); the segments are whole, in start order.\<close>

theorem vod_segments_exact:
  assumes "planVodPlaylist ck inp = Some plan" "\<not> vod_truncated plan"
    and "toMs (vi_from inp) = Some f" "toMs (vi_to inp) = Some t"
  shows "((\<exists>seg\<in>set (vod_segments plan). vp_recordingId seg = i \<and> vp_startedAt seg = s \<and> vp_endedAt seg = e) \<longleftrightarrow>
      f < e \<and> s < t \<and> (\<exists>raw\<in>set (vi_segments inp). vs_id raw = i \<and> toMs (vs_startedAt raw) = Some s \<and>
        segment_end s (vs_endedAt raw) (vs_durationSeconds raw) = Some e)) \<and>
    sorted (map vp_startedAt (vod_segments plan))"
proof -
  from planVodPlaylist_Some [OF assms(1,3,4)] obtain cs m where cs: "cs = fst (vodSelected ck inp f t)"
      "vod_truncated plan = snd (vodSelected ck inp f t)"
    and w: "walkVod (vodTolerance inp) None 0 0 0 cs = (vod_segments plan, vod_totalSeconds plan, discontinuities plan, m)"
    and srt: "sorted (map vc_startMs cs)" using assms(3,4) by blast
  have all2: "list_all2 segment_of cs (vod_segments plan)" by (rule walkVod_segments [OF w])
  then have starts: "map vp_startedAt (vod_segments plan) = map vc_startMs cs"
    by (induction rule: list_all2_induct) (auto simp: segment_of_def)
  have "set cs = set (snd (collectVod f t (vi_segments inp)))"
    using cs assms(2) selected_complete by (auto simp: vodSelected_def)
  moreover have "(\<exists>seg\<in>set (vod_segments plan). vp_recordingId seg = i \<and> vp_startedAt seg = s \<and> vp_endedAt seg = e) \<longleftrightarrow>
      (\<exists>c\<in>set cs. vc_id c = i \<and> vc_startMs c = s \<and> vc_endMs c = e)"
    using all2 by (induction rule: list_all2_induct) (auto simp: segment_of_def)
  moreover have "(\<exists>c\<in>set (snd (collectVod f t (vi_segments inp))). vc_id c = i \<and> vc_startMs c = s \<and> vc_endMs c = e) \<longleftrightarrow>
      f < e \<and> s < t \<and> (\<exists>raw\<in>set (vi_segments inp). vs_id raw = i \<and> toMs (vs_startedAt raw) = Some s \<and>
        segment_end s (vs_endedAt raw) (vs_durationSeconds raw) = Some e)" (is "?l = ?r")
  proof
    show "?l \<Longrightarrow> ?r" by (auto simp: collectVod_iff source_of_def)
    assume ?r
    then obtain raw where raw: "raw \<in> set (vi_segments inp)" "vs_id raw = i" "toMs (vs_startedAt raw) = Some s"
      "segment_end s (vs_endedAt raw) (vs_durationSeconds raw) = Some e" "f < e" "s < t" by blast
    let ?c = "\<lparr>vc_id = i, vc_startMs = s, vc_endMs = e, vc_codec = vodCodec (vs_codec raw)\<rparr>"
    have "?c \<in> set (snd (collectVod f t (vi_segments inp)))"
      using raw by (auto simp: collectVod_iff source_of_def intro!: bexI [of _ raw])
    then show ?l by (intro bexI [of _ ?c]) simp_all
  qed
  ultimately show ?thesis using srt starts by simp
qed

definition sample_vod :: vod_input where
  "sample_vod = \<lparr>vi_segments =
     [\<lparr>vs_id = ''b'', vs_startedAt = At 70000, vs_endedAt = At 100000, vs_durationSeconds = None, vs_codec = Some ''hevc''\<rparr>,
      \<lparr>vs_id = ''a'', vs_startedAt = At 0, vs_endedAt = Absent, vs_durationSeconds = Some 60, vs_codec = None\<rparr>],
     vi_from = At 15000, vi_to = At 90000, vi_gapToleranceSeconds = None, vi_maxSegments = None\<rparr>"

definition id_key :: "string \<Rightarrow> string" where "id_key s = s"

lemma sample_vod_plan: "\<exists>plan. planVodPlaylist id_key sample_vod = Some plan \<and> \<not> vod_truncated plan"
  by (simp add: planVodPlaylist_def sample_vod_def vodSelected_def select_candidates_def vodKey_def id_key_def
      segment_end_def VOD_MAX_SEGMENTS_def Let_def split: prod.splits)

lemma sample_vod_interval: "toMs (vi_from sample_vod) = Some 15000" "toMs (vi_to sample_vod) = Some 90000"
  by (simp_all add: sample_vod_def)

theorem vod_segments_exact_witness:
  "\<exists>plan. planVodPlaylist id_key sample_vod = Some plan \<and>
     (\<exists>seg\<in>set (vod_segments plan). vp_recordingId seg = ''a'' \<and> vp_startedAt seg = 0 \<and> vp_endedAt seg = 60000)"
proof -
  obtain plan where plan: "planVodPlaylist id_key sample_vod = Some plan" "\<not> vod_truncated plan"
    using sample_vod_plan by blast
  show ?thesis
    using vod_segments_exact [OF plan sample_vod_interval, of "''a''" 0 60000] plan(1)
    by (simp add: sample_vod_def segment_end_def)
qed

text \<open>(offsets, breaks and target duration are right). The segments lie end to end on the
  playlist's time line; a segment is preceded by a discontinuity exactly when the next recording
  starts off by more than the tolerance or both codecs are known and differ, never before the
  first; the count is exact; the target duration, in whole seconds, bounds every segment tightly.\<close>

theorem vod_timeline_sound:
  assumes "planVodPlaylist ck inp = Some plan"
  shows "vod_totalSeconds plan = sum_list (map vp_durationSeconds (vod_segments plan)) \<and>
    discontinuities plan = length (filter vp_discontinuity (vod_segments plan)) \<and>
    1 \<le> targetDurationSeconds plan \<and>
    (\<forall>s\<in>set (vod_segments plan). vp_durationSeconds s \<le> 1000 * targetDurationSeconds plan) \<and>
    (1 < targetDurationSeconds plan \<longrightarrow>
      (\<exists>s\<in>set (vod_segments plan). 1000 * (targetDurationSeconds plan - 1) < vp_durationSeconds s)) \<and>
    (\<forall>i<length (vod_segments plan). let s = vod_segments plan ! i in
       vp_durationSeconds s = vp_endedAt s - vp_startedAt s \<and> 0 < vp_durationSeconds s \<and>
       vp_offsetSeconds s = sum_list (map vp_durationSeconds (take i (vod_segments plan))) \<and>
       (vp_discontinuity s \<longleftrightarrow> 0 < i \<and> (let p = vod_segments plan ! (i - 1) in
          vodTolerance inp < \<bar>vp_startedAt s - vp_endedAt p\<bar> \<or>
          vp_codec p \<noteq> None \<and> vp_codec s \<noteq> None \<and> vp_codec p \<noteq> vp_codec s)))"
proof -
  let ?segs = "vod_segments plan"
  have iv: "toMs (vi_from inp) = Some (vod_from plan)" "toMs (vi_to inp) = Some (vod_to plan)"
    using planVodPlaylist_interval [OF assms] by auto
  obtain cs m where w: "walkVod (vodTolerance inp) None 0 0 0 cs = (?segs, vod_totalSeconds plan, discontinuities plan, m)"
    and target: "targetDurationSeconds plan = max 1 (ceil_seconds m)"
    and us: "\<forall>c\<in>set cs. vod_usable (vod_from plan) (vod_to plan) c"
    by (rule planVodPlaylist_Some [OF assms iv]) (rule that)
  note segs = walkVod_segments [OF w] and offs = walkVod_offsets [OF w] and counts = walkVod_counts [OF w]
  have seg: "segment_of (cs ! i) (?segs ! i) \<and> vc_startMs (cs ! i) < vc_endMs (cs ! i)" if "i < length ?segs" for i
    using segs us that by (auto simp: list_all2_conv_all_nth vod_usable_def)
  have tol: "0 \<le> vodTolerance inp" by (simp add: vodTolerance_def)
  have disc: "vp_discontinuity (?segs ! i) \<longleftrightarrow> 0 < i \<and> (let p = ?segs ! (i - 1) in
      vodTolerance inp < \<bar>vp_startedAt (?segs ! i) - vp_endedAt p\<bar> \<or>
      vp_codec p \<noteq> None \<and> vp_codec (?segs ! i) \<noteq> None \<and> vp_codec p \<noteq> vp_codec (?segs ! i))"
    if i: "i < length ?segs" for i
    by (rule segment_break [OF seg [OF i, THEN conjunct1] _ walkVod_reasons [OF w i] tol])
      (use i seg [of "i - 1"] in auto)
  have ceil: "m \<le> 1000 * ceil_seconds m" "1000 * (ceil_seconds m - 1) < m"
    using pos_mod_bound [of 1000 "- m"] pos_mod_sign [of 1000 "- m"] div_mult_mod_eq [of "- m" 1000]
    unfolding ceil_seconds_def by (simp_all add: algebra_simps)
  have le: "vp_durationSeconds s \<le> m" if "s \<in> set ?segs" for s using counts that by blast
  have bound: "\<forall>s\<in>set ?segs. vp_durationSeconds s \<le> 1000 * targetDurationSeconds plan"
    using le ceil(1) unfolding target by fastforce
  have tight: "\<exists>s\<in>set ?segs. 1000 * (targetDurationSeconds plan - 1) < vp_durationSeconds s"
    if "1 < targetDurationSeconds plan"
  proof -
    from that have t: "targetDurationSeconds plan = ceil_seconds m" by (simp add: target max_def split: if_splits)
    with that ceil(2) have "m \<noteq> 0" by simp
    then obtain s where "s \<in> set ?segs" "m = vp_durationSeconds s" using counts by blast
    with ceil(2) t show ?thesis by auto
  qed
  have each: "let s = ?segs ! i in
       vp_durationSeconds s = vp_endedAt s - vp_startedAt s \<and> 0 < vp_durationSeconds s \<and>
       vp_offsetSeconds s = sum_list (map vp_durationSeconds (take i ?segs)) \<and>
       (vp_discontinuity s \<longleftrightarrow> 0 < i \<and> (let p = ?segs ! (i - 1) in
          vodTolerance inp < \<bar>vp_startedAt s - vp_endedAt p\<bar> \<or>
          vp_codec p \<noteq> None \<and> vp_codec s \<noteq> None \<and> vp_codec p \<noteq> vp_codec s))"
    if i: "i < length ?segs" for i
    using seg [OF i] offs i disc [OF i] by (simp add: segment_of_def Let_def)
  have "1 \<le> targetDurationSeconds plan" by (simp add: target)
  then show ?thesis using offs counts bound tight each by simp
qed

theorem vod_timeline_sound_witness:
  "\<exists>plan. planVodPlaylist id_key sample_vod = Some plan \<and>
     discontinuities plan = length (filter vp_discontinuity (vod_segments plan))"
  using sample_vod_plan vod_timeline_sound by blast

text \<open>(the seek lands on the instant asked for). When the interval begins inside the first
  segment, the start offset is exactly the distance from the segment's start to it; when it
  begins in a hole before the first segment the offset is zero; it never leaves the first segment.\<close>

theorem vod_seek_exact:
  assumes "planVodPlaylist ck inp = Some plan" "vod_segments plan = first # rest"
  shows "(if vp_startedAt first \<le> vod_from plan then vp_startedAt first + startOffsetSeconds plan = vod_from plan
      else startOffsetSeconds plan = 0) \<and>
    0 \<le> startOffsetSeconds plan \<and> startOffsetSeconds plan < vp_durationSeconds first"
proof -
  have iv: "toMs (vi_from inp) = Some (vod_from plan)" "toMs (vi_to inp) = Some (vod_to plan)"
    using planVodPlaylist_interval [OF assms(1)] by auto
  obtain cs m where w: "walkVod (vodTolerance inp) None 0 0 0 cs = (vod_segments plan, vod_totalSeconds plan, discontinuities plan, m)"
    and off: "startOffsetSeconds plan = (case cs of [] \<Rightarrow> 0 | c # _ \<Rightarrow> max 0 (min (vod_from plan) (vc_endMs c) - vc_startMs c))"
    and us: "\<forall>c\<in>set cs. vod_usable (vod_from plan) (vod_to plan) c"
    by (rule planVodPlaylist_Some [OF assms(1) iv]) (rule that)
  from walkVod_segments [OF w] assms(2) obtain c cs' where c: "cs = c # cs'" "segment_of c first"
    by (auto simp: list_all2_Cons2)
  have "vod_usable (vod_from plan) (vod_to plan) c" using us c(1) by simp
  with c(2) show ?thesis unfolding off c(1) by (auto simp: vod_usable_def segment_of_def)
qed

theorem vod_seek_exact_witness:
  "\<exists>plan first rest. planVodPlaylist id_key sample_vod = Some plan \<and> vod_segments plan = first # rest \<and>
     startOffsetSeconds plan < vp_durationSeconds first"
proof -
  obtain plan where plan: "planVodPlaylist id_key sample_vod = Some plan" "\<not> vod_truncated plan"
    using sample_vod_plan by blast
  have "vod_segments plan \<noteq> []"
    using plan(1) by (auto simp: planVodPlaylist_def sample_vod_def vodSelected_def select_candidates_def vodKey_def
        id_key_def segment_end_def VOD_MAX_SEGMENTS_def Let_def split: prod.splits)
  then obtain first rest where "vod_segments plan = first # rest" by (cases "vod_segments plan") auto
  with vod_seek_exact [OF plan(1) this] plan(1) show ?thesis by blast
qed

definition is_extinf :: "string \<Rightarrow> bool" where
  "is_extinf l \<longleftrightarrow> take 8 l = ''#EXTINF:''"

lemma segment_extinf:
  assumes "take 1 (url s) \<noteq> ''#''"
  shows "filter is_extinf (segment_lines b url s) = [''#EXTINF:'' @ toFixed3 (vp_durationSeconds s) @ '','']"
proof -
  have "\<not> is_extinf (url s)" using assms by (cases "url s") (auto simp: is_extinf_def)
  then show ?thesis by (simp add: segment_lines_def disc_lines_def) (simp add: is_extinf_def)
qed

lemma read_extinf: "0 \<le> d \<Longrightarrow> read_fixed3 (drop 8 (''#EXTINF:'' @ toFixed3 d @ '','')) = d"
  using read_fixed3_toFixed3 [of d] by (simp add: read_fixed3_def is_digit_def)

text \<open>(the M3U8 text says what the plan says). When no built URL has a line break or looks like
  a tag, the text has the head, each segment's break, date and duration right before its URL,
  and the end tag, one line each, in order, none injected; read back, its durations are the plan's.\<close>

theorem vod_text_lines:
  assumes "\<forall>s\<in>set (vod_segments plan). nl \<notin> set (url s) \<and> take 1 (url s) \<noteq> ''#'' \<and> 0 \<le> vp_durationSeconds s"
  shows "split_lines (renderVodPlaylist plan url pdt) =
      playlist_head plan @ concat (map (segment_lines (pdt \<noteq> Some False) url) (vod_segments plan)) @ [''#EXT-X-ENDLIST''] \<and>
    map (\<lambda>l. read_fixed3 (drop 8 l)) (filter is_extinf (split_lines (renderVodPlaylist plan url pdt))) =
      map vp_durationSeconds (vod_segments plan)"
proof -
  let ?b = "pdt \<noteq> Some False"
  have "\<forall>l\<in>set (segment_lines b url s). nl \<notin> set l" if "s \<in> set (vod_segments plan)" for s b
    using assms that by (auto simp: segment_lines_def disc_lines_def toFixed3_one_line toISOString_one_line)
  moreover have "\<forall>l\<in>set (playlist_head plan). nl \<notin> set l"
    by (auto simp: playlist_head_def int_dec_one_line js_thousandths_one_line)
  ultimately have lines: "split_lines (renderVodPlaylist plan url pdt) =
      playlist_head plan @ concat (map (segment_lines ?b url) (vod_segments plan)) @ [''#EXT-X-ENDLIST'']"
    unfolding renderVodPlaylist_def by (intro split_lines_join) auto
  have "map (\<lambda>l. read_fixed3 (drop 8 l)) (filter is_extinf (concat (map (segment_lines ?b url) segs))) =
      map vp_durationSeconds segs" if "set segs \<subseteq> set (vod_segments plan)" for segs
    using that
  proof (induction segs)
    case (Cons s segs)
    then show ?case using assms segment_extinf [of url s ?b] read_extinf [of "vp_durationSeconds s"] by simp
  qed simp
  moreover have "filter is_extinf (playlist_head plan) = []" "\<not> is_extinf ''#EXT-X-ENDLIST''"
    by (simp_all add: playlist_head_def is_extinf_def)
  ultimately show ?thesis by (simp add: lines)
qed

theorem vod_text_lines_witness:
  "\<exists>plan. planVodPlaylist id_key sample_vod = Some plan \<and>
     map (\<lambda>l. read_fixed3 (drop 8 l)) (filter is_extinf (split_lines (renderVodPlaylist plan vp_recordingId None))) =
       map vp_durationSeconds (vod_segments plan)"
proof -
  obtain plan where plan: "planVodPlaylist id_key sample_vod = Some plan" using sample_vod_plan by blast
  have "\<forall>s\<in>set (vod_segments plan). nl \<notin> set (vp_recordingId s) \<and> take 1 (vp_recordingId s) \<noteq> ''#'' \<and> 0 \<le> vp_durationSeconds s"
    using plan by (auto simp: planVodPlaylist_def sample_vod_def vodSelected_def select_candidates_def vodKey_def
        id_key_def segment_end_def VOD_MAX_SEGMENTS_def Let_def roundSeconds_def split: prod.splits)
  from vod_text_lines [OF this] plan show ?thesis by blast
qed

end
