(* ===== verification/Sensitive_Text.thy ===== *)
theory Sensitive_Text
  imports Prelude
begin

text \<open>
  \<open>common/security/sensitive-text.helper.ts\<close>: the redaction of credentials in a text, on
  ASCII strings. The three regular expressions are global and case-insensitive; none of them
  backtracks (every repeated class excludes the character that follows it), so a match is a
  deterministic scan from its first character. A matcher gets the character before the
  position (for \<open>\b\<close>) and the text from the position on, and returns the replacement and the
  number of characters matched.
\<close>

type_synonym matcher = "char option \<Rightarrow> string \<Rightarrow> (string \<times> nat) option"

definition word_char :: "char \<Rightarrow> bool" where
  "word_char c \<longleftrightarrow> (let n = (of_char c :: nat) in 48 \<le> n \<and> n \<le> 57 \<or> 65 \<le> n \<and> n \<le> 90 \<or> 97 \<le> n \<and> n \<le> 122 \<or> n = 95)"

definition boundary :: "char option \<Rightarrow> bool" where
  "boundary prev = (case prev of None \<Rightarrow> True | Some c \<Rightarrow> \<not> word_char c)"

definition schemes :: "string list" where
  "schemes = [''rtsp://'', ''rtsps://'', ''http://'', ''https://'']"

definition scheme_length :: "string \<Rightarrow> nat option" where
  "scheme_length s = map_option length (find (\<lambda>sch. js_lower (take (length sch) s) = sch) schemes)"

definition user_char :: "char \<Rightarrow> bool" where
  "user_char c \<longleftrightarrow> \<not> js_space c \<and> c \<noteq> CHR ''/'' \<and> c \<noteq> CHR ''@'' \<and> c \<noteq> CHR '':''"

definition password_char :: "char \<Rightarrow> bool" where
  "password_char c \<longleftrightarrow> \<not> js_space c \<and> c \<noteq> CHR ''/'' \<and> c \<noteq> CHR ''@''"

text \<open>\<open>URL_WITH_CREDENTIALS\<close>, replaced by \<open>$1<redacted>@\<close>.\<close>

definition URL_WITH_CREDENTIALS :: matcher where
  "URL_WITH_CREDENTIALS prev s =
     (if \<not> boundary prev then None
      else case scheme_length s of
        None \<Rightarrow> None
      | Some n \<Rightarrow>
          (let user = takeWhile user_char (drop n s);
               afterUser = drop (n + length user) s
           in if user = [] \<or> take 1 afterUser \<noteq> '':'' then None
              else let password = takeWhile password_char (drop 1 afterUser);
                       afterPassword = drop (Suc (length password)) afterUser
                   in if password = [] \<or> take 1 afterPassword \<noteq> ''@'' then None
                      else Some (take n s @ ''<redacted>@'', n + length user + length password + 2)))"

definition redacted_word :: "string \<Rightarrow> nat option" where
  "redacted_word s = (if take 3 s = ''***'' then Some 3
     else if js_lower (take 10 s) = ''<redacted>'' then Some 10 else None)"

text \<open>\<open>AUTHORITY_WITH_REDACTED_CREDENTIALS\<close>, replaced by \<open>$1<redacted>@\<close>.\<close>

definition AUTHORITY_WITH_REDACTED_CREDENTIALS :: matcher where
  "AUTHORITY_WITH_REDACTED_CREDENTIALS prev s =
     (if \<not> boundary prev then None
      else case scheme_length s of
        None \<Rightarrow> None
      | Some n \<Rightarrow>
          (case redacted_word (drop n s) of
             None \<Rightarrow> None
           | Some u \<Rightarrow>
               if take 1 (drop (n + u) s) \<noteq> '':'' then None
               else (case redacted_word (drop (n + u + 1) s) of
                       None \<Rightarrow> None
                     | Some p \<Rightarrow> if take 1 (drop (n + u + 1 + p) s) \<noteq> ''@'' then None
                                 else Some (take n s @ ''<redacted>@'', n + u + p + 2))))"

definition sensitive_names :: "string list" where
  "sensitive_names = concat (map (\<lambda>(a, b). [a @ ''_'' @ b, a @ ''-'' @ b, a @ b])
      [(''access'', ''token''), (''refresh'', ''token''), (''stream'', ''token'')]) @
    [''token'', ''api_key'', ''api-key'', ''apikey'', ''signature'']"

definition value_char :: "char \<Rightarrow> bool" where
  "value_char c \<longleftrightarrow> \<not> js_space c \<and> c \<notin> set [CHR ''&'', CHR ''#'', CHR 0x22, CHR 0x27, CHR ''<'', CHR ''>'']"

text \<open>\<open>SENSITIVE_QUERY_VALUE\<close>, replaced by \<open>$1<redacted>\<close>.\<close>

definition SENSITIVE_QUERY_VALUE :: matcher where
  "SENSITIVE_QUERY_VALUE prev s =
     (if take 1 s \<noteq> ''?'' \<and> take 1 s \<noteq> ''&'' then None
      else case find (\<lambda>name. js_lower (take (length name) (drop 1 s)) = name) (map (\<lambda>n. n @ ''='') sensitive_names) of
        None \<Rightarrow> None
      | Some name \<Rightarrow>
          (let n = Suc (length name); val = takeWhile value_char (drop n s)
           in if val = [] then None else Some (take n s @ ''<redacted>'', n + length val)))"

text \<open>\<open>text.replace(regex, ...)\<close> and \<open>regex.test(text)\<close>.\<close>

function replace_all :: "matcher \<Rightarrow> char option \<Rightarrow> string \<Rightarrow> string" where
  "replace_all m prev [] = []"
| "replace_all m prev (c # s) =
     (case m prev (c # s) of
        None \<Rightarrow> c # replace_all m (Some c) s
      | Some (replacement, n) \<Rightarrow> replacement @ replace_all m (Some ((c # s) ! (n - 1))) (drop (n - 1) s))"
  by pat_completeness auto
termination by (relation "measure (\<lambda>(_, _, s). length s)") auto

fun matches :: "matcher \<Rightarrow> char option \<Rightarrow> string \<Rightarrow> bool" where
  "matches m prev [] = False"
| "matches m prev (c # s) = (m prev (c # s) \<noteq> None \<or> matches m (Some c) s)"

definition redactSensitiveText :: "string \<Rightarrow> string" where
  "redactSensitiveText text =
     replace_all SENSITIVE_QUERY_VALUE None
       (replace_all AUTHORITY_WITH_REDACTED_CREDENTIALS None
         (replace_all URL_WITH_CREDENTIALS None text))"

text \<open>The value is a string here: the \<open>Error\<close> case hands over its message.\<close>

definition sanitizeSensitiveText :: "string option \<Rightarrow> string" where
  "sanitizeSensitiveText v = redactSensitiveText (or_empty v)"

definition containsCredentialBearingUrl :: "string option \<Rightarrow> bool" where
  "containsCredentialBearingUrl v = matches URL_WITH_CREDENTIALS None (or_empty v)"

end
