(* ===== verification/Source_Gateway.thy ===== *)
theory Source_Gateway
  imports Sensitive_Text Complex_Main
begin

text \<open>
  \<open>camera-stream/source-gateway.service.ts\<close>: the register of the video sources (one entry for
  each camera and profile), its leases, the routing decision, and the backoff and circuit breaker.

  The register's \<open>Map\<close>s are association lists in insertion order (\<open>set\<close> on a present key keeps
  its place). Times and delays are rationals in milliseconds (a jittered delay is not whole).
  The clock, the random source and the settings are read anew by each operation, so they are its
  parameters (\<open>gateway_env\<close>); a setting is \<open>Number(value)\<close> when that is finite. The calls to
  \<open>metrics.recordStreamRecovery\<close> are kept as a list, log messages are left out.
\<close>

section \<open>Data\<close>

datatype profile = main | sub

datatype source_state = IDLE | CONNECTING | ONLINE | STALLED | BACKOFF | CIRCUIT_OPEN

datatype origin = direct | gateway

datatype transport = tcp | udp

datatype decision_reason =
    gateway_disabled | consumer_requires_direct | no_active_source | no_published_source
  | source_stalled | circuit_open | gateway_published | cap_reused_profile

record resolve_input =
  ri_cameraId :: string
  ri_profile :: "string option"
  ri_consumer :: string
  directUrl :: string
  internalUrl :: "string option"
  requireDirect :: bool

record decision =
  d_url :: string
  d_origin :: origin
  d_reason :: decision_reason
  d_cameraId :: string
  d_consumer :: string
  d_requestedProfile :: profile
  d_servedProfile :: profile
  d_atMs :: rat

record lease =
  l_id :: string
  l_cameraId :: string
  l_consumer :: string
  l_requestedProfile :: profile
  l_servedProfile :: profile
  l_gatewayEnabled :: bool
  l_capped :: bool

record entry =
  e_cameraId :: string
  e_profile :: profile
  e_state :: source_state
  consumers :: "(string \<times> string) list"
  publishedUrl :: "string option"
  e_transport :: "transport option"
  lastPacketAtMs :: "rat option"
  lastFrameAtMs :: "rat option"
  consecutiveFailures :: nat
  attempt :: nat
  lastBackoffMs :: "rat option"
  nextAttemptAtMs :: "rat option"
  circuitOpenUntilMs :: "rat option"
  circuitCooldownMs :: "rat option"
  degraded :: bool
  createdAtMs :: rat
  touchedAtMs :: rat

record counters =
  acquisitions :: nat
  releases :: nat
  cappedAcquisitions :: nat
  stalls :: nat
  failures :: nat
  recoveries :: nat
  circuitOpens :: nat

record gateway =
  entries :: "(string \<times> entry) list"
  leases :: "(string \<times> (string \<times> string)) list"
  decisionLog :: "decision list"
  decisionCounts :: "(decision_reason \<times> nat) list"
  leaseSeq :: nat
  gw_counters :: counters
  streamRecoveries :: "string list"

record gateway_env =
  clock :: rat
  random :: rat
  enabledSetting :: "string option"
  maxExternalSetting :: "rat option"
  stallTimeoutSetting :: "rat option"
  circuitThresholdSetting :: "rat option"
  circuitOpenSetting :: "rat option"
  circuitMaxOpenSetting :: "rat option"
  idleTtlSetting :: "rat option"
  backoffBaseSetting :: "rat option"
  backoffCapSetting :: "rat option"
  backoffJitterSetting :: "rat option"

definition no_counts :: counters where
  "no_counts = \<lparr>acquisitions = 0, releases = 0, cappedAcquisitions = 0, stalls = 0, failures = 0,
     recoveries = 0, circuitOpens = 0\<rparr>"

definition initial_gateway :: gateway where
  "initial_gateway = \<lparr>entries = [], leases = [], decisionLog = [], decisionCounts = [], leaseSeq = 0,
     gw_counters = no_counts, streamRecoveries = []\<rparr>"

definition MAX_TRACKED_SOURCES :: nat where "MAX_TRACKED_SOURCES = 2000"
definition MAX_DECISION_LOG :: nat where "MAX_DECISION_LOG = 200"

section \<open>Settings\<close>

definition positive :: "rat option \<Rightarrow> rat \<Rightarrow> rat" where
  "positive v fallback = (case v of Some p \<Rightarrow> if p > 0 then p else fallback | None \<Rightarrow> fallback)"

definition nonNegative :: "rat option \<Rightarrow> rat \<Rightarrow> rat" where
  "nonNegative v fallback = (case v of Some p \<Rightarrow> if p \<ge> 0 then p else fallback | None \<Rightarrow> fallback)"

definition clamp01 :: "rat option \<Rightarrow> rat" where
  "clamp01 v = (case v of Some p \<Rightarrow> if p \<le> 0 then 0 else min 1 p | None \<Rightarrow> 0)"

definition isEnabled :: "gateway_env \<Rightarrow> bool" where
  "isEnabled env \<longleftrightarrow> js_lower (js_trim (or_empty (enabledSetting env))) = ''true''"

definition maxExternalConnectionsPerCamera :: "gateway_env \<Rightarrow> int" where
  "maxExternalConnectionsPerCamera env = max 1 \<lfloor>positive (maxExternalSetting env) 2\<rfloor>"

definition stallTimeoutMs :: "gateway_env \<Rightarrow> rat" where
  "stallTimeoutMs env = positive (stallTimeoutSetting env) 20000"

definition circuitThreshold :: "gateway_env \<Rightarrow> int" where
  "circuitThreshold env = max 1 \<lfloor>positive (circuitThresholdSetting env) 5\<rfloor>"

definition circuitOpenMs :: "gateway_env \<Rightarrow> rat" where
  "circuitOpenMs env = positive (circuitOpenSetting env) 60000"

definition circuitMaxOpenMs :: "gateway_env \<Rightarrow> rat" where
  "circuitMaxOpenMs env = max (circuitOpenMs env) (positive (circuitMaxOpenSetting env) 480000)"

definition idleTtlMs :: "gateway_env \<Rightarrow> rat" where
  "idleTtlMs env = positive (idleTtlSetting env) 300000"

record backoff_options =
  baseMs :: "rat option"
  capMs :: "rat option"
  jitter :: "rat option"

definition backoffOptions :: "gateway_env \<Rightarrow> backoff_options" where
  "backoffOptions env = \<lparr>baseMs = Some (positive (backoffBaseSetting env) 1000),
     capMs = Some (positive (backoffCapSetting env) 60000),
     jitter = Some (clamp01 (Some (nonNegative (backoffJitterSetting env) (2 / 10))))\<rparr>"

text \<open>\<open>options.jitter ?? default\<close>: an absent jitter takes the default. The last argument is the
  number drawn from \<open>options.random\<close>.\<close>

definition computeBackoffDelayMs :: "int \<Rightarrow> backoff_options \<Rightarrow> rat \<Rightarrow> rat" where
  "computeBackoffDelayMs att options r =
     (let base = positive (baseMs options) 1000;
          cap = positive (capMs options) 60000;
          jit = clamp01 (case jitter options of None \<Rightarrow> Some (2 / 10) | j \<Rightarrow> j);
          n = max 1 (if att = 0 then 1 else att);
          raw = (if n \<ge> 53 then cap else base * 2 ^ nat (n - 1));
          delay = min cap raw
      in if jit \<le> 0 then max 0 delay else max 0 (delay * (1 + jit * (2 * r - 1))))"

definition normalizeSourceProfile :: "string option \<Rightarrow> profile" where
  "normalizeSourceProfile v = (if js_lower (js_trim (or_empty v)) = ''sub'' then sub else main)"

section \<open>The register\<close>

fun profile_name :: "profile \<Rightarrow> string" where
  "profile_name main = ''main''"
| "profile_name sub = ''sub''"

definition source_key :: "string \<Rightarrow> profile \<Rightarrow> string" where
  "source_key cameraId p = cameraId @ ''::'' @ profile_name p"

definition getEntry :: "gateway \<Rightarrow> string \<Rightarrow> profile \<Rightarrow> entry option" where
  "getEntry gw cameraId p = map_of (entries gw) (source_key cameraId p)"

text \<open>An update in place of an entry of the register.\<close>

definition putEntry :: "gateway \<Rightarrow> entry \<Rightarrow> gateway" where
  "putEntry gw e = gw\<lparr>entries := AList.update (source_key (e_cameraId e) (e_profile e)) e (entries gw)\<rparr>"

definition isActive :: "entry \<Rightarrow> bool" where
  "isActive e \<longleftrightarrow> consumers e \<noteq> [] \<or> e_state e = CONNECTING \<or> e_state e = ONLINE"

definition activeEntries :: "gateway \<Rightarrow> string \<Rightarrow> entry list" where
  "activeEntries gw cameraId = filter (\<lambda>e. e_cameraId e = cameraId \<and> isActive e) (map snd (entries gw))"

definition activeEntry :: "gateway \<Rightarrow> string \<Rightarrow> profile \<Rightarrow> entry option" where
  "activeEntry gw cameraId p =
     (case getEntry gw cameraId p of
        None \<Rightarrow> None
      | Some e \<Rightarrow> if isActive e \<or> e_state e = BACKOFF \<or> e_state e = CIRCUIT_OPEN \<or> e_state e = STALLED
                  then Some e else None)"

definition pickSubstitute :: "entry list \<Rightarrow> entry option" where
  "pickSubstitute candidates =
     (if candidates = [] then None
      else let online = filter (\<lambda>e. e_state e = ONLINE) candidates;
               pool = (if online \<noteq> [] then online else candidates)
           in case find (\<lambda>e. e_profile e = main) pool of Some e \<Rightarrow> Some e | None \<Rightarrow> Some (hd pool))"

text \<open>The scan of \<open>evictOneIdle\<close>: the key and age of the oldest entry without consumers.\<close>

fun oldestIdle :: "(string \<times> entry) list \<Rightarrow> (string \<times> rat) option \<Rightarrow> (string \<times> rat) option" where
  "oldestIdle [] oldest = oldest"
| "oldestIdle ((k, e) # es) oldest =
     (if consumers e \<noteq> [] then oldestIdle es oldest
      else case oldest of
        None \<Rightarrow> oldestIdle es (Some (k, touchedAtMs e))
      | Some (_, seen) \<Rightarrow> if touchedAtMs e < seen then oldestIdle es (Some (k, touchedAtMs e))
                       else oldestIdle es oldest)"

definition evictOneIdle :: "gateway \<Rightarrow> gateway \<times> bool" where
  "evictOneIdle gw = (case oldestIdle (entries gw) None of
     None \<Rightarrow> (gw, False)
   | Some (k, _) \<Rightarrow> (gw\<lparr>entries := AList.delete k (entries gw)\<rparr>, True))"

definition newEntry :: "string \<Rightarrow> profile \<Rightarrow> rat \<Rightarrow> entry" where
  "newEntry cameraId p now = \<lparr>e_cameraId = cameraId, e_profile = p, e_state = IDLE, consumers = [],
     publishedUrl = None, e_transport = None, lastPacketAtMs = None, lastFrameAtMs = None,
     consecutiveFailures = 0, attempt = 0, lastBackoffMs = None, nextAttemptAtMs = None,
     circuitOpenUntilMs = None, circuitCooldownMs = None, degraded = False, createdAtMs = now, touchedAtMs = now\<rparr>"

definition ensureEntry :: "gateway_env \<Rightarrow> string \<Rightarrow> profile \<Rightarrow> gateway \<Rightarrow> gateway \<times> entry option" where
  "ensureEntry env cameraId p gw =
     (case getEntry gw cameraId p of
        Some e \<Rightarrow> (gw, Some e)
      | None \<Rightarrow>
          let (gw', room) = (if length (entries gw) \<ge> MAX_TRACKED_SOURCES then evictOneIdle gw else (gw, True))
          in if \<not> room then (gw', None)
             else let e = newEntry cameraId p (clock env) in (putEntry gw' e, Some e))"

section \<open>Routing\<close>

definition recordDecision :: "decision \<Rightarrow> gateway \<Rightarrow> gateway \<times> decision" where
  "recordDecision d gw =
     (let counts = AList.update (d_reason d)
            (Suc (case map_of (decisionCounts gw) (d_reason d) of None \<Rightarrow> 0 | Some n \<Rightarrow> n)) (decisionCounts gw);
          log = decisionLog gw @ [d\<lparr>d_url := sanitizeSensitiveText (Some (d_url d))\<rparr>];
          log' = (if length log > MAX_DECISION_LOG then drop (length log - MAX_DECISION_LOG) log else log)
      in (gw\<lparr>decisionCounts := counts, decisionLog := log'\<rparr>, d))"

definition directDecision :: "gateway_env \<Rightarrow> resolve_input \<Rightarrow> decision_reason \<Rightarrow> profile \<Rightarrow> decision" where
  "directDecision env inp reason served =
     \<lparr>d_url = directUrl inp, d_origin = direct, d_reason = reason, d_cameraId = ri_cameraId inp,
       d_consumer = ri_consumer inp, d_requestedProfile = normalizeSourceProfile (ri_profile inp),
       d_servedProfile = served, d_atMs = clock env\<rparr>"

text \<open>The entry that would serve a request, and the reason a gateway answer would carry.\<close>

definition servingEntry :: "gateway_env \<Rightarrow> string \<Rightarrow> profile \<Rightarrow> gateway \<Rightarrow> entry option \<times> decision_reason" where
  "servingEntry env cameraId p gw =
     (case activeEntry gw cameraId p of
        Some e \<Rightarrow> (Some e, gateway_published)
      | None \<Rightarrow>
          let others = filter (\<lambda>e. e_profile e \<noteq> p) (activeEntries gw cameraId)
          in if int (length others) \<ge> maxExternalConnectionsPerCamera env
             then (pickSubstitute others, cap_reused_profile) else (None, gateway_published))"

definition coolingAt :: "rat \<Rightarrow> entry \<Rightarrow> bool" where
  "coolingAt now e \<longleftrightarrow> (case circuitOpenUntilMs e of None \<Rightarrow> False | Some u \<Rightarrow> now < u)"

text \<open>The URL the gateway would serve from an entry: the caller's hint only for the profile asked for.\<close>

definition offeredUrl :: "resolve_input \<Rightarrow> entry \<Rightarrow> string" where
  "offeredUrl inp e =
     (if e_profile e = normalizeSourceProfile (ri_profile inp) \<and> internalUrl inp \<noteq> None
      then or_empty (internalUrl inp) else or_empty (publishedUrl e))"

text \<open>Every return of \<open>resolveSourceUrl\<close> passes its decision through \<open>recordDecision\<close>.\<close>

definition sourceDecision :: "gateway_env \<Rightarrow> resolve_input \<Rightarrow> gateway \<Rightarrow> decision" where
  "sourceDecision env inp gw =
     (let now = clock env;
          requested = normalizeSourceProfile (ri_profile inp);
          (serving, reason) = servingEntry env (ri_cameraId inp) requested gw
      in if \<not> isEnabled env then directDecision env inp gateway_disabled requested
         else if requireDirect inp then directDecision env inp consumer_requires_direct requested
         else case serving of
           None \<Rightarrow> directDecision env inp no_active_source requested
         | Some e \<Rightarrow>
             if coolingAt now e then directDecision env inp circuit_open (e_profile e)
             else if e_state e = STALLED \<or> e_state e = BACKOFF then directDecision env inp source_stalled (e_profile e)
             else if offeredUrl inp e = [] then directDecision env inp no_published_source (e_profile e)
             else \<lparr>d_url = offeredUrl inp e, d_origin = gateway, d_reason = reason,
                    d_cameraId = ri_cameraId inp, d_consumer = ri_consumer inp, d_requestedProfile = requested,
                    d_servedProfile = e_profile e, d_atMs = now\<rparr>)"

definition resolveSourceUrl :: "gateway_env \<Rightarrow> resolve_input \<Rightarrow> gateway \<Rightarrow> gateway \<times> decision" where
  "resolveSourceUrl env inp gw = recordDecision (sourceDecision env inp gw) gw"

definition registerPublishedSource :: "gateway_env \<Rightarrow> string \<Rightarrow> string option \<Rightarrow> string option \<Rightarrow> gateway \<Rightarrow> gateway" where
  "registerPublishedSource env cameraId p url gw =
     (if \<not> isEnabled env then gw
      else case ensureEntry env cameraId (normalizeSourceProfile p) gw of
        (gw', None) \<Rightarrow> gw'
      | (gw', Some e) \<Rightarrow> putEntry gw' (e\<lparr>
          publishedUrl := (case url of Some u \<Rightarrow> if js_trim u \<noteq> [] then Some u else None | None \<Rightarrow> None),
          touchedAtMs := clock env\<rparr>))"

definition clearPublishedSource :: "gateway_env \<Rightarrow> string \<Rightarrow> string option \<Rightarrow> gateway \<Rightarrow> gateway" where
  "clearPublishedSource env cameraId p gw = registerPublishedSource env cameraId p None gw"

section \<open>Leases\<close>

definition leaseOf :: "string \<Rightarrow> string \<Rightarrow> string \<Rightarrow> profile \<Rightarrow> profile \<Rightarrow> bool \<Rightarrow> bool \<Rightarrow> lease" where
  "leaseOf i cameraId consumer requested served enabled capped = \<lparr>l_id = i, l_cameraId = cameraId,
     l_consumer = consumer, l_requestedProfile = requested, l_servedProfile = served,
     l_gatewayEnabled = enabled, l_capped = capped\<rparr>"

text \<open>The substitution of \<open>acquire\<close>: the entry another profile of the camera lends when the cap is
  taken and this request would open a connection.\<close>

definition capSubstitute :: "gateway_env \<Rightarrow> string \<Rightarrow> profile \<Rightarrow> gateway \<Rightarrow> entry option" where
  "capSubstitute env cameraId p gw =
     (case getEntry gw cameraId p of
        Some e \<Rightarrow> if consumers e = [] then
            let others = filter (\<lambda>e. e_profile e \<noteq> p) (activeEntries gw cameraId)
            in if int (length others) \<ge> maxExternalConnectionsPerCamera env then pickSubstitute others else None
          else None
      | None \<Rightarrow>
          let others = filter (\<lambda>e. e_profile e \<noteq> p) (activeEntries gw cameraId)
          in if int (length others) \<ge> maxExternalConnectionsPerCamera env then pickSubstitute others else None)"

definition attachConsumer :: "gateway_env \<Rightarrow> string \<Rightarrow> string \<Rightarrow> entry \<Rightarrow> gateway \<Rightarrow> gateway" where
  "attachConsumer env i consumer e gw =
     (let e' = e\<lparr>e_state := (if e_state e = IDLE then CONNECTING else e_state e),
            consumers := AList.update i consumer (consumers e), touchedAtMs := clock env\<rparr>;
          gw' = putEntry gw e'
      in gw'\<lparr>leases := AList.update i (source_key (e_cameraId e) (e_profile e), e_cameraId e) (leases gw'),
            gw_counters := (gw_counters gw')\<lparr>acquisitions := Suc (acquisitions (gw_counters gw'))\<rparr>\<rparr>)"

definition lease_id :: "nat \<Rightarrow> string" where
  "lease_id n = ''lease_'' @ dec_digits n"

definition acquire :: "gateway_env \<Rightarrow> string \<Rightarrow> string option \<Rightarrow> string \<Rightarrow> gateway \<Rightarrow> gateway \<times> lease" where
  "acquire env cameraId p consumer gw0 =
     (let requested = normalizeSourceProfile p;
          gw = gw0\<lparr>leaseSeq := Suc (leaseSeq gw0)\<rparr>;
          i = lease_id (leaseSeq gw)
      in if \<not> isEnabled env then (gw, leaseOf i cameraId consumer requested requested False False)
         else case capSubstitute env cameraId requested gw of
           Some e \<Rightarrow>
             (attachConsumer env i consumer e
                (gw\<lparr>gw_counters := (gw_counters gw)\<lparr>cappedAcquisitions := Suc (cappedAcquisitions (gw_counters gw))\<rparr>\<rparr>),
              leaseOf i cameraId consumer requested (e_profile e) True True)
         | None \<Rightarrow>
             (case ensureEntry env cameraId requested gw of
                (gw', None) \<Rightarrow> (gw', leaseOf i cameraId consumer requested requested True False)
              | (gw', Some e) \<Rightarrow>
                  (attachConsumer env i consumer e gw',
                   leaseOf i cameraId consumer requested (e_profile e) True False)))"

definition release :: "gateway_env \<Rightarrow> string \<Rightarrow> gateway \<Rightarrow> gateway" where
  "release env i gw =
     (if i = [] then gw
      else case map_of (leases gw) i of
        None \<Rightarrow> gw
      | Some (k, _) \<Rightarrow>
          let gw' = gw\<lparr>leases := AList.delete i (leases gw)\<rparr>
          in case map_of (entries gw') k of
               None \<Rightarrow> gw'
             | Some e \<Rightarrow>
                 let cs = AList.delete i (consumers e);
                     e' = e\<lparr>consumers := cs, touchedAtMs := clock env,
                       e_state := (if cs = [] then if coolingAt (clock env) e then CIRCUIT_OPEN else IDLE
                                   else e_state e)\<rparr>
                 in gw'\<lparr>entries := AList.update k e' (entries gw'),
                        gw_counters := (gw_counters gw')\<lparr>releases := Suc (releases (gw_counters gw'))\<rparr>\<rparr>)"

section \<open>The state machine of a source\<close>

definition noteConnecting :: "gateway_env \<Rightarrow> string \<Rightarrow> string option \<Rightarrow> gateway \<Rightarrow> gateway" where
  "noteConnecting env cameraId p gw =
     (if \<not> isEnabled env then gw
      else case ensureEntry env cameraId (normalizeSourceProfile p) gw of
        (gw', None) \<Rightarrow> gw'
      | (gw', Some e) \<Rightarrow> putEntry gw' (e\<lparr>e_state := CONNECTING, touchedAtMs := clock env\<rparr>))"

definition readTransport :: "string option \<Rightarrow> transport option \<Rightarrow> transport option" where
  "readTransport raw old =
     (let t = js_lower (js_trim (or_empty raw))
      in if t = ''tcp'' then Some tcp else if t = ''udp'' then Some udp else old)"

definition progressed :: "gateway_env \<Rightarrow> string option \<Rightarrow> bool \<Rightarrow> entry \<Rightarrow> entry" where
  "progressed env transport frame e = e\<lparr>e_state := ONLINE, lastPacketAtMs := Some (clock env),
     lastFrameAtMs := (if frame then Some (clock env) else lastFrameAtMs e),
     e_transport := readTransport transport (e_transport e), consecutiveFailures := 0, attempt := 0,
     lastBackoffMs := None, nextAttemptAtMs := None, circuitOpenUntilMs := None, circuitCooldownMs := None,
     degraded := False, touchedAtMs := clock env\<rparr>"

definition noteProgress ::
  "gateway_env \<Rightarrow> string \<Rightarrow> string option \<Rightarrow> string option \<Rightarrow> bool \<Rightarrow> gateway \<Rightarrow> gateway" where
  "noteProgress env cameraId p transport frame gw =
     (if \<not> isEnabled env then gw
      else case ensureEntry env cameraId (normalizeSourceProfile p) gw of
        (gw', None) \<Rightarrow> gw'
      | (gw', Some e) \<Rightarrow>
          let gw'' = putEntry gw' (progressed env transport frame e)
          in if degraded e
             then gw''\<lparr>gw_counters := (gw_counters gw'')\<lparr>recoveries := Suc (recoveries (gw_counters gw''))\<rparr>,
                      streamRecoveries := streamRecoveries gw'' @ [cameraId]\<rparr>
             else gw'')"

text \<open>What a failure does to the entry, and whether it opened the circuit.\<close>

definition failed :: "gateway_env \<Rightarrow> entry \<Rightarrow> entry \<times> bool" where
  "failed env e0 =
     (let now = clock env;
          e = e0\<lparr>consecutiveFailures := Suc (consecutiveFailures e0), attempt := Suc (attempt e0),
                degraded := True, touchedAtMs := now\<rparr>
      in if int (consecutiveFailures e) \<ge> circuitThreshold env
         then let next = (case circuitCooldownMs e of None \<Rightarrow> circuitOpenMs env | Some c \<Rightarrow> c * 2);
                  cooldown = min next (circuitMaxOpenMs env)
              in (e\<lparr>circuitCooldownMs := Some cooldown, circuitOpenUntilMs := Some (now + cooldown),
                   nextAttemptAtMs := Some (now + cooldown), lastBackoffMs := Some cooldown,
                   e_state := CIRCUIT_OPEN\<rparr>, True)
         else let delay = computeBackoffDelayMs (int (attempt e)) (backoffOptions env) (random env)
              in (e\<lparr>lastBackoffMs := Some delay, nextAttemptAtMs := Some (now + delay), e_state := BACKOFF\<rparr>, False))"

definition noteFailure :: "gateway_env \<Rightarrow> string \<Rightarrow> string option \<Rightarrow> gateway \<Rightarrow> gateway" where
  "noteFailure env cameraId p gw =
     (if \<not> isEnabled env then gw
      else case ensureEntry env cameraId (normalizeSourceProfile p) gw of
        (gw', None) \<Rightarrow> gw'
      | (gw', Some e) \<Rightarrow>
          let (e', opened) = failed env e; gw'' = putEntry gw' e'; c = gw_counters gw''
          in gw''\<lparr>gw_counters := c\<lparr>failures := Suc (failures c),
               circuitOpens := (if opened then Suc (circuitOpens c) else circuitOpens c)\<rparr>\<rparr>)"

definition canAttempt :: "gateway_env \<Rightarrow> string \<Rightarrow> string option \<Rightarrow> rat option \<Rightarrow> gateway \<Rightarrow> bool" where
  "canAttempt env cameraId p nowMs gw =
     (if \<not> isEnabled env then True
      else case getEntry gw cameraId (normalizeSourceProfile p) of
        None \<Rightarrow> True
      | Some e \<Rightarrow>
          let now = (case nowMs of None \<Rightarrow> clock env | Some n \<Rightarrow> n)
          in if coolingAt now e then False
             else case nextAttemptAtMs e of None \<Rightarrow> True | Some u \<Rightarrow> \<not> now < u)"

definition preferredTransport :: "string \<Rightarrow> string option \<Rightarrow> transport \<Rightarrow> gateway \<Rightarrow> transport" where
  "preferredTransport cameraId p fallback gw =
     (case getEntry gw cameraId (normalizeSourceProfile p) of
        None \<Rightarrow> fallback
      | Some e \<Rightarrow> (case e_transport e of None \<Rightarrow> fallback | Some t \<Rightarrow> t))"

text \<open>One entry of the sweep: the entry it leaves, if any, and whether it stalled.\<close>

definition tickEntry :: "rat \<Rightarrow> rat \<Rightarrow> rat \<Rightarrow> entry \<Rightarrow> entry option \<times> bool" where
  "tickEntry now stallTimeout idleTtl e =
     (if e_state e = ONLINE \<and> (case lastPacketAtMs e of None \<Rightarrow> False | Some l \<Rightarrow> now - l > stallTimeout)
      then (Some (e\<lparr>e_state := STALLED, degraded := True\<rparr>), True)
      else if consumers e = [] \<and> \<not> coolingAt now e \<and> now - touchedAtMs e > idleTtl then (None, False)
      else (Some e, False))"

fun tickEntries :: "rat \<Rightarrow> rat \<Rightarrow> rat \<Rightarrow> (string \<times> entry) list \<Rightarrow> (string \<times> entry) list \<times> nat" where
  "tickEntries now stallTimeout idleTtl [] = ([], 0)"
| "tickEntries now stallTimeout idleTtl ((k, e) # es) =
     (let (es', n) = tickEntries now stallTimeout idleTtl es
      in case tickEntry now stallTimeout idleTtl e of
           (Some e', stalled) \<Rightarrow> ((k, e') # es', if stalled then Suc n else n)
         | (None, _) \<Rightarrow> (es', n))"

definition tick :: "gateway_env \<Rightarrow> rat option \<Rightarrow> gateway \<Rightarrow> gateway" where
  "tick env nowMs gw =
     (if \<not> isEnabled env then gw
      else let now = (case nowMs of None \<Rightarrow> clock env | Some n \<Rightarrow> n);
               (es, n) = tickEntries now (stallTimeoutMs env) (idleTtlMs env) (entries gw)
           in gw\<lparr>entries := es, gw_counters := (gw_counters gw)\<lparr>stalls := stalls (gw_counters gw) + n\<rparr>\<rparr>)"

section \<open>Observation\<close>

record snapshot =
  s_cameraId :: string
  s_profile :: profile
  s_state :: source_state
  refCount :: nat
  s_consumers :: "string list"
  s_publishedUrl :: "string option"
  s_transport :: "transport option"
  s_lastPacketAt :: "int option"
  s_lastFrameAt :: "int option"
  s_consecutiveFailures :: nat
  s_lastBackoffMs :: "rat option"
  s_nextAttemptAt :: "int option"
  s_circuitOpenUntil :: "int option"

text \<open>\<open>new Date(ms)\<close> keeps the whole part of its argument.\<close>

definition toDate :: "rat option \<Rightarrow> int option" where
  "toDate t = map_option (\<lambda>ms. if ms \<ge> 0 then \<lfloor>ms\<rfloor> else \<lceil>ms\<rceil>) t"

definition toSnapshot :: "entry \<Rightarrow> snapshot" where
  "toSnapshot e = \<lparr>s_cameraId = e_cameraId e, s_profile = e_profile e, s_state = e_state e,
     refCount = length (consumers e), s_consumers = map snd (consumers e),
     s_publishedUrl = (case publishedUrl e of None \<Rightarrow> None
        | Some u \<Rightarrow> if u = [] then None else Some (sanitizeSensitiveText (Some u))),
     s_transport = e_transport e, s_lastPacketAt = toDate (lastPacketAtMs e),
     s_lastFrameAt = toDate (lastFrameAtMs e), s_consecutiveFailures = consecutiveFailures e,
     s_lastBackoffMs = lastBackoffMs e, s_nextAttemptAt = toDate (nextAttemptAtMs e),
     s_circuitOpenUntil = toDate (circuitOpenUntilMs e)\<rparr>"

definition externalConnections :: "gateway \<Rightarrow> string \<Rightarrow> nat" where
  "externalConnections gw cameraId = length (activeEntries gw cameraId)"

definition describeSource :: "gateway \<Rightarrow> string \<Rightarrow> string option \<Rightarrow> snapshot option" where
  "describeSource gw cameraId p = map_option toSnapshot (getEntry gw cameraId (normalizeSourceProfile p))"

definition describeCamera :: "gateway \<Rightarrow> string \<Rightarrow> snapshot list" where
  "describeCamera gw cameraId = map toSnapshot (filter (\<lambda>e. e_cameraId e = cameraId) (map snd (entries gw)))"

definition snapshotAll :: "gateway \<Rightarrow> snapshot list" where
  "snapshotAll gw = map (toSnapshot \<circ> snd) (entries gw)"

definition stats :: "gateway \<Rightarrow> counters \<times> (decision_reason \<times> nat) list" where
  "stats gw = (gw_counters gw, decisionCounts gw)"

text \<open>\<open>Math.floor(limit) || MAX\<close>: zero and not-a-number take the maximum.\<close>

definition recentDecisions :: "rat option \<Rightarrow> gateway \<Rightarrow> decision list" where
  "recentDecisions limit gw =
     (let m = int MAX_DECISION_LOG;
          l = (case limit of None \<Rightarrow> m | Some x \<Rightarrow> if \<lfloor>x\<rfloor> = 0 then m else \<lfloor>x\<rfloor>);
          n = nat (max 1 (min m l))
      in drop (length (decisionLog gw) - n) (decisionLog gw))"

definition reset :: "gateway \<Rightarrow> gateway" where
  "reset gw = gw\<lparr>entries := [], leases := [], decisionLog := [], decisionCounts := [], gw_counters := no_counts\<rparr>"

end
