(* ===== verification/Gateway_Invariants.thy ===== *)
theory Gateway_Invariants
  imports Source_Gateway
begin

text \<open>
  The invariants of the source register (\<open>Source_Gateway\<close>): the operations as a step relation,
  the correspondence of leases and consumers, the cap on the connections of a camera, the
  bounds of the register and of the decision log, and what follows for the routing decision.
\<close>

section \<open>Steps\<close>

text \<open>One call of an operation, the cap setting being \<open>M\<close> throughout.\<close>

inductive gw_step :: "int \<Rightarrow> gateway \<Rightarrow> gateway \<Rightarrow> bool" for M :: int where
  resolve: "maxExternalConnectionsPerCamera env = M \<Longrightarrow> gw_step M gw (fst (resolveSourceUrl env inp gw))"
| publish: "maxExternalConnectionsPerCamera env = M \<Longrightarrow> gw_step M gw (registerPublishedSource env c p url gw)"
| acquire: "maxExternalConnectionsPerCamera env = M \<Longrightarrow> gw_step M gw (fst (acquire env c p consumer gw))"
| release: "maxExternalConnectionsPerCamera env = M \<Longrightarrow> gw_step M gw (release env i gw)"
| connecting: "maxExternalConnectionsPerCamera env = M \<Longrightarrow> gw_step M gw (noteConnecting env c p gw)"
| progress: "maxExternalConnectionsPerCamera env = M \<Longrightarrow> gw_step M gw (noteProgress env c p t frame gw)"
| failure: "maxExternalConnectionsPerCamera env = M \<Longrightarrow> gw_step M gw (noteFailure env c p gw)"
| tick: "maxExternalConnectionsPerCamera env = M \<Longrightarrow> gw_step M gw (tick env nowMs gw)"
| reset: "gw_step M gw (reset gw)"

inductive_cases gw_stepE: "gw_step M gw gw'"

section \<open>The invariant\<close>

definition entry_ok :: "entry \<Rightarrow> bool" where
  "entry_ok e \<longleftrightarrow> distinct (map fst (consumers e)) \<and> (consumers e \<noteq> [] \<longrightarrow> e_state e \<noteq> IDLE) \<and>
     (e_state e = CIRCUIT_OPEN \<longrightarrow> circuitOpenUntilMs e \<noteq> None)"

text \<open>Each entry is kept under its own key.\<close>

definition keyed :: "(string \<Rightarrow> entry option) \<Rightarrow> bool" where
  "keyed E \<longleftrightarrow> (\<forall>k e. E k = Some e \<longrightarrow> k = source_key (e_cameraId e) (e_profile e) \<and> entry_ok e)"

text \<open>The leases and the consumers of the entries are the same pairs.\<close>

definition linked :: "(string \<Rightarrow> entry option) \<Rightarrow> (string \<Rightarrow> (string \<times> string) option) \<Rightarrow> bool" where
  "linked E L \<longleftrightarrow> (\<forall>i k c. L i = Some (k, c) \<longleftrightarrow>
     (\<exists>e. E k = Some e \<and> i \<in> fst ` set (consumers e) \<and> e_cameraId e = c))"

text \<open>The sources of a camera that have consumers.\<close>

definition busy_keys :: "(string \<Rightarrow> entry option) \<Rightarrow> string \<Rightarrow> string set" where
  "busy_keys E c = {k. \<exists>e. E k = Some e \<and> e_cameraId e = c \<and> consumers e \<noteq> []}"

definition busy :: "gateway \<Rightarrow> string \<Rightarrow> string set" where
  "busy gw c = busy_keys (map_of (entries gw)) c"

definition register_ok :: "gateway \<Rightarrow> bool" where
  "register_ok gw \<longleftrightarrow> distinct (map fst (entries gw)) \<and> length (entries gw) \<le> MAX_TRACKED_SOURCES \<and>
     keyed (map_of (entries gw))"

definition leases_ok :: "gateway \<Rightarrow> bool" where
  "leases_ok gw \<longleftrightarrow> distinct (map fst (leases gw)) \<and>
     (\<forall>i\<in>fst ` set (leases gw). \<exists>n\<le>leaseSeq gw. i = lease_id n) \<and>
     linked (map_of (entries gw)) (map_of (leases gw))"

definition counts_ok :: "gateway \<Rightarrow> bool" where
  "counts_ok gw \<longleftrightarrow> acquisitions (gw_counters gw) = releases (gw_counters gw) + length (leases gw) \<and>
     length (decisionLog gw) \<le> MAX_DECISION_LOG"

definition cap_ok :: "int \<Rightarrow> gateway \<Rightarrow> bool" where
  "cap_ok M gw \<longleftrightarrow> (\<forall>c. int (card (busy gw c)) \<le> M)"

definition gw_inv :: "int \<Rightarrow> gateway \<Rightarrow> bool" where
  "gw_inv M gw \<longleftrightarrow> register_ok gw \<and> leases_ok gw \<and> counts_ok gw \<and> cap_ok M gw"

lemmas gw_inv_defs = gw_inv_def register_ok_def leases_ok_def counts_ok_def cap_ok_def busy_def

lemma source_key_inj [simp]: "source_key c p = source_key d q \<longleftrightarrow> c = d \<and> p = q"
proof
  assume eq: "source_key c p = source_key d q"
  then have "last (source_key c p) = last (source_key d q)" by simp
  then have "p = q" by (cases p; cases q) (simp_all add: source_key_def)
  with eq show "c = d \<and> p = q" by (simp add: source_key_def)
qed simp

lemma keyedD: "keyed E \<Longrightarrow> E k = Some e \<Longrightarrow> k = source_key (e_cameraId e) (e_profile e) \<and> entry_ok e"
  by (simp add: keyed_def)

lemma keyed_upd:
  "keyed E \<Longrightarrow> k = source_key (e_cameraId e) (e_profile e) \<Longrightarrow> entry_ok e \<Longrightarrow> keyed (E(k \<mapsto> e))"
  by (simp add: keyed_def)

lemma keyed_del: "keyed E \<Longrightarrow> keyed (E(k := None))"
  by (simp add: keyed_def)

lemma linkedD:
  "linked E L \<Longrightarrow> L i = Some (k, c) \<longleftrightarrow> (\<exists>e. E k = Some e \<and> i \<in> fst ` set (consumers e) \<and> e_cameraId e = c)"
  by (simp add: linked_def)

lemma linkedI:
  "(\<And>i k c. L i = Some (k, c) \<longleftrightarrow> (\<exists>e. E k = Some e \<and> i \<in> fst ` set (consumers e) \<and> e_cameraId e = c)) \<Longrightarrow> linked E L"
  by (simp add: linked_def)

lemma linked_same:
  assumes l: "linked E L" and e: "E k = Some e" "e_cameraId e' = e_cameraId e" "fst ` set (consumers e') = fst ` set (consumers e)"
  shows "linked (E(k \<mapsto> e')) L"
proof (rule linkedI)
  fix i j c
  show "L i = Some (j, c) \<longleftrightarrow> (\<exists>d. (E(k \<mapsto> e')) j = Some d \<and> i \<in> fst ` set (consumers d) \<and> e_cameraId d = c)"
    by (cases "j = k") (simp_all add: linkedD [OF l] e)
qed

lemma linked_del:
  assumes l: "linked E L" and e: "E k = Some e" "consumers e = []"
  shows "linked (E(k := None)) L"
proof (rule linkedI)
  fix i j c
  show "L i = Some (j, c) \<longleftrightarrow> (\<exists>d. (E(k := None)) j = Some d \<and> i \<in> fst ` set (consumers d) \<and> e_cameraId d = c)"
    by (cases "j = k") (simp_all add: linkedD [OF l] e)
qed

lemma linked_new:
  assumes l: "linked E L" and e: "E k = None" "consumers e = []"
  shows "linked (E(k \<mapsto> e)) L"
proof (rule linkedI)
  fix i j c
  show "L i = Some (j, c) \<longleftrightarrow> (\<exists>d. (E(k \<mapsto> e)) j = Some d \<and> i \<in> fst ` set (consumers d) \<and> e_cameraId d = c)"
    by (cases "j = k") (simp_all add: linkedD [OF l] e)
qed

lemma linked_attach:
  assumes l: "linked E L" and e: "E k = Some e" "L i = None" "e_cameraId e' = e_cameraId e"
    "fst ` set (consumers e') = insert i (fst ` set (consumers e))"
  shows "linked (E(k \<mapsto> e')) (L(i \<mapsto> (k, e_cameraId e)))"
proof (rule linkedI)
  fix i' j c
  have fresh: "i \<notin> fst ` set (consumers d)" if "E m = Some d" for m d
    using linkedD [OF l, of i m "e_cameraId d"] e(2) that by simp
  show "(L(i \<mapsto> (k, e_cameraId e))) i' = Some (j, c) \<longleftrightarrow>
      (\<exists>d. (E(k \<mapsto> e')) j = Some d \<and> i' \<in> fst ` set (consumers d) \<and> e_cameraId d = c)"
    by (cases "j = k"; cases "i' = i") (use linkedD [OF l, of i' j c] e fresh in auto)
qed

lemma linked_release:
  assumes l: "linked E L" and e: "E k = Some e" "L i = Some (k, c)" "e_cameraId e' = e_cameraId e"
    "fst ` set (consumers e') = fst ` set (consumers e) - {i}"
  shows "linked (E(k \<mapsto> e')) (L(i := None))"
proof (rule linkedI)
  fix i' j c'
  have own: "m = k" if "E m = Some d" "i \<in> fst ` set (consumers d)" for m d
    using linkedD [OF l, of i m "e_cameraId d"] e(2) that by simp
  show "(L(i := None)) i' = Some (j, c') \<longleftrightarrow>
      (\<exists>d. (E(k \<mapsto> e')) j = Some d \<and> i' \<in> fst ` set (consumers d) \<and> e_cameraId d = c')"
    by (cases "j = k"; cases "i' = i") (use linkedD [OF l, of i' j c'] e own in auto)
qed

lemma busy_same:
  "E k = Some e \<Longrightarrow> e_cameraId e' = e_cameraId e \<Longrightarrow> (consumers e' = [] \<longleftrightarrow> consumers e = []) \<Longrightarrow>
   busy_keys (E(k \<mapsto> e')) c = busy_keys E c"
  by (auto simp: busy_keys_def)

lemma busy_del: "E k = Some e \<Longrightarrow> consumers e = [] \<Longrightarrow> busy_keys (E(k := None)) c = busy_keys E c"
  by (auto simp: busy_keys_def)

lemma busy_new: "E k = None \<Longrightarrow> consumers e = [] \<Longrightarrow> busy_keys (E(k \<mapsto> e)) c = busy_keys E c"
  by (auto simp: busy_keys_def)

lemma busy_upd_subset: "busy_keys (E(k \<mapsto> e')) c \<subseteq> (if e_cameraId e' = c then insert k (busy_keys E c) else busy_keys E c)"
  by (auto simp: busy_keys_def)

lemma finite_busy [simp]: "finite (busy_keys (map_of es) c)"
  by (rule finite_subset [of _ "dom (map_of es)"]) (auto simp: busy_keys_def finite_dom_map_of)

text \<open>The invariant depends only on the entries, the leases, the two counters and the log.\<close>

lemma gw_inv_cong:
  "gw_inv M gw \<Longrightarrow> entries gw' = entries gw \<Longrightarrow> leases gw' = leases gw \<Longrightarrow> leaseSeq gw \<le> leaseSeq gw' \<Longrightarrow>
   acquisitions (gw_counters gw') = acquisitions (gw_counters gw) \<Longrightarrow>
   releases (gw_counters gw') = releases (gw_counters gw) \<Longrightarrow>
   length (decisionLog gw') \<le> MAX_DECISION_LOG \<Longrightarrow> gw_inv M gw'"
  unfolding gw_inv_defs by simp (meson le_trans)

lemma gw_inv_entry:
  "gw_inv M gw \<Longrightarrow> map_of (entries gw) k = Some e \<Longrightarrow> k = source_key (e_cameraId e) (e_profile e) \<and> entry_ok e"
  unfolding gw_inv_def register_ok_def by (blast dest: keyedD)

lemma map_of_put [simp]:
  "map_of (entries (putEntry gw e)) = (map_of (entries gw))(source_key (e_cameraId e) (e_profile e) \<mapsto> e)"
  by (simp add: putEntry_def update_conv')

lemma putEntry_fields [simp]:
  "leases (putEntry gw e) = leases gw" "decisionLog (putEntry gw e) = decisionLog gw"
  "leaseSeq (putEntry gw e) = leaseSeq gw" "gw_counters (putEntry gw e) = gw_counters gw"
  by (simp_all add: putEntry_def)

lemma putEntry_distinct: "distinct (map fst (entries gw)) \<Longrightarrow> distinct (map fst (entries (putEntry gw e)))"
  by (simp add: putEntry_def distinct_update)

lemma putEntry_length:
  "map_of (entries gw) (source_key (e_cameraId e) (e_profile e)) \<noteq> None \<Longrightarrow>
   length (entries (putEntry gw e)) = length (entries gw)"
  by (simp add: putEntry_def length_update_present)

text \<open>Writing back an entry with the same consumers.\<close>

lemma put_same:
  assumes inv: "gw_inv M gw" and e: "map_of (entries gw) (source_key c p) = Some e"
    and e': "e_cameraId e' = c" "e_profile e' = p" "consumers e' = consumers e" "entry_ok e'"
  shows "gw_inv M (putEntry gw e')"
proof -
  have ce: "e_cameraId e' = e_cameraId e" using gw_inv_entry [OF inv e] e' by simp
  have same: "linked (map_of (entries gw)) L \<Longrightarrow> linked ((map_of (entries gw))(source_key c p \<mapsto> e')) L" for L
    by (rule linked_same [where E = "map_of (entries gw)", OF _ e ce]) (simp_all add: e')
  have busy: "busy_keys ((map_of (entries gw))(source_key c p \<mapsto> e')) d = busy_keys (map_of (entries gw)) d" for d
    by (rule busy_same [where E = "map_of (entries gw)", OF e ce]) (simp add: e')
  have "length (entries (putEntry gw e')) = length (entries gw)"
    by (rule putEntry_length) (simp add: e e')
  then show ?thesis
    using inv putEntry_distinct [of gw e'] keyed_upd [OF _ _ e'(4)] same busy
    unfolding gw_inv_defs map_of_put putEntry_fields e'(1,2) by simp
qed

lemma del_idle:
  assumes inv: "gw_inv M gw" and e: "map_of (entries gw) k = Some e" "consumers e = []"
  shows "gw_inv M (gw\<lparr>entries := AList.delete k (entries gw)\<rparr>)"
  using inv keyed_del linked_del [where E = "map_of (entries gw)", OF _ e]
    busy_del [where E = "map_of (entries gw)", OF e] length_delete_le [of k "entries gw"]
  by (simp add: gw_inv_defs delete_conv' distinct_delete)

lemma put_new:
  assumes inv: "gw_inv M gw" and none: "map_of (entries gw) (source_key c p) = None"
    and room: "length (entries gw) < MAX_TRACKED_SOURCES"
  shows "gw_inv M (putEntry gw (newEntry c p now))"
proof -
  have new: "e_cameraId (newEntry c p now) = c" "e_profile (newEntry c p now) = p" "consumers (newEntry c p now) = []"
    "entry_ok (newEntry c p now)" by (simp_all add: newEntry_def entry_ok_def)
  have "length (entries (putEntry gw (newEntry c p now))) \<le> MAX_TRACKED_SOURCES"
    using room none by (simp add: putEntry_def new length_update_absent)
  then show ?thesis
    using inv putEntry_distinct [of gw "newEntry c p now"] keyed_upd [OF _ _ new(4)] linked_new [where E = "map_of (entries gw)", OF _ none new(3)]
      busy_new [where E = "map_of (entries gw)", OF none new(3)] by (simp add: gw_inv_defs new)
qed

lemma oldestIdle_mem:
  "oldestIdle es old = Some (k, t) \<Longrightarrow> old = Some (k, t) \<or> (\<exists>e. (k, e) \<in> set es \<and> consumers e = [])"
proof (induction es arbitrary: old)
  case (Cons ke es)
  obtain k' e where ke: "ke = (k', e)" by fastforce
  show ?case
  proof (cases "consumers e = []")
    case True
    with Cons.prems have "oldestIdle es old = Some (k, t) \<or> oldestIdle es (Some (k', touchedAtMs e)) = Some (k, t)"
      by (auto simp: ke split: option.splits prod.splits if_splits)
    then show ?thesis using Cons.IH [of old] Cons.IH [of "Some (k', touchedAtMs e)"] True ke by auto
  next
    case False
    then show ?thesis using Cons.IH [of old] Cons.prems ke by auto
  qed
qed simp

lemma evictOneIdle_idle:
  assumes inv: "gw_inv M gw" and ev: "evictOneIdle gw = (gw', True)"
  obtains k e where "map_of (entries gw) k = Some e" "consumers e = []" "gw' = gw\<lparr>entries := AList.delete k (entries gw)\<rparr>"
proof -
  from ev obtain k t where k: "oldestIdle (entries gw) None = Some (k, t)"
      and gw': "gw' = gw\<lparr>entries := AList.delete k (entries gw)\<rparr>"
    by (auto simp: evictOneIdle_def split: option.splits)
  from oldestIdle_mem [OF k] obtain e where "(k, e) \<in> set (entries gw)" "consumers e = []" by auto
  moreover have "map_of (entries gw) k = Some e"
    using calculation(1) inv by (simp add: gw_inv_def register_ok_def)
  ultimately show ?thesis using gw' by (intro that)
qed

lemma ensureEntry_inv:
  assumes inv: "gw_inv M gw" and ens: "ensureEntry env c p gw = (gw', r)"
  shows "gw_inv M gw'" and "leases gw' = leases gw" and "leaseSeq gw' = leaseSeq gw"
    and "gw_counters gw' = gw_counters gw" and "decisionLog gw' = decisionLog gw" and "busy gw' d = busy gw d"
    and "r = Some e \<Longrightarrow> map_of (entries gw') (source_key c p) = Some e \<and> e_cameraId e = c \<and> e_profile e = p \<and>
      (map_of (entries gw) (source_key c p) = Some e \<or> map_of (entries gw) (source_key c p) = None \<and> consumers e = [])"
proof -
  have all: "gw_inv M gw' \<and> leases gw' = leases gw \<and> leaseSeq gw' = leaseSeq gw \<and> gw_counters gw' = gw_counters gw \<and>
    decisionLog gw' = decisionLog gw \<and> busy gw' d = busy gw d \<and>
    (r = Some e \<longrightarrow> map_of (entries gw') (source_key c p) = Some e \<and> e_cameraId e = c \<and> e_profile e = p \<and>
      (map_of (entries gw) (source_key c p) = Some e \<or> map_of (entries gw) (source_key c p) = None \<and> consumers e = []))"
  proof (cases "getEntry gw c p")
    case (Some e')
    with ens inv gw_inv_entry [OF inv, of "source_key c p" e'] show ?thesis
      by (auto simp: ensureEntry_def getEntry_def)
  next
    case None
    define n where "n = newEntry c p (clock env)"
    have new: "e_cameraId n = c" "e_profile n = p" "consumers n = []" by (simp_all add: n_def newEntry_def)
    show ?thesis
    proof (cases "length (entries gw) \<ge> MAX_TRACKED_SOURCES")
      case False
      with None ens have "gw' = putEntry gw n" "r = Some n"
        by (auto simp: ensureEntry_def Let_def n_def)
      with put_new [OF inv, of c p "clock env", folded n_def] False None new busy_new [where E = "map_of (entries gw)", OF _ new(3)]
      show ?thesis by (auto simp: getEntry_def busy_def)
    next
      case True
      show ?thesis
      proof (cases "snd (evictOneIdle gw)")
        case False
        with True None ens show ?thesis using inv
          by (auto simp: ensureEntry_def Let_def evictOneIdle_def split: prod.splits option.splits)
      next
        case ev: True
        obtain gw1 where gw1: "evictOneIdle gw = (gw1, True)" using ev by (cases "evictOneIdle gw") auto
        obtain k e0 where k: "map_of (entries gw) k = Some e0" "consumers e0 = []"
            "gw1 = gw\<lparr>entries := AList.delete k (entries gw)\<rparr>" by (rule evictOneIdle_idle [OF inv gw1])
        have inv1: "gw_inv M gw1" using del_idle [OF inv k(1,2)] k(3) by simp
        have "Suc (length (entries gw1)) = length (entries gw)"
          using length_delete_present [of "entries gw" k] inv k by (simp add: gw_inv_defs)
        then have room: "length (entries gw1) < MAX_TRACKED_SOURCES"
          using inv by (simp add: gw_inv_defs)
        have none: "map_of (entries gw1) (source_key c p) = None"
          using None k(3) by (simp add: getEntry_def delete_conv')
        have gw': "gw' = putEntry gw1 n" "r = Some n"
          using True None ens gw1 by (auto simp: ensureEntry_def Let_def n_def)
        have "busy gw1 d = busy gw d"
          using busy_del [where E = "map_of (entries gw)", OF k(1,2)] k(3) by (simp add: busy_def delete_conv')
        with put_new [OF inv1 none room, of "clock env", folded n_def] gw' new none None busy_new [where E = "map_of (entries gw1)", OF _ new(3)]
        show ?thesis by (auto simp: getEntry_def busy_def k(3))
      qed
    qed
  qed
  show "gw_inv M gw'" and "leases gw' = leases gw" and "leaseSeq gw' = leaseSeq gw"
    and "gw_counters gw' = gw_counters gw" and "decisionLog gw' = decisionLog gw" and "busy gw' d = busy gw d"
    using all by blast+
  show "r = Some e \<Longrightarrow> map_of (entries gw') (source_key c p) = Some e \<and> e_cameraId e = c \<and> e_profile e = p \<and>
      (map_of (entries gw) (source_key c p) = Some e \<or> map_of (entries gw) (source_key c p) = None \<and> consumers e = [])"
    using all by blast
qed

text \<open>The operations that rewrite one entry and keep its consumers.\<close>

lemma note_inv:
  assumes inv: "gw_inv M gw" and ens: "ensureEntry env c p gw = (gw', Some e)"
    and e': "e_cameraId e' = e_cameraId e" "e_profile e' = e_profile e" "consumers e' = consumers e"
    and ok: "entry_ok e \<Longrightarrow> entry_ok e'"
  shows "gw_inv M (putEntry gw' e')"
proof -
  note inv' = ensureEntry_inv(1) [OF inv ens]
  have e: "map_of (entries gw') (source_key c p) = Some e" "e_cameraId e = c" "e_profile e = p"
    using ensureEntry_inv(7) [OF inv ens] by auto
  have "entry_ok e" using gw_inv_entry [OF inv' e(1)] by blast
  from ok [OF this] show ?thesis
    by (intro put_same [OF inv' e(1)]) (simp_all add: e e')
qed

lemma resolve_keeps: "gw_inv M gw \<Longrightarrow> gw_inv M (fst (resolveSourceUrl env inp gw))"
  by (erule gw_inv_cong) (simp_all add: resolveSourceUrl_def recordDecision_def Let_def MAX_DECISION_LOG_def)

lemma entry_op_keeps:
  assumes inv: "gw_inv M gw"
    and f: "\<And>e. e_cameraId (f e) = e_cameraId e" "\<And>e. e_profile (f e) = e_profile e"
      "\<And>e. consumers (f e) = consumers e" "\<And>e. entry_ok e \<Longrightarrow> entry_ok (f e)"
  shows "gw_inv M (case ensureEntry env c p gw of (gw', None) \<Rightarrow> gw' | (gw', Some e) \<Rightarrow> putEntry gw' (f e))"
proof -
  obtain gw' r where ens: "ensureEntry env c p gw = (gw', r)" by fastforce
  show ?thesis
  proof (cases r)
    case None
    with ens ensureEntry_inv(1) [OF inv ens] show ?thesis by simp
  next
    case (Some e)
    with ens have ens': "ensureEntry env c p gw = (gw', Some e)" by simp
    show ?thesis unfolding ens' using note_inv [OF inv ens' f(1-3)] f(4) by simp
  qed
qed

lemma publish_keeps: "gw_inv M gw \<Longrightarrow> gw_inv M (registerPublishedSource env c p url gw)"
  unfolding registerPublishedSource_def
  by (simp, intro impI, rule entry_op_keeps) (simp_all add: entry_ok_def)

lemma connecting_keeps: "gw_inv M gw \<Longrightarrow> gw_inv M (noteConnecting env c p gw)"
  unfolding noteConnecting_def
  by (simp, intro impI, rule entry_op_keeps) (simp_all add: entry_ok_def)

lemma counters_keep:
  "gw_inv M gw \<Longrightarrow> acquisitions cs = acquisitions (gw_counters gw) \<Longrightarrow> releases cs = releases (gw_counters gw) \<Longrightarrow>
   gw_inv M (gw\<lparr>gw_counters := cs\<rparr>)"
  by (rule gw_inv_cong) (auto simp: gw_inv_defs)

lemma recoveries_keep: "gw_inv M gw \<Longrightarrow> gw_inv M (gw\<lparr>streamRecoveries := xs\<rparr>)"
  by (rule gw_inv_cong) (auto simp: gw_inv_defs)

lemma progress_keeps:
  assumes inv: "gw_inv M gw" shows "gw_inv M (noteProgress env c p t frame gw)"
proof (cases "isEnabled env")
  case True
  obtain gw' r where ens: "ensureEntry env c (normalizeSourceProfile p) gw = (gw', r)" by fastforce
  show ?thesis
  proof (cases r)
    case None
    with ens ensureEntry_inv(1) [OF inv ens] True show ?thesis by (simp add: noteProgress_def)
  next
    case (Some e)
    have "gw_inv M (putEntry gw' (progressed env t frame e))"
      by (rule note_inv [OF inv, of env c "normalizeSourceProfile p" gw' e])
        (use ens Some in \<open>auto simp: progressed_def entry_ok_def\<close>)
    then have "gw_inv M ((putEntry gw' (progressed env t frame e))\<lparr>gw_counters := cs, streamRecoveries := xs\<rparr>)"
      if "acquisitions cs = acquisitions (gw_counters gw')" "releases cs = releases (gw_counters gw')" for cs xs
      using that recoveries_keep counters_keep by (metis putEntry_fields(4))
    with \<open>gw_inv M (putEntry gw' (progressed env t frame e))\<close> ens Some True show ?thesis
      by (simp add: noteProgress_def Let_def)
  qed
qed (simp add: noteProgress_def inv)

lemma failed_fields:
  "e_cameraId (fst (failed env e)) = e_cameraId e" "e_profile (fst (failed env e)) = e_profile e"
  "consumers (fst (failed env e)) = consumers e" "entry_ok e \<Longrightarrow> entry_ok (fst (failed env e))"
  by (simp_all add: failed_def Let_def entry_ok_def)

lemma failure_keeps:
  assumes inv: "gw_inv M gw" shows "gw_inv M (noteFailure env c p gw)"
proof (cases "isEnabled env")
  case True
  obtain gw' r where ens: "ensureEntry env c (normalizeSourceProfile p) gw = (gw', r)" by fastforce
  show ?thesis
  proof (cases r)
    case None
    with ens ensureEntry_inv(1) [OF inv ens] True show ?thesis by (simp add: noteFailure_def)
  next
    case (Some e)
    have "gw_inv M (putEntry gw' (fst (failed env e)))"
      by (rule note_inv [OF inv, of env c "normalizeSourceProfile p" gw' e])
        (use ens Some failed_fields in auto)
    with ens Some True show ?thesis
      by (auto simp: noteFailure_def Let_def intro!: counters_keep split: prod.split)
  qed
qed (simp add: noteFailure_def inv)

subsection \<open>The sweep\<close>

definition sweeps :: "(entry \<Rightarrow> entry option) \<Rightarrow> bool" where
  "sweeps g \<longleftrightarrow> (\<forall>e. (g e = None \<longrightarrow> consumers e = []) \<and>
     (\<forall>e'. g e = Some e' \<longrightarrow> e_cameraId e' = e_cameraId e \<and> e_profile e' = e_profile e \<and>
        consumers e' = consumers e \<and> (entry_ok e \<longrightarrow> entry_ok e')))"

lemma tickEntry_sweeps: "sweeps (\<lambda>e. fst (tickEntry now s t e))"
  by (auto simp: sweeps_def tickEntry_def entry_ok_def)

lemma sweep_keyed: "sweeps g \<Longrightarrow> keyed E \<Longrightarrow> keyed (\<lambda>k. Option.bind (E k) g)"
  by (auto simp: sweeps_def keyed_def bind_eq_Some_conv)

lemma sweep_busy:
  assumes "sweeps g"
  shows "busy_keys (\<lambda>k. Option.bind (E k) g) c = busy_keys E c"
proof -
  have "(\<exists>e'. Option.bind (E k) g = Some e' \<and> e_cameraId e' = c \<and> consumers e' \<noteq> []) \<longleftrightarrow>
      (\<exists>e. E k = Some e \<and> e_cameraId e = c \<and> consumers e \<noteq> [])" for k
    using assms unfolding sweeps_def by (cases "E k"; cases "g (the (E k))") fastforce+
  then show ?thesis by (simp add: busy_keys_def)
qed

lemma sweep_linked:
  assumes g: "sweeps g" and "linked E L"
  shows "linked (\<lambda>k. Option.bind (E k) g) L"
proof (rule linkedI)
  fix i k c
  have "(\<exists>e'. Option.bind (E k) g = Some e' \<and> i \<in> fst ` set (consumers e') \<and> e_cameraId e' = c) \<longleftrightarrow>
      (\<exists>e. E k = Some e \<and> i \<in> fst ` set (consumers e) \<and> e_cameraId e = c)"
  proof (cases "E k")
    case (Some e)
    have same: "g e = Some e' \<Longrightarrow> e_cameraId e' = e_cameraId e \<and> consumers e' = consumers e" for e'
      using g unfolding sweeps_def by blast
    show ?thesis
    proof (cases "g e")
      case None
      then have "consumers e = []" using g unfolding sweeps_def by blast
      with Some None show ?thesis by simp
    next
      case (Some e')
      from same [OF this] Some \<open>E k = Some e\<close> show ?thesis by simp
    qed
  qed simp
  then show "L i = Some (k, c) \<longleftrightarrow>
      (\<exists>e'. Option.bind (E k) g = Some e' \<and> i \<in> fst ` set (consumers e') \<and> e_cameraId e' = c)"
    by (simp add: linkedD [OF assms(2)])
qed

lemma tickEntries_keys:
  "set (map fst (fst (tickEntries now s t es))) \<subseteq> set (map fst es) \<and> length (fst (tickEntries now s t es)) \<le> length es"
proof (induction es)
  case (Cons ke es)
  obtain k e where ke: "ke = (k, e)" by fastforce
  obtain es' n where es': "tickEntries now s t es = (es', n)" by fastforce
  obtain r b where r: "tickEntry now s t e = (r, b)" by fastforce
  from Cons show ?case by (cases r) (auto simp: ke es' r)
qed simp

lemma tickEntries_spec:
  "distinct (map fst es) \<Longrightarrow> distinct (map fst (fst (tickEntries now s t es))) \<and>
   map_of (fst (tickEntries now s t es)) = (\<lambda>k. Option.bind (map_of es k) (\<lambda>e. fst (tickEntry now s t e)))"
proof (induction es)
  case (Cons ke es)
  obtain k e where ke: "ke = (k, e)" by fastforce
  obtain es' n where es': "tickEntries now s t es = (es', n)" by fastforce
  obtain r b where r: "tickEntry now s t e = (r, b)" by fastforce
  have IH: "distinct (map fst es')" "map_of es' = (\<lambda>k. Option.bind (map_of es k) (\<lambda>e. fst (tickEntry now s t e)))"
    using Cons es' by auto
  have notin: "k \<notin> set (map fst es')" "map_of es k = None"
    using Cons.prems tickEntries_keys [of now s t es] by (auto simp: ke es' map_of_eq_None_iff)
  show ?case
    by (cases r) (use IH notin r in \<open>auto simp: ke es' fun_eq_iff\<close>)
qed simp

lemma tick_keeps:
  assumes inv: "gw_inv M gw" shows "gw_inv M (tick env nowMs gw)"
proof (cases "isEnabled env")
  case True
  let ?now = "case nowMs of None \<Rightarrow> clock env | Some n \<Rightarrow> n"
  obtain es n where es: "tickEntries ?now (stallTimeoutMs env) (idleTtlMs env) (entries gw) = (es, n)" by fastforce
  note sw = tickEntry_sweeps [of ?now "stallTimeoutMs env" "idleTtlMs env"]
  have d: "distinct (map fst (entries gw))" using inv by (simp add: gw_inv_defs)
  have spec: "distinct (map fst es)"
    "map_of es = (\<lambda>k. Option.bind (map_of (entries gw) k) (\<lambda>e. fst (tickEntry ?now (stallTimeoutMs env) (idleTtlMs env) e)))"
    using tickEntries_spec [OF d, of ?now "stallTimeoutMs env" "idleTtlMs env"] by (simp_all add: es)
  have len: "length es \<le> length (entries gw)"
    using tickEntries_keys [of ?now "stallTimeoutMs env" "idleTtlMs env" "entries gw"] by (simp add: es)
  have "gw_inv M (gw\<lparr>entries := es\<rparr>)"
    using inv spec(1) len sweep_keyed [OF sw] sweep_linked [OF sw] sweep_busy [OF sw]
    unfolding gw_inv_defs by (simp add: spec(2))
  then show ?thesis using True
    using counters_keep [of M "gw\<lparr>entries := es\<rparr>"] by (simp add: tick_def es)
qed (simp add: tick_def inv)

lemma reset_keeps: "0 \<le> M \<Longrightarrow> gw_inv M (reset gw)"
  by (simp add: reset_def gw_inv_defs keyed_def linked_def busy_keys_def no_counts_def)

lemma initial_inv: "0 \<le> M \<Longrightarrow> gw_inv M initial_gateway"
  by (simp add: initial_gateway_def gw_inv_defs keyed_def linked_def busy_keys_def no_counts_def)

subsection \<open>Leases\<close>

lemma dom_update_consumers: "fst ` set (AList.update i c cs) = insert i (fst ` set cs)"
  by (simp add: dom_update)

lemma attach_inv:
  assumes inv: "gw_inv M gw" and e: "map_of (entries gw) (source_key c p) = Some e" "e_cameraId e = c" "e_profile e = p"
    and fresh: "map_of (leases gw) i = None" and i: "i = lease_id n" "n \<le> leaseSeq gw"
    and cap: "int (card (insert (source_key c p) (busy gw c))) \<le> M"
  shows "gw_inv M (attachConsumer env i consumer e gw)"
proof -
  define e' where "e' = e\<lparr>e_state := (if e_state e = IDLE then CONNECTING else e_state e),
    consumers := AList.update i consumer (consumers e), touchedAtMs := clock env\<rparr>"
  have e': "e_cameraId e' = c" "e_profile e' = p" "fst ` set (consumers e') = insert i (fst ` set (consumers e))"
    by (simp_all add: e'_def e dom_update)
  let ?E = "map_of (entries gw)" and ?k = "source_key c p"
  have ok: "entry_ok e'"
    using gw_inv_entry [OF inv e(1)] by (simp add: entry_ok_def e'_def distinct_update)
  have link: "linked (?E(?k \<mapsto> e')) ((map_of (leases gw))(i \<mapsto> (?k, c)))"
    using linked_attach [where E = ?E and L = "map_of (leases gw)" and k = ?k and e = e and e' = e' and i = i]
      inv e fresh e' by (simp add: gw_inv_defs)
  have busy: "int (card (busy_keys (?E(?k \<mapsto> e')) d)) \<le> M" for d
  proof -
    have "busy_keys (?E(?k \<mapsto> e')) d \<subseteq> (if c = d then insert ?k (busy gw d) else busy gw d)"
      unfolding busy_def by (rule subset_trans [OF busy_upd_subset]) (simp add: e'(1))
    then have "card (busy_keys (?E(?k \<mapsto> e')) d) \<le> card (if c = d then insert ?k (busy gw d) else busy gw d)"
      by (rule card_mono [rotated]) (simp add: busy_def)
    moreover have "int (card (if c = d then insert ?k (busy gw d) else busy gw d)) \<le> M"
      using cap inv by (cases "c = d") (simp_all add: gw_inv_defs)
    ultimately show ?thesis by linarith
  qed
  have len: "length (entries (putEntry gw e')) = length (entries gw)"
    by (rule putEntry_length) (simp add: e e')
  have "i \<notin> fst ` set (leases gw)" using fresh by (simp add: map_of_eq_None_iff)
  then have l: "distinct (map fst (AList.update i (?k, c) (leases gw)))"
    "fst ` set (AList.update i (?k, c) (leases gw)) = insert i (fst ` set (leases gw))"
    "length (AList.update i (?k, c) (leases gw)) = Suc (length (leases gw))"
    using inv by (simp_all add: distinct_update dom_update gw_inv_defs length_update_absent fresh)
  have "attachConsumer env i consumer e gw = (putEntry gw e')\<lparr>leases := AList.update i (?k, c) (leases gw),
      gw_counters := (gw_counters gw)\<lparr>acquisitions := Suc (acquisitions (gw_counters gw))\<rparr>\<rparr>"
    by (simp add: attachConsumer_def e'_def e Let_def)
  moreover have "keyed (?E(?k \<mapsto> e'))" using inv keyed_upd [OF _ _ ok] e' by (simp add: gw_inv_defs)
  ultimately show ?thesis
    using inv len l link busy i putEntry_distinct [of gw e'] unfolding gw_inv_defs
    by (auto simp: update_conv' e')
qed

lemma lease_id_inj [simp]: "lease_id m = lease_id n \<longleftrightarrow> m = n"
  by (auto simp: lease_id_def dest: dec_digits_inj)

lemma active_entry:
  assumes "gw_inv M gw" "e \<in> set (activeEntries gw c)"
  shows "e_cameraId e = c \<and> map_of (entries gw) (source_key c (e_profile e)) = Some e"
proof -
  from assms(2) obtain k where k: "(k, e) \<in> set (entries gw)" and c: "e_cameraId e = c"
    by (auto simp: activeEntries_def)
  from k assms(1) have m: "map_of (entries gw) k = Some e" by (simp add: gw_inv_defs)
  with gw_inv_entry [OF assms(1) m] c show ?thesis by simp
qed

lemma busy_others:
  assumes inv: "gw_inv M gw" and own: "\<And>e. getEntry gw c p = Some e \<Longrightarrow> consumers e = []"
  shows "busy gw c \<subseteq> (\<lambda>e. source_key c (e_profile e)) ` set (filter (\<lambda>e. e_profile e \<noteq> p) (activeEntries gw c))"
proof
  fix k assume "k \<in> busy gw c"
  then obtain e where e: "map_of (entries gw) k = Some e" "e_cameraId e = c" "consumers e \<noteq> []"
    by (auto simp: busy_def busy_keys_def)
  have k: "k = source_key c (e_profile e)" using gw_inv_entry [OF inv e(1)] e(2) by simp
  have "e_profile e \<noteq> p" using own e k by (auto simp: getEntry_def)
  moreover have "e \<in> set (activeEntries gw c)"
    using map_of_SomeD [OF e(1)] e(2,3) by (force simp: activeEntries_def isActive_def)
  ultimately show "k \<in> (\<lambda>e. source_key c (e_profile e)) ` set (filter (\<lambda>e. e_profile e \<noteq> p) (activeEntries gw c))"
    using k by auto
qed

lemma find_or_hd_mem:
  "(case find P xs of Some e \<Rightarrow> Some e | None \<Rightarrow> Some (hd xs)) = Some e \<Longrightarrow> xs \<noteq> [] \<Longrightarrow> e \<in> set xs"
  by (auto split: option.splits dest: find_Some_mem)

lemma pickSubstitute_mem:
  assumes "pickSubstitute es = Some e" shows "e \<in> set es"
proof -
  define online where "online = filter (\<lambda>e. e_state e = ONLINE) es"
  define pool where "pool = (if online \<noteq> [] then online else es)"
  have "es \<noteq> []" using assms by (auto simp: pickSubstitute_def)
  then have "(case find (\<lambda>e. e_profile e = main) pool of Some e \<Rightarrow> Some e | None \<Rightarrow> Some (hd pool)) = Some e"
    using assms unfolding pickSubstitute_def Let_def online_def [symmetric] pool_def [symmetric] by simp
  moreover from \<open>es \<noteq> []\<close> have "pool \<noteq> []" "set pool \<subseteq> set es" by (auto simp: pool_def online_def)
  ultimately show ?thesis using find_or_hd_mem by fast
qed

lemma pickSubstitute_None: "pickSubstitute es = None \<longleftrightarrow> es = []"
  by (auto simp: pickSubstitute_def Let_def split: option.splits)

lemma maxExternal_pos: "1 \<le> maxExternalConnectionsPerCamera env"
  by (simp add: maxExternalConnectionsPerCamera_def)

text \<open>The substitution of the cap, seen from outside: who lends, and when nobody needs to.\<close>

lemma capSubstitute_Some:
  assumes "capSubstitute env c p gw = Some e"
  shows "(\<forall>d. getEntry gw c p = Some d \<longrightarrow> consumers d = []) \<and> e \<in> set (activeEntries gw c) \<and> e_profile e \<noteq> p"
proof -
  have "pickSubstitute (filter (\<lambda>e. e_profile e \<noteq> p) (activeEntries gw c)) = Some e"
    using assms by (auto simp: capSubstitute_def Let_def split: option.splits if_splits)
  from pickSubstitute_mem [OF this] assms show ?thesis
    by (auto simp: capSubstitute_def Let_def split: option.splits if_splits)
qed

lemma capSubstitute_None:
  assumes "capSubstitute env c p gw = None"
  shows "(\<exists>d. getEntry gw c p = Some d \<and> consumers d \<noteq> []) \<or>
    (\<forall>d. getEntry gw c p = Some d \<longrightarrow> consumers d = []) \<and>
      int (length (filter (\<lambda>e. e_profile e \<noteq> p) (activeEntries gw c))) < maxExternalConnectionsPerCamera env"
  using assms maxExternal_pos [of env] pickSubstitute_None [of "filter (\<lambda>e. e_profile e \<noteq> p) (activeEntries gw c)"]
  by (auto simp: capSubstitute_def Let_def split: option.splits if_splits)

lemma two_profiles: "p \<noteq> q \<Longrightarrow> r \<noteq> q \<Longrightarrow> p = (r :: profile)"
  by (cases p; cases q; cases r) auto

lemma acquire_keeps:
  assumes inv0: "gw_inv M gw0" and M: "maxExternalConnectionsPerCamera env = M"
  shows "gw_inv M (fst (acquire env c praw consumer gw0))"
proof -
  define p where "p = normalizeSourceProfile praw"
  define gw where "gw = gw0\<lparr>leaseSeq := Suc (leaseSeq gw0)\<rparr>"
  define i where "i = lease_id (Suc (leaseSeq gw0))"
  have inv: "gw_inv M gw" unfolding gw_def by (rule gw_inv_cong [OF inv0]) (use inv0 in \<open>auto simp: gw_inv_defs\<close>)
  have seq: "leaseSeq gw = Suc (leaseSeq gw0)" by (simp add: gw_def)
  have fresh: "map_of (leases gw) i = None"
    using inv0 by (auto simp: gw_inv_defs gw_def i_def map_of_eq_None_iff)
  have acq: "fst (acquire env c praw consumer gw0) =
    (if \<not> isEnabled env then gw
     else case capSubstitute env c p gw of
       Some e \<Rightarrow> attachConsumer env i consumer e
         (gw\<lparr>gw_counters := (gw_counters gw)\<lparr>cappedAcquisitions := Suc (cappedAcquisitions (gw_counters gw))\<rparr>\<rparr>)
     | None \<Rightarrow> (case ensureEntry env c p gw of (gw', None) \<Rightarrow> gw' | (gw', Some e) \<Rightarrow> attachConsumer env i consumer e gw'))"
    by (simp add: acquire_def Let_def gw_def i_def p_def split: option.split prod.split)
  show ?thesis
  proof (cases "capSubstitute env c p gw")
    case (Some e)
    note sub = capSubstitute_Some [OF Some]
    have e: "e_cameraId e = c" "map_of (entries gw) (source_key c (e_profile e)) = Some e"
      using active_entry [OF inv] sub by simp_all
    let ?gw = "gw\<lparr>gw_counters := (gw_counters gw)\<lparr>cappedAcquisitions := Suc (cappedAcquisitions (gw_counters gw))\<rparr>\<rparr>"
    have inv': "gw_inv M ?gw" by (rule counters_keep [OF inv]) simp_all
    have "busy gw c \<subseteq> {source_key c (e_profile e)}"
    proof -
      have "busy gw c \<subseteq> (\<lambda>e. source_key c (e_profile e)) ` set (filter (\<lambda>e. e_profile e \<noteq> p) (activeEntries gw c))"
        by (rule busy_others [OF inv]) (use sub in blast)
      also have "\<dots> \<subseteq> {source_key c (e_profile e)}"
        using sub two_profiles [of "e_profile e" p] by auto
      finally show ?thesis .
    qed
    then have "card (insert (source_key c (e_profile e)) (busy ?gw c)) \<le> card {source_key c (e_profile e)}"
      by (intro card_mono) (auto simp: busy_def)
    then have cap: "int (card (insert (source_key c (e_profile e)) (busy ?gw c))) \<le> M"
      using maxExternal_pos [of env] M by simp
    have "gw_inv M (attachConsumer env i consumer e ?gw)"
      by (rule attach_inv [OF inv' _ e(1) refl _ i_def _ cap]) (use e fresh seq in simp_all)
    then show ?thesis unfolding acq using inv Some by simp
  next
    case None
    obtain gw' r where ens: "ensureEntry env c p gw = (gw', r)" by fastforce
    note en = ensureEntry_inv [OF inv ens]
    show ?thesis
    proof (cases r)
      case r: None
      show ?thesis unfolding acq using inv None ens r en(1) by simp
    next
      case (Some e)
      note e = en(7) [OF Some]
      have cap: "int (card (insert (source_key c p) (busy gw' c))) \<le> M"
      proof (cases "consumers e = []")
        case False
        then have "source_key c p \<in> busy gw' c" using e by (auto simp: busy_def busy_keys_def)
        then show ?thesis using en(1) by (simp add: insert_absorb gw_inv_defs)
      next
        case True
        with e have own: "getEntry gw c p = Some d \<Longrightarrow> consumers d = []" for d
          by (auto simp: getEntry_def)
        let ?others = "filter (\<lambda>e. e_profile e \<noteq> p) (activeEntries gw c)"
        have "card (busy gw' c) \<le> card ((\<lambda>e. source_key c (e_profile e)) ` set ?others)"
          unfolding en(6) by (rule card_mono [OF _ busy_others [OF inv own]]) simp_all
        also have "\<dots> \<le> length ?others" by (metis card_image_le card_length finite_set le_trans)
        finally have "card (busy gw' c) \<le> length ?others" .
        moreover have "int (length ?others) < M" using capSubstitute_None [OF None] own M by blast
        moreover have "card (insert (source_key c p) (busy gw' c)) \<le> Suc (card (busy gw' c))"
          by (rule card_insert_le_m1) simp_all
        ultimately show ?thesis by linarith
      qed
      have "gw_inv M (attachConsumer env i consumer e gw')"
        by (rule attach_inv [OF en(1) _ _ _ _ i_def _ cap]) (use e fresh seq en(2,3) in simp_all)
      then show ?thesis unfolding acq using inv None ens Some by simp
    qed
  qed
qed

lemma release_keeps:
  assumes inv: "gw_inv M gw" shows "gw_inv M (release env i gw)"
proof (cases "i \<noteq> [] \<and> map_of (leases gw) i \<noteq> None")
  case False
  then have "release env i gw = gw" by (cases "map_of (leases gw) i") (auto simp: release_def)
  with inv show ?thesis by simp
next
  case True
  then obtain k c where L: "map_of (leases gw) i = Some (k, c)" by auto
  have link: "linked (map_of (entries gw)) (map_of (leases gw))" using inv by (simp add: gw_inv_defs)
  obtain e where e: "map_of (entries gw) k = Some e" "i \<in> fst ` set (consumers e)" "e_cameraId e = c"
    using linkedD [OF link, of i k c] L by auto
  note own = gw_inv_entry [OF inv e(1)]
  define e' where "e' = e\<lparr>consumers := AList.delete i (consumers e), touchedAtMs := clock env,
     e_state := (if AList.delete i (consumers e) = [] then if coolingAt (clock env) e then CIRCUIT_OPEN else IDLE
                 else e_state e)\<rparr>"
  have rel: "release env i gw = (putEntry gw e')\<lparr>leases := AList.delete i (leases gw),
      gw_counters := (gw_counters gw)\<lparr>releases := Suc (releases (gw_counters gw))\<rparr>\<rparr>"
    using True L e own by (auto simp: release_def Let_def e'_def putEntry_def)
  have e': "e_cameraId e' = e_cameraId e" "e_profile e' = e_profile e"
    "fst ` set (consumers e') = fst ` set (consumers e) - {i}"
    by (auto simp: e'_def delete_keys simp flip: set_map)
  have ok: "entry_ok e'" using own
    by (auto simp: entry_ok_def e'_def distinct_delete coolingAt_def split: option.splits)
  have link': "linked ((map_of (entries gw))(k \<mapsto> e')) ((map_of (leases gw))(i := None))"
    by (rule linked_release [where E = "map_of (entries gw)", OF link e(1) L e'(1,3)])
  have "card (busy_keys ((map_of (entries gw))(k \<mapsto> e')) d) \<le> card (busy_keys (map_of (entries gw)) d)" for d
  proof (rule card_mono)
    have "consumers e \<noteq> []" using e(2) by auto
    then show "busy_keys ((map_of (entries gw))(k \<mapsto> e')) d \<subseteq> busy_keys (map_of (entries gw)) d"
      using e(1) e'(1) by (auto simp: busy_keys_def)
  qed simp
  moreover have "int (card (busy_keys (map_of (entries gw)) d)) \<le> M" for d
    using inv by (simp add: gw_inv_defs)
  ultimately have busy: "int (card (busy_keys ((map_of (entries gw))(k \<mapsto> e')) d)) \<le> M" for d
    by (meson order_trans of_nat_mono)
  have len: "length (entries (putEntry gw e')) = length (entries gw)"
    by (rule putEntry_length) (use e own e' in simp)
  have l: "Suc (length (AList.delete i (leases gw))) = length (leases gw)"
    using inv L by (intro length_delete_present) (auto simp: gw_inv_defs)
  have "\<forall>j\<in>fst ` set (leases gw). \<exists>n\<le>leaseSeq gw. j = lease_id n" using inv by (simp add: gw_inv_defs)
  then have sub: "\<forall>j\<in>fst ` set (AList.delete i (leases gw)). \<exists>n\<le>leaseSeq gw. j = lease_id n"
    using dom_delete_subset [of i "leases gw"] by blast
  show ?thesis
    unfolding rel using inv len l link' busy sub ok own e' keyed_upd [of "map_of (entries gw)" k e'] putEntry_distinct [of gw e']
    unfolding gw_inv_defs by (simp add: delete_conv' distinct_delete)
qed

lemma gw_step_keeps: "1 \<le> M \<Longrightarrow> gw_inv M gw \<Longrightarrow> gw_step M gw gw' \<Longrightarrow> gw_inv M gw'"
  by (erule gw_stepE) (simp_all add: resolve_keeps publish_keeps acquire_keeps release_keeps connecting_keeps
      progress_keeps failure_keeps tick_keeps reset_keeps)

interpretation gw_system: transition_invariant "\<lambda>gw. gw = initial_gateway" "gw_step M" "\<lambda>gw. 1 \<le> M \<longrightarrow> gw_inv M gw"
  for M
  by unfold_locales (auto intro: initial_inv gw_step_keeps)

lemma reachable_inv:
  "(gw_step M)\<^sup>*\<^sup>* initial_gateway gw \<Longrightarrow> 1 \<le> M \<Longrightarrow> gw_inv M gw"
  using gw_system.reached_inv [of M gw] by (auto simp: gw_system.reached_def)

section \<open>Properties\<close>

definition sample_env :: gateway_env where
  "sample_env = \<lparr>clock = 1000, random = 1 / 2, enabledSetting = Some ''true'', maxExternalSetting = None,
     stallTimeoutSetting = None, circuitThresholdSetting = None, circuitOpenSetting = None,
     circuitMaxOpenSetting = None, idleTtlSetting = None, backoffBaseSetting = None, backoffCapSetting = None,
     backoffJitterSetting = None\<rparr>"

definition sample_gw :: gateway where
  "sample_gw = fst (acquire sample_env ''cam'' (Some ''main'') ''recording''
     (fst (acquire sample_env ''cam'' None ''live'' initial_gateway)))"

lemma sample_enabled [simp]: "isEnabled (sample_env\<lparr>clock := t, random := r\<rparr>)" "isEnabled sample_env"
  by (simp add: sample_env_def isEnabled_def, code_simp)+

lemma sample_cap [simp]: "maxExternalConnectionsPerCamera sample_env = 2"
  by (simp add: sample_env_def maxExternalConnectionsPerCamera_def positive_def)

lemma sample_reachable: "(gw_step 2)\<^sup>*\<^sup>* initial_gateway sample_gw"
proof -
  have "gw_step 2 initial_gateway (fst (acquire sample_env ''cam'' None ''live'' initial_gateway))"
    "gw_step 2 (fst (acquire sample_env ''cam'' None ''live'' initial_gateway)) sample_gw"
    unfolding sample_gw_def by (rule gw_step.acquire, simp)+
  then show ?thesis by (rule converse_rtranclp_into_rtranclp [OF _ r_into_rtranclp])
qed

lemma sample_leases: "leases sample_gw = [(''lease_1'', (''cam::main'', ''cam'')), (''lease_2'', (''cam::main'', ''cam''))]"
  by code_simp

text \<open>C3 (leases, consumers and connections agree). In every state the operations reach, a lease
  is live exactly when it is a consumer of the source it points at, the counters account for
  every live lease, no camera has more sources with consumers than the cap, and the register
  and the decision log keep their bounds.\<close>

theorem gateway_register_consistent:
  assumes "(gw_step M)\<^sup>*\<^sup>* initial_gateway gw" "1 \<le> M"
  shows "(map_of (leases gw) i = Some (k, c) \<longleftrightarrow>
      (\<exists>e. map_of (entries gw) k = Some e \<and> i \<in> fst ` set (consumers e) \<and> e_cameraId e = c)) \<and>
    acquisitions (gw_counters gw) = releases (gw_counters gw) + length (leases gw) \<and>
    int (card (busy gw cam)) \<le> M \<and>
    length (entries gw) \<le> MAX_TRACKED_SOURCES \<and> length (decisionLog gw) \<le> MAX_DECISION_LOG"
  using reachable_inv [OF assms] linkedD [of "map_of (entries gw)" "map_of (leases gw)" i k c]
  unfolding gw_inv_defs by simp

theorem gateway_register_consistent_witness:
  "\<exists>e. map_of (entries sample_gw) ''cam::main'' = Some e \<and> ''lease_2'' \<in> fst ` set (consumers e)"
proof -
  have "map_of (leases sample_gw) ''lease_2'' = Some (''cam::main'', ''cam'')" by (simp add: sample_leases)
  with gateway_register_consistent [OF sample_reachable, of "''lease_2''" "''cam::main''" "''cam''" "''cam''"]
  show ?thesis by auto
qed

text \<open>(the internal URL is served only from a source that may be up). A direct decision
  always returns the caller's own URL. A gateway decision needs the feature on, a consumer that
  does not insist on the camera, and a source of that camera whose circuit is not cooling and
  that is connecting, online, or past the end of an opened circuit, with a URL to offer; another
  profile is served only when the cap is taken.\<close>

theorem gateway_decision_sound:
  assumes "(gw_step M)\<^sup>*\<^sup>* initial_gateway gw" "1 \<le> M"
  shows "(let d = snd (resolveSourceUrl env inp gw) in
      d_cameraId d = ri_cameraId inp \<and>
      (d_origin d = direct \<longrightarrow> d_url d = directUrl inp) \<and>
      (d_origin d = gateway \<longrightarrow> isEnabled env \<and> \<not> requireDirect inp \<and>
        (\<exists>e. getEntry gw (ri_cameraId inp) (d_servedProfile d) = Some e \<and> e_cameraId e = ri_cameraId inp \<and>
           d_url d = offeredUrl inp e \<and> d_url d \<noteq> [] \<and> \<not> coolingAt (clock env) e \<and>
           (e_state e = CONNECTING \<or> e_state e = ONLINE \<or> e_state e = CIRCUIT_OPEN) \<and>
           (d_servedProfile d \<noteq> d_requestedProfile d \<longrightarrow>
              maxExternalConnectionsPerCamera env \<le> int (externalConnections gw (ri_cameraId inp))))))"
proof -
  note inv = reachable_inv [OF assms]
  let ?c = "ri_cameraId inp" and ?p = "normalizeSourceProfile (ri_profile inp)"
  have own: "getEntry gw ?c (e_profile e) = Some e \<and> e_cameraId e = ?c \<and>
      (e_state e = STALLED \<or> e_state e = BACKOFF \<or> e_state e = CONNECTING \<or> e_state e = ONLINE \<or> e_state e = CIRCUIT_OPEN) \<and>
      (e_profile e \<noteq> ?p \<longrightarrow> maxExternalConnectionsPerCamera env \<le> int (externalConnections gw ?c))"
    if e: "fst (servingEntry env ?c ?p gw) = Some e" for e
  proof (cases "activeEntry gw ?c ?p")
    case None
    let ?others = "filter (\<lambda>e. e_profile e \<noteq> ?p) (activeEntries gw ?c)"
    from None e have sub: "pickSubstitute ?others = Some e"
      and many: "maxExternalConnectionsPerCamera env \<le> int (length ?others)"
      by (auto simp: servingEntry_def Let_def split: if_splits)
    have mem: "e \<in> set (activeEntries gw ?c)" using pickSubstitute_mem [OF sub] by simp
    note ae = active_entry [OF inv mem]
    have "isActive e" using mem by (auto simp: activeEntries_def)
    then have "e_state e \<noteq> IDLE" using ae gw_inv_entry [OF inv, of "source_key ?c (e_profile e)" e]
      by (auto simp: isActive_def entry_ok_def)
    moreover have "length ?others \<le> externalConnections gw ?c"
      by (simp add: externalConnections_def)
    ultimately show ?thesis using ae many
      by (cases "e_state e") (auto simp: getEntry_def)
  next
    case (Some e')
    with e have e': "activeEntry gw ?c ?p = Some e" by (simp add: servingEntry_def)
    then have g: "getEntry gw ?c ?p = Some e" by (auto simp: activeEntry_def split: option.splits if_splits)
    then have own': "e_cameraId e = ?c" "e_profile e = ?p" "entry_ok e"
      using gw_inv_entry [OF inv, of "source_key ?c ?p" e] by (simp_all add: getEntry_def)
    have "e_state e \<noteq> IDLE"
      using e' g own'(3) by (auto simp: activeEntry_def isActive_def entry_ok_def split: if_splits)
    with g own' show ?thesis by (cases "e_state e") simp_all
  qed
  obtain s r where sr: "servingEntry env ?c ?p gw = (s, r)" by fastforce
  have d: "snd (resolveSourceUrl env inp gw) = sourceDecision env inp gw"
    by (simp add: resolveSourceUrl_def recordDecision_def Let_def)
  show ?thesis
  proof (cases s)
    case None
    then show ?thesis by (simp add: d sourceDecision_def sr Let_def directDecision_def)
  next
    case (Some e)
    with own [of e] sr show ?thesis
      by (auto simp: d sourceDecision_def Let_def directDecision_def)
  qed
qed

theorem gateway_decision_sound_witness:
  "let d = snd (resolveSourceUrl sample_env \<lparr>ri_cameraId = ''cam'', ri_profile = None, ri_consumer = ''ai'',
      directUrl = ''rtsp://x'', internalUrl = None, requireDirect = True\<rparr> sample_gw)
   in d_origin d = direct \<and> d_url d = ''rtsp://x''"
proof -
  let ?inp = "\<lparr>ri_cameraId = ''cam'', ri_profile = None, ri_consumer = ''ai'',
      directUrl = ''rtsp://x'', internalUrl = None, requireDirect = True\<rparr>"
  let ?d = "snd (resolveSourceUrl sample_env ?inp sample_gw)"
  have "d_origin ?d = gateway \<Longrightarrow> False" "d_origin ?d = direct \<Longrightarrow> d_url ?d = ''rtsp://x''"
    using gateway_decision_sound [OF sample_reachable, of sample_env ?inp] unfolding Let_def by simp_all
  then show ?thesis unfolding Let_def by (cases "d_origin ?d") simp_all
qed

text \<open>(releasing one consumer leaves the others). Releasing a live lease removes exactly that
  consumer: the other leases and sources are untouched, a source that still has consumers keeps
  its state, the last release leaves it idle, or with its circuit open while that is cooling; a
  second release of the same lease does nothing.\<close>

theorem gateway_release_exact:
  assumes "(gw_step M)\<^sup>*\<^sup>* initial_gateway gw" "1 \<le> M" "map_of (leases gw) i = Some (k, c)"
  shows "\<exists>e e'. map_of (entries gw) k = Some e \<and> map_of (entries (release env i gw)) k = Some e' \<and>
    consumers e' = AList.delete i (consumers e) \<and>
    e_state e' = (if consumers e' \<noteq> [] then e_state e else if coolingAt (clock env) e then CIRCUIT_OPEN else IDLE) \<and>
    map_of (leases (release env i gw)) = (map_of (leases gw))(i := None) \<and>
    (j \<noteq> k \<longrightarrow> map_of (entries (release env i gw)) j = map_of (entries gw) j) \<and>
    release env2 i (release env i gw) = release env i gw"
proof -
  note inv = reachable_inv [OF assms(1,2)]
  have link: "linked (map_of (entries gw)) (map_of (leases gw))" using inv by (simp add: gw_inv_defs)
  obtain e where e: "map_of (entries gw) k = Some e" using linkedD [OF link, of i k c] assms(3) by auto
  obtain n where "i = lease_id n" using inv map_of_SomeD [OF assms(3)] by (force simp: gw_inv_defs)
  then have i: "i \<noteq> []" by (simp add: lease_id_def)
  have l: "map_of (leases (release env i gw)) = (map_of (leases gw))(i := None)"
    by (simp add: release_def i assms(3) e Let_def delete_conv')
  then have again: "release env2 i (release env i gw) = release env i gw"
    by (subst release_def) (simp add: i)
  have "map_of (entries (release env i gw)) = (map_of (entries gw))(k \<mapsto> e\<lparr>consumers := AList.delete i (consumers e),
      touchedAtMs := clock env, e_state := (if AList.delete i (consumers e) = []
        then if coolingAt (clock env) e then CIRCUIT_OPEN else IDLE else e_state e)\<rparr>)"
    by (simp add: release_def i assms(3) e Let_def update_conv')
  with e l again show ?thesis by simp
qed

theorem gateway_release_exact_witness:
  "\<exists>e. map_of (entries (release sample_env ''lease_1'' sample_gw)) ''cam::main'' = Some e \<and>
     map_of (leases (release sample_env ''lease_1'' sample_gw)) ''lease_2'' = Some (''cam::main'', ''cam'')"
proof -
  have "map_of (leases sample_gw) ''lease_1'' = Some (''cam::main'', ''cam'')"
    "map_of (leases sample_gw) ''lease_2'' = Some (''cam::main'', ''cam'')" by (simp_all add: sample_leases)
  moreover obtain e' where "map_of (entries (release sample_env ''lease_1'' sample_gw)) ''cam::main'' = Some e'"
    "map_of (leases (release sample_env ''lease_1'' sample_gw)) = (map_of (leases sample_gw))(''lease_1'' := None)"
    using gateway_release_exact [OF sample_reachable _ calculation(1), of sample_env "[]" sample_env] by auto
  ultimately show ?thesis by simp
qed

lemma getEntry_put [simp]:
  "e_cameraId e = c \<Longrightarrow> e_profile e = p \<Longrightarrow> getEntry (putEntry gw e) c p = Some e"
  by (simp add: getEntry_def)

lemma getEntry_counters [simp]: "getEntry (gw\<lparr>gw_counters := cs\<rparr>) c p = getEntry gw c p"
  by (simp add: getEntry_def)

lemma noteFailure_entry:
  "isEnabled env \<Longrightarrow> getEntry gw c (normalizeSourceProfile p) = Some e \<Longrightarrow> e_cameraId e = c \<Longrightarrow>
   e_profile e = normalizeSourceProfile p \<Longrightarrow>
   getEntry (noteFailure env c p gw) c (normalizeSourceProfile p) = Some (fst (failed env e))"
  by (simp add: noteFailure_def ensureEntry_def Let_def failed_fields case_prod_beta)

lemma settings_clock [simp]:
  "isEnabled (env\<lparr>clock := t\<rparr>) = isEnabled env" "isEnabled (env\<lparr>random := r\<rparr>) = isEnabled env"
  "circuitThreshold (env\<lparr>clock := t\<rparr>) = circuitThreshold env" "circuitThreshold (env\<lparr>random := r\<rparr>) = circuitThreshold env"
  "circuitOpenMs (env\<lparr>clock := t\<rparr>) = circuitOpenMs env" "circuitOpenMs (env\<lparr>random := r\<rparr>) = circuitOpenMs env"
  "circuitMaxOpenMs (env\<lparr>clock := t\<rparr>) = circuitMaxOpenMs env" "circuitMaxOpenMs (env\<lparr>random := r\<rparr>) = circuitMaxOpenMs env"
  by (simp_all add: isEnabled_def circuitThreshold_def circuitOpenMs_def circuitMaxOpenMs_def)

lemma circuitOpen_le_max: "circuitOpenMs env \<le> circuitMaxOpenMs env"
  by (simp add: circuitMaxOpenMs_def)

lemma cooldown_doubles:
  "0 \<le> a \<Longrightarrow> min (min (a * 2 ^ n) b * 2) b = min (a * 2 ^ Suc n) (b :: rat)" if "0 \<le> b"
  using that by (simp add: min_def)

definition cooldownAfter :: "gateway_env \<Rightarrow> nat \<Rightarrow> rat" where
  "cooldownAfter env n = min (circuitOpenMs env * 2 ^ (n - nat (circuitThreshold env))) (circuitMaxOpenMs env)"

lemma cooldownAfter_Suc:
  assumes "nat (circuitThreshold env) \<le> n"
  shows "min (cooldownAfter env n * 2) (circuitMaxOpenMs env) = cooldownAfter env (Suc n)"
proof -
  have "0 \<le> circuitOpenMs env" by (auto simp: circuitOpenMs_def positive_def split: option.splits)
  moreover from this have "0 \<le> circuitMaxOpenMs env" using circuitOpen_le_max order_trans by blast
  ultimately show ?thesis using assms
    by (simp add: cooldownAfter_def Suc_diff_le cooldown_doubles del: power_Suc)
qed

definition failuresAt :: "gateway_env \<Rightarrow> string \<Rightarrow> string option \<Rightarrow> (rat \<times> rat) list \<Rightarrow> gateway \<Rightarrow> gateway" where
  "failuresAt env c p calls gw =
     foldl (\<lambda>gw (t, r). noteFailure (env\<lparr>clock := t, random := r\<rparr>) c p gw) gw calls"

lemma threshold_pos: "1 \<le> circuitThreshold env"
  by (simp add: circuitThreshold_def)

lemma failuresAt_entry:
  assumes "isEnabled env" and "getEntry gw c (normalizeSourceProfile p) = Some e"
    and "e_cameraId e = c" "e_profile e = normalizeSourceProfile p" "consecutiveFailures e = 0" "circuitCooldownMs e = None"
  shows "\<exists>e'. getEntry (failuresAt env c p calls gw) c (normalizeSourceProfile p) = Some e' \<and> e_cameraId e' = c \<and>
    e_profile e' = normalizeSourceProfile p \<and> consecutiveFailures e' = length calls \<and>
    (if int (length calls) < circuitThreshold env
     then circuitCooldownMs e' = None \<and> circuitOpenUntilMs e' = circuitOpenUntilMs e \<and> (calls \<noteq> [] \<longrightarrow> e_state e' = BACKOFF)
     else e_state e' = CIRCUIT_OPEN \<and> circuitCooldownMs e' = Some (cooldownAfter env (length calls)) \<and>
       circuitOpenUntilMs e' = Some (fst (last calls) + cooldownAfter env (length calls)) \<and>
       nextAttemptAtMs e' = circuitOpenUntilMs e')"
proof (induction calls rule: rev_induct)
  case Nil
  show ?case using assms threshold_pos [of env] by (simp add: failuresAt_def)
next
  case (snoc call calls)
  obtain t r where call: "call = (t, r)" by fastforce
  let ?env = "env\<lparr>clock := t, random := r\<rparr>"
  from snoc.IH obtain e1 where e1: "getEntry (failuresAt env c p calls gw) c (normalizeSourceProfile p) = Some e1"
      "e_cameraId e1 = c" "e_profile e1 = normalizeSourceProfile p" "consecutiveFailures e1 = length calls"
    and cool: "if int (length calls) < circuitThreshold env
      then circuitCooldownMs e1 = None \<and> circuitOpenUntilMs e1 = circuitOpenUntilMs e
      else circuitCooldownMs e1 = Some (cooldownAfter env (length calls))" by (auto split: if_splits)
  have step: "getEntry (failuresAt env c p (calls @ [call]) gw) c (normalizeSourceProfile p) = Some (fst (failed ?env e1))"
    using noteFailure_entry [of ?env _ c p e1] assms(1) e1 by (simp add: failuresAt_def call)
  have thr: "int (Suc (length calls)) = circuitThreshold env \<Longrightarrow>
      min (circuitOpenMs env) (circuitMaxOpenMs env) = cooldownAfter env (Suc (length calls))"
    by (simp add: cooldownAfter_def)
  consider (below) "int (Suc (length calls)) < circuitThreshold env"
    | (hit) "int (Suc (length calls)) = circuitThreshold env"
    | (over) "circuitThreshold env \<le> int (length calls)" by linarith
  then show ?case
  proof cases
    case below
    with e1 cool show ?thesis unfolding step by (simp add: failed_def Let_def)
  next
    case hit
    with e1 cool thr show ?thesis unfolding step by (simp add: failed_def Let_def call)
  next
    case over
    then have "nat (circuitThreshold env) \<le> length calls" by linarith
    with over e1 cool cooldownAfter_Suc [of env "length calls"] show ?thesis
      unfolding step by (simp add: failed_def Let_def call)
  qed
qed

text \<open>(the circuit breaker). From a source without failures, fewer consecutive failures than the
  threshold leave it in backoff; from the threshold on, each failure opens the circuit for the
  base cooldown doubled once for every failure past the threshold, up to the maximum, counted
  from that failure, and an attempt is allowed exactly when that time has passed.\<close>

theorem gateway_circuit_breaker:
  assumes "isEnabled env" and "getEntry gw c (normalizeSourceProfile p) = Some e"
    and "e_cameraId e = c" "e_profile e = normalizeSourceProfile p" "consecutiveFailures e = 0" "circuitCooldownMs e = None"
    and "calls \<noteq> []"
  shows "\<exists>e'. getEntry (failuresAt env c p calls gw) c (normalizeSourceProfile p) = Some e' \<and>
    consecutiveFailures e' = length calls \<and>
    (if int (length calls) < circuitThreshold env then e_state e' = BACKOFF
     else e_state e' = CIRCUIT_OPEN \<and>
       (canAttempt (env\<lparr>clock := now\<rparr>) c p None (failuresAt env c p calls gw) \<longleftrightarrow>
        fst (last calls) + min (circuitOpenMs env * 2 ^ (length calls - nat (circuitThreshold env))) (circuitMaxOpenMs env) \<le> now))"
proof -
  from failuresAt_entry [OF assms(1-6), of calls]
  obtain e' where e': "getEntry (failuresAt env c p calls gw) c (normalizeSourceProfile p) = Some e'"
    "consecutiveFailures e' = length calls"
    "if int (length calls) < circuitThreshold env
     then circuitCooldownMs e' = None \<and> circuitOpenUntilMs e' = circuitOpenUntilMs e \<and> (calls \<noteq> [] \<longrightarrow> e_state e' = BACKOFF)
     else e_state e' = CIRCUIT_OPEN \<and> circuitCooldownMs e' = Some (cooldownAfter env (length calls)) \<and>
       circuitOpenUntilMs e' = Some (fst (last calls) + cooldownAfter env (length calls)) \<and>
       nextAttemptAtMs e' = circuitOpenUntilMs e'" by blast
  then have "\<not> int (length calls) < circuitThreshold env \<Longrightarrow>
      canAttempt (env\<lparr>clock := now\<rparr>) c p None (failuresAt env c p calls gw) \<longleftrightarrow>
      fst (last calls) + cooldownAfter env (length calls) \<le> now"
    using assms(1) by (auto simp: canAttempt_def coolingAt_def)
  with e' assms(7) show ?thesis by (auto simp: cooldownAfter_def)
qed

theorem gateway_circuit_breaker_witness:
  "\<exists>e'. getEntry (failuresAt sample_env ''cam'' None (replicate 6 (5000, 0)) sample_gw) ''cam'' main = Some e' \<and>
     consecutiveFailures e' = 6"
proof -
  have n: "normalizeSourceProfile None = main" by code_simp
  obtain e where e: "getEntry sample_gw ''cam'' main = Some e" "e_cameraId e = ''cam''" "e_profile e = main"
    "consecutiveFailures e = 0" "circuitCooldownMs e = None"
  proof -
    have "(case getEntry sample_gw ''cam'' main of None \<Rightarrow> False | Some e \<Rightarrow> e_cameraId e = ''cam'' \<and> e_profile e = main \<and>
        consecutiveFailures e = 0 \<and> circuitCooldownMs e = None)" by code_simp
    then show thesis by (auto split: option.splits intro: that)
  qed
  show ?thesis
    using gateway_circuit_breaker [of sample_env sample_gw "''cam''" None e "replicate 6 (5000, 0)" 0] e n by auto
qed

text \<open>(the flag off means today's behaviour). With the feature off every consumer gets the
  caller's own URL and may always attempt, a lease is inert, and no operation touches the
  register: \<open>acquire\<close> only moves the lease counter, routing only writes the decision log.\<close>

theorem gateway_disabled_inert:
  assumes "\<not> isEnabled env"
  shows "d_url (snd (resolveSourceUrl env inp gw)) = directUrl inp \<and>
    entries (fst (resolveSourceUrl env inp gw)) = entries gw \<and> leases (fst (resolveSourceUrl env inp gw)) = leases gw \<and>
    fst (acquire env c p consumer gw) = gw\<lparr>leaseSeq := Suc (leaseSeq gw)\<rparr> \<and>
    \<not> l_gatewayEnabled (snd (acquire env c p consumer gw)) \<and>
    (map_of (leases gw) (l_id (snd (acquire env c p consumer gw))) = None \<longrightarrow>
      release env (l_id (snd (acquire env c p consumer gw))) gw = gw) \<and>
    registerPublishedSource env c p url gw = gw \<and> noteConnecting env c p gw = gw \<and>
    noteProgress env c p t frame gw = gw \<and> noteFailure env c p gw = gw \<and> tick env nowMs gw = gw \<and>
    canAttempt env c p nowMs gw"
  using assms
  by (simp add: resolveSourceUrl_def recordDecision_def sourceDecision_def directDecision_def acquire_def leaseOf_def
      release_def registerPublishedSource_def noteConnecting_def noteProgress_def noteFailure_def tick_def
      canAttempt_def Let_def case_prod_beta)

theorem gateway_disabled_inert_witness:
  "canAttempt (sample_env\<lparr>enabledSetting := Some ''1''\<rparr>) ''cam'' None None sample_gw"
proof -
  have "\<not> isEnabled (sample_env\<lparr>enabledSetting := Some ''1''\<rparr>)" by code_simp
  from gateway_disabled_inert [OF this] show ?thesis by blast
qed

section \<open>The backoff delay\<close>

text \<open>The delay stays within the jitter of the capped exponential, and never below zero.\<close>

lemma clamp01_bounds: "0 \<le> clamp01 v" "clamp01 v \<le> 1"
  by (auto simp: clamp01_def split: option.splits)

lemma backoff_bounds:
  assumes "0 \<le> r" "r \<le> 1" "baseMs o1 = Some b" "capMs o1 = Some cap" "0 < b" "0 < cap" "jitter o1 = Some j" "1 \<le> n" "n < 53"
  shows "(1 - clamp01 (Some j)) * min cap (b * 2 ^ nat (n - 1)) \<le> computeBackoffDelayMs n o1 r \<and>
    computeBackoffDelayMs n o1 r \<le> (1 + clamp01 (Some j)) * min cap (b * 2 ^ nat (n - 1))"
proof -
  define delay where "delay = min cap (b * 2 ^ nat (n - 1))"
  define k where "k = clamp01 (Some j)"
  have d: "0 \<le> delay" using assms by (simp add: delay_def)
  have k: "0 \<le> k" "k \<le> 1" using clamp01_bounds by (simp_all add: k_def)
  have "\<bar>2 * r - 1\<bar> \<le> 1" using assms(1,2) by (simp add: abs_le_iff)
  then have "\<bar>k * (2 * r - 1)\<bar> \<le> k" using k(1) by (simp add: abs_mult mult_left_le)
  then have "1 - k \<le> 1 + k * (2 * r - 1)" "1 + k * (2 * r - 1) \<le> 1 + k" by (simp_all add: abs_le_iff)
  then have "(1 - k) * delay \<le> delay * (1 + k * (2 * r - 1))" "delay * (1 + k * (2 * r - 1)) \<le> (1 + k) * delay"
    using d by (simp_all add: mult.commute [of _ delay] mult_left_mono)
  moreover have "0 \<le> (1 - k) * delay" "0 \<le> (1 + k) * delay" using d k by simp_all
  moreover have "computeBackoffDelayMs n o1 r = (if k \<le> 0 then max 0 delay else max 0 (delay * (1 + k * (2 * r - 1))))"
    using assms by (simp add: computeBackoffDelayMs_def Let_def positive_def delay_def k_def)
  ultimately show ?thesis using d k by (auto simp flip: delay_def k_def)
qed

end
