(* ===== verification/Timeline_Window.thy ===== *)
theory Timeline_Window
  imports Prelude Complex_Main
begin

text \<open>
  \<open>apps/web/src/lib/timeline-window.ts\<close>: the arithmetic of the playback time line (visible
  window, spans to draw, ranges still to fetch, chunks, cursor pages, merge by id, the centre
  that follows the playhead). Numbers are rationals; an argument that the code checks with
  \<open>Number.isFinite\<close> has type \<open>num\<close>, an optional one \<open>num option\<close>.
\<close>

section \<open>Numbers and ranges\<close>

datatype num = Fin rat | NonFinite

fun finite_or :: "num \<Rightarrow> rat \<Rightarrow> rat" where
  "finite_or (Fin x) fallback = x"
| "finite_or NonFinite fallback = fallback"

definition given_or :: "num option \<Rightarrow> rat \<Rightarrow> rat" where
  "given_or x fallback = (case x of None \<Rightarrow> fallback | Some n \<Rightarrow> finite_or n fallback)"

definition clamp :: "rat \<Rightarrow> rat \<Rightarrow> rat \<Rightarrow> rat" where
  "clamp v lo hi = max lo (min hi v)"

record range =
  r_start :: rat
  r_end :: rat

definition mk_range :: "rat \<Rightarrow> rat \<Rightarrow> range" where
  "mk_range s e = \<lparr>r_start = s, r_end = e\<rparr>"

lemma mk_range_sel [simp]: "r_start (mk_range s e) = s" "r_end (mk_range s e) = e"
  by (simp_all add: mk_range_def)

definition TIMELINE_TOTAL_MINUTES :: rat where "TIMELINE_TOTAL_MINUTES = 24 * 60"
definition TIMELINE_MIN_ZOOM :: rat where "TIMELINE_MIN_ZOOM = 1"
definition TIMELINE_MAX_ZOOM :: rat where "TIMELINE_MAX_ZOOM = 192"

section \<open>The visible window\<close>

record visible_window =
  w_start :: rat
  w_end :: rat
  windowMins :: rat
  w_zoom :: rat

definition computeVisibleWindow ::
  "num \<Rightarrow> num \<Rightarrow> num option \<Rightarrow> num option \<Rightarrow> num option \<Rightarrow> visible_window" where
  "computeVisibleWindow zoom0 viewCenter totalMins0 minZoom0 maxZoom0 =
     (let totalMins = max 1 (given_or totalMins0 TIMELINE_TOTAL_MINUTES);
          minZoom = max (1 / 1000000) (given_or minZoom0 TIMELINE_MIN_ZOOM);
          maxZoom = max minZoom (given_or maxZoom0 TIMELINE_MAX_ZOOM);
          zoom = clamp (finite_or zoom0 minZoom) minZoom maxZoom;
          mins = clamp (totalMins / zoom) 0 totalMins;
          center = clamp (finite_or viewCenter (totalMins / 2)) 0 totalMins;
          start = clamp (center - mins / 2) 0 (totalMins - mins)
      in \<lparr>w_start = start, w_end = start + mins, windowMins = mins, w_zoom = zoom\<rparr>)"

definition overlaps :: "range \<Rightarrow> range \<Rightarrow> bool" where
  "overlaps s window \<longleftrightarrow> r_end s \<ge> r_start window \<and> r_start s \<le> r_end window"

text \<open>The linear scan for \<open>startIndex\<close> and the binary search for \<open>endIndex\<close>.\<close>

fun firstReaching :: "range \<Rightarrow> range list \<Rightarrow> nat \<Rightarrow> nat" where
  "firstReaching window [] index = index"
| "firstReaching window (s # spans) index =
     (if r_end s \<ge> r_start window then index else firstReaching window spans (Suc index))"

function upperBound :: "range list \<Rightarrow> range \<Rightarrow> nat \<Rightarrow> nat \<Rightarrow> nat" where
  "upperBound spans window low high =
     (if low < high
      then let mid = (low + high) div 2
           in if r_start (spans ! mid) > r_end window then upperBound spans window low mid
              else upperBound spans window (Suc mid) high
      else low)"
  by pat_completeness auto
termination by (relation "measure (\<lambda>(_, _, low, high). high - low)") auto

declare upperBound.simps [simp del]

definition visibleSpanRange :: "range list \<Rightarrow> range \<Rightarrow> nat \<times> nat" where
  "visibleSpanRange spans window =
     (let count = length spans; startIndex = firstReaching window spans 0
      in if count = 0 then (0, 0)
         else if startIndex = count then (count, count)
         else (startIndex, upperBound spans window startIndex count))"

definition sliceVisibleSpans :: "range list \<Rightarrow> range \<Rightarrow> range list \<times> nat list \<times> nat \<times> nat" where
  "sliceVisibleSpans spans window =
     (let (startIndex, endIndex) = visibleSpanRange spans window;
          indices = filter (\<lambda>i. overlaps (spans ! i) window) [startIndex..<endIndex]
      in (map ((!) spans) indices, indices, startIndex, endIndex))"

record list_window =
  lw_startIndex :: int
  lw_endIndex :: int
  totalHeightPx :: rat
  virtualized :: bool

definition computeListWindow ::
  "num \<Rightarrow> num \<Rightarrow> num \<Rightarrow> num \<Rightarrow> num option \<Rightarrow> num option \<Rightarrow> list_window" where
  "computeListWindow itemCount0 rowHeight0 scrollTop0 viewport0 overscan0 minItems0 =
     (let itemCount = max 0 \<lfloor>finite_or itemCount0 0\<rfloor>;
          rowHeight = finite_or rowHeight0 0;
          viewport = finite_or viewport0 0;
          minItems = max 0 (given_or minItems0 0)
      in if itemCount = 0 then \<lparr>lw_startIndex = 0, lw_endIndex = 0, totalHeightPx = 0, virtualized = False\<rparr>
         else if rowHeight \<le> 0 \<or> viewport \<le> 0 \<or> of_int itemCount < minItems
         then \<lparr>lw_startIndex = 0, lw_endIndex = itemCount, totalHeightPx = of_int itemCount * max 0 rowHeight,
               virtualized = False\<rparr>
         else let overscan = max 0 \<lfloor>given_or overscan0 6\<rfloor>;
                  scrollTop = clamp (finite_or scrollTop0 0) 0 (of_int itemCount * rowHeight);
                  startIndex = max 0 (\<lfloor>scrollTop / rowHeight\<rfloor> - overscan);
                  endIndex = min itemCount (\<lceil>(scrollTop + viewport) / rowHeight\<rceil> + overscan)
              in \<lparr>lw_startIndex = min startIndex (max 0 (endIndex - 1)), lw_endIndex = endIndex,
                   totalHeightPx = of_int itemCount * rowHeight, virtualized = True\<rparr>)"

definition THUMBNAIL_TOKEN_TTL_MS :: rat where "THUMBNAIL_TOKEN_TTL_MS = 4 * 60 * 1000"

text \<open>The loop over the ids, with \<open>seen\<close> and the targets so far.\<close>

fun collectTargets ::
  "(string \<Rightarrow> num option) \<Rightarrow> rat \<Rightarrow> rat \<Rightarrow> int \<Rightarrow> string list \<Rightarrow> string list \<Rightarrow> string list \<Rightarrow> string list" where
  "collectTargets issuedAtMs nowMs ttlMs maxN seen targets [] = targets"
| "collectTargets issuedAtMs nowMs ttlMs maxN seen targets (i # ids) =
     (if i = [] \<or> i \<in> set seen then collectTargets issuedAtMs nowMs ttlMs maxN seen targets ids
      else if (case issuedAtMs i of Some (Fin t) \<Rightarrow> nowMs - t < ttlMs | _ \<Rightarrow> False)
      then collectTargets issuedAtMs nowMs ttlMs maxN (seen @ [i]) targets ids
      else if int (length (targets @ [i])) \<ge> maxN then targets @ [i]
      else collectTargets issuedAtMs nowMs ttlMs maxN (seen @ [i]) (targets @ [i]) ids)"

definition selectThumbnailTargets ::
  "string list \<Rightarrow> string list \<Rightarrow> (string \<Rightarrow> num option) \<Rightarrow> num \<Rightarrow> num option \<Rightarrow> num option \<Rightarrow> string list" where
  "selectThumbnailTargets visibleIds pinnedIds issuedAtMs nowMs ttl0 max0 =
     collectTargets issuedAtMs (finite_or nowMs 0) (max 0 (given_or ttl0 THUMBNAIL_TOKEN_TTL_MS))
       (max 1 \<lfloor>given_or max0 100\<rfloor>) [] [] (visibleIds @ pinnedIds)"

section \<open>Sets of ranges\<close>

record raw_range =
  raw_start :: num
  raw_end :: num

fun valid_range :: "raw_range \<Rightarrow> range option" where
  "valid_range r = (case (raw_start r, raw_end r) of
     (Fin s, Fin e) \<Rightarrow> if e > s then Some (mk_range s e) else None
   | _ \<Rightarrow> None)"

text \<open>The loop of \<open>mergeRanges\<close>: \<open>last\<close> is the range still open at the end of \<open>merged\<close>.\<close>

fun mergeLoop :: "range option \<Rightarrow> range list \<Rightarrow> range list" where
  "mergeLoop None [] = []"
| "mergeLoop (Some l) [] = [l]"
| "mergeLoop None (r # rs) = mergeLoop (Some r) rs"
| "mergeLoop (Some l) (r # rs) =
     (if r_start r > r_end l then l # mergeLoop (Some r) rs
      else mergeLoop (Some (mk_range (r_start l) (max (r_end l) (r_end r)))) rs)"

definition mergeRanges :: "raw_range list \<Rightarrow> range list" where
  "mergeRanges ranges = mergeLoop None (sort_key r_start (List.map_filter valid_range ranges))"

text \<open>The loop of \<open>subtractRanges\<close>: the holes found and the final cursor.\<close>

fun subtractLoop :: "rat \<Rightarrow> rat \<Rightarrow> range list \<Rightarrow> range list \<times> rat" where
  "subtractLoop baseEnd cursor [] = ([], cursor)"
| "subtractLoop baseEnd cursor (r # rs) =
     (if r_end r \<le> cursor then subtractLoop baseEnd cursor rs
      else if r_start r \<ge> baseEnd then ([], cursor)
      else let hole = (if r_start r > cursor then [mk_range cursor (min (r_start r) baseEnd)] else []);
               cursor' = max cursor (r_end r)
           in if cursor' \<ge> baseEnd then (hole, cursor')
              else let (holes, final) = subtractLoop baseEnd cursor' rs in (hole @ holes, final))"

definition subtractRanges :: "range \<Rightarrow> raw_range list \<Rightarrow> range list" where
  "subtractRanges base taken =
     (let (holes, cursor) = subtractLoop (r_end base) (r_start base) (mergeRanges taken);
          all = holes @ (if cursor < r_end base then [mk_range cursor (r_end base)] else [])
      in filter (\<lambda>h. r_end h > r_start h) all)"

definition limitWindowAround :: "raw_range \<Rightarrow> num \<Rightarrow> num \<Rightarrow> range" where
  "limitWindowAround window center0 maxMinutes =
     (let start = finite_or (raw_start window) 0; e = finite_or (raw_end window) 0; budget = finite_or maxMinutes 0
      in if \<not> budget > 0 \<or> e - start \<le> budget then mk_range start e
         else let center = clamp (finite_or center0 ((start + e) / 2)) start e;
                  rawStart = clamp (center - budget / 2) start (e - budget)
              in mk_range rawStart (rawStart + budget))"

definition planWindowFetch ::
  "raw_range \<Rightarrow> raw_range list \<Rightarrow> num option \<Rightarrow> num option \<Rightarrow> num option \<Rightarrow> range list" where
  "planWindowFetch window loaded pad0 lookback0 total0 =
     (let totalMins = max 1 (given_or total0 TIMELINE_TOTAL_MINUTES);
          pad = max 0 (given_or pad0 0);
          lookback = max 0 (given_or lookback0 0);
          start = clamp (finite_or (raw_start window) 0 - pad - lookback) 0 totalMins;
          e = clamp (finite_or (raw_end window) totalMins + pad) 0 totalMins
      in if e \<le> start then [] else subtractRanges (mk_range start e) loaded)"

text \<open>The pieces of one range: \<open>start += size\<close> while it is before the end.\<close>

function chunksOf :: "rat \<Rightarrow> rat \<Rightarrow> rat \<Rightarrow> range list" where
  "chunksOf step start e =
     (if 0 < step \<and> start < e then mk_range start (min (start + step) e) # chunksOf step (start + step) e else [])"
  by pat_completeness auto
termination
proof (relation "measure (\<lambda>(step, start, e). nat \<lceil>(e - start) / step\<rceil>)", goal_cases)
  case (2 step start e)
  then have "(e - (start + step)) / step = (e - start) / step - 1" "0 < (e - start) / step"
    by (simp_all add: field_simps)
  then show ?case by simp
qed simp

declare chunksOf.simps [simp del]

definition chunkRanges :: "range list \<Rightarrow> num \<Rightarrow> range list" where
  "chunkRanges ranges maxMinutes =
     (let step = finite_or maxMinutes 0
      in if \<not> step > 0 then ranges else concat (map (\<lambda>r. chunksOf step (r_start r) (r_end r)) ranges))"

definition range_distance :: "rat \<Rightarrow> range \<Rightarrow> rat" where
  "range_distance anchor r =
     (if anchor < r_start r then r_start r - anchor else if anchor > r_end r then anchor - r_end r else 0)"

definition orderRangesByDistance :: "range list \<Rightarrow> num \<Rightarrow> range list" where
  "orderRangesByDistance ranges center = sort_key (range_distance (finite_or center 0)) ranges"

section \<open>Pages, coverage, merge\<close>

record page_plan =
  pp_from :: "string option"
  pp_to :: "string option"
  pp_offset :: nat

definition planNextPage :: "page_plan \<Rightarrow> nat \<Rightarrow> nat \<Rightarrow> string option \<Rightarrow> bool \<Rightarrow> page_plan option" where
  "planNextPage plan pageLength pageSize lastTimestamp descending =
     (if pageLength = 0 \<or> pageLength < pageSize then None
      else if or_empty lastTimestamp = [] then None
      else if (if descending then pp_to plan else pp_from plan) = lastTimestamp
      then Some (plan\<lparr>pp_offset := pp_offset plan + pageLength\<rparr>)
      else Some (if descending then \<lparr>pp_from = pp_from plan, pp_to = lastTimestamp, pp_offset = 0\<rparr>
                 else \<lparr>pp_from = lastTimestamp, pp_to = pp_to plan, pp_offset = 0\<rparr>))"

text \<open>The two instants of a gap of the report are parsed dates.\<close>

definition toMinute :: "rat \<Rightarrow> rat \<Rightarrow> instant \<Rightarrow> rat option" where
  "toMinute dayStartMs totalMins t =
     map_option (\<lambda>ms. clamp ((of_int ms - dayStartMs) / 60000) 0 totalMins) (toMs t)"

definition gapRange :: "rat \<Rightarrow> rat \<Rightarrow> instant \<times> instant \<Rightarrow> raw_range option" where
  "gapRange dayStartMs totalMins gap =
     (case (toMinute dayStartMs totalMins (fst gap), toMinute dayStartMs totalMins (snd gap)) of
        (Some s, Some e) \<Rightarrow> if e \<le> s then None else Some \<lparr>raw_start = Fin s, raw_end = Fin e\<rparr>
      | _ \<Rightarrow> None)"

definition coverageFromGaps ::
  "(instant \<times> instant) list \<Rightarrow> num \<Rightarrow> num option \<Rightarrow> bool \<Rightarrow> range list \<times> rat option" where
  "coverageFromGaps gaps dayStart0 total0 truncated =
     (let totalMins = max 1 (given_or total0 TIMELINE_TOTAL_MINUTES);
          holes = List.map_filter (gapRange (finite_or dayStart0 0) totalMins) gaps;
          merged = mergeRanges holes;
          horizon = (if truncated \<and> merged \<noteq> [] then r_end (last merged) else totalMins);
          spans = subtractRanges (mk_range 0 horizon)
            (map (\<lambda>r. \<lparr>raw_start = Fin (r_start r), raw_end = Fin (r_end r)\<rparr>) merged)
      in (spans, if spans = [] then None else Some (r_end (last spans))))"

definition putAll :: "('t \<Rightarrow> string) \<Rightarrow> 't list \<Rightarrow> (string \<times> 't) list \<Rightarrow> (string \<times> 't) list" where
  "putAll getId items m = foldl (\<lambda>m item. AList.update (getId item) item m) m items"

definition mergeByIdSorted :: "('t \<Rightarrow> string) \<Rightarrow> ('t \<Rightarrow> 'k::linorder) \<Rightarrow> 't list \<Rightarrow> 't list \<Rightarrow> 't list" where
  "mergeByIdSorted getId getSortKey current incoming =
     sort_key getSortKey (map snd (putAll getId incoming (putAll getId current [])))"

definition decidirCentroAoMoverPlayhead :: "rat \<Rightarrow> rat \<Rightarrow> rat \<Rightarrow> rat \<Rightarrow> rat \<Rightarrow> bool \<Rightarrow> rat" where
  "decidirCentroAoMoverPlayhead centro janelaMinutos totalMinutos playheadAnterior playhead vindoDoVideo =
     (let inicio = min (max (centro - janelaMinutos / 2) 0) (totalMinutos - janelaMinutos);
          margem = janelaMinutos * (5 / 100);
          visivel = (playhead \<ge> inicio + margem \<and> playhead \<le> inicio + janelaMinutos - margem)
      in if visivel then centro
         else if vindoDoVideo \<and> \<not> (playheadAnterior \<ge> inicio \<and> playheadAnterior \<le> inicio + janelaMinutos)
         then centro else playhead)"

end
