(* ===== verification/Timeline_Properties.thy ===== *)
theory Timeline_Properties
  imports Timeline_Window
begin

text \<open>
  What the time line's arithmetic (\<open>Timeline_Window\<close>) guarantees: no visible span is lost,
  the ranges to fetch are exactly the missing ones, the cursor pages end and miss no item, the
  merge keeps one item for each id, the window follows the playhead without losing it.
\<close>

section \<open>Visible spans\<close>

lemma firstReaching_takeWhile:
  "firstReaching w spans i = i + length (takeWhile (\<lambda>s. \<not> r_start w \<le> r_end s) spans)"
  by (induction spans arbitrary: i) auto

lemma firstReaching_before:
  "i < firstReaching w spans 0 \<Longrightarrow> \<not> overlaps (spans ! i) w"
proof -
  assume "i < firstReaching w spans 0"
  then have i: "i < length (takeWhile (\<lambda>s. \<not> r_start w \<le> r_end s) spans)" by (simp add: firstReaching_takeWhile)
  then have "\<not> r_start w \<le> r_end (spans ! i)"
    using nth_mem [OF i] set_takeWhileD by (fastforce simp: takeWhile_nth)
  then show ?thesis by (simp add: overlaps_def)
qed

lemma upperBound_spec:
  assumes srt: "sorted (map r_start spans)" and "low \<le> high" "high \<le> length spans"
    and "\<And>i. high \<le> i \<Longrightarrow> i < length spans \<Longrightarrow> r_end w < r_start (spans ! i)"
  shows "upperBound spans w low high \<le> high \<and>
    (\<forall>i. upperBound spans w low high \<le> i \<and> i < length spans \<longrightarrow> r_end w < r_start (spans ! i))"
  using assms
proof (induction spans w low high rule: upperBound.induct)
  case (1 spans w low high)
  let ?mid = "(low + high) div 2"
  show ?case
  proof (cases "low < high")
    case False
    then have "upperBound spans w low high = low" by (subst upperBound.simps) simp
    with False "1.prems" show ?thesis by simp
  next
    case low: True
    show ?thesis
    proof (cases "r_end w < r_start (spans ! ?mid)")
      case True
      have right: "r_end w < r_start (spans ! i)" if "?mid \<le> i" "i < length spans" for i
        using True sorted_nth_mono [OF "1.prems"(1), of ?mid i] that by simp
      have "upperBound spans w low high = upperBound spans w low ?mid"
        using low True by (subst upperBound.simps) (simp add: Let_def)
      moreover have "low \<le> ?mid" "?mid \<le> high" using low by presburger+
      ultimately show ?thesis using "1.IH"(1) [OF low refl True "1.prems"(1)] "1.prems"(3) right by simp
    next
      case False
      have "upperBound spans w low high = upperBound spans w (Suc ?mid) high"
        using low False by (subst upperBound.simps) (simp add: Let_def)
      then show ?thesis using "1.IH"(2) [OF low refl False "1.prems"(1)] low "1.prems"(3,4) by simp
    qed
  qed
qed

lemma visibleSpanRange_complete:
  assumes "sorted (map r_start spans)" "visibleSpanRange spans w = (s, e)" "i < length spans" "overlaps (spans ! i) w"
  shows "s \<le> i \<and> i < e \<and> e \<le> length spans"
proof -
  let ?f = "firstReaching w spans 0"
  have f: "?f \<le> i" using firstReaching_before [of i w spans] assms(4) by (meson not_le)
  then have "?f < length spans" using assms(3) by simp
  then have se: "s = ?f" "e = upperBound spans w ?f (length spans)"
    using assms(2,3) by (auto simp: visibleSpanRange_def Let_def split: if_splits)
  have "e \<le> length spans \<and> (\<forall>i. e \<le> i \<and> i < length spans \<longrightarrow> r_end w < r_start (spans ! i))"
    unfolding se by (rule upperBound_spec [OF assms(1)]) (use \<open>?f < length spans\<close> in auto)
  moreover have "\<not> r_end w < r_start (spans ! i)" using assms(4) by (simp add: overlaps_def)
  ultimately show ?thesis using f se(1) assms(3) by (meson not_le)
qed

text \<open>(no visible span is lost). On spans in start order, what is drawn is exactly the spans that
  overlap the window, partially visible ones included, in order, each with its own index.\<close>

theorem visible_spans_exact:
  assumes "sorted (map r_start spans)"
  shows "fst (sliceVisibleSpans spans window) = filter (\<lambda>s. overlaps s window) spans \<and>
    fst (snd (sliceVisibleSpans spans window)) = filter (\<lambda>i. overlaps (spans ! i) window) [0..<length spans]"
proof -
  obtain s e where se: "visibleSpanRange spans window = (s, e)" by fastforce
  let ?P = "\<lambda>i. overlaps (spans ! i) window"
  note complete = visibleSpanRange_complete [OF assms se]
  have idx: "filter ?P [s..<e] = filter ?P [0..<length spans]"
  proof (cases "\<exists>i<length spans. ?P i")
    case True
    then obtain i where "i < length spans" "?P i" by blast
    then have le: "s \<le> e" "e \<le> length spans" using complete by fastforce+
    have "[0..<length spans] = [0..<s] @ [s..<e] @ [e..<length spans]"
      using upt_add_eq_append [of 0 s "length spans - s"] upt_add_eq_append [of s e "length spans - e"] le by simp
    moreover have "\<not> ?P i" if "i < s \<or> e \<le> i" "i < length spans" for i
      using complete [OF that(2)] that(1) by (meson not_le)
    then have "filter ?P [0..<s] = []" "filter ?P [e..<length spans] = []"
      using le by (simp_all add: filter_empty_conv)
    ultimately show ?thesis by simp
  next
    case False
    have "e \<le> length spans"
      using se upperBound_spec [OF assms, of "firstReaching window spans 0" "length spans" window]
      by (auto simp: visibleSpanRange_def Let_def firstReaching_takeWhile length_takeWhile_le split: if_splits)
    then have "filter ?P [s..<e] = []" using False by (auto simp: filter_empty_conv)
    moreover have "filter ?P [0..<length spans] = []" using False by (auto simp: filter_empty_conv)
    ultimately show ?thesis by simp
  qed
  have "map ((!) spans) (filter ?P [0..<length spans]) = filter (\<lambda>s. overlaps s window) (map ((!) spans) [0..<length spans])"
    by (simp add: filter_map comp_def)
  then show ?thesis by (simp add: sliceVisibleSpans_def se idx map_nth)
qed

theorem visible_spans_exact_witness:
  "fst (sliceVisibleSpans [mk_range 0 5, mk_range 5 9, mk_range 20 30] (mk_range 4 10)) = [mk_range 0 5, mk_range 5 9]"
proof -
  have "sorted (map r_start [mk_range 0 5, mk_range 5 9, mk_range 20 30])" by simp
  from visible_spans_exact [OF this, of "mk_range 4 10"] show ?thesis by (simp add: overlaps_def)
qed

section \<open>Ranges as sets of instants\<close>

definition covers :: "range list \<Rightarrow> rat \<Rightarrow> bool" where
  "covers rs u \<longleftrightarrow> (\<exists>r\<in>set rs. r_start r \<le> u \<and> u < r_end r)"

definition covered :: "raw_range list \<Rightarrow> rat \<Rightarrow> bool" where
  "covered rs u \<longleftrightarrow> (\<exists>r\<in>set rs. \<exists>s e. raw_start r = Fin s \<and> raw_end r = Fin e \<and> s \<le> u \<and> u < e)"

lemma covers_simps [simp]:
  "\<not> covers [] u" "covers (r # rs) u \<longleftrightarrow> (r_start r \<le> u \<and> u < r_end r) \<or> covers rs u"
  "covers (xs @ ys) u \<longleftrightarrow> covers xs u \<or> covers ys u"
  by (auto simp: covers_def)

lemma covers_valid: "covers (List.map_filter valid_range rs) u \<longleftrightarrow> covered rs u"
  by (induction rs)
    (auto simp: covered_def List.map_filter_simps split: num.splits option.splits if_splits)

text \<open>Ranges one after the other, not empty and not touching.\<close>

definition separated :: "range list \<Rightarrow> bool" where
  "separated rs \<longleftrightarrow> sorted_wrt (\<lambda>a b. r_end a < r_start b) rs \<and> (\<forall>r\<in>set rs. r_start r < r_end r)"

definition opt_list :: "'a option \<Rightarrow> 'a list" where
  "opt_list x = (case x of None \<Rightarrow> [] | Some a \<Rightarrow> [a])"

lemma mergeLoop_covers:
  "\<forall>r\<in>set rs. r_start r < r_end r \<Longrightarrow> sorted (map r_start (opt_list l @ rs)) \<Longrightarrow>
   \<forall>r\<in>set (opt_list l). r_start r < r_end r \<Longrightarrow>
   covers (mergeLoop l rs) u \<longleftrightarrow> covers (opt_list l @ rs) u"
proof (induction l rs rule: mergeLoop.induct)
  case (4 l r rs)
  then show ?case by (cases "r_end l < r_start r") (auto simp: opt_list_def max_def)
qed (auto simp: opt_list_def)

lemma mergeLoop_starts:
  "sorted (map r_start (opt_list l @ rs)) \<Longrightarrow> x \<in> set (mergeLoop l rs) \<Longrightarrow>
   (\<forall>a\<in>set (opt_list l @ rs). b \<le> r_start a) \<Longrightarrow> b \<le> r_start x"
proof (induction l rs rule: mergeLoop.induct)
  case (4 l r rs)
  then show ?case by (cases "r_end l < r_start r") (auto simp: opt_list_def)
qed (auto simp: opt_list_def)

lemma mergeLoop_separated:
  "\<forall>r\<in>set rs. r_start r < r_end r \<Longrightarrow> sorted (map r_start (opt_list l @ rs)) \<Longrightarrow>
   \<forall>r\<in>set (opt_list l). r_start r < r_end r \<Longrightarrow> separated (mergeLoop l rs)"
proof (induction l rs rule: mergeLoop.induct)
  case (4 l r rs)
  show ?case
  proof (cases "r_end l < r_start r")
    case True
    have "r_end l < r_start x" if "x \<in> set (mergeLoop (Some r) rs)" for x
      using mergeLoop_starts [of "Some r" rs x "r_start r"] that "4.prems"(2) True by (force simp: opt_list_def)
    with 4 True show ?thesis by (auto simp: opt_list_def separated_def)
  next
    case False
    with 4 show ?thesis by (auto simp: opt_list_def max_def)
  qed
qed (auto simp: opt_list_def separated_def)

lemma valid_range_nonempty: "r \<in> set (List.map_filter valid_range rs) \<Longrightarrow> r_start r < r_end r"
  by (induction rs) (auto simp: List.map_filter_simps split: num.splits option.splits if_splits)

lemma mergeRanges_spec: "separated (mergeRanges rs) \<and> (covers (mergeRanges rs) u \<longleftrightarrow> covered rs u)"
proof -
  let ?v = "sort_key r_start (List.map_filter valid_range rs)"
  have ne: "\<forall>r\<in>set ?v. r_start r < r_end r" by (auto dest: valid_range_nonempty)
  have srt: "sorted (map r_start (opt_list None @ ?v))" by (simp add: opt_list_def)
  have "covers ?v u \<longleftrightarrow> covered rs u" unfolding covers_valid [symmetric] by (simp add: covers_def)
  then show ?thesis
    using mergeLoop_separated [OF ne srt] mergeLoop_covers [OF ne srt, of u]
    by (simp add: mergeRanges_def opt_list_def)
qed

lemma subtractLoop_covers:
  "separated rs \<Longrightarrow> subtractLoop be cur rs = (holes, final) \<Longrightarrow>
   (covers holes u \<or> final \<le> u \<and> u < be) \<longleftrightarrow> cur \<le> u \<and> u < be \<and> \<not> covers rs u"
proof (induction rs arbitrary: cur holes)
  case (Cons r rs)
  from Cons.prems(1) have sep: "separated rs" "\<forall>x\<in>set rs. r_end r < r_start x" "r_start r < r_end r"
    by (auto simp: separated_def)
  have later: "covers rs u \<Longrightarrow> r_end r < u" using sep(2) by (force simp: covers_def)
  consider (skip) "r_end r \<le> cur" | (stop) "cur < r_end r" "be \<le> r_start r"
    | (last) "cur < r_end r" "r_start r < be" "be \<le> max cur (r_end r)"
    | (go) "cur < r_end r" "r_start r < be" "max cur (r_end r) < be" by linarith
  then show ?case
  proof cases
    case skip
    then show ?thesis using Cons.IH [OF sep(1), of cur holes] Cons.prems(2) by auto
  next
    case stop
    then show ?thesis using Cons.prems(2) later sep(3) by (auto dest: later)
  next
    case last
    then show ?thesis using Cons.prems(2) later sep(3) by (auto simp: Let_def max_def split: if_splits)
  next
    case go
    obtain hs where hs: "subtractLoop be (max cur (r_end r)) rs = (hs, final)"
      "holes = (if r_start r > cur then [mk_range cur (min (r_start r) be)] else []) @ hs"
      using Cons.prems(2) go by (auto simp: Let_def split: prod.splits if_splits)
    have "(covers hs u \<or> final \<le> u \<and> u < be) \<longleftrightarrow> max cur (r_end r) \<le> u \<and> u < be \<and> \<not> covers rs u"
      by (rule Cons.IH [OF sep(1) hs(1)])
    then show ?thesis using go hs(2) sep(3) later by (auto simp: max_def min_def split: if_splits)
  qed
qed auto

lemma subtractRanges_covers:
  "covers (subtractRanges base taken) u \<longleftrightarrow> r_start base \<le> u \<and> u < r_end base \<and> \<not> covered taken u"
proof -
  obtain holes final where sl: "subtractLoop (r_end base) (r_start base) (mergeRanges taken) = (holes, final)" by fastforce
  have flt: "covers (filter (\<lambda>h. r_end h > r_start h) hs) u \<longleftrightarrow> covers hs u" for hs
    by (auto simp: covers_def)
  have "covers (subtractRanges base taken) u \<longleftrightarrow> covers holes u \<or> final \<le> u \<and> u < r_end base"
    by (auto simp: subtractRanges_def sl flt)
  then show ?thesis
    using subtractLoop_covers [of "mergeRanges taken" "r_end base" "r_start base" holes final u] sl mergeRanges_spec [of taken u]
    by simp
qed

lemma clamp_interval: "clamp x 0 t \<le> u \<and> u < clamp y 0 t \<longleftrightarrow> 0 \<le> u \<and> u < t \<and> x \<le> u \<and> u < y"
  unfolding clamp_def by linarith

text \<open>(exactly the missing time is fetched). For a finite window inside the day, the ranges
  planned to fetch contain an instant exactly when it lies in the window widened by the padding
  and the look-back, within the day, and in no range already loaded; none of them is empty.\<close>

theorem window_fetch_exact:
  assumes "raw_start window = Fin s" "raw_end window = Fin e"
  shows "(let total = max 1 (given_or total0 TIMELINE_TOTAL_MINUTES);
          pad = max 0 (given_or pad0 0); lookback = max 0 (given_or lookback0 0) in
      covers (planWindowFetch window loaded pad0 lookback0 total0) u \<longleftrightarrow>
        0 \<le> u \<and> u < total \<and> s - pad - lookback \<le> u \<and> u < e + pad \<and> \<not> covered loaded u) \<and>
    (\<forall>r\<in>set (planWindowFetch window loaded pad0 lookback0 total0). r_start r < r_end r)"
proof -
  define total where "total = max 1 (given_or total0 TIMELINE_TOTAL_MINUTES)"
  define pad where "pad = max 0 (given_or pad0 0)"
  define lookback where "lookback = max 0 (given_or lookback0 0)"
  let ?s = "clamp (s - pad - lookback) 0 total" and ?e = "clamp (e + pad) 0 total"
  have plan: "planWindowFetch window loaded pad0 lookback0 total0 =
      (if ?e \<le> ?s then [] else subtractRanges (mk_range ?s ?e) loaded)"
    using assms by (simp add: planWindowFetch_def Let_def total_def pad_def lookback_def)
  have "covers (planWindowFetch window loaded pad0 lookback0 total0) u \<longleftrightarrow> ?s \<le> u \<and> u < ?e \<and> \<not> covered loaded u"
    unfolding plan by (auto simp: subtractRanges_covers)
  moreover have "?s \<le> u \<and> u < ?e \<longleftrightarrow> 0 \<le> u \<and> u < total \<and> s - pad - lookback \<le> u \<and> u < e + pad"
    by (rule clamp_interval)
  moreover have "\<forall>r\<in>set (planWindowFetch window loaded pad0 lookback0 total0). r_start r < r_end r"
    unfolding plan by (auto simp: subtractRanges_def split: prod.splits)
  ultimately show ?thesis unfolding Let_def total_def pad_def lookback_def by blast
qed

theorem window_fetch_exact_witness:
  "covers (planWindowFetch \<lparr>raw_start = Fin 600, raw_end = Fin 660\<rparr> [\<lparr>raw_start = Fin 590, raw_end = Fin 620\<rparr>]
     (Some (Fin 5)) None None) 640"
proof -
  have "raw_start \<lparr>raw_start = Fin 600, raw_end = Fin 660\<rparr> = Fin 600" "raw_end \<lparr>raw_start = Fin 600, raw_end = Fin 660\<rparr> = Fin 660"
    by simp_all
  from window_fetch_exact [OF this, of None "Some (Fin 5)" None "[\<lparr>raw_start = Fin 590, raw_end = Fin 620\<rparr>]" 640]
  show ?thesis by (simp add: Let_def given_or_def TIMELINE_TOTAL_MINUTES_def covered_def)
qed

text \<open>The pieces of \<open>chunkRanges\<close> make up the range, none longer than the size.\<close>

lemma chunksOf_spec:
  "0 < step \<Longrightarrow> (covers (chunksOf step s e) u \<longleftrightarrow> s \<le> u \<and> u < e) \<and>
   (\<forall>r\<in>set (chunksOf step s e). r_start r < r_end r \<and> r_end r - r_start r \<le> step)"
proof (induction step s e rule: chunksOf.induct)
  case (1 step s e)
  show ?case
  proof (cases "s < e")
    case True
    then have "chunksOf step s e = mk_range s (min (s + step) e) # chunksOf step (s + step) e"
      using "1.prems" by (subst chunksOf.simps) simp
    with 1 True show ?thesis by (auto simp: min_def split: if_splits)
  next
    case False
    then have "chunksOf step s e = []" by (subst chunksOf.simps) simp
    with False show ?thesis by auto
  qed
qed

lemma chunkRanges_covers: "covers (chunkRanges rs maxMinutes) u \<longleftrightarrow> covers rs u"
proof (cases "finite_or maxMinutes 0 > 0")
  case True
  then have "covers (concat (map (\<lambda>r. chunksOf (finite_or maxMinutes 0) (r_start r) (r_end r)) rs)) u \<longleftrightarrow> covers rs u"
    by (induction rs) (auto simp: chunksOf_spec)
  then show ?thesis using True by (simp add: chunkRanges_def)
qed (simp add: chunkRanges_def)

section \<open>Cursor pages\<close>

text \<open>
  The other side of \<open>planNextPage\<close>, in ascending order: the server's answer to a plan (rows in
  time order, none before \<open>from\<close>, \<open>offset\<close> skipped, at most \<open>n\<close>), and the client's loop over the
  pages, with fuel. The rows are those up to \<open>to\<close>, which an ascending plan never changes.
\<close>

definition from_on :: "string option \<Rightarrow> string \<Rightarrow> bool" where
  "from_on b t = (case b of None \<Rightarrow> True | Some x \<Rightarrow> x \<le> t)"

definition serve :: "('r \<Rightarrow> string) \<Rightarrow> 'r list \<Rightarrow> nat \<Rightarrow> page_plan \<Rightarrow> 'r list" where
  "serve ts rows n plan = take n (drop (pp_offset plan) (filter (\<lambda>r. from_on (pp_from plan) (ts r)) rows))"

fun fetchPages :: "nat \<Rightarrow> ('r \<Rightarrow> string) \<Rightarrow> 'r list \<Rightarrow> nat \<Rightarrow> page_plan \<Rightarrow> 'r list option" where
  "fetchPages 0 ts rows n plan = None"
| "fetchPages (Suc fuel) ts rows n plan =
     (let page = serve ts rows n plan
      in case planNextPage plan (length page) n (if page = [] then None else Some (ts (last page))) False of
           None \<Rightarrow> Some page
         | Some plan' \<Rightarrow> map_option ((@) page) (fetchPages fuel ts rows n plan'))"

definition before_count :: "('r \<Rightarrow> string) \<Rightarrow> 'r list \<Rightarrow> string option \<Rightarrow> nat" where
  "before_count ts rows b = length (takeWhile (\<lambda>r. \<not> from_on b (ts r)) rows)"

lemma from_drop:
  "sorted (map ts rows) \<Longrightarrow> filter (\<lambda>r. from_on b (ts r)) rows = drop (before_count ts rows b) rows"
proof (induction rows)
  case (Cons r rows)
  show ?case
  proof (cases "from_on b (ts r)")
    case True
    with Cons.prems have "\<forall>x\<in>set rows. from_on b (ts x)"
      by (auto simp: from_on_def split: option.splits)
    with True show ?thesis by (simp add: before_count_def)
  next
    case False
    with Cons show ?thesis by (simp add: before_count_def)
  qed
qed (simp add: before_count_def)

lemma serve_drop:
  "sorted (map ts rows) \<Longrightarrow> serve ts rows n plan = take n (drop (before_count ts rows (pp_from plan) + pp_offset plan) rows)"
  by (simp add: serve_def from_drop add.commute)

lemma before_count_le: "i < length rows \<Longrightarrow> x \<le> ts (rows ! i) \<Longrightarrow> before_count ts rows (Some x) \<le> i"
proof (rule ccontr)
  assume i: "i < length rows" "x \<le> ts (rows ! i)" "\<not> before_count ts rows (Some x) \<le> i"
  let ?w = "takeWhile (\<lambda>r. \<not> from_on (Some x) (ts r)) rows"
  from i(3) have "i < length ?w" by (simp add: before_count_def)
  then have "rows ! i \<in> set ?w" by (metis nth_mem takeWhile_nth)
  with set_takeWhileD i(2) show False by (fastforce simp: from_on_def)
qed

lemma before_count_ge:
  assumes "k \<le> length rows" "\<forall>i<k. ts (rows ! i) < x"
  shows "k \<le> before_count ts rows (Some x)"
proof (rule ccontr)
  let ?P = "\<lambda>r. \<not> from_on (Some x) (ts r)"
  assume "\<not> k \<le> before_count ts rows (Some x)"
  then have "length (takeWhile ?P rows) < k" by (simp add: before_count_def)
  moreover from this have "\<not> ?P (rows ! length (takeWhile ?P rows))"
    using assms(1) by (intro nth_length_takeWhile) simp
  ultimately show False using assms(2) by (force simp: from_on_def)
qed

definition page_measure :: "('r \<Rightarrow> string) \<Rightarrow> 'r list \<Rightarrow> page_plan \<Rightarrow> nat" where
  "page_measure ts rows plan =
     (let p = before_count ts rows (pp_from plan) + pp_offset plan
      in 2 * (length rows - p) + (if p < length rows \<and> pp_from plan \<noteq> Some (ts (rows ! p)) then 1 else 0))"

text \<open>What holds of the plans of the loop: the rows already passed are not after the cursor.\<close>

definition page_inv :: "('r \<Rightarrow> string) \<Rightarrow> 'r list \<Rightarrow> page_plan \<Rightarrow> bool" where
  "page_inv ts rows plan \<longleftrightarrow> (\<forall>i<length rows. i < before_count ts rows (pp_from plan) + pp_offset plan \<longrightarrow>
     (\<exists>b. pp_from plan = Some b \<and> ts (rows ! i) \<le> b))"

lemma page_inv_start: "page_inv ts rows \<lparr>pp_from = b, pp_to = e, pp_offset = 0\<rparr>"
proof -
  have "\<exists>x. b = Some x \<and> ts (rows ! i) \<le> x" if "i < before_count ts rows b" "i < length rows" for i
  proof (cases b)
    case None
    with that(1) show ?thesis by (cases rows) (simp_all add: before_count_def from_on_def)
  next
    case (Some x)
    have "ts (rows ! i) \<le> x" using before_count_le [of i rows x ts] that Some by (meson leD le_cases)
    with Some show ?thesis by simp
  qed
  then show ?thesis by (simp add: page_inv_def)
qed

lemma page_measure_less:
  "(let p = before_count ts rows (pp_from plan) + pp_offset plan in p < q \<and> q \<le> length rows) \<Longrightarrow>
   before_count ts rows (pp_from plan') + pp_offset plan' = q \<Longrightarrow>
   page_measure ts rows plan' < page_measure ts rows plan"
  by (auto simp: page_measure_def Let_def)

lemma page_step:
  assumes srt: "sorted (map ts rows)" and n: "0 < n" and inv: "page_inv ts rows plan"
    and page: "page = serve ts rows n plan"
    and nxt: "planNextPage plan (length page) n (if page = [] then None else Some (ts (last page))) False = Some plan'"
  shows "page_inv ts rows plan' \<and> page_measure ts rows plan' < page_measure ts rows plan \<and>
    set (drop (before_count ts rows (pp_from plan) + pp_offset plan) rows) =
      set page \<union> set (drop (before_count ts rows (pp_from plan') + pp_offset plan') rows)"
proof -
  define p where "p = before_count ts rows (pp_from plan) + pp_offset plan"
  have pg: "page = take n (drop p rows)" unfolding page p_def by (rule serve_drop [OF srt])
  from nxt have full: "n \<le> length page" by (auto simp: planNextPage_def split: if_splits)
  then have len: "length page = n" "p + n \<le> length rows" using pg n by auto
  then have ne: "page \<noteq> []" using n by auto
  define t where "t = ts (last page)"
  have t: "t = ts (rows ! (p + n - 1))"
    using ne len pg n by (simp add: t_def last_conv_nth)
  have upto: "ts (rows ! i) \<le> t" if "i < p + n" for i
    using sorted_nth_mono [OF srt, of i "p + n - 1"] that len(2) by (simp add: t)
  have split: "set (drop p rows) = set page \<union> set (drop q rows)" if "p \<le> q" "q \<le> p + n" for q
  proof -
    have "drop p rows = page @ drop (p + n) rows" by (simp add: pg add.commute flip: drop_drop)
    moreover have "set (drop (p + n) rows) \<subseteq> set (drop q rows)" using that(2) by (rule set_drop_subset_set_drop)
    moreover have "set (drop q rows) \<subseteq> set (drop p rows)" using that(1) by (rule set_drop_subset_set_drop)
    ultimately show ?thesis by auto
  qed
  show ?thesis
  proof (cases "pp_from plan = Some t")
    case True
    with nxt ne full n have plan': "plan' = plan\<lparr>pp_offset := pp_offset plan + n\<rparr>"
      by (auto simp: planNextPage_def t_def or_empty_def len(1) split: if_splits)
    then have p': "before_count ts rows (pp_from plan') + pp_offset plan' = p + n" by (simp add: p_def)
    have "page_inv ts rows plan'" using True upto unfolding page_inv_def p' by (simp add: plan')
    moreover have "page_measure ts rows plan' < page_measure ts rows plan"
      by (rule page_measure_less [OF _ p']) (use n len(2) in \<open>simp add: p_def Let_def\<close>)
    ultimately show ?thesis using split [of "p + n"] unfolding p' p_def [symmetric] by simp
  next
    case False
    with nxt ne full n have plan': "plan' = \<lparr>pp_from = Some t, pp_to = pp_to plan, pp_offset = 0\<rparr>"
      by (auto simp: planNextPage_def t_def or_empty_def split: if_splits)
    define q where "q = before_count ts rows (Some t)"
    then have p': "before_count ts rows (pp_from plan') + pp_offset plan' = q" by (simp add: plan')
    have "q \<le> p + n - 1" unfolding q_def by (rule before_count_le) (use len n t in auto)
    moreover have "p \<le> q" unfolding q_def
    proof (rule before_count_ge)
      show "p \<le> length rows" using len(2) by simp
      show "\<forall>i<p. ts (rows ! i) < t"
      proof (intro allI impI)
        fix i assume i: "i < p"
        moreover have "i < length rows" using i len(2) by simp
        ultimately obtain b where b: "pp_from plan = Some b" "ts (rows ! i) \<le> b"
          using inv unfolding page_inv_def p_def by blast
        have "before_count ts rows (pp_from plan) \<le> p" by (simp add: p_def)
        have "b \<le> t"
        proof (rule ccontr)
          assume "\<not> b \<le> t"
          then have "t < b" by simp
          then have "\<forall>i<p + n. ts (rows ! i) < b" using upto by (blast intro: le_less_trans)
          then have "p + n \<le> before_count ts rows (Some b)"
            using len(2) by (intro before_count_ge)
          with \<open>before_count ts rows (pp_from plan) \<le> p\<close> b(1) n show False by simp
        qed
        with b False show "ts (rows ! i) < t" by (metis le_less_trans le_neq_trans)
      qed
    qed
    moreover have "page_measure ts rows plan' < page_measure ts rows plan"
    proof (cases "p = q")
      case True
      have "ts (rows ! p) = t"
      proof (rule antisym)
        show "ts (rows ! p) \<le> t" by (rule upto) (use n in simp)
        show "t \<le> ts (rows ! p)"
        proof (rule ccontr)
          assume "\<not> t \<le> ts (rows ! p)"
          then have "ts (rows ! p) < t" by simp
          moreover have "ts (rows ! i) \<le> ts (rows ! p)" if "i < Suc p" for i
            using sorted_nth_mono [OF srt, of i p] that len(2) n by simp
          ultimately have "\<forall>i<Suc p. ts (rows ! i) < t" by (blast intro: le_less_trans)
          then have "Suc p \<le> before_count ts rows (Some t)"
            using len(2) n by (intro before_count_ge) simp_all
          with True show False by (simp add: q_def)
        qed
      qed
      with False True n len(2) show ?thesis
        unfolding page_measure_def p' p_def [symmetric] by (auto simp: Let_def plan')
    next
      case False
      with calculation n len(2) show ?thesis
        by (intro page_measure_less [OF _ p']) (simp add: p_def Let_def)
    qed
    moreover have "page_inv ts rows plan'" unfolding plan' by (rule page_inv_start)
    ultimately show ?thesis using split [of q] unfolding p' p_def [symmetric] by simp
  qed
qed

lemma fetchPages_complete:
  assumes srt: "sorted (map ts rows)" and n: "0 < n" and ne: "\<forall>r\<in>set rows. ts r \<noteq> []"
  shows "page_inv ts rows plan \<Longrightarrow> page_measure ts rows plan < fuel \<Longrightarrow>
    \<exists>items. fetchPages fuel ts rows n plan = Some items \<and>
      set items = set (drop (before_count ts rows (pp_from plan) + pp_offset plan) rows)"
proof (induction fuel arbitrary: plan)
  case (Suc fuel)
  define page where "page = serve ts rows n plan"
  let ?last = "if page = [] then None else Some (ts (last page))"
  show ?case
  proof (cases "planNextPage plan (length page) n ?last False")
    case None
    have pg: "page = take n (drop (before_count ts rows (pp_from plan) + pp_offset plan) rows)"
      unfolding page_def by (rule serve_drop [OF srt])
    have "page \<noteq> [] \<Longrightarrow> ts (last page) \<noteq> []"
      using ne pg by (metis in_set_dropD in_set_takeD last_in_set)
    with None have "length page < n" using n by (auto simp: planNextPage_def or_empty_def split: if_splits)
    then have "page = drop (before_count ts rows (pp_from plan) + pp_offset plan) rows"
      using pg by (simp add: min_def split: if_splits)
    moreover have "fetchPages (Suc fuel) ts rows n plan = Some page"
      using None by (simp add: page_def [symmetric] Let_def)
    ultimately show ?thesis by metis
  next
    case (Some plan')
    note step = page_step [OF srt n Suc.prems(1) page_def Some]
    then obtain items where "fetchPages fuel ts rows n plan' = Some items"
        "set items = set (drop (before_count ts rows (pp_from plan') + pp_offset plan') rows)"
      using Suc.IH [of plan'] Suc.prems(2) by auto
    with Some step show ?thesis by (simp add: page_def [symmetric] Let_def)
  qed
qed simp

text \<open>(the cursor pages end and miss nothing). Against a server that returns the rows in time
  order, at most \<open>n\<close> at a time, the loop over the planned pages ends within two requests for
  each row plus two, and its pages together hold exactly the rows from the start of the range on,
  however many rows share one instant.\<close>

theorem paging_complete:
  assumes "sorted (map ts rows)" "0 < n" "\<forall>r\<in>set rows. ts r \<noteq> []"
  shows "\<exists>items. fetchPages (2 * length rows + 2) ts rows n \<lparr>pp_from = b, pp_to = e, pp_offset = 0\<rparr> = Some items \<and>
    set items = {r \<in> set rows. from_on b (ts r)}"
proof -
  let ?plan = "\<lparr>pp_from = b, pp_to = e, pp_offset = 0\<rparr>"
  have "page_measure ts rows ?plan < 2 * length rows + 2" by (auto simp: page_measure_def Let_def)
  from fetchPages_complete [OF assms page_inv_start this] obtain items
    where items: "fetchPages (2 * length rows + 2) ts rows n ?plan = Some items"
      "set items = set (drop (before_count ts rows b) rows)" by auto
  have "set (drop (before_count ts rows b) rows) = {r \<in> set rows. from_on b (ts r)}"
    unfolding from_drop [OF assms(1), symmetric] by auto
  with items show ?thesis by simp
qed

theorem paging_complete_witness:
  "\<exists>items. fetchPages 8 fst [(''a'', 1::nat), (''a'', 2), (''a'', 3)] 2 \<lparr>pp_from = None, pp_to = None, pp_offset = 0\<rparr> = Some items \<and>
     set items = {(''a'', 1), (''a'', 2), (''a'', 3)}"
proof -
  have "sorted (map fst [(''a'', 1::nat), (''a'', 2), (''a'', 3)])" "(0::nat) < 2"
    "\<forall>r\<in>set [(''a'', 1::nat), (''a'', 2), (''a'', 3)]. fst r \<noteq> []" by simp_all
  from paging_complete [OF this, of None None] show ?thesis
    by (auto simp: from_on_def)
qed

section \<open>Merging and following\<close>

lemma putAll_keys: "fst ` set (putAll getId items m) = fst ` set m \<union> getId ` set items"
  by (induction items arbitrary: m) (auto simp: putAll_def dom_update)

lemma putAll_distinct: "distinct (map fst m) \<Longrightarrow> distinct (map fst (putAll getId items m))"
  by (induction items arbitrary: m) (simp_all add: putAll_def distinct_update)

lemma putAll_snoc: "putAll getId (items @ [x]) m = AList.update (getId x) x (putAll getId items m)"
  by (simp add: putAll_def)

lemma putAll_lookup:
  "map_of (putAll getId items m) k =
     (case find (\<lambda>x. getId x = k) (rev items) of Some x \<Rightarrow> Some x | None \<Rightarrow> map_of m k)"
  by (induction items rule: rev_induct) (simp_all add: putAll_snoc update_conv', simp add: putAll_def)

text \<open>(one row for each id, the new one). The merge holds, for each id, the last incoming item
  with that id, or the last current one when nothing came in, and nothing else; no id appears
  twice and the result is in key order.\<close>

theorem merge_by_id_exact:
  "(x \<in> set (mergeByIdSorted getId key current incoming) \<longleftrightarrow>
      find (\<lambda>y. getId y = getId x) (rev (current @ incoming)) = Some x) \<and>
    distinct (map getId (mergeByIdSorted getId key current incoming)) \<and>
    sorted (map key (mergeByIdSorted getId key current incoming))"
proof -
  define m where "m = putAll getId incoming (putAll getId current [])"
  have d: "distinct (map fst m)" unfolding m_def by (intro putAll_distinct) simp
  have find_app: "find P (xs @ ys) = (case find P xs of None \<Rightarrow> find P ys | Some x \<Rightarrow> Some x)" for P and xs ys :: "'a list"
    by (induction xs) auto
  have look: "map_of m k = find (\<lambda>y. getId y = k) (rev (current @ incoming))" for k
    by (simp add: m_def putAll_lookup find_app split: option.split)
  have ids: "getId v = k" if "(k, v) \<in> set m" for k v
  proof -
    have "map_of m k = Some v" using d that by simp
    then have "find (\<lambda>y. getId y = k) (rev (current @ incoming)) = Some v" by (simp only: look)
    from find_Some_mem [OF this] show ?thesis by simp
  qed
  have res: "mergeByIdSorted getId key current incoming = sort_key key (map snd m)"
    by (simp add: mergeByIdSorted_def m_def)
  have "x \<in> set (map snd m) \<longleftrightarrow> map_of m (getId x) = Some x"
  proof
    assume "x \<in> set (map snd m)"
    then obtain k where k: "(k, x) \<in> set m" by auto
    with ids [OF k] d show "map_of m (getId x) = Some x" by simp
  next
    assume "map_of m (getId x) = Some x"
    from map_of_SomeD [OF this] show "x \<in> set (map snd m)" by force
  qed
  moreover have "distinct (map getId (sort_key key (map snd m)))"
  proof -
    have "map getId (map snd m) = map fst m" using ids by auto
    then have "distinct (map getId (map snd m))" using d by (simp only:)
    then show ?thesis unfolding distinct_map [of getId] by simp
  qed
  ultimately show ?thesis unfolding res using look [of "getId x"] by simp
qed

text \<open>(the window follows the playhead, or stays the operator's). With the playhead inside the
  window's margins the centre does not move; when the video moved a playhead the operator had
  left behind, it does not move either; after a jump of the operator the window drawn for the
  answered centre contains the playhead.\<close>

theorem playhead_follow:
  assumes "0 < j" "j \<le> dia" "0 \<le> playhead" "playhead \<le> dia"
  shows "(let inicio = min (max (centro - j / 2) 0) (dia - j);
              r = decidirCentroAoMoverPlayhead centro j dia anterior playhead doVideo in
      (inicio + j / 20 \<le> playhead \<and> playhead \<le> inicio + j - j / 20 \<longrightarrow> r = centro) \<and>
      (doVideo \<and> (anterior < inicio \<or> inicio + j < anterior) \<longrightarrow> r = centro) \<and>
      (\<not> doVideo \<longrightarrow> (let inicio' = min (max (r - j / 2) 0) (dia - j) in inicio' \<le> playhead \<and> playhead \<le> inicio' + j)))"
proof -
  define inicio where "inicio = min (max (centro - j / 2) 0) (dia - j)"
  define r where "r = decidirCentroAoMoverPlayhead centro j dia anterior playhead doVideo"
  have m: "j * (5 / 100) = j / 20" by simp
  have r: "r = (if inicio + j / 20 \<le> playhead \<and> playhead \<le> inicio + j - j / 20 then centro
      else if doVideo \<and> \<not> (inicio \<le> anterior \<and> anterior \<le> inicio + j) then centro else playhead)"
    unfolding r_def decidirCentroAoMoverPlayhead_def Let_def m inicio_def [symmetric] by simp
  have near: "min (max (playhead - j / 2) 0) (dia - j) \<le> playhead \<and> playhead \<le> min (max (playhead - j / 2) 0) (dia - j) + j"
    using assms by (simp add: min_def max_def)
  have "\<not> doVideo \<longrightarrow> min (max (r - j / 2) 0) (dia - j) \<le> playhead \<and> playhead \<le> min (max (r - j / 2) 0) (dia - j) + j"
    using near assms(1) unfolding r inicio_def by auto
  then show ?thesis unfolding Let_def inicio_def [symmetric] r_def [symmetric] using r by auto
qed

theorem playhead_follow_witness:
  "decidirCentroAoMoverPlayhead 60 30 1440 10 100 True = 60"
  using playhead_follow [of 30 1440 100 60 10 True] by (simp add: Let_def)

end
