(* ===== verification/Auth_Service.thy ===== *)
theory Auth_Service
  imports Access_Control Complex_Main
begin

text \<open>
  \<open>auth/auth.service.ts\<close>: login with lock-out, refresh sessions with rotation, validation of
  access tokens, stream and playback tokens, password reset, logout. The state is the two
  tables the service writes and the table of login attempts it keeps in memory. bcrypt, SHA-256,
  the random source and the JWT library are third-party: they are the fields of \<open>auth_env\<close>
  (with the clock and the settings of one call). A password hash, a token and a token hash are
  strings. \<open>refreshSession\<close> is split at its \<open>await\<close>: what it reads, and the atomic \<open>updateMany\<close>
  that rotates the token, so that concurrent refreshes can be stated.
\<close>

section \<open>Data\<close>

record user =
  usr_id :: string
  usr_name :: string
  usr_username :: string
  usr_email :: "string option"
  usr_role :: role
  isActive :: bool
  passwordHash :: string
  authVersion :: nat
  resetTokenHash :: "string option"
  resetTokenExpiresAt :: "int option"

record session =
  ses_id :: string
  ses_user :: string
  tokenHash :: string
  ses_authVersion :: nat
  expiresAt :: int
  revokedAt :: "int option"
  lastUsedAt :: "int option"

record attempt =
  att_count :: nat
  lockedUntil :: int

record auth_state =
  users :: "user list"
  sessions :: "session list"
  loginAttempts :: "(string \<times> attempt) list"

record public_user =
  pub_id :: string
  pub_name :: string
  pub_username :: string
  pub_email :: string
  pub_role :: role

record access_payload =
  p_sub :: string
  p_username :: string
  p_email :: string
  p_role :: role
  p_ver :: nat
  p_type :: string

datatype auth_error =
    InvalidCredentials | TemporarilyLocked int | SessionExpired | SessionAlreadyRenewed
  | InvalidToken | InactiveUser | ResetTokenInvalid | WeakPassword
  | TokenExpired | WrongTokenType

record auth_env =
  now :: int
  freshToken :: string
  freshId :: string
  sha256 :: "string \<Rightarrow> string"
  bcryptCompare :: "string \<Rightarrow> string \<Rightarrow> bool"
  bcryptHash :: "string \<Rightarrow> string"
  signAccess :: "access_payload \<Rightarrow> string \<Rightarrow> string"
  maxAttemptsSetting :: "nat option"
  sessionMinutesSetting :: "nat option"
  strongPasswordSetting :: "bool option"
  jwtExpiresIn :: "string option"
  inactivityDays :: "rat option option"
  hasFindFirst :: bool
  purgeSucceeds :: bool

record login_result =
  accessToken :: string
  refreshToken :: string
  refreshExpiresAt :: int
  logged_user :: public_user

definition RESET_TOKEN_TTL_MS :: int where "RESET_TOKEN_TTL_MS = 30 * 60 * 1000"
definition DEFAULT_REFRESH_INACTIVITY_DAYS :: rat where "DEFAULT_REFRESH_INACTIVITY_DAYS = 7"
definition LOCKOUT_MS :: int where "LOCKOUT_MS = 15 * 60 * 1000"

section \<open>Helpers of the service\<close>

definition attemptOf :: "auth_state \<Rightarrow> string \<Rightarrow> attempt" where
  "attemptOf st username = (case map_of (loginAttempts st) username of
     None \<Rightarrow> \<lparr>att_count = 0, lockedUntil = 0\<rparr> | Some a \<Rightarrow> a)"

definition registerFailedAttempt :: "auth_env \<Rightarrow> string \<Rightarrow> nat \<Rightarrow> auth_state \<Rightarrow> auth_state" where
  "registerFailedAttempt env username maxAttempts st =
     (let current = attemptOf st username;
          counted = Suc (att_count current);
          current' = (if counted \<ge> maxAttempts then \<lparr>att_count = 0, lockedUntil = now env + LOCKOUT_MS\<rparr>
                      else current\<lparr>att_count := counted\<rparr>)
      in st\<lparr>loginAttempts := AList.update username current' (loginAttempts st)\<rparr>)"

text \<open>\<open>a || b\<close> on strings.\<close>

definition or_else :: "string \<Rightarrow> string \<Rightarrow> string" where
  "or_else a b = (if a \<noteq> [] then a else b)"

definition sanitizeUser :: "user \<Rightarrow> public_user" where
  "sanitizeUser u = \<lparr>pub_id = usr_id u, pub_name = usr_name u,
     pub_username = or_else (usr_username u) (or_empty (usr_email u)),
     pub_email = or_else (or_empty (usr_email u)) (usr_username u), pub_role = usr_role u\<rparr>"

text \<open>The inner option is \<open>Number(value)\<close>, absent when it is not finite.\<close>

definition refreshInactivityMs :: "auth_env \<Rightarrow> rat" where
  "refreshInactivityMs env =
     (let days = (case inactivityDays env of
            None \<Rightarrow> max 1 (min 30 DEFAULT_REFRESH_INACTIVITY_DAYS)
          | Some (Some configured) \<Rightarrow> max 1 (min 30 configured)
          | Some None \<Rightarrow> DEFAULT_REFRESH_INACTIVITY_DAYS)
      in days * 24 * 60 * 60 * 1000)"

definition refreshTokenHash :: "auth_env \<Rightarrow> string \<Rightarrow> string" where
  "refreshTokenHash env token = sha256 env token"

definition signAccessToken :: "auth_env \<Rightarrow> user \<Rightarrow> string option \<Rightarrow> string" where
  "signAccessToken env u expiresInOverride =
     (let payload = \<lparr>p_sub = usr_id u, p_username = or_else (usr_username u) (or_empty (usr_email u)),
            p_email = or_else (or_empty (usr_email u)) (usr_username u), p_role = usr_role u,
            p_ver = authVersion u, p_type = ''access''\<rparr>;
          minutes = (case sessionMinutesSetting env of None \<Rightarrow> 0 | Some m \<Rightarrow> m);
          expiresIn = (case expiresInOverride of
              Some e \<Rightarrow> e
            | None \<Rightarrow> if minutes > 0 then dec_digits minutes @ ''m''
                      else (case jwtExpiresIn env of None \<Rightarrow> ''8h'' | Some e \<Rightarrow> e))
      in signAccess env payload expiresIn)"

definition refreshExpiry :: "auth_env \<Rightarrow> int" where
  "refreshExpiry env = \<lfloor>of_int (now env) + refreshInactivityMs env\<rfloor>"

definition createRefreshSession :: "auth_env \<Rightarrow> user \<Rightarrow> auth_state \<Rightarrow> auth_state \<times> (string \<times> int)" where
  "createRefreshSession env u st =
     (let s = \<lparr>ses_id = freshId env, ses_user = usr_id u, tokenHash = refreshTokenHash env (freshToken env),
            ses_authVersion = authVersion u, expiresAt = refreshExpiry env, revokedAt = None, lastUsedAt = None\<rparr>
      in (st\<lparr>sessions := sessions st @ [s]\<rparr>, (freshToken env, refreshExpiry env)))"

definition has_char :: "nat \<Rightarrow> nat \<Rightarrow> string \<Rightarrow> bool" where
  "has_char lo hi s \<longleftrightarrow> (\<exists>c\<in>set s. lo \<le> (of_char c :: nat) \<and> (of_char c :: nat) \<le> hi)"

definition assertPasswordStrength :: "auth_env \<Rightarrow> string \<Rightarrow> auth_error + unit" where
  "assertPasswordStrength env password =
     (if strongPasswordSetting env \<noteq> Some True then Inr ()
      else assert_that (length password \<ge> 12 \<and> has_char 97 122 password \<and> has_char 65 90 password
             \<and> has_char 48 57 password) WeakPassword)"

section \<open>Login\<close>

definition findLogin :: "auth_env \<Rightarrow> string \<Rightarrow> auth_state \<Rightarrow> user option" where
  "findLogin env identifier st =
     (if hasFindFirst env then find (\<lambda>u. usr_username u = identifier \<or> usr_email u = Some identifier) (users st)
      else find (\<lambda>u. usr_email u = Some identifier) (users st))"

text \<open>The background cleaning of the user's expired or revoked sessions.\<close>

definition purgeSessions :: "auth_env \<Rightarrow> string \<Rightarrow> auth_state \<Rightarrow> auth_state" where
  "purgeSessions env userId st = st\<lparr>sessions := filter (\<lambda>s. \<not> (ses_user s = userId \<and>
     (expiresAt s < now env \<or> revokedAt s \<noteq> None))) (sessions st)\<rparr>"

definition login :: "auth_env \<Rightarrow> string \<Rightarrow> string \<Rightarrow> string option \<Rightarrow> auth_state \<Rightarrow> auth_state \<times> (auth_error + login_result)" where
  "login env identifier password accessExpiresIn st =
     (let normalized = js_lower (js_trim identifier)
      in if normalized = [] then (st, Inl InvalidCredentials)
         else if lockedUntil (attemptOf st normalized) > now env \<and> map_of (loginAttempts st) normalized \<noteq> None
         then (st, Inl (TemporarilyLocked (- ((now env - lockedUntil (attemptOf st normalized)) div 60000))))
         else
           (let maxAttempts = (case maxAttemptsSetting env of None \<Rightarrow> 5 | Some m \<Rightarrow> m);
                failing = (registerFailedAttempt env normalized maxAttempts st, Inl InvalidCredentials)
            in case findLogin env normalized st of
                 None \<Rightarrow> failing
               | Some u \<Rightarrow>
                   if \<not> isActive u then failing
                   else if \<not> bcryptCompare env password (passwordHash u) then failing
                   else
                     (let st1 = st\<lparr>loginAttempts := AList.delete normalized (loginAttempts st)\<rparr>;
                          token = signAccessToken env u accessExpiresIn;
                          (st2, (refresh, expires)) = createRefreshSession env u st1;
                          st3 = (if purgeSucceeds env then purgeSessions env (usr_id u) st2 else st2)
                      in (st3, Inr \<lparr>accessToken = token, refreshToken = refresh, refreshExpiresAt = expires,
                            logged_user = sanitizeUser u\<rparr>))))"

section \<open>Refresh\<close>

definition findUser :: "auth_state \<Rightarrow> string \<Rightarrow> user option" where
  "findUser st uid = find (\<lambda>u. usr_id u = uid) (users st)"

definition findSession :: "auth_state \<Rightarrow> string \<Rightarrow> (session \<times> user) option" where
  "findSession st h =
     (case find (\<lambda>s. tokenHash s = h) (sessions st) of
        None \<Rightarrow> None
      | Some s \<Rightarrow> map_option (Pair s) (findUser st (ses_user s)))"

text \<open>What the first half reads and checks: the session with its user.\<close>

definition refreshRead :: "auth_env \<Rightarrow> string \<Rightarrow> auth_state \<Rightarrow> auth_error + (session \<times> user)" where
  "refreshRead env token st =
     (case findSession st (refreshTokenHash env token) of
        None \<Rightarrow> Inl SessionExpired
      | Some (s, u) \<Rightarrow>
          if revokedAt s \<noteq> None \<or> expiresAt s \<le> now env \<or> \<not> isActive u \<or> ses_authVersion s \<noteq> authVersion u
          then Inl SessionExpired else Inr (s, u))"

definition rotatable :: "session \<Rightarrow> user \<Rightarrow> string \<Rightarrow> int \<Rightarrow> session \<Rightarrow> bool" where
  "rotatable s u h t x \<longleftrightarrow> ses_id x = ses_id s \<and> tokenHash x = h \<and> revokedAt x = None \<and> expiresAt x > t \<and>
     ses_authVersion x = authVersion u"

text \<open>The second half: the conditional update of the row and the answer.\<close>

definition refreshCommit ::
  "auth_env \<Rightarrow> string \<Rightarrow> string option \<Rightarrow> session \<times> user \<Rightarrow> auth_state \<Rightarrow> auth_state \<times> (auth_error + login_result)" where
  "refreshCommit env token accessExpiresIn su st =
     (let (s, u) = su;
          hits = rotatable s u (refreshTokenHash env token) (now env);
          rotated = (\<lambda>x. if hits x then x\<lparr>tokenHash := refreshTokenHash env (freshToken env),
            expiresAt := refreshExpiry env, lastUsedAt := Some (now env)\<rparr> else x);
          st' = st\<lparr>sessions := map rotated (sessions st)\<rparr>
      in if length (filter hits (sessions st)) \<noteq> 1 then (st', Inl SessionAlreadyRenewed)
         else (st', Inr \<lparr>accessToken = signAccessToken env u accessExpiresIn, refreshToken = freshToken env,
                refreshExpiresAt = refreshExpiry env, logged_user = sanitizeUser u\<rparr>))"

definition refreshSession :: "auth_env \<Rightarrow> string \<Rightarrow> string option \<Rightarrow> auth_state \<Rightarrow> auth_state \<times> (auth_error + login_result)" where
  "refreshSession env token accessExpiresIn st =
     (case refreshRead env token st of
        Inl e \<Rightarrow> (st, Inl e)
      | Inr su \<Rightarrow> refreshCommit env token accessExpiresIn su st)"

section \<open>Tokens\<close>

definition validateAccessPayload :: "access_payload \<Rightarrow> auth_state \<Rightarrow> auth_error + public_user" where
  "validateAccessPayload payload st =
     (if p_type payload \<noteq> ''access'' then Inl InvalidToken
      else case findUser st (p_sub payload) of
        None \<Rightarrow> Inl InactiveUser
      | Some u \<Rightarrow> if \<not> isActive u \<or> p_ver payload \<noteq> authVersion u then Inl InactiveUser else Inr (sanitizeUser u))"

definition me :: "string \<Rightarrow> auth_state \<Rightarrow> auth_error + public_user" where
  "me userId st = (case findUser st userId of
     None \<Rightarrow> Inl InactiveUser
   | Some u \<Rightarrow> if \<not> isActive u then Inl InactiveUser else Inr (sanitizeUser u))"

text \<open>The payloads of the short-lived tokens; \<open>exp\<close> of the signed token is what \<open>decode\<close> gives.\<close>

record media_payload =
  m_sub :: string
  m_cameraId :: "string option"
  m_recordingId :: "string option"
  m_recordingIds :: "string list option"
  m_type :: string

record jwt_env =
  sign :: "media_payload \<Rightarrow> string \<Rightarrow> string"
  decodeExp :: "string \<Rightarrow> int option"
  verify :: "string \<Rightarrow> media_payload option"
  streamTokenExpiresIn :: "string option"

text \<open>\<open>decoded?.exp ? ... : null\<close>: an absent or zero expiry gives \<open>null\<close>.\<close>

definition issued :: "jwt_env \<Rightarrow> media_payload \<Rightarrow> string \<Rightarrow> string \<times> int option" where
  "issued jwt payload expiresIn =
     (let token = sign jwt payload expiresIn
      in (token, case decodeExp jwt token of None \<Rightarrow> None | Some e \<Rightarrow> if e = 0 then None else Some (e * 1000)))"

definition mediaTtl :: "jwt_env \<Rightarrow> string" where
  "mediaTtl jwt = (case streamTokenExpiresIn jwt of None \<Rightarrow> ''5m'' | Some e \<Rightarrow> e)"

definition createStreamToken :: "jwt_env \<Rightarrow> string \<Rightarrow> string \<Rightarrow> string \<times> int option" where
  "createStreamToken jwt userId cameraId = issued jwt \<lparr>m_sub = userId, m_cameraId = Some cameraId,
     m_recordingId = None, m_recordingIds = None, m_type = ''stream''\<rparr> (mediaTtl jwt)"

definition createPlaybackToken :: "jwt_env \<Rightarrow> string \<Rightarrow> string \<Rightarrow> string \<times> int option" where
  "createPlaybackToken jwt userId recordingId = issued jwt \<lparr>m_sub = userId, m_cameraId = None,
     m_recordingId = Some recordingId, m_recordingIds = None, m_type = ''play''\<rparr> (mediaTtl jwt)"

definition createDownloadZipToken :: "jwt_env \<Rightarrow> string \<Rightarrow> string list \<Rightarrow> string \<times> int option" where
  "createDownloadZipToken jwt userId ids = issued jwt \<lparr>m_sub = userId, m_cameraId = None,
     m_recordingId = None, m_recordingIds = Some ids, m_type = ''download-zip''\<rparr> ''15m''"

definition verifyStreamToken :: "jwt_env \<Rightarrow> string \<Rightarrow> auth_error + media_payload" where
  "verifyStreamToken jwt token = (case verify jwt token of
     None \<Rightarrow> Inl TokenExpired
   | Some p \<Rightarrow> if m_type p \<noteq> ''stream'' then Inl WrongTokenType else Inr p)"

definition verifyPlaybackToken :: "jwt_env \<Rightarrow> string \<Rightarrow> auth_error + media_payload" where
  "verifyPlaybackToken jwt token = (case verify jwt token of
     None \<Rightarrow> Inl TokenExpired
   | Some p \<Rightarrow> if m_type p \<noteq> ''play'' then Inl WrongTokenType else Inr p)"

definition verifyDownloadZipToken :: "jwt_env \<Rightarrow> string \<Rightarrow> auth_error + media_payload" where
  "verifyDownloadZipToken jwt token = (case verify jwt token of
     None \<Rightarrow> Inl TokenExpired
   | Some p \<Rightarrow> if m_type p \<noteq> ''download-zip'' \<or> m_recordingIds p = None then Inl WrongTokenType else Inr p)"

section \<open>Password reset, logout, roles\<close>

definition updateUser :: "string \<Rightarrow> (user \<Rightarrow> user) \<Rightarrow> auth_state \<Rightarrow> auth_state" where
  "updateUser uid f st = st\<lparr>users := map (\<lambda>u. if usr_id u = uid then f u else u) (users st)\<rparr>"

text \<open>The mail to send, if any: the address and the raw token.\<close>

definition forgotPassword :: "auth_env \<Rightarrow> string \<Rightarrow> auth_state \<Rightarrow> auth_state \<times> (string \<times> string) option" where
  "forgotPassword env email st =
     (let normalizedEmail = js_lower (js_trim email)
      in case find (\<lambda>u. usr_email u = Some normalizedEmail) (users st) of
           None \<Rightarrow> (st, None)
         | Some u \<Rightarrow>
             if \<not> isActive u then (st, None)
             else (updateUser (usr_id u) (\<lambda>v. v\<lparr>resetTokenHash := Some (sha256 env (freshToken env)),
                     resetTokenExpiresAt := Some (now env + RESET_TOKEN_TTL_MS)\<rparr>) st,
                   if truthy (usr_email u) then Some (the (usr_email u), freshToken env) else None))"

definition resetPassword :: "auth_env \<Rightarrow> string \<Rightarrow> string \<Rightarrow> auth_state \<Rightarrow> auth_state \<times> (auth_error + unit)" where
  "resetPassword env token newPassword st =
     (case find (\<lambda>u. resetTokenHash u = Some (sha256 env token)) (users st) of
        None \<Rightarrow> (st, Inl ResetTokenInvalid)
      | Some u \<Rightarrow>
          (case resetTokenExpiresAt u of
             None \<Rightarrow> (st, Inl ResetTokenInvalid)
           | Some t \<Rightarrow>
               if t < now env then (st, Inl ResetTokenInvalid)
               else (case assertPasswordStrength env newPassword of
                       Inl e \<Rightarrow> (st, Inl e)
                     | Inr _ \<Rightarrow> (updateUser (usr_id u) (\<lambda>v. v\<lparr>passwordHash := bcryptHash env newPassword,
                                  resetTokenHash := None, resetTokenExpiresAt := None,
                                  authVersion := Suc (authVersion v)\<rparr>) st, Inr ()))))"

text \<open>The update of a missing user throws before the sessions are touched.\<close>

definition logout :: "auth_env \<Rightarrow> string \<Rightarrow> auth_state \<Rightarrow> auth_state \<times> bool" where
  "logout env userId st =
     (case findUser st userId of
        None \<Rightarrow> (st, False)
      | Some _ \<Rightarrow>
          let st1 = updateUser userId (\<lambda>v. v\<lparr>authVersion := Suc (authVersion v)\<rparr>) st
          in (st1\<lparr>sessions := map (\<lambda>s. if ses_user s = userId \<and> revokedAt s = None
                then s\<lparr>revokedAt := Some (now env)\<rparr> else s) (sessions st1)\<rparr>, True))"

definition canAssignRole :: "role \<Rightarrow> role \<Rightarrow> bool" where
  "canAssignRole actorRole targetRole =
     (if actorRole = SUPER_ADMIN then True
      else if actorRole = ADMINISTRATOR then targetRole \<noteq> SUPER_ADMIN else False)"

record smtp_config =
  smtpHost :: string
  smtpSecure :: bool
  smtpUser :: string
  smtpPass :: string
  alarmEmailFrom :: "string option"
  publicAppUrl :: string

text \<open>The mail of a reset (its text without the accents): \<open>None\<close> when SMTP is not configured, else sender, addressee and lines.\<close>

definition sendResetPasswordEmail :: "smtp_config \<Rightarrow> string \<Rightarrow> string \<Rightarrow> (string \<times> string \<times> string list) option" where
  "sendResetPasswordEmail cfg email rawToken =
     (let sender = (case alarmEmailFrom cfg of None \<Rightarrow> smtpUser cfg | Some f \<Rightarrow> f)
      in if smtpHost cfg = [] \<or> sender = [] \<or> smtpUser cfg = [] \<or> smtpPass cfg = [] then None
         else let base = (if publicAppUrl cfg \<noteq> [] \<and> last (publicAppUrl cfg) = CHR ''/''
                          then butlast (publicAppUrl cfg) else publicAppUrl cfg)
              in Some (sender, email,
                [''Foi solicitada a redefinicao de senha da sua conta no DRAC VMS.'', [],
                 (if base \<noteq> [] then ''Acesse o link para definir uma nova senha: '' @ base @ ''/reset-password?token='' @ rawToken
                  else ''Use o codigo a seguir na tela de redefinicao de senha: '' @ rawToken), [],
                 ''Este link/codigo expira em 30 minutos.'',
                 ''Se voce nao solicitou esta acao, ignore este e-mail.'']))"

end
