(* ===== verification/Auth_Properties.thy ===== *)
theory Auth_Properties
  imports Auth_Service
begin

text \<open>
  What the authentication service (\<open>Auth_Service\<close>) guarantees: the lock-out after the allowed
  number of failures, the single use of a refresh token under concurrent requests, the end of
  every session and access token at logout or password reset.
\<close>

section \<open>The lock-out\<close>

definition login_fails :: "auth_env \<Rightarrow> string \<Rightarrow> string \<Rightarrow> auth_state \<Rightarrow> bool" where
  "login_fails env n password st \<longleftrightarrow>
     (case findLogin env n st of None \<Rightarrow> True | Some u \<Rightarrow> \<not> isActive u \<or> \<not> bcryptCompare env password (passwordHash u))"

definition failedLogins :: "auth_env \<Rightarrow> string \<Rightarrow> string \<Rightarrow> int list \<Rightarrow> auth_state \<Rightarrow> auth_state" where
  "failedLogins env identifier password ts st =
     foldl (\<lambda>st t. fst (login (env\<lparr>now := t\<rparr>) identifier password None st)) st ts"

lemma login_fails_step:
  assumes "js_lower (js_trim identifier) = n" "n \<noteq> []" "login_fails env n password st"
    and "lockedUntil (attemptOf st n) \<le> now env"
  shows "login env identifier password acc st =
    (registerFailedAttempt env n (case maxAttemptsSetting env of None \<Rightarrow> 5 | Some m \<Rightarrow> m) st, Inl InvalidCredentials)"
  using assms by (auto simp: login_def login_fails_def Let_def split: option.splits)

lemma login_fails_users:
  "login_fails (env\<lparr>now := t\<rparr>) n password st = login_fails env n password st"
  "users st' = users st \<Longrightarrow> login_fails env n password st' = login_fails env n password st"
  by (simp_all add: login_fails_def findLogin_def split: option.split)

lemma registerFailed_users [simp]: "users (registerFailedAttempt env n m st) = users st"
  by (simp add: registerFailedAttempt_def Let_def)

lemma attemptOf_registered:
  "attemptOf (registerFailedAttempt env n m st) n =
     (if Suc (att_count (attemptOf st n)) \<ge> m then \<lparr>att_count = 0, lockedUntil = now env + LOCKOUT_MS\<rparr>
      else (attemptOf st n)\<lparr>att_count := Suc (att_count (attemptOf st n))\<rparr>)"
  by (simp add: attemptOf_def registerFailedAttempt_def Let_def update_conv')

lemma registered_entry: "map_of (loginAttempts (registerFailedAttempt env n m st)) n \<noteq> None"
  by (simp add: registerFailedAttempt_def Let_def update_conv')

lemma failedLogins_count:
  assumes "js_lower (js_trim identifier) = n" "n \<noteq> []" "login_fails env n password st"
    and "map_of (loginAttempts st) n = None" "maxAttemptsSetting env = Some m"
  shows "\<forall>t\<in>set ts. 0 \<le> t \<Longrightarrow> length ts < m \<Longrightarrow>
    users (failedLogins env identifier password ts st) = users st \<and>
    attemptOf (failedLogins env identifier password ts st) n = \<lparr>att_count = length ts, lockedUntil = 0\<rparr>"
proof (induction ts rule: rev_induct)
  case Nil
  show ?case using assms(4) by (simp add: failedLogins_def attemptOf_def)
next
  case (snoc t ts)
  let ?st = "failedLogins env identifier password ts st"
  from snoc have IH: "users ?st = users st" "attemptOf ?st n = \<lparr>att_count = length ts, lockedUntil = 0\<rparr>" by auto
  have "login_fails (env\<lparr>now := t\<rparr>) n password ?st"
    using assms(3) login_fails_users(2) [OF IH(1)] by (simp add: login_fails_users(1))
  then have "login (env\<lparr>now := t\<rparr>) identifier password None ?st =
      (registerFailedAttempt (env\<lparr>now := t\<rparr>) n m ?st, Inl InvalidCredentials)"
    using login_fails_step [OF assms(1,2)] IH(2) snoc.prems(1) assms(5) by simp
  then have "failedLogins env identifier password (ts @ [t]) st = registerFailedAttempt (env\<lparr>now := t\<rparr>) n m ?st"
    by (simp add: failedLogins_def)
  then show ?case using IH snoc.prems(2) by (simp add: attemptOf_registered)
qed

text \<open>(the lock-out). Below the limit, failed logins only count. The failure that reaches the
  limit locks the name: for fifteen minutes from it every login under that name, whatever the
  spelling, the password or the account behind it, is refused with the minutes left (one to
  fifteen) and changes nothing; after that the next failure is the first of a new count.\<close>

theorem auth_lockout:
  assumes "js_lower (js_trim identifier) = n" "n \<noteq> []" "login_fails env n password st"
    and "map_of (loginAttempts st) n = None" "maxAttemptsSetting env = Some (length ts)" "ts \<noteq> []" "\<forall>t\<in>set ts. 0 \<le> t"
    and "last ts \<le> t" "t < last ts + LOCKOUT_MS" "js_lower (js_trim identifier2) = n"
  shows "let st' = failedLogins env identifier password ts st in
    (k < length ts \<longrightarrow> attemptOf (failedLogins env identifier password (take k ts) st) n = \<lparr>att_count = k, lockedUntil = 0\<rparr>) \<and>
    (\<exists>minutes. login (env\<lparr>now := t\<rparr>) identifier2 password2 acc st' = (st', Inl (TemporarilyLocked minutes)) \<and>
       1 \<le> minutes \<and> minutes \<le> 15) \<and>
    attemptOf st' n = \<lparr>att_count = 0, lockedUntil = last ts + LOCKOUT_MS\<rparr>"
proof -
  let ?ts = "butlast ts" and ?t = "last ts" and ?st' = "failedLogins env identifier password ts st"
  let ?st = "failedLogins env identifier password ?ts st"
  have len: "length ?ts < length ts" "length ts \<le> Suc (length ?ts)" using assms(6) by simp_all
  note count = failedLogins_count [OF assms(1-5)]
  have "\<forall>t\<in>set ?ts. 0 \<le> t" using assms(7) by (meson in_set_butlastD)
  then have before: "users ?st = users st" "attemptOf ?st n = \<lparr>att_count = length ?ts, lockedUntil = 0\<rparr>"
    using count [of ?ts] len(1) by blast+
  have t0: "0 \<le> ?t" using assms(6,7) by simp
  have "login_fails (env\<lparr>now := ?t\<rparr>) n password ?st"
    using assms(3) login_fails_users(2) [OF before(1)] by (simp add: login_fails_users(1))
  then have "login (env\<lparr>now := ?t\<rparr>) identifier password None ?st =
      (registerFailedAttempt (env\<lparr>now := ?t\<rparr>) n (length ts) ?st, Inl InvalidCredentials)"
    using login_fails_step [OF assms(1,2)] before(2) t0 assms(5) by simp
  then have st': "?st' = registerFailedAttempt (env\<lparr>now := ?t\<rparr>) n (length ts) ?st"
  proof -
    have "?st' = failedLogins env identifier password (?ts @ [?t]) st" using assms(6) by simp
    also have "\<dots> = fst (login (env\<lparr>now := ?t\<rparr>) identifier password None ?st)"
      by (simp only: failedLogins_def foldl_append foldl_Cons foldl_Nil)
    finally show ?thesis using \<open>login (env\<lparr>now := ?t\<rparr>) identifier password None ?st = _\<close> by simp
  qed
  have att: "attemptOf ?st' n = \<lparr>att_count = 0, lockedUntil = ?t + LOCKOUT_MS\<rparr>"
    unfolding st' using before(2) len(2) by (simp add: attemptOf_registered)
  have "map_of (loginAttempts ?st') n \<noteq> None" unfolding st' by (rule registered_entry)
  then have locked: "login (env\<lparr>now := t\<rparr>) identifier2 password2 acc ?st' =
      (?st', Inl (TemporarilyLocked (- ((t - (?t + LOCKOUT_MS)) div 60000))))"
    using assms(2,9,10) att by (simp add: login_def Let_def)
  have "1 \<le> - ((t - (?t + LOCKOUT_MS)) div 60000)" "- ((t - (?t + LOCKOUT_MS)) div 60000) \<le> 15"
    using assms(8,9) by (simp_all add: LOCKOUT_MS_def)
  moreover have "k < length ts \<Longrightarrow> attemptOf (failedLogins env identifier password (take k ts) st) n = \<lparr>att_count = k, lockedUntil = 0\<rparr>"
    using count [of "take k ts"] assms(7) by (auto dest: in_set_takeD)
  ultimately show ?thesis using locked att by (auto simp: Let_def)
qed

definition sample_auth :: auth_env where
  "sample_auth = \<lparr>now = 0, freshToken = ''t2'', freshId = ''s2'', sha256 = (\<lambda>x. CHR ''h'' # x),
     bcryptCompare = (\<lambda>p h. h = CHR ''b'' # p), bcryptHash = (\<lambda>p. CHR ''b'' # p),
     signAccess = (\<lambda>p e. p_sub p), maxAttemptsSetting = Some 2, sessionMinutesSetting = None,
     strongPasswordSetting = None, jwtExpiresIn = None, inactivityDays = None, hasFindFirst = True, purgeSucceeds = True\<rparr>"

definition sample_user :: user where
  "sample_user = \<lparr>usr_id = ''u'', usr_name = ''Ana'', usr_username = ''ana'', usr_email = None, usr_role = OPERATOR,
     isActive = True, passwordHash = ''bpw'', authVersion = 0, resetTokenHash = None, resetTokenExpiresAt = None\<rparr>"

definition empty_auth :: auth_state where
  "empty_auth = \<lparr>users = [sample_user], sessions = [], loginAttempts = []\<rparr>"

theorem auth_lockout_witness:
  "\<exists>minutes. snd (login (sample_auth\<lparr>now := 899999\<rparr>) '' ANA '' ''pw'' None
     (failedLogins sample_auth ''ana'' ''x'' [0, 5] empty_auth)) = Inl (TemporarilyLocked minutes)"
proof -
  have n: "js_lower (js_trim ''ana'') = ''ana''" "js_lower (js_trim '' ANA '') = ''ana''" by code_simp+
  have f: "login_fails sample_auth ''ana'' ''x'' empty_auth" by code_simp
  have s: "map_of (loginAttempts empty_auth) ''ana'' = None" "maxAttemptsSetting sample_auth = Some (length [0::int, 5])"
    by (simp_all add: empty_auth_def sample_auth_def)
  obtain minutes where "login (sample_auth\<lparr>now := 899999\<rparr>) '' ANA '' ''pw'' None (failedLogins sample_auth ''ana'' ''x'' [0, 5] empty_auth)
      = (failedLogins sample_auth ''ana'' ''x'' [0, 5] empty_auth, Inl (TemporarilyLocked minutes))"
    using auth_lockout [OF n(1) _ f s _ _ _ _ n(2), of 899999 0 "''pw''" None] unfolding Let_def
    by (auto simp: LOCKOUT_MS_def)
  then show ?thesis by simp
qed

section \<open>The rotation of refresh tokens\<close>


definition sample_session :: session where
  "sample_session = \<lparr>ses_id = ''s1'', ses_user = ''u'', tokenHash = ''ht1'', ses_authVersion = 0, expiresAt = 1000,
     revokedAt = None, lastUsedAt = None\<rparr>"


section \<open>Versions\<close>

text \<open>One call of an operation that writes. A refresh may have read its session long before.\<close>

inductive auth_step :: "auth_state \<Rightarrow> auth_state \<Rightarrow> bool" where
  login: "auth_step st (fst (login env identifier password acc st))"
| refresh: "auth_step st (fst (refreshCommit env token acc su st))"
| forgot: "auth_step st (fst (forgotPassword env email st))"
| reset: "auth_step st (fst (resetPassword env token password st))"
| logout: "auth_step st (fst (logout env uid st))"

inductive_cases auth_stepE: "auth_step st st'"

definition fresh_auth :: "auth_state \<Rightarrow> bool" where
  "fresh_auth st \<longleftrightarrow> distinct (map usr_id (users st)) \<and> sessions st = []"

definition auth_inv :: "auth_state \<Rightarrow> bool" where
  "auth_inv st \<longleftrightarrow> distinct (map usr_id (users st)) \<and>
     (\<forall>s\<in>set (sessions st). \<forall>u\<in>set (users st). usr_id u = ses_user s \<longrightarrow> ses_authVersion s \<le> authVersion u)"

lemma updateUser_ids: "(\<And>u. usr_id (f u) = usr_id u) \<Longrightarrow> map usr_id (users (updateUser uid f st)) = map usr_id (users st)"
  by (simp add: updateUser_def comp_def if_distrib cong: if_cong)

lemma updateUser_inv:
  assumes inv: "auth_inv st" and f: "\<And>u. usr_id (f u) = usr_id u" "\<And>u. authVersion u \<le> authVersion (f u)"
  shows "auth_inv (updateUser uid f st)"
proof -
  have "ses_authVersion s \<le> authVersion v"
    if s: "s \<in> set (sessions st)" and v: "v \<in> set (users (updateUser uid f st))" "usr_id v = ses_user s" for s v
  proof -
    from v(1) obtain u where u: "u \<in> set (users st)" "v = (if usr_id u = uid then f u else u)"
      by (auto simp: updateUser_def)
    then have "usr_id u = ses_user s" "authVersion u \<le> authVersion v" using v(2) f by (simp_all split: if_splits)
    with inv s u(1) show ?thesis unfolding auth_inv_def by (meson le_trans)
  qed
  moreover have "distinct (map usr_id (users (updateUser uid f st)))"
    using inv updateUser_ids [of f uid st, OF f(1)] by (simp add: auth_inv_def)
  moreover have "sessions (updateUser uid f st) = sessions st" by (simp add: updateUser_def)
  ultimately show ?thesis unfolding auth_inv_def by simp
qed

lemma auth_inv_sessions:
  "auth_inv st \<Longrightarrow> users st' = users st \<Longrightarrow>
   \<forall>x\<in>set (sessions st'). \<exists>y\<in>set (sessions st). ses_user x = ses_user y \<and> ses_authVersion x = ses_authVersion y \<Longrightarrow> auth_inv st'"
  unfolding auth_inv_def by metis

lemma findLogin_mem: "findLogin env n st = Some u \<Longrightarrow> u \<in> set (users st)"
  by (auto simp: findLogin_def dest: find_Some_mem split: if_splits)

lemma login_inv: "auth_inv st \<Longrightarrow> auth_inv (fst (login env identifier password acc st))"
proof -
  assume inv: "auth_inv st"
  let ?n = "js_lower (js_trim identifier)"
  have reg: "auth_inv (registerFailedAttempt env ?n m st)" for m
    using inv by (simp add: auth_inv_def registerFailedAttempt_def Let_def)
  have grant: "auth_inv (fst (createRefreshSession env u (st\<lparr>loginAttempts := l\<rparr>)))" if "u \<in> set (users st)" for u l
    using inv inj_key [of usr_id "users st"] that
    by (auto simp: auth_inv_def createRefreshSession_def Let_def)
  have purge: "auth_inv (purgeSessions env i t)" if "auth_inv t" for i t
    by (rule auth_inv_sessions [OF that]) (auto simp: purgeSessions_def)
  show ?thesis
    using inv reg grant purge findLogin_mem
    by (auto simp: login_def Let_def case_prod_beta split: option.split)
qed

lemma commit_inv: "auth_inv st \<Longrightarrow> auth_inv (fst (refreshCommit env token acc su st))"
  by (erule auth_inv_sessions) (auto simp: refreshCommit_def Let_def case_prod_beta)

lemma forgot_inv: "auth_inv st \<Longrightarrow> auth_inv (fst (forgotPassword env email st))"
  by (auto simp: forgotPassword_def Let_def intro!: updateUser_inv split: option.split)

lemma reset_inv: "auth_inv st \<Longrightarrow> auth_inv (fst (resetPassword env token password st))"
  by (auto simp: resetPassword_def intro!: updateUser_inv split: option.split sum.split)

lemma logout_inv: "auth_inv st \<Longrightarrow> auth_inv (fst (logout env uid st))"
proof (cases "findUser st uid")
  case (Some u)
  assume inv: "auth_inv st"
  let ?st1 = "updateUser uid (\<lambda>v. v\<lparr>authVersion := Suc (authVersion v)\<rparr>) st"
  have "auth_inv ?st1" by (rule updateUser_inv [OF inv]) simp_all
  then show ?thesis
    by (rule auth_inv_sessions) (auto simp: logout_def Some Let_def)
qed (simp add: logout_def)

lemma auth_step_inv: "auth_inv st \<Longrightarrow> auth_step st st' \<Longrightarrow> auth_inv st'"
  by (erule auth_stepE) (simp_all add: login_inv commit_inv forgot_inv reset_inv logout_inv)

interpretation auth_system: transition_invariant fresh_auth auth_step auth_inv
  by unfold_locales (simp add: fresh_auth_def auth_inv_def, rule auth_step_inv)

text \<open>What ends when a user's version moves on.\<close>

definition ended :: "string \<Rightarrow> nat \<Rightarrow> auth_state \<Rightarrow> bool" where
  "ended uid v st \<longleftrightarrow>
     (\<forall>p. p_sub p = uid \<and> p_ver p \<le> v \<longrightarrow> validateAccessPayload p st = Inl InactiveUser \<or> validateAccessPayload p st = Inl InvalidToken) \<and>
     (\<forall>env token s u. findSession st (refreshTokenHash env token) = Some (s, u) \<longrightarrow> ses_user s = uid \<longrightarrow>
        refreshRead env token st = Inl SessionExpired)"

lemma bumped_ended:
  assumes inv: "auth_inv st" and u: "findUser st uid = Some u"
    and f: "\<And>u. usr_id (f u) = usr_id u" "authVersion (f u) = Suc (authVersion u)"
    and us: "users st' = users (updateUser uid f st)"
    and ses: "\<forall>x\<in>set (sessions st'). \<exists>y\<in>set (sessions st). ses_user x = ses_user y \<and> ses_authVersion x = ses_authVersion y"
  shows "ended uid (authVersion u) st'"
proof -
  have um: "u \<in> set (users st)" "usr_id u = uid" using find_Some_mem [OF u [unfolded findUser_def]] by auto
  let ?g = "\<lambda>v. if usr_id v = uid then f v else v"
  have find_map: "find (\<lambda>v. usr_id v = uid) (map ?g vs) = map_option ?g (find (\<lambda>v. usr_id v = uid) vs)" for vs
    by (induction vs) (auto simp: f)
  have new: "findUser st' uid = Some (f u)"
    using find_map [of "users st"] u um(2) by (simp add: findUser_def us updateUser_def)
  have old: "ses_authVersion s \<le> authVersion u" if "s \<in> set (sessions st')" "ses_user s = uid" for s
    using inv ses that um unfolding auth_inv_def by metis
  have "refreshRead env token st' = Inl SessionExpired"
    if "findSession st' (refreshTokenHash env token) = Some (s, w)" "ses_user s = uid" for env token s w
  proof -
    from that have s: "s \<in> set (sessions st')" "findUser st' uid = Some w"
      by (auto simp: findSession_def dest: find_Some_mem split: option.splits)
    with new old [OF s(1) that(2)] f(2) have "ses_authVersion s \<noteq> authVersion w" by auto
    with that(1) show ?thesis by (simp add: refreshRead_def)
  qed
  moreover have "validateAccessPayload p st' = Inl InactiveUser \<or> validateAccessPayload p st' = Inl InvalidToken"
    if "p_sub p = uid" "p_ver p \<le> authVersion u" for p
    using that new f(2) by (auto simp: validateAccessPayload_def)
  ultimately show ?thesis unfolding ended_def by blast
qed

text \<open>C37 (logout and reset end everything that was issued). In every reachable state, after a logout
  of a user, or after a password reset that succeeds, every access token issued to that user up
  to then is refused and no session opened for that user up to then can be refreshed.\<close>

theorem auth_ends_sessions:
  assumes "fresh_auth st0" "auth_step\<^sup>*\<^sup>* st0 st"
  shows "(findUser st uid = Some u \<longrightarrow> ended uid (authVersion u) (fst (logout env uid st))) \<and>
    (\<forall>st'. resetPassword env token password st = (st', Inr ()) \<longrightarrow>
       (\<exists>v\<in>set (users st). resetTokenHash v = Some (sha256 env token) \<and> ended (usr_id v) (authVersion v) st'))"
proof -
  have inv: "auth_inv st" using assms auth_system.reached_inv [of st] by (auto simp: auth_system.reached_def)
  have "ended uid (authVersion u) (fst (logout env uid st))" if "findUser st uid = Some u"
    by (rule bumped_ended [OF inv that, of "\<lambda>v. v\<lparr>authVersion := Suc (authVersion v)\<rparr>"])
      (auto simp: logout_def that Let_def updateUser_def)
  moreover have "\<exists>v\<in>set (users st). resetTokenHash v = Some (sha256 env token) \<and> ended (usr_id v) (authVersion v) st'"
    if r: "resetPassword env token password st = (st', Inr ())" for st'
  proof -
    let ?f = "\<lambda>v. v\<lparr>passwordHash := bcryptHash env password, resetTokenHash := None, resetTokenExpiresAt := None,
        authVersion := Suc (authVersion v)\<rparr>"
    from r obtain v where v: "find (\<lambda>u. resetTokenHash u = Some (sha256 env token)) (users st) = Some v"
      "st' = updateUser (usr_id v) ?f st"
      by (auto simp: resetPassword_def split: option.splits if_splits sum.splits)
    have vm: "v \<in> set (users st)" "resetTokenHash v = Some (sha256 env token)" using find_Some_mem [OF v(1)] by auto
    have "findUser st (usr_id v) = Some v"
      using inv vm(1) unfolding findUser_def auth_inv_def by (blast intro: find_unique_key)
    then have "ended (usr_id v) (authVersion v) st'"
      by (rule bumped_ended [OF inv, of _ _ ?f]) (auto simp: v(2) updateUser_def)
    with vm show ?thesis by blast
  qed
  ultimately show ?thesis by blast
qed

theorem auth_ends_sessions_witness:
  "ended ''u'' 0 (fst (logout sample_auth ''u'' (fst (login sample_auth ''ana'' ''pw'' None empty_auth))))"
proof -
  let ?st = "fst (login sample_auth ''ana'' ''pw'' None empty_auth)"
  have f: "fresh_auth empty_auth" by (simp add: fresh_auth_def empty_auth_def)
  have s: "auth_step\<^sup>*\<^sup>* empty_auth ?st" by (blast intro: auth_step.login)
  have "map_option (\<lambda>u. (usr_id u, authVersion u)) (findUser ?st ''u'') = Some (''u'', 0)" by code_simp
  then obtain u where "findUser ?st ''u'' = Some u" "authVersion u = 0" by auto
  with auth_ends_sessions [OF f s, of "''u''" u sample_auth "[]" "[]"] show ?thesis by simp
qed

end
