(* ===== verification/File_Deletion.thy ===== *)
theory File_Deletion
  imports Prelude
begin

text \<open>
  \<open>recordings/helpers/transactional-file-delete.helper.ts\<close>: deletion of files that is undone
  unless the database confirms it. The files under the recordings root are a map from their
  normalised relative paths; a journal is kept as the record it is the JSON text of. Directories,
  modes and \<open>fsync\<close> have no effect on that map and are left out. The functions of \<open>node:path\<close>
  (POSIX) are written out on lists of segments. Which renames and which removals fail, and the
  length of a journal's text, are parameters.
\<close>

section \<open>Paths\<close>

definition segments :: "string \<Rightarrow> string list" where
  "segments s = filter (\<lambda>x. x \<noteq> [] \<and> x \<noteq> ''.'') (split_on (CHR ''/'') s)"

fun normalize :: "string list \<Rightarrow> string list \<Rightarrow> string list" where
  "normalize acc [] = acc"
| "normalize acc (x # xs) = (if x = ''..'' then normalize (butlast acc) xs else normalize (acc @ [x]) xs)"

definition isAbsolute :: "string \<Rightarrow> bool" where
  "isAbsolute s \<longleftrightarrow> take 1 s = ''/''"

text \<open>\<open>resolve(base, s)\<close> as the list of segments of an absolute path.\<close>

definition resolve :: "string list \<Rightarrow> string \<Rightarrow> string list" where
  "resolve base s = normalize [] ((if isAbsolute s then [] else base) @ segments s)"

fun common :: "string list \<Rightarrow> string list \<Rightarrow> nat" where
  "common (x # xs) (y # ys) = (if x = y then Suc (common xs ys) else 0)"
| "common _ _ = 0"

definition relative :: "string list \<Rightarrow> string list \<Rightarrow> string" where
  "relative a b = js_join ''/'' (replicate (length a - common a b) ''..'' @ drop (common a b) b)"

definition starts_with :: "string \<Rightarrow> string \<Rightarrow> bool" where
  "starts_with p s \<longleftrightarrow> take (length p) s = p"

section \<open>Data\<close>

datatype guard_model = recording | exportedClip

record deletion_guard =
  g_model :: guard_model
  g_id :: string

record journal_entry =
  originalRelative :: string
  quarantineRelative :: string

record journal =
  j_version :: nat
  operationId :: string
  j_guards :: "deletion_guard list"
  j_entries :: "journal_entry list"

datatype stored = Bytes string | JournalText journal

type_synonym files = "string \<Rightarrow> stored option"

datatype deletion_error =
    RootTarget | JournalTarget | OutsideRoot | InvalidJournal | InvalidEntry | InvalidQuarantine | InvalidGuard
  | JournalExists | RenameFailed string | RestoreFailed "string list" | PrepareAndRestoreFailed

definition JOURNAL_DIR :: string where "JOURNAL_DIR = ''.drac-file-deletions''"
definition JOURNAL_FILE :: string where "JOURNAL_FILE = ''journal.json''"

section \<open>Journal\<close>

definition assertUnderRoot :: "string list \<Rightarrow> string list \<Rightarrow> deletion_error + string" where
  "assertUnderRoot root candidate =
     (let rel = relative root candidate
      in if rel = [] \<or> rel = ''.'' then Inl RootTarget
         else if rel = JOURNAL_DIR \<or> starts_with (JOURNAL_DIR @ ''/'') rel then Inl JournalTarget
         else if starts_with ''../'' rel \<or> rel = ''..'' \<or> isAbsolute rel then Inl OutsideRoot
         else Inr rel)"

definition operationRoot :: "string \<Rightarrow> string" where
  "operationRoot op = JOURNAL_DIR @ ''/'' @ op"

definition journalPath :: "string \<Rightarrow> string" where
  "journalPath op = operationRoot op @ ''/'' @ JOURNAL_FILE"

definition quarantineRoot :: "string \<Rightarrow> string" where
  "quarantineRoot op = operationRoot op @ ''/files''"

definition hex_or :: "char set \<Rightarrow> char \<Rightarrow> bool" where
  "hex_or extra c \<longleftrightarrow> is_digit c \<or> js_lower_char c \<in> {CHR ''a'', CHR ''b'', CHR ''c'', CHR ''d'', CHR ''e'', CHR ''f''} \<or> c \<in> extra"

text \<open>\<open>/^[0-9a-f]{8}-[0-9a-f-]{27}$/i\<close>.\<close>

definition uuid_like :: "string \<Rightarrow> bool" where
  "uuid_like s \<longleftrightarrow> length s = 36 \<and> list_all (hex_or {}) (take 8 s) \<and> s ! 8 = CHR ''-'' \<and>
     list_all (hex_or {CHR ''-''}) (drop 9 s)"

definition validateEntry :: "string list \<Rightarrow> string \<Rightarrow> journal_entry \<Rightarrow> deletion_error + unit" where
  "validateEntry root op e =
     (if isAbsolute (originalRelative e) \<or> isAbsolute (quarantineRelative e) then Inl InvalidEntry
      else case assertUnderRoot root (resolve root (originalRelative e)) of
        Inl err \<Rightarrow> Inl err
      | Inr _ \<Rightarrow>
          (let q = relative root (resolve root (quarantineRelative e)); prefix = quarantineRoot op
           in if starts_with ''../'' q \<or> q = ''..'' \<or> isAbsolute q \<or>
                (q \<noteq> prefix \<and> \<not> starts_with (prefix @ ''/'') q)
              then Inl InvalidQuarantine else Inr ()))"

fun firstError :: "('a \<Rightarrow> 'e + unit) \<Rightarrow> 'a list \<Rightarrow> 'e + unit" where
  "firstError f [] = Inr ()"
| "firstError f (x # xs) = (case f x of Inl e \<Rightarrow> Inl e | Inr _ \<Rightarrow> firstError f xs)"

definition validateJournal :: "string list \<Rightarrow> string \<Rightarrow> journal \<Rightarrow> deletion_error + unit" where
  "validateJournal root expectedOperationId j =
     (if j_version j \<noteq> 1 \<or> operationId j \<noteq> expectedOperationId \<or> \<not> uuid_like (operationId j)
         \<or> length (j_entries j) > 100000 \<or> length (j_guards j) > 100000
      then Inl InvalidJournal
      else case firstError (validateEntry root (operationId j)) (j_entries j) of
        Inl e \<Rightarrow> Inl e
      | Inr _ \<Rightarrow> firstError (\<lambda>g. assert_that (g_id g \<noteq> [] \<and> length (g_id g) \<le> 256) InvalidGuard) (j_guards j))"

section \<open>Moving and restoring\<close>

definition renameFile :: "string \<Rightarrow> string \<Rightarrow> files \<Rightarrow> files" where
  "renameFile src dst fs = fs(src := None, dst := fs src)"

definition removeTree :: "string \<Rightarrow> files \<Rightarrow> files" where
  "removeTree d fs = (\<lambda>p. if p = d \<or> starts_with (d @ ''/'') p then None else fs p)"

text \<open>The loop of \<open>restoreJournal\<close> over the entries in reverse: the files and the errors.\<close>

fun restoreLoop :: "(string \<Rightarrow> bool) \<Rightarrow> journal_entry list \<Rightarrow> files \<Rightarrow> files \<times> string list" where
  "restoreLoop renameFails [] fs = (fs, [])"
| "restoreLoop renameFails (e # es) fs =
     (if fs (quarantineRelative e) = None then restoreLoop renameFails es fs
      else if fs (originalRelative e) \<noteq> None \<or> renameFails (quarantineRelative e)
      then (let (fs', errors) = restoreLoop renameFails es fs in (fs', originalRelative e # errors))
      else restoreLoop renameFails es (renameFile (quarantineRelative e) (originalRelative e) fs))"

definition restoreJournal :: "(string \<Rightarrow> bool) \<Rightarrow> journal \<Rightarrow> files \<Rightarrow> files \<times> (deletion_error + unit)" where
  "restoreJournal renameFails j fs =
     (let (fs', errors) = restoreLoop renameFails (rev (j_entries j)) fs
      in if errors \<noteq> [] then (fs', Inl (RestoreFailed errors))
         else (removeTree (operationRoot (operationId j)) fs', Inr ()))"

text \<open>The boolean is \<open>cleanupDeferred\<close>.\<close>

definition cleanupCommittedJournal :: "bool \<Rightarrow> journal \<Rightarrow> files \<Rightarrow> files \<times> bool" where
  "cleanupCommittedJournal rmFails j fs =
     (if rmFails then (fs, True) else (removeTree (operationRoot (operationId j)) fs, False))"

definition mkEntries :: "string \<Rightarrow> string list \<Rightarrow> journal_entry list" where
  "mkEntries op rels = map (\<lambda>(i, rel). \<lparr>originalRelative = rel,
     quarantineRelative = quarantineRoot op @ ''/'' @ pad_start 8 (dec_digits i)\<rparr>) (enumerate 0 rels)"

text \<open>The moving loop: the files, the counts of moved and missing files, and whether a rename failed.\<close>

fun moveLoop :: "(string \<Rightarrow> bool) \<Rightarrow> journal_entry list \<Rightarrow> files \<Rightarrow> files \<times> nat \<times> nat \<times> string option" where
  "moveLoop renameFails [] fs = (fs, 0, 0, None)"
| "moveLoop renameFails (e # es) fs =
     (if fs (originalRelative e) = None
      then (let (fs', moved, missing, err) = moveLoop renameFails es fs in (fs', moved, Suc missing, err))
      else if renameFails (originalRelative e) then (fs, 0, 0, Some (originalRelative e))
      else (let (fs', moved, missing, err) =
              moveLoop renameFails es (renameFile (originalRelative e) (quarantineRelative e) fs)
            in (fs', Suc moved, missing, err)))"

fun mapResult :: "('a \<Rightarrow> 'e + 'b) \<Rightarrow> 'a list \<Rightarrow> 'e + 'b list" where
  "mapResult f [] = Inr []"
| "mapResult f (x # xs) = (case f x of Inl e \<Rightarrow> Inl e
     | Inr y \<Rightarrow> (case mapResult f xs of Inl e \<Rightarrow> Inl e | Inr ys \<Rightarrow> Inr (y # ys)))"

record staged =
  st_journal :: journal
  movedFiles :: nat
  missingFiles :: nat

definition mkJournal :: "string list \<Rightarrow> string \<Rightarrow> string list \<Rightarrow> deletion_guard list \<Rightarrow> deletion_error + journal" where
  "mkJournal root op candidates guards =
     (case mapResult (\<lambda>c. assertUnderRoot root (resolve root c)) candidates of
        Inl e \<Rightarrow> Inl e
      | Inr rels \<Rightarrow> Inr \<lparr>j_version = 1, operationId = op, j_guards = guards, j_entries = mkEntries op (uniq rels)\<rparr>)"

definition stageFileDeletion ::
  "(string \<Rightarrow> bool) \<Rightarrow> string list \<Rightarrow> string \<Rightarrow> string list \<Rightarrow> deletion_guard list \<Rightarrow> files \<Rightarrow>
   files \<times> (deletion_error + staged)" where
  "stageFileDeletion renameFails root op candidates guards fs =
     (case mkJournal root op candidates guards of
        Inl e \<Rightarrow> (fs, Inl e)
      | Inr j \<Rightarrow>
          if fs (journalPath op) \<noteq> None then (fs, Inl JournalExists)
          else
            (let fs1 = fs(journalPath op \<mapsto> JournalText j);
                 (fs2, moved, missing, err) = moveLoop renameFails (j_entries j) fs1
             in case err of
                  None \<Rightarrow> (fs2, Inr \<lparr>st_journal = j, movedFiles = moved, missingFiles = missing\<rparr>)
                | Some p \<Rightarrow>
                    (case restoreJournal renameFails j fs2 of
                       (fs3, Inl _) \<Rightarrow> (fs3, Inl PrepareAndRestoreFailed)
                     | (fs3, Inr _) \<Rightarrow> (fs3, Inl (RenameFailed p)))))"

text \<open>The two ways to end a staged deletion.\<close>

definition commitDeletion :: "bool \<Rightarrow> staged \<Rightarrow> files \<Rightarrow> files \<times> bool" where
  "commitDeletion rmFails s fs = cleanupCommittedJournal rmFails (st_journal s) fs"

definition rollbackDeletion :: "(string \<Rightarrow> bool) \<Rightarrow> staged \<Rightarrow> files \<Rightarrow> files \<times> (deletion_error + unit)" where
  "rollbackDeletion renameFails s fs = restoreJournal renameFails (st_journal s) fs"

section \<open>Recovery\<close>

record recovery =
  scanned :: nat
  restored :: nat
  cleaned :: nat
  failed_ops :: nat

datatype op_outcome = Restored | Cleaned | Failed

record recovery_env =
  guardExists :: "deletion_guard \<Rightarrow> bool"
  textLength :: "journal \<Rightarrow> nat"
  recoverRenameFails :: "string \<Rightarrow> bool"
  recoverRmFails :: "string \<Rightarrow> bool"

definition recoverOne :: "recovery_env \<Rightarrow> string list \<Rightarrow> string \<Rightarrow> files \<Rightarrow> files \<times> op_outcome" where
  "recoverOne env root name fs =
     (case fs (journalPath name) of
        Some (JournalText j) \<Rightarrow>
          if textLength env j > 1000000 then (fs, Failed)
          else (case validateJournal root name j of
             Inl _ \<Rightarrow> (fs, Failed)
           | Inr _ \<Rightarrow>
               if list_ex (guardExists env) (j_guards j)
               then (case restoreJournal (recoverRenameFails env) j fs of
                       (fs', Inl _) \<Rightarrow> (fs', Failed) | (fs', Inr _) \<Rightarrow> (fs', Restored))
               else (case cleanupCommittedJournal (recoverRmFails env name) j fs of
                       (fs', True) \<Rightarrow> (fs', Failed) | (fs', False) \<Rightarrow> (fs', Cleaned)))
      | _ \<Rightarrow> (fs, Failed))"

fun recoverLoop :: "recovery_env \<Rightarrow> string list \<Rightarrow> (string \<times> bool) list \<Rightarrow> files \<times> recovery \<Rightarrow> files \<times> recovery" where
  "recoverLoop env root [] acc = acc"
| "recoverLoop env root ((name, isDirectory) # dirs) (fs, r) =
     (if \<not> isDirectory then recoverLoop env root dirs (fs, r)
      else let (fs', outcome) = recoverOne env root name fs;
               r1 = r\<lparr>scanned := Suc (scanned r)\<rparr>;
               r' = (case outcome of
                   Restored \<Rightarrow> r1\<lparr>restored := Suc (restored r1)\<rparr>
                 | Cleaned \<Rightarrow> r1\<lparr>cleaned := Suc (cleaned r1)\<rparr>
                 | Failed \<Rightarrow> r1\<lparr>failed_ops := Suc (failed_ops r1)\<rparr>)
           in recoverLoop env root dirs (fs', r'))"

text \<open>\<open>None\<close> when the directory of operations does not exist.\<close>

definition recoverPendingFileDeletions ::
  "recovery_env \<Rightarrow> string list \<Rightarrow> (string \<times> bool) list option \<Rightarrow> files \<Rightarrow> files \<times> recovery" where
  "recoverPendingFileDeletions env root dirs fs =
     recoverLoop env root (case dirs of None \<Rightarrow> [] | Some ds \<Rightarrow> ds)
       (fs, \<lparr>scanned = 0, restored = 0, cleaned = 0, failed_ops = 0\<rparr>)"

end
