(* ===== verification/File_Deletion_Recovery.thy ===== *)
theory File_Deletion_Recovery
  imports File_Deletion
begin

text \<open>
  What the transactional deletion (\<open>File_Deletion\<close>) guarantees: no target outside the root, all or
  nothing around a crash at any point of the moves, and the journals that recovery refuses.
\<close>

section \<open>Paths stay under the root\<close>

definition no_slash :: "string list \<Rightarrow> bool" where
  "no_slash xs \<longleftrightarrow> (\<forall>x\<in>set xs. CHR ''/'' \<notin> set x \<and> x \<noteq> [] \<and> x \<noteq> ''.'')"

lemma split_on_parts: "x \<in> set (split_on d s) \<Longrightarrow> d \<notin> set x"
proof (induction s arbitrary: x)
  case (Cons c s)
  show ?case
  proof (cases "c = d")
    case True
    with Cons show ?thesis by auto
  next
    case False
    with Cons show ?thesis by (cases "split_on d s") auto
  qed
qed simp

lemma segments_no_slash: "no_slash (segments s)"
  using split_on_parts by (auto simp: no_slash_def segments_def)

lemma normalize_set: "set (normalize acc xs) \<subseteq> set acc \<union> {x \<in> set xs. x \<noteq> ''..''}"
proof (induction xs arbitrary: acc)
  case (Cons x xs)
  show ?case
  proof (cases "x = ''..''")
    case True
    with Cons.IH [of "butlast acc"] show ?thesis by (auto dest: in_set_butlastD)
  next
    case False
    with Cons.IH [of "acc @ [x]"] show ?thesis by auto
  qed
qed simp

definition normal :: "string list \<Rightarrow> bool" where
  "normal xs \<longleftrightarrow> no_slash xs \<and> ''..'' \<notin> set xs"

lemma resolve_normal: "normal base \<Longrightarrow> normal (resolve base s)"
  using normalize_set [of "[]" "(if isAbsolute s then [] else base) @ segments s"] segments_no_slash [of s]
  unfolding resolve_def normal_def no_slash_def by (auto split: if_splits)

lemma normalize_normal: "''..'' \<notin> set xs \<Longrightarrow> normalize acc xs = acc @ xs"
  by (induction xs arbitrary: acc) auto

lemma segments_join: "no_slash xs \<Longrightarrow> segments (js_join ''/'' xs) = xs"
proof (induction xs)
  case (Cons x xs)
  then have x: "CHR ''/'' \<notin> set x" "x \<noteq> []" "x \<noteq> ''.''" "no_slash xs" by (simp_all add: no_slash_def)
  with Cons.IH show ?case
    by (cases xs) (simp_all add: segments_def split_on_append split_on_single)
qed (simp add: segments_def)

lemma common_le: "common a b \<le> length a" "common a b \<le> length b"
  by (induction a b rule: common.induct) auto

lemma common_take: "take (common a b) a = take (common a b) b"
  by (induction a b rule: common.induct) auto

lemma js_join_Nil_iff: "no_slash xs \<Longrightarrow> js_join ''/'' xs = [] \<longleftrightarrow> xs = []"
proof (cases xs)
  case (Cons x ys)
  assume "no_slash xs"
  with Cons show ?thesis by (cases ys) (simp_all add: no_slash_def)
qed simp

lemma js_join_Cons: "js_join d (x # xs) = (if xs = [] then x else x @ d @ js_join d xs)"
  by (cases xs) simp_all

lemma starts_with_join:
  "no_slash (x # xs) \<Longrightarrow> CHR ''/'' \<notin> set d \<Longrightarrow> d \<noteq> [] \<Longrightarrow>
   (js_join ''/'' (x # xs) = d \<or> starts_with (d @ ''/'') (js_join ''/'' (x # xs))) \<longleftrightarrow> x = d"
proof -
  assume ns: "no_slash (x # xs)" and d: "CHR ''/'' \<notin> set d" "d \<noteq> []"
  have first: "hd (split_on (CHR ''/'') (js_join ''/'' (x # xs))) = x"
    using ns by (cases xs) (simp_all add: no_slash_def split_on_append split_on_single)
  show ?thesis
  proof
    assume "js_join ''/'' (x # xs) = d \<or> starts_with (d @ ''/'') (js_join ''/'' (x # xs))"
    then show "x = d"
    proof
      assume "js_join ''/'' (x # xs) = d"
      with first d show ?thesis by (simp add: split_on_single)
    next
      assume "starts_with (d @ ''/'') (js_join ''/'' (x # xs))"
      then obtain t where "js_join ''/'' (x # xs) = d @ CHR ''/'' # t"
        by (auto simp: starts_with_def intro: that) (metis append.assoc append_Cons append_Nil append_take_drop_id)
      with first d show ?thesis by (simp add: split_on_append split_on_single)
    qed
  next
    assume "x = d"
    then show "js_join ''/'' (x # xs) = d \<or> starts_with (d @ ''/'') (js_join ''/'' (x # xs))"
      by (simp add: js_join_Cons starts_with_def)
  qed
qed

lemma common_prefix: "common a (a @ xs) = length a"
  by (induction a) simp_all

lemma relative_inside:
  assumes "normal root" "normal b" "common root b = length root" "drop (length root) b = x # xs"
  shows "assertUnderRoot root b =
      (if x = JOURNAL_DIR then Inl JournalTarget else Inr (js_join ''/'' (x # xs))) \<and> b = root @ x # xs"
proof -
  have b: "b = root @ x # xs" using common_take [of root b] assms(3,4) by (metis append_take_drop_id take_all_iff order_refl)
  have ns: "no_slash (x # xs)" "x \<noteq> ''..''" using assms(2) b by (auto simp: normal_def no_slash_def)
  have rel: "relative root b = js_join ''/'' (x # xs)" using assms(3,4) by (simp add: relative_def)
  let ?j = "js_join ''/'' (x # xs)"
  have ne: "?j \<noteq> []" using js_join_Nil_iff [OF ns(1)] by simp
  have dot: "?j \<noteq> ''.''"
    using starts_with_join [OF ns(1), of "''.''"] ns(1) by (auto simp: no_slash_def)
  have jd: "?j = JOURNAL_DIR \<or> starts_with (JOURNAL_DIR @ ''/'') ?j \<longleftrightarrow> x = JOURNAL_DIR"
    by (rule starts_with_join [OF ns(1)]) (simp_all add: JOURNAL_DIR_def)
  have up: "\<not> (starts_with ''../'' ?j \<or> ?j = ''..'' \<or> isAbsolute ?j)"
  proof -
    have "\<not> isAbsolute ?j" using ns(1) by (cases x) (auto simp: isAbsolute_def js_join_Cons no_slash_def)
    then show ?thesis using starts_with_join [OF ns(1), of "''..''"] ns(2) by simp
  qed
  have "assertUnderRoot root b = (if x = JOURNAL_DIR then Inl JournalTarget else Inr ?j)"
    unfolding assertUnderRoot_def rel Let_def jd using ne dot up by (simp only: if_False HOL.simp_thms)
  then show ?thesis using b by blast
qed

lemma relative_outside:
  assumes "normal root" "normal b" "common root b < length root"
  shows "\<exists>e. assertUnderRoot root b = Inl e"
proof -
  let ?xs = "replicate (length root - common root b - 1) ''..'' @ drop (common root b) b"
  obtain n where n: "length root - common root b = Suc n" using assms(3) by (metis Suc_diff_Suc)
  then have rel: "relative root b = js_join ''/'' (''..'' # ?xs)" by (simp add: relative_def)
  have "no_slash (''..'' # ?xs)" using assms(2) by (auto simp: normal_def no_slash_def dest: in_set_dropD)
  then have "relative root b = ''..'' \<or> starts_with (''..'' @ ''/'') (relative root b)"
    unfolding rel by (subst starts_with_join) simp_all
  then show ?thesis by (auto simp: assertUnderRoot_def Let_def)
qed

lemma under_root_iff:
  assumes "normal root"
  shows "assertUnderRoot root (resolve root c) = Inr rel \<longleftrightarrow>
    (\<exists>x xs. resolve root c = root @ x # xs \<and> x \<noteq> JOURNAL_DIR \<and> rel = js_join ''/'' (x # xs) \<and>
       segments rel = x # xs \<and> ''..'' \<notin> set (x # xs))"
proof -
  let ?b = "resolve root c"
  have nb: "normal ?b" by (rule resolve_normal [OF assms])
  show ?thesis
  proof (cases "common root ?b = length root")
    case False
    then have lt: "common root ?b < length root" using common_le(1) [of root ?b] by simp
    with relative_outside [OF assms nb] obtain e where "assertUnderRoot root ?b = Inl e" by blast
    moreover have "?b \<noteq> root @ xs" for xs using False common_prefix [of root xs] by metis
    ultimately show ?thesis by auto
  next
    case True
    show ?thesis
    proof (cases "drop (length root) ?b")
      case Nil
      then have "relative root ?b = []" by (simp add: relative_def True)
      moreover have "?b \<noteq> root @ x # xs" for x xs using Nil by auto
      ultimately show ?thesis by (simp add: assertUnderRoot_def)
    next
      case (Cons x xs)
      note inside = relative_inside [OF assms nb True Cons]
      have "no_slash (x # xs)" "''..'' \<notin> set (x # xs)" using nb inside by (auto simp: normal_def no_slash_def)
      moreover have "segments (js_join ''/'' (x # xs)) = x # xs" by (rule segments_join) fact
      ultimately show ?thesis using inside by (cases "x = JOURNAL_DIR") auto
    qed
  qed
qed

text \<open>(nothing outside the root is ever a target). A candidate is accepted exactly when its
  resolved path lies strictly inside the root and not in the journal's own directory; what is
  returned is then that path relative to the root, without a single parent segment.\<close>

theorem under_root_exact:
  assumes "normal root"
  shows "assertUnderRoot root (resolve root c) = Inr rel \<longleftrightarrow>
    (\<exists>x xs. resolve root c = root @ x # xs \<and> x \<noteq> JOURNAL_DIR \<and> rel = js_join ''/'' (x # xs) \<and>
       segments rel = x # xs \<and> ''..'' \<notin> set (x # xs))"
  by (rule under_root_iff [OF assms])

theorem under_root_exact_witness:
  "assertUnderRoot [''srv'', ''rec''] (resolve [''srv'', ''rec''] ''cam/../cam2//a.mp4'') = Inr ''cam2/a.mp4''"
proof -
  have n: "normal [''srv'', ''rec'']" by (simp add: normal_def no_slash_def)
  have "resolve [''srv'', ''rec''] ''cam/../cam2//a.mp4'' = [''srv'', ''rec''] @ [''cam2'', ''a.mp4'']"
    "segments ''cam2/a.mp4'' = [''cam2'', ''a.mp4'']" by code_simp+
  then show ?thesis by (subst under_root_exact [OF n]) (simp add: JOURNAL_DIR_def)
qed

section \<open>Moves and their undoing\<close>

text \<open>The state after the first moves of the loop, the rest still to do (a crash there).\<close>

definition moveEntry :: "journal_entry \<Rightarrow> files \<Rightarrow> files" where
  "moveEntry e fs = (if fs (originalRelative e) = None then fs
     else renameFile (originalRelative e) (quarantineRelative e) fs)"

definition moves :: "journal_entry list \<Rightarrow> files \<Rightarrow> files" where
  "moves es fs = foldl (\<lambda>fs e. moveEntry e fs) fs es"

lemma moves_simps [simp]: "moves [] fs = fs" "moves (es @ [e]) fs = moveEntry e (moves es fs)"
  by (simp_all add: moves_def)

text \<open>Entries of one journal: originals and quarantine places are all different.\<close>

definition entries_ok :: "journal_entry list \<Rightarrow> bool" where
  "entries_ok es \<longleftrightarrow> distinct (map originalRelative es @ map quarantineRelative es)"

lemma moveEntry_other:
  "p \<noteq> originalRelative e \<Longrightarrow> p \<noteq> quarantineRelative e \<Longrightarrow> moveEntry e fs p = fs p"
  by (simp add: moveEntry_def renameFile_def)

lemma moves_other:
  "p \<notin> originalRelative ` set es \<Longrightarrow> p \<notin> quarantineRelative ` set es \<Longrightarrow> moves es fs p = fs p"
  by (induction es rule: rev_induct) (auto simp: moveEntry_other)

lemma moves_original:
  "entries_ok es \<Longrightarrow> e \<in> set es \<Longrightarrow> moves es fs (originalRelative e) = None"
proof (induction es rule: rev_induct)
  case (snoc d es)
  have ok: "entries_ok es" using snoc.prems(1) by (auto simp: entries_ok_def)
  show ?case
  proof (cases "e = d")
    case True
    then show ?thesis using snoc.prems(1) by (auto simp: moveEntry_def renameFile_def entries_ok_def)
  next
    case False
    with snoc.prems have e: "e \<in> set es" by simp
    have "originalRelative e \<noteq> originalRelative d" "originalRelative e \<noteq> quarantineRelative d"
      using snoc.prems(1) imageI [OF e, of originalRelative] by (auto simp: entries_ok_def)
    then show ?thesis using snoc.IH [OF ok e] by (simp add: moveEntry_other)
  qed
qed simp

lemma undo_move:
  assumes "fs (quarantineRelative e) = None" "originalRelative e \<noteq> quarantineRelative e" "\<not> rf (quarantineRelative e)"
  shows "restoreLoop rf (e # es) (moveEntry e fs) = restoreLoop rf es fs"
proof (cases "fs (originalRelative e)")
  case None
  with assms show ?thesis by (simp add: moveEntry_def)
next
  case (Some x)
  have "(renameFile (quarantineRelative e) (originalRelative e) (renameFile (originalRelative e) (quarantineRelative e) fs)) = fs"
    using assms(1,2) by (auto simp: renameFile_def fun_eq_iff)
  with Some assms show ?thesis by (simp add: moveEntry_def renameFile_def)
qed

lemma restore_untouched:
  "\<forall>e\<in>set es. fs (quarantineRelative e) = None \<Longrightarrow> restoreLoop rf (es @ rest) fs = restoreLoop rf rest fs"
  by (induction es) auto

lemma restore_moves:
  assumes "entries_ok es" "\<forall>e\<in>set es. fs (quarantineRelative e) = None \<and> \<not> rf (quarantineRelative e)"
  shows "restoreLoop rf (rev es) (moves es fs) = (fs, [])"
  using assms
proof (induction es rule: rev_induct)
  case (snoc e es)
  have ok: "entries_ok es" using snoc.prems(1) by (auto simp: entries_ok_def)
  have "quarantineRelative e \<notin> originalRelative ` set es" "quarantineRelative e \<notin> quarantineRelative ` set es"
    "originalRelative e \<noteq> quarantineRelative e" using snoc.prems(1) by (auto simp: entries_ok_def)
  then have q: "moves es fs (quarantineRelative e) = None" using snoc.prems(2) by (simp add: moves_other)
  have "restoreLoop rf (e # rev es) (moveEntry e (moves es fs)) = restoreLoop rf (rev es) (moves es fs)"
    by (rule undo_move) (use q snoc.prems(2) \<open>originalRelative e \<noteq> _\<close> in auto)
  then show ?case using snoc.IH [OF ok] snoc.prems(2) by (simp del: restoreLoop.simps)
qed simp

text \<open>Undoing a loop cut after any number of moves.\<close>

lemma restore_prefix:
  assumes "entries_ok es" "\<forall>e\<in>set es. fs (quarantineRelative e) = None \<and> \<not> rf (quarantineRelative e)"
  shows "restoreLoop rf (rev es) (moves (take k es) fs) = (fs, [])"
proof -
  have es: "rev es = rev (drop k es) @ rev (take k es)" by (metis append_take_drop_id rev_append)
  have ok: "entries_ok (take k es)"
  proof -
    have "distinct ((map originalRelative (take k es) @ map originalRelative (drop k es)) @
        (map quarantineRelative (take k es) @ map quarantineRelative (drop k es)))"
      using assms(1) unfolding entries_ok_def by (simp flip: map_append)
    then show ?thesis by (auto simp: entries_ok_def)
  qed
  have "moves (take k es) fs (quarantineRelative e) = None" if e: "e \<in> set (drop k es)" for e
  proof -
    have d: "distinct (map quarantineRelative (take k es @ drop k es))" "e \<in> set es"
      using assms(1) e by (simp_all add: entries_ok_def in_set_dropD)
    then have "quarantineRelative e \<notin> quarantineRelative ` set (take k es)"
      using e by (simp only: map_append distinct_append) auto
    moreover have "quarantineRelative e \<notin> originalRelative ` set (take k es)"
      using assms(1) d(2) by (auto simp: entries_ok_def dest: in_set_takeD)
    ultimately show ?thesis using assms(2) d(2) by (simp add: moves_other)
  qed
  then show ?thesis
    using restore_moves [OF ok, of fs rf] assms(2)
    unfolding es by (subst restore_untouched) (auto dest: in_set_takeD)
qed

section \<open>The journal of a staged deletion\<close>

lemma mkEntries_fields:
  "map originalRelative (mkEntries op rels) = rels"
  "map quarantineRelative (mkEntries op rels) =
     map (\<lambda>i. quarantineRoot op @ ''/'' @ pad_start 8 (dec_digits i)) [0..<length rels]"
proof -
  have snd: "map snd (enumerate n xs) = xs" for n :: nat and xs :: "string list"
    by (induction xs arbitrary: n) simp_all
  have fst: "map fst (enumerate n xs) = [n..<n + length xs]" for n :: nat and xs :: "string list"
    by (induction xs arbitrary: n) (simp_all add: upt_rec)
  show "map originalRelative (mkEntries op rels) = rels"
    by (simp add: mkEntries_def comp_def case_prod_beta snd)
  have "map quarantineRelative (mkEntries op rels) =
      map (\<lambda>i. quarantineRoot op @ ''/'' @ pad_start 8 (dec_digits i)) (map fst (enumerate 0 rels))"
    unfolding mkEntries_def map_map by (rule map_cong) auto
  then show "map quarantineRelative (mkEntries op rels) =
     map (\<lambda>i. quarantineRoot op @ ''/'' @ pad_start 8 (dec_digits i)) [0..<length rels]" by (simp only: fst) simp
qed

lemma pad_digits_inj: "pad_start w (dec_digits m) = pad_start w (dec_digits n) \<Longrightarrow> m = n"
proof -
  have v: "dec_val (pad_start w (dec_digits k)) = k" for k
    by (simp add: pad_start_def dec_val_zeros dec_val_digits)
  assume "pad_start w (dec_digits m) = pad_start w (dec_digits n)"
  then have "dec_val (pad_start w (dec_digits m)) = dec_val (pad_start w (dec_digits n))" by simp
  then show ?thesis by (simp only: v)
qed

lemma starts_with_append [simp]: "starts_with p (p @ s)"
  by (simp add: starts_with_def)

lemma quarantine_prefix:
  "e \<in> set (mkEntries op rels) \<Longrightarrow> starts_with (quarantineRoot op @ ''/'') (quarantineRelative e)"
proof -
  assume "e \<in> set (mkEntries op rels)"
  then obtain i where "quarantineRelative e = (quarantineRoot op @ ''/'') @ pad_start 8 (dec_digits i)"
    by (auto simp: mkEntries_def)
  then show ?thesis by (simp only: starts_with_append)
qed

lemma starts_with_trans: "starts_with (p @ q) s \<Longrightarrow> starts_with p s"
  by (auto simp: starts_with_def) (metis append_eq_conv_conj append_take_drop_id take_take append.assoc)

lemma quarantine_under:
  assumes "e \<in> set (mkEntries op rels)"
  shows "starts_with (operationRoot op @ ''/'') (quarantineRelative e)" "starts_with (JOURNAL_DIR @ ''/'') (quarantineRelative e)"
proof -
  have "quarantineRoot op @ ''/'' = (operationRoot op @ ''/'') @ ''files/''" by (simp add: quarantineRoot_def)
  with quarantine_prefix [OF assms] show op: "starts_with (operationRoot op @ ''/'') (quarantineRelative e)"
    using starts_with_trans by metis
  have "operationRoot op @ ''/'' = (JOURNAL_DIR @ ''/'') @ (op @ ''/'')" by (simp add: operationRoot_def)
  with op show "starts_with (JOURNAL_DIR @ ''/'') (quarantineRelative e)" using starts_with_trans by metis
qed

lemma mapResult_Inr: "mapResult f xs = Inr ys \<Longrightarrow> y \<in> set ys \<Longrightarrow> \<exists>x\<in>set xs. f x = Inr y"
  by (induction xs arbitrary: ys) (auto split: sum.splits)

text \<open>A path of the journal: inside the root, with the segments it is made of.\<close>

definition good_rel :: "string \<Rightarrow> bool" where
  "good_rel rel \<longleftrightarrow> (\<exists>x xs. rel = js_join ''/'' (x # xs) \<and> no_slash (x # xs) \<and> ''..'' \<notin> set (x # xs) \<and> x \<noteq> JOURNAL_DIR)"

lemma mkJournal_Inr:
  assumes "normal root" "mkJournal root op cands guards = Inr j"
  obtains rels where "j = \<lparr>j_version = 1, operationId = op, j_guards = guards, j_entries = mkEntries op rels\<rparr>"
    "distinct rels" "\<forall>r\<in>set rels. good_rel r"
proof -
  from assms(2) obtain rels where rels: "mapResult (\<lambda>c. assertUnderRoot root (resolve root c)) cands = Inr rels"
    "j = \<lparr>j_version = 1, operationId = op, j_guards = guards, j_entries = mkEntries op (uniq rels)\<rparr>"
    by (auto simp: mkJournal_def split: sum.splits)
  have "good_rel r" if "r \<in> set rels" for r
  proof -
    from mapResult_Inr [OF rels(1) that] obtain c where "assertUnderRoot root (resolve root c) = Inr r" by blast
    then obtain x xs where "resolve root c = root @ x # xs" "x \<noteq> JOURNAL_DIR" "r = js_join ''/'' (x # xs)"
      "''..'' \<notin> set (x # xs)" using under_root_iff [OF assms(1)] by blast
    moreover from this resolve_normal [OF assms(1), of c] have "no_slash (x # xs)"
      by (auto simp: normal_def no_slash_def)
    ultimately show ?thesis unfolding good_rel_def by blast
  qed
  with rels(2) show ?thesis by (intro that [of "uniq rels"]) simp_all
qed

lemma good_rel_outside: "good_rel r \<Longrightarrow> \<not> starts_with (JOURNAL_DIR @ ''/'') r \<and> r \<noteq> JOURNAL_DIR"
proof -
  assume "good_rel r"
  then obtain x xs where r: "r = js_join ''/'' (x # xs)" "no_slash (x # xs)" "x \<noteq> JOURNAL_DIR"
    unfolding good_rel_def by blast
  have "r = JOURNAL_DIR \<or> starts_with (JOURNAL_DIR @ ''/'') r \<longleftrightarrow> x = JOURNAL_DIR"
    unfolding r(1) by (rule starts_with_join [OF r(2)]) (simp_all add: JOURNAL_DIR_def)
  with r(3) show ?thesis by blast
qed

lemma mkEntries_ok: "distinct rels \<Longrightarrow> \<forall>r\<in>set rels. good_rel r \<Longrightarrow> entries_ok (mkEntries op rels)"
proof -
  assume d: "distinct rels" and g: "\<forall>r\<in>set rels. good_rel r"
  have "inj_on (\<lambda>i. quarantineRoot op @ ''/'' @ pad_start 8 (dec_digits i)) (set [0..<length rels])"
    by (auto simp: inj_on_def dest: pad_digits_inj)
  then have "distinct (map quarantineRelative (mkEntries op rels))"
    unfolding mkEntries_fields(2) by (simp add: distinct_map)
  moreover have "quarantineRelative e \<notin> set rels" if e: "e \<in> set (mkEntries op rels)" for e
    using g good_rel_outside quarantine_under(2) [OF e] by blast
  ultimately show ?thesis
    using d unfolding entries_ok_def by (auto simp: mkEntries_fields(1))
qed

lemma hex_no_slash: "hex_or extra c \<Longrightarrow> CHR ''/'' \<notin> extra \<Longrightarrow> c \<noteq> CHR ''/''"
  by (auto simp: hex_or_def is_digit_def js_lower_char_def)

lemma uuid_no_slash: "uuid_like op \<Longrightarrow> CHR ''/'' \<notin> set op \<and> op \<noteq> [] \<and> op \<noteq> ''.'' \<and> op \<noteq> ''..''"
proof -
  assume u: "uuid_like op"
  then have len: "length op = 36" by (simp add: uuid_like_def)
  have op: "op = take 8 op @ op ! 8 # drop 9 op"
    using id_take_nth_drop [of 8 op] len by simp
  have "CHR ''/'' \<notin> set (take 8 op @ op ! 8 # drop 9 op)"
    using u hex_no_slash by (auto simp: uuid_like_def list_all_iff)
  then have "CHR ''/'' \<notin> set op" by (simp only: op [symmetric] not_False_eq_True)
  with len show ?thesis by auto
qed

lemma good_rel_resolve:
  assumes "normal root" "no_slash (x # xs)" "''..'' \<notin> set (x # xs)"
  shows "resolve root (js_join ''/'' (x # xs)) = root @ x # xs"
    "\<not> isAbsolute (js_join ''/'' (x # xs))"
    "relative root (root @ x # xs) = js_join ''/'' (x # xs)"
proof -
  show abs: "\<not> isAbsolute (js_join ''/'' (x # xs))"
    using assms(2) by (cases x) (auto simp: isAbsolute_def js_join_Cons no_slash_def)
  have "''..'' \<notin> set (root @ x # xs)" using assms(1,3) by (auto simp: normal_def)
  then show "resolve root (js_join ''/'' (x # xs)) = root @ x # xs"
    unfolding resolve_def segments_join [OF assms(2)] using abs by (simp add: normalize_normal)
  show "relative root (root @ x # xs) = js_join ''/'' (x # xs)"
    by (simp add: relative_def common_prefix)
qed

lemma pad_digits_no_slash: "CHR ''/'' \<notin> set (pad_start w (dec_digits n))"
  by (auto simp: pad_start_def is_digit_def dest: dec_digits_are_digits)

lemma quarantine_join:
  "quarantineRoot op @ ''/'' @ s = js_join ''/'' [JOURNAL_DIR, op, ''files'', s]"
  by (simp add: quarantineRoot_def operationRoot_def)

lemma pad_digits_length: "8 \<le> length (pad_start 8 (dec_digits n))"
  by (simp add: pad_start_def)

lemma pad_not_dots:
  "pad_start 8 (dec_digits n) \<noteq> []" "pad_start 8 (dec_digits n) \<noteq> ''.''" "pad_start 8 (dec_digits n) \<noteq> ''..''"
  "''..'' \<noteq> pad_start 8 (dec_digits n)"
proof -
  have ne: "pad_start 8 (dec_digits n) \<noteq> s" if "length s < 8" for s
    using pad_digits_length [of n] that by auto
  show "pad_start 8 (dec_digits n) \<noteq> []" "pad_start 8 (dec_digits n) \<noteq> ''.''" "pad_start 8 (dec_digits n) \<noteq> ''..''"
    "''..'' \<noteq> pad_start 8 (dec_digits n)"
    using ne [of "[]"] ne [of "''.''"] ne [of "''..''"] by simp_all
qed

text \<open>Recovery accepts every entry that staging writes.\<close>

lemma validateEntry_mkEntries:
  assumes "normal root" "uuid_like op" "\<forall>r\<in>set rels. good_rel r" "e \<in> set (mkEntries op rels)"
  shows "validateEntry root op e = Inr ()"
proof -
  from assms(4) obtain i where q: "quarantineRelative e = quarantineRoot op @ ''/'' @ pad_start 8 (dec_digits i)"
    by (auto simp: mkEntries_def)
  have "originalRelative e \<in> set rels"
    using imageI [OF assms(4), of originalRelative] by (simp only: mkEntries_fields(1) flip: set_map)
  with assms(3) obtain x xs where o': "originalRelative e = js_join ''/'' (x # xs)" "no_slash (x # xs)"
    "''..'' \<notin> set (x # xs)" "x \<noteq> JOURNAL_DIR" unfolding good_rel_def by blast
  note orig = good_rel_resolve [OF assms(1) o'(2,3)]
  let ?qs = "[op, ''files'', pad_start 8 (dec_digits i)]"
  have qs: "no_slash (JOURNAL_DIR # ?qs)" "''..'' \<notin> set (JOURNAL_DIR # ?qs)"
    using uuid_no_slash [OF assms(2)] pad_digits_no_slash [of 8 i] pad_not_dots [of i]
    by (auto simp: no_slash_def JOURNAL_DIR_def)
  note quar = good_rel_resolve [OF assms(1) qs]
  have nb: "normal (root @ x # xs)" using assms(1) o'(2,3) by (auto simp: normal_def no_slash_def)
  have "assertUnderRoot root (root @ x # xs) = Inr (js_join ''/'' (x # xs))"
    using relative_inside [OF assms(1) nb common_prefix, of x xs] o'(4) by simp
  moreover have "relative root (resolve root (quarantineRelative e)) = quarantineRelative e"
    unfolding q quarantine_join quar by (rule refl)
  moreover have "\<not> starts_with ''../'' (quarantineRelative e) \<and> quarantineRelative e \<noteq> ''..''"
    using quarantine_under(2) [OF assms(4)] unfolding q quarantine_join by (simp add: starts_with_def JOURNAL_DIR_def)
  moreover have "\<not> isAbsolute (quarantineRelative e)" unfolding q quarantine_join by (rule quar)
  ultimately show ?thesis
    using quarantine_prefix [OF assms(4)] orig
    by (simp add: validateEntry_def o'(1) Let_def)
qed

lemma firstError_ok: "\<forall>x\<in>set xs. f x = Inr () \<Longrightarrow> firstError f xs = Inr ()"
  by (induction xs) auto

definition guards_ok :: "deletion_guard list \<Rightarrow> bool" where
  "guards_ok gs \<longleftrightarrow> length gs \<le> 100000 \<and> list_all (\<lambda>g. g_id g \<noteq> [] \<and> length (g_id g) \<le> 256) gs"

lemma validateJournal_mkJournal:
  assumes "normal root" "uuid_like op" "mkJournal root op cands guards = Inr j" "guards_ok guards"
    "length (j_entries j) \<le> 100000"
  shows "validateJournal root op j = Inr ()"
proof -
  obtain rels where j: "j = \<lparr>j_version = 1, operationId = op, j_guards = guards, j_entries = mkEntries op rels\<rparr>"
    "\<forall>r\<in>set rels. good_rel r" using mkJournal_Inr [OF assms(1,3)] by metis
  have "firstError (validateEntry root op) (mkEntries op rels) = Inr ()"
    using validateEntry_mkEntries [OF assms(1,2) j(2)] by (intro firstError_ok) blast
  moreover have "firstError (\<lambda>g. assert_that (g_id g \<noteq> [] \<and> length (g_id g) \<le> 256) InvalidGuard) guards = Inr ()"
    using assms(4) by (intro firstError_ok) (auto simp: guards_ok_def list_all_iff assert_that_def)
  ultimately show ?thesis using assms(2,4,5) by (simp add: validateJournal_def j(1) guards_ok_def)
qed

section \<open>Crash recovery\<close>

lemma moves_Cons: "moves (e # es) fs = moves es (moveEntry e fs)"
  by (simp add: moves_def)

lemma moveLoop_moves:
  "moveLoop rf es fs = (fs', m, n, err) \<Longrightarrow>
   \<exists>k. fs' = moves (take k es) fs \<and> (err = None \<longrightarrow> k = length es \<and> m + n = length es)"
proof (induction es arbitrary: fs fs' m n err)
  case (Cons e es)
  show ?case
  proof (cases "fs (originalRelative e) \<noteq> None \<and> rf (originalRelative e)")
    case True
    with Cons.prems have "fs' = moves (take 0 (e # es)) fs" "err \<noteq> None" by auto
    then show ?thesis by blast
  next
    case False
    obtain m' n' where rec: "moveLoop rf es (moveEntry e fs) = (fs', m', n', err)" and mn: "m + n = Suc (m' + n')"
      using Cons.prems False by (auto simp: moveEntry_def split: if_splits prod.splits)
    from Cons.IH [OF rec] obtain k where "fs' = moves (take k es) (moveEntry e fs)"
      "err = None \<longrightarrow> k = length es \<and> m' + n' = length es" by blast
    then have "fs' = moves (take (Suc k) (e # es)) fs" "err = None \<longrightarrow> Suc k = length (e # es) \<and> m + n = length (e # es)"
      using mn by (simp_all add: moves_Cons)
    then show ?thesis by blast
  qed
qed simp

lemma journalPath_join: "journalPath op = js_join ''/'' [JOURNAL_DIR, op, JOURNAL_FILE]"
  by (simp add: journalPath_def operationRoot_def)

lemma journalPath_under: "starts_with (operationRoot op @ ''/'') (journalPath op)"
  using starts_with_append [of "operationRoot op @ ''/''" JOURNAL_FILE] by (simp add: journalPath_def)

lemma quarantine_not_journal:
  assumes "e \<in> set (mkEntries op rels)" shows "quarantineRelative e \<noteq> journalPath op"
proof
  assume eq: "quarantineRelative e = journalPath op"
  have "journalPath op = (operationRoot op @ ''/'') @ JOURNAL_FILE"
    "quarantineRoot op @ ''/'' = (operationRoot op @ ''/'') @ ''files/''"
    by (simp_all add: journalPath_def quarantineRoot_def)
  with quarantine_prefix [OF assms] eq
  have "starts_with ((operationRoot op @ ''/'') @ ''files/'') ((operationRoot op @ ''/'') @ JOURNAL_FILE)" by simp
  then show False unfolding starts_with_def by (simp add: JOURNAL_FILE_def)
qed

text \<open>What staging assumes of the tree: a root without dot segments, a fresh operation directory.\<close>

definition fresh_op :: "string \<Rightarrow> files \<Rightarrow> bool" where
  "fresh_op op fs \<longleftrightarrow> (\<forall>p. p = operationRoot op \<or> starts_with (operationRoot op @ ''/'') p \<longrightarrow> fs p = None)"

definition without :: "journal_entry list \<Rightarrow> files \<Rightarrow> files" where
  "without es fs = (\<lambda>p. if p \<in> originalRelative ` set es then None else fs p)"

definition crashed :: "journal \<Rightarrow> nat \<Rightarrow> files \<Rightarrow> files" where
  "crashed j k fs = moves (take k (j_entries j)) (fs(journalPath (operationId j) \<mapsto> JournalText j))"

lemma journal_paths:
  assumes "normal root" "mkJournal root op cands guards = Inr j" "e \<in> set (j_entries j)"
  shows "starts_with (operationRoot op @ ''/'') (quarantineRelative e)" "quarantineRelative e \<noteq> journalPath op"
    "\<not> starts_with (JOURNAL_DIR @ ''/'') (originalRelative e)" "starts_with (JOURNAL_DIR @ ''/'') (quarantineRelative e)"
proof -
  obtain rels where j: "j = \<lparr>j_version = 1, operationId = op, j_guards = guards, j_entries = mkEntries op rels\<rparr>"
    "\<forall>r\<in>set rels. good_rel r" using mkJournal_Inr [OF assms(1,2)] by metis
  then have e: "e \<in> set (mkEntries op rels)" using assms(3) by simp
  show "starts_with (operationRoot op @ ''/'') (quarantineRelative e)" "quarantineRelative e \<noteq> journalPath op"
    "starts_with (JOURNAL_DIR @ ''/'') (quarantineRelative e)"
    using quarantine_under [OF e] quarantine_not_journal [OF e] by blast+
  have "originalRelative e \<in> set rels"
    using imageI [OF e, of originalRelative] by (simp only: mkEntries_fields(1) flip: set_map)
  with j(2) good_rel_outside show "\<not> starts_with (JOURNAL_DIR @ ''/'') (originalRelative e)" by blast
qed

lemma under_op_under_dir: "starts_with (operationRoot op @ ''/'') p \<Longrightarrow> starts_with (JOURNAL_DIR @ ''/'') p"
  using starts_with_trans [of "JOURNAL_DIR @ ''/''" "op @ ''/''" p] by (simp add: operationRoot_def)

lemma crashed_restores:
  assumes "normal root" "mkJournal root op cands guards = Inr j" "fresh_op op fs"
    "\<forall>p. starts_with (JOURNAL_DIR @ ''/'') p \<longrightarrow> \<not> rf p"
  shows "restoreJournal rf j (crashed j k fs) = (fs, Inr ())"
proof -
  obtain rels where j: "j = \<lparr>j_version = 1, operationId = op, j_guards = guards, j_entries = mkEntries op rels\<rparr>"
    "distinct rels" "\<forall>r\<in>set rels. good_rel r" using mkJournal_Inr [OF assms(1,2)] by metis
  let ?fs = "fs(journalPath op \<mapsto> JournalText j)"
  have "entries_ok (j_entries j)" using mkEntries_ok [OF j(2,3)] j(1) by simp
  moreover have "\<forall>e\<in>set (j_entries j). ?fs (quarantineRelative e) = None \<and> \<not> rf (quarantineRelative e)"
    using journal_paths [OF assms(1,2)] assms(3,4) by (auto simp: fresh_op_def)
  ultimately have "restoreLoop rf (rev (j_entries j)) (crashed j k fs) = (?fs, [])"
    unfolding crashed_def using restore_prefix j(1) by simp
  moreover have "removeTree (operationRoot op) ?fs = fs"
    using assms(3) journalPath_under [of op] by (auto simp: removeTree_def fresh_op_def fun_eq_iff)
  ultimately show ?thesis using j(1) by (simp add: restoreJournal_def)
qed

lemma crashed_cleans:
  assumes "normal root" "mkJournal root op cands guards = Inr j" "fresh_op op fs"
  shows "removeTree (operationRoot op) (crashed j k fs) = without (take k (j_entries j)) fs"
proof
  fix p
  obtain rels where j: "j = \<lparr>j_version = 1, operationId = op, j_guards = guards, j_entries = mkEntries op rels\<rparr>"
    "distinct rels" "\<forall>r\<in>set rels. good_rel r" using mkJournal_Inr [OF assms(1,2)] by metis
  let ?es = "take k (j_entries j)"
  have ok: "entries_ok ?es"
  proof -
    have "distinct (map originalRelative (?es @ drop k (j_entries j)) @ map quarantineRelative (?es @ drop k (j_entries j)))"
      using mkEntries_ok [OF j(2,3), of op] j(1) unfolding entries_ok_def by simp
    then show ?thesis unfolding map_append by (auto simp: entries_ok_def)
  qed
  have mem: "e \<in> set (j_entries j)" if "e \<in> set ?es" for e using that by (rule in_set_takeD)
  show "removeTree (operationRoot op) (crashed j k fs) p = without ?es fs p"
  proof (cases "p = operationRoot op \<or> starts_with (operationRoot op @ ''/'') p")
    case True
    with assms(3) show ?thesis by (auto simp: removeTree_def without_def fresh_op_def)
  next
    case False
    have "p \<notin> quarantineRelative ` set ?es" "p \<noteq> journalPath op"
      using False journal_paths(1) [OF assms(1,2) mem] journalPath_under by auto
    then show ?thesis
      using False moves_original [OF ok] moves_other [of p ?es "fs(journalPath op \<mapsto> JournalText j)"]
      by (auto simp: removeTree_def without_def crashed_def j(1))
  qed
qed

text \<open>C9 (recovery after a crash). A deletion that stops after any number of moves, its journal
  written, is undone at the next start when the database still holds one of its rows, and is
  finished otherwise: then exactly the files moved so far are gone and every other file is as it
  was. The exception is a journal of more than 1000000 characters, which staging writes and
  recovery refuses: its files stay in quarantine.\<close>

theorem deletion_crash_recovery:
  assumes "normal root" "uuid_like op" "mkJournal root op cands guards = Inr j" "guards_ok guards"
    "length (j_entries j) \<le> 100000" "fresh_op op fs"
    "\<forall>p. starts_with (JOURNAL_DIR @ ''/'') p \<longrightarrow> \<not> recoverRenameFails env p"
  shows "recoverOne env root op (crashed j k fs) =
    (if textLength env j > 1000000 then (crashed j k fs, Failed)
     else if list_ex (guardExists env) guards then (fs, Restored)
     else if recoverRmFails env op then (crashed j k fs, Failed)
     else (without (take k (j_entries j)) fs, Cleaned))"
proof -
  have op: "operationId j = op" "j_guards j = guards"
    using assms(3) by (auto simp: mkJournal_def split: sum.splits)
  have out: "journalPath op \<noteq> originalRelative e" "journalPath op \<noteq> quarantineRelative e" if "e \<in> set (j_entries j)" for e
    using journal_paths [OF assms(1,3) that] under_op_under_dir [OF journalPath_under [of op]] by auto
  then have "crashed j k fs (journalPath op) = Some (JournalText j)"
    unfolding crashed_def op by (subst moves_other) (auto dest!: in_set_takeD)
  then show ?thesis
    using validateJournal_mkJournal [OF assms(1-5)] crashed_restores [OF assms(1,3,6,7)] crashed_cleans [OF assms(1,3,6)]
    by (simp add: recoverOne_def cleanupCommittedJournal_def op)
qed

text \<open>A staged deletion: nothing has changed, or every move is done and both ways to end it work.\<close>

lemma stage_outcome:
  assumes "normal root" "fresh_op op fs" "\<forall>p. starts_with (JOURNAL_DIR @ ''/'') p \<longrightarrow> \<not> rf p"
  shows "case stageFileDeletion rf root op cands guards fs of
      (fs', Inl err) \<Rightarrow> fs' = fs
    | (fs', Inr s) \<Rightarrow> mkJournal root op cands guards = Inr (st_journal s) \<and>
        fs' = crashed (st_journal s) (length (j_entries (st_journal s))) fs \<and>
        rollbackDeletion rf s fs' = (fs, Inr ()) \<and>
        commitDeletion False s fs' = (without (j_entries (st_journal s)) fs, False) \<and>
        movedFiles s + missingFiles s = length (j_entries (st_journal s))"
proof (cases "mkJournal root op cands guards")
  case (Inr j)
  have op: "operationId j = op" using Inr by (auto simp: mkJournal_def split: sum.splits)
  have jp: "fs (journalPath op) = None" using assms(2) journalPath_under by (simp add: fresh_op_def)
  obtain fs2 m n err where mv: "moveLoop rf (j_entries j) (fs(journalPath op \<mapsto> JournalText j)) = (fs2, m, n, err)"
    by (metis prod_cases4)
  from moveLoop_moves [OF this] obtain k where k: "fs2 = crashed j k fs"
    "err = None \<longrightarrow> k = length (j_entries j) \<and> m + n = length (j_entries j)" by (auto simp: crashed_def op)
  note undone = crashed_restores [OF assms(1) Inr assms(2,3), of k]
  show ?thesis
  proof (cases err)
    case None
    then show ?thesis using crashed_cleans [OF assms(1) Inr assms(2), of k] undone k mv jp
      by (simp add: stageFileDeletion_def Inr rollbackDeletion_def commitDeletion_def cleanupCommittedJournal_def op)
  next
    case (Some q)
    then show ?thesis using undone k mv jp by (simp add: stageFileDeletion_def Inr)
  qed
qed (simp add: stageFileDeletion_def)


section \<open>A deletion on concrete files\<close>

definition sample_op :: string where "sample_op = ''0a1b2c3d-0a1b-0a1b-0a1b-0a1b2c3d4e5f''"
definition sample_root :: "string list" where "sample_root = [''srv'', ''rec'']"
definition sample_files :: files where
  "sample_files = [''cam/a.mp4'' \<mapsto> Bytes ''x'', ''cam/b.mp4'' \<mapsto> Bytes ''y'', ''cam/c.mp4'' \<mapsto> Bytes ''z'']"
definition sample_guards :: "deletion_guard list" where
  "sample_guards = [\<lparr>g_model = recording, g_id = ''r1''\<rparr>]"
definition sample_journal :: journal where
  "sample_journal = \<lparr>j_version = 1, operationId = sample_op, j_guards = sample_guards,
     j_entries = mkEntries sample_op [''cam/a.mp4'', ''cam/b.mp4'', ''cam/gone.mp4'']\<rparr>"
definition deletion_env :: "bool \<Rightarrow> nat \<Rightarrow> recovery_env" where
  "deletion_env row len = \<lparr>guardExists = (\<lambda>_. row), textLength = (\<lambda>_. len), recoverRenameFails = (\<lambda>_. False),
     recoverRmFails = (\<lambda>_. False)\<rparr>"

lemma sample_facts:
  "normal sample_root" "uuid_like sample_op" "guards_ok sample_guards" "fresh_op sample_op sample_files"
  "mkJournal sample_root sample_op [''cam/a.mp4'', ''cam/b.mp4'', ''cam/x/../gone.mp4'', ''cam/a.mp4''] sample_guards = Inr sample_journal"
  "length (j_entries sample_journal) = 3"
proof -
  show "normal sample_root" by (simp add: normal_def no_slash_def sample_root_def)
  show "uuid_like sample_op"
    by (simp add: uuid_like_def sample_op_def hex_or_def is_digit_def js_lower_char_def)
  show "guards_ok sample_guards" by (simp add: guards_ok_def sample_guards_def)
  show "length (j_entries sample_journal) = 3" by (simp add: sample_journal_def mkEntries_def)
  show "mkJournal sample_root sample_op [''cam/a.mp4'', ''cam/b.mp4'', ''cam/x/../gone.mp4'', ''cam/a.mp4''] sample_guards
      = Inr sample_journal" by code_simp
  show "fresh_op sample_op sample_files"
    by (auto simp: fresh_op_def sample_files_def sample_op_def operationRoot_def JOURNAL_DIR_def starts_with_def)
qed

theorem deletion_crash_recovery_witness:
  "recoverOne (deletion_env True 500) sample_root sample_op (crashed sample_journal 1 sample_files) = (sample_files, Restored) \<and>
   snd (recoverOne (deletion_env False 500) sample_root sample_op (crashed sample_journal 2 sample_files)) = Cleaned \<and>
   fst (recoverOne (deletion_env False 500) sample_root sample_op (crashed sample_journal 2 sample_files)) ''cam/b.mp4'' = None \<and>
   snd (recoverOne (deletion_env True 1000001) sample_root sample_op (crashed sample_journal 2 sample_files)) = Failed"
proof -
  have len: "length (j_entries sample_journal) \<le> 100000" by (simp add: sample_facts(6))
  have t: "take 2 (j_entries sample_journal) = mkEntries sample_op [''cam/a.mp4'', ''cam/b.mp4'']" by code_simp
  show ?thesis
    by (subst (1 2 3 4) deletion_crash_recovery [OF sample_facts(1,2,5,3) len sample_facts(4)])
      (auto simp: deletion_env_def sample_guards_def without_def t simp flip: set_map simp: mkEntries_fields)
qed


end
