(* ===== verification/Env_Settings.thy ===== *)
theory Env_Settings
  imports Prelude Complex_Main
begin

text \<open>
  \<open>common/config/env-number.helper.ts\<close>: numbers and booleans read from the environment, with a
  fallback and bounds. A decimal text is its exact rational value; the double nearest to it is
  finite below the threshold at which IEEE rounding gives infinity. The warnings are the list of
  messages \<open>onInvalid\<close> would get.
\<close>

section \<open>Numbers\<close>

datatype env_value = Missing | Text string | Numeric rat | NotANumber

record number_options =
  opt_min :: "rat option"
  opt_max :: "rat option"
  opt_integer :: bool

definition all_digits :: "string \<Rightarrow> bool" where
  "all_digits s \<longleftrightarrow> list_all is_digit s"

text \<open>\<open>replace(',', '.')\<close>: the first comma only.\<close>

fun comma_to_dot :: "string \<Rightarrow> string" where
  "comma_to_dot [] = []"
| "comma_to_dot (c # s) = (if c = CHR '','' then CHR ''.'' # s else c # comma_to_dot s)"

text \<open>\<open>\d+\.?\d*|\.\d+\<close> over the whole text: the digits before and after the point.\<close>

definition decimal_parts :: "string \<Rightarrow> (string \<times> string) option" where
  "decimal_parts s =
     (let whole = takeWhile is_digit s; rest = dropWhile is_digit s
      in if whole \<noteq> [] then
           (case rest of [] \<Rightarrow> Some (whole, [])
            | c # decs \<Rightarrow> if c = CHR ''.'' \<and> all_digits decs then Some (whole, decs) else None)
         else (case rest of [] \<Rightarrow> None
            | c # decs \<Rightarrow> if c = CHR ''.'' \<and> decs \<noteq> [] \<and> all_digits decs then Some ([], decs) else None))"

definition decimal_value :: "string \<times> string \<Rightarrow> rat" where
  "decimal_value p = of_nat (dec_val (fst p)) + of_nat (dec_val (snd p)) / 10 ^ length (snd p)"

definition finite_double :: "rat \<Rightarrow> bool" where
  "finite_double r \<longleftrightarrow> \<bar>r\<bar> < 2 ^ 1024 - 2 ^ 970"

definition split_sign :: "string \<Rightarrow> bool \<times> string" where
  "split_sign s = (case s of [] \<Rightarrow> (False, [])
     | c # t \<Rightarrow> if c = CHR ''-'' then (True, t) else if c = CHR ''+'' then (False, t) else (False, s))"

definition parseText :: "string \<Rightarrow> rat option" where
  "parseText raw =
     (let trimmed = js_trim raw
      in if trimmed = [] then None
         else let (negative, body) = split_sign (comma_to_dot trimmed)
              in case decimal_parts body of
                   None \<Rightarrow> None
                 | Some p \<Rightarrow> let v = (if negative then - decimal_value p else decimal_value p)
                             in if finite_double v then Some v else None)"

fun parseFiniteNumber :: "env_value \<Rightarrow> rat option" where
  "parseFiniteNumber (Numeric r) = Some r"
| "parseFiniteNumber NotANumber = None"
| "parseFiniteNumber Missing = None"
| "parseFiniteNumber (Text raw) = parseText raw"

definition truncate_rat :: "rat \<Rightarrow> rat" where
  "truncate_rat r = of_int (if r < 0 then \<lceil>r\<rceil> else \<lfloor>r\<rfloor>)"

definition clamp_min :: "rat option \<Rightarrow> rat \<Rightarrow> rat" where
  "clamp_min lo v = (case lo of Some l \<Rightarrow> if v < l then l else v | None \<Rightarrow> v)"

definition clamp_max :: "rat option \<Rightarrow> rat \<Rightarrow> rat" where
  "clamp_max hi v = (case hi of Some h \<Rightarrow> if v > h then h else v | None \<Rightarrow> v)"

text \<open>The value, and whether \<open>onInvalid\<close> is called. The environment holds texts.\<close>

definition envNumber :: "string option \<Rightarrow> rat \<Rightarrow> number_options \<Rightarrow> rat \<times> bool" where
  "envNumber raw fallback options =
     (let parsed = (case raw of Some t \<Rightarrow> parseFiniteNumber (Text t) | None \<Rightarrow> None);
          v0 = (case parsed of Some v \<Rightarrow> v | None \<Rightarrow> fallback);
          v1 = (if opt_integer options then truncate_rat v0 else v0)
      in (clamp_max (opt_max options) (clamp_min (opt_min options) v1),
          parsed = None \<and> (case raw of Some t \<Rightarrow> js_trim t \<noteq> [] | None \<Rightarrow> False)))"

section \<open>Booleans\<close>

definition BOOL_TRUE :: "string set" where
  "BOOL_TRUE = {''1'', ''true'', ''t'', ''yes'', ''y'', ''on''}"

definition BOOL_FALSE :: "string set" where
  "BOOL_FALSE = {''0'', ''false'', ''f'', ''no'', ''n'', ''off''}"

definition parseBooleanish :: "string option \<Rightarrow> bool option" where
  "parseBooleanish raw =
     (case raw of None \<Rightarrow> None
      | Some t \<Rightarrow> let n = js_lower (js_trim t)
                  in if n = [] then None else if n \<in> BOOL_TRUE then Some True
                     else if n \<in> BOOL_FALSE then Some False else None)"

definition envBool :: "string option \<Rightarrow> bool \<Rightarrow> bool \<times> bool" where
  "envBool raw fallback =
     (case parseBooleanish raw of Some b \<Rightarrow> (b, False)
      | None \<Rightarrow> (fallback, case raw of Some t \<Rightarrow> js_trim t \<noteq> [] | None \<Rightarrow> False))"

section \<open>Properties\<close>

lemma js_trim_plain: "list_all (\<lambda>c. \<not> js_space c) s \<Longrightarrow> js_trim s = s"
proof -
  assume s: "list_all (\<lambda>c. \<not> js_space c) s"
  have id: "dropWhile js_space t = t" if "list_all (\<lambda>c. \<not> js_space c) t" for t
    using that by (cases t) simp_all
  have "list_all (\<lambda>c. \<not> js_space c) (rev s)" using s by (simp add: list_all_iff)
  with id [OF s] id [of "rev s"] show ?thesis by (simp add: js_trim_def)
qed

lemma digit_not_space: "is_digit c \<Longrightarrow> \<not> js_space c"
  by (auto simp: is_digit_def js_space_def)

lemma digits_parts: "s \<noteq> [] \<Longrightarrow> list_all is_digit s \<Longrightarrow> decimal_parts s = Some (s, [])"
proof -
  assume s: "s \<noteq> []" "list_all is_digit s"
  then have t: "takeWhile is_digit s = s" and d: "dropWhile is_digit s = []" by (simp_all add: list_all_iff)
  show ?thesis unfolding decimal_parts_def t d using s(1) by simp
qed

lemma comma_digits: "list_all is_digit s \<Longrightarrow> comma_to_dot s = s"
  by (induction s) (auto simp: is_digit_def)

lemma dec_digits_list_all: "list_all is_digit (dec_digits n)"
  by (auto simp: list_all_iff dest: dec_digits_are_digits)

text \<open>(a whole number written as text is read back). The decimal text of an integer below the
  range of doubles, its sign included, is read as that integer.\<close>

theorem setting_reads_back:
  assumes "\<bar>i\<bar> < 2 ^ 1023"
  shows "parseFiniteNumber (Text (int_dec i)) = Some (of_int i)"
proof -
  let ?d = "dec_digits (nat \<bar>i\<bar>)"
  have dec: "int_dec i = (if i < 0 then CHR ''-'' # ?d else ?d)" by (simp add: int_dec_def)
  have digits: "list_all is_digit ?d" by (rule dec_digits_list_all)
  have plain: "list_all (\<lambda>c. \<not> js_space c) (int_dec i)"
    using digits digit_not_space by (auto simp: dec list_all_iff js_space_def)
  have comma: "comma_to_dot (int_dec i) = int_dec i" using comma_digits [OF digits] by (cases "i < 0") (simp_all add: dec)
  have sign: "split_sign (int_dec i) = (i < 0, ?d)"
  proof (cases "i < 0")
    case False
    have "is_digit (hd ?d)"
      using digits hd_in_set [OF dec_digits_nonempty, of "nat \<bar>i\<bar>"] by (simp add: list_all_iff)
    then have "hd ?d \<noteq> CHR ''-''" "hd ?d \<noteq> CHR ''+''" by (auto simp: is_digit_def)
    then show ?thesis using False by (cases ?d) (auto simp: split_sign_def dec)
  qed (simp add: split_sign_def dec)
  have val: "decimal_value (?d, []) = of_int \<bar>i\<bar>"
    by (simp add: decimal_value_def dec_val_digits) (simp add: dec_val_def)
  have "(2::rat) ^ 1023 + 2 ^ 970 \<le> 2 ^ 1024" by simp
  moreover have "\<bar>of_int i :: rat\<bar> < 2 ^ 1023" using assms by (metis of_int_abs of_int_less_iff of_int_numeral of_int_power)
  ultimately have "finite_double (of_int i)" unfolding finite_double_def by linarith
  then have finite: "finite_double (if i < 0 then - of_int \<bar>i\<bar> else of_int \<bar>i\<bar>)" by simp
  have trim: "js_trim (int_dec i) = int_dec i" by (rule js_trim_plain [OF plain])
  have ne: "int_dec i \<noteq> []" by (simp add: dec)
  show ?thesis
    unfolding parseFiniteNumber.simps parseText_def Let_def trim comma sign
    by (simp only: prod.case digits_parts [OF dec_digits_nonempty digits] option.case val) (use finite ne in simp)
qed

theorem setting_reads_back_witness: "parseFiniteNumber (Text ''-42'') = Some (- 42)"
proof -
  have "int_dec (- 42) = ''-42''" by code_simp
  then show ?thesis using setting_reads_back [of "-42"] by simp
qed

text \<open>(a setting is always in its bounds). Whatever the text of a setting, the value used lies
  between the bounds; it is the number written when that is within them (truncated where a whole
  number is asked for), the fallback when the text is not a number, and only then, unless the
  text is blank, is the operator warned.\<close>

theorem env_number_in_bounds:
  assumes "lo \<le> hi"
  shows "(let options = \<lparr>opt_min = Some lo, opt_max = Some hi, opt_integer = whole\<rparr>;
              v = fst (envNumber raw fallback options);
              n = (case raw of Some t \<Rightarrow> parseText t | None \<Rightarrow> None);
              wanted = (case n of Some r \<Rightarrow> r | None \<Rightarrow> fallback);
              cut = (if whole then truncate_rat wanted else wanted)
          in lo \<le> v \<and> v \<le> hi \<and> (lo \<le> cut \<and> cut \<le> hi \<longrightarrow> v = cut) \<and>
             (snd (envNumber raw fallback options) \<longleftrightarrow> n = None \<and> (\<exists>t. raw = Some t \<and> js_trim t \<noteq> [])))"
  using assms by (auto simp: envNumber_def Let_def clamp_max_def clamp_min_def split: option.splits)

theorem env_number_in_bounds_witness:
  "fst (envNumber (Some '' 7,5 '') 3 \<lparr>opt_min = Some 1, opt_max = Some 20, opt_integer = True\<rparr>) = 7"
proof -
  have parts: "js_trim '' 7,5 '' = ''7,5''" "comma_to_dot ''7,5'' = ''7.5''" "split_sign ''7.5'' = (False, ''7.5'')"
    "decimal_parts ''7.5'' = Some (''7'', ''5'')" "decimal_value (''7'', ''5'') = 15 / 2" by code_simp+
  have p: "parseText '' 7,5 '' = Some (15 / 2)"
    by (simp add: parseText_def parts finite_double_def)
  have t: "truncate_rat (15 / 2) = 7" by code_simp
  show ?thesis
    using env_number_in_bounds [of 1 20 True "Some '' 7,5 ''" 3] by (simp add: Let_def p t)
qed

end
