(* ===== verification/Vod_Player.thy ===== *)
theory Vod_Player
  imports Prelude
begin

text \<open>
  \<open>apps/web/src/lib/vod-continuous.ts\<close>: the browser's side of the continuous playlist. It reads
  the answer of the API into a playlist, maps instants to positions and back, keeps the playback
  tokens of the segment URLs fresh and decides when to renew, prefetch or give up a swap.

  Instants are whole milliseconds, seconds are kept in thousandths (so \<open>seconds * 1000\<close> of the
  code is the number itself). A field of the answer that has the wrong type is \<open>None\<close>, a
  segment that is not an object too. Percent escapes are those of ASCII texts, which ids and
  tokens are; \<open>payloadExp\<close> is \<open>Number(JSON.parse(atob(s))?.exp)\<close> in thousandths of a second,
  \<open>None\<close> when the text does not parse or the number is not finite.
\<close>

section \<open>Data\<close>

record play_segment =
  ps_recordingId :: string
  ps_startedAtMs :: int
  ps_endedAtMs :: int
  ps_durationSeconds :: int
  ps_offsetSeconds :: int
  ps_discontinuity :: bool
  ps_playUrl :: string
  ps_token :: "string option"

record playlist =
  pl_cameraId :: string
  pl_fromMs :: int
  pl_toMs :: int
  pl_segments :: "play_segment list"
  pl_totalDurationSeconds :: int
  pl_startOffsetSeconds :: int
  pl_truncated :: bool
  pl_fetchedAtMs :: int
  pl_tokenExpiresAtMs :: "int option"

record raw_segment =
  rw_recordingId :: "string option"
  rw_startedAt :: instant
  rw_endedAt :: instant
  rw_durationSeconds :: "int option"
  rw_discontinuity :: bool
  rw_playUrl :: "string option"

record raw_playlist =
  rp_segments :: "raw_segment option list option"
  rp_cameraId :: "string option"
  rp_from :: instant
  rp_to :: instant
  rp_startOffsetSeconds :: "int option"
  rp_truncated :: bool

definition DEFAULT_PLAY_TOKEN_TTL_SECONDS :: int where "DEFAULT_PLAY_TOKEN_TTL_SECONDS = 300000"
definition DEFAULT_RENEW_LEAD_SECONDS :: int where "DEFAULT_RENEW_LEAD_SECONDS = 60000"
definition MIN_RENEW_INTERVAL_SECONDS :: int where "MIN_RENEW_INTERVAL_SECONDS = 15000"
definition DEFAULT_PREFETCH_LEAD_SECONDS :: int where "DEFAULT_PREFETCH_LEAD_SECONDS = 25000"

section \<open>Escapes\<close>

definition hex_digit :: "nat \<Rightarrow> char" where
  "hex_digit n = (if n < 10 then char_of (48 + n) else char_of (55 + n))"

definition hex_value :: "char \<Rightarrow> nat option" where
  "hex_value c = (let n = of_char c :: nat in
     if 48 \<le> n \<and> n \<le> 57 then Some (n - 48)
     else if 65 \<le> n \<and> n \<le> 70 then Some (n - 55)
     else if 97 \<le> n \<and> n \<le> 102 then Some (n - 87) else None)"

definition uri_plain :: "char \<Rightarrow> bool" where
  "uri_plain c \<longleftrightarrow> (let n = of_char c :: nat in
     48 \<le> n \<and> n \<le> 57 \<or> 65 \<le> n \<and> n \<le> 90 \<or> 97 \<le> n \<and> n \<le> 122) \<or>
     c \<in> {CHR ''-'', CHR ''_'', CHR ''.'', CHR ''!'', CHR ''~'', CHR ''*'', CHR 0x27, CHR ''('', CHR '')''}"

definition encodeURIComponent :: "string \<Rightarrow> string" where
  "encodeURIComponent s = concat (map (\<lambda>c. if uri_plain c then [c]
     else [CHR ''%'', hex_digit (of_char c div 16), hex_digit (of_char c mod 16)]) s)"

text \<open>\<open>None\<close>: a malformed escape, which throws.\<close>

fun decodeURIComponent :: "string \<Rightarrow> string option" where
  "decodeURIComponent [] = Some []"
| "decodeURIComponent (c # s) =
     (if c = CHR ''%'' then
        (case s of a # b # rest \<Rightarrow>
           (case (hex_value a, hex_value b) of
              (Some x, Some y) \<Rightarrow>
                if 16 * x + y < 128 then map_option (\<lambda>t. char_of (16 * x + y) # t) (decodeURIComponent rest) else None
            | _ \<Rightarrow> None)
         | _ \<Rightarrow> None)
      else map_option (\<lambda>t. c # t) (decodeURIComponent s))"

section \<open>Tokens in URLs\<close>

text \<open>The first \<open>[?&]token=\<close> of a URL: the text up to the separator, and what follows the
  equals sign. The value runs to the next \<open>&\<close> or \<open>#\<close>.\<close>

definition token_name :: string where "token_name = ''token=''"

fun splitToken :: "string \<Rightarrow> (string \<times> string) option" where
  "splitToken [] = None"
| "splitToken (c # s) =
     (if (c = CHR ''?'' \<or> c = CHR ''&'') \<and> take 6 s = token_name then Some ([c], drop 6 s)
      else map_option (\<lambda>(p, r). (c # p, r)) (splitToken s))"

definition value_end :: "char \<Rightarrow> bool" where
  "value_end c \<longleftrightarrow> c = CHR ''&'' \<or> c = CHR ''#''"

definition nonempty :: "string \<Rightarrow> string option" where
  "nonempty s = (if s = [] then None else Some s)"

definition readTokenFromUrl :: "string \<Rightarrow> string option" where
  "readTokenFromUrl url =
     (case splitToken url of
        None \<Rightarrow> None
      | Some (_, r) \<Rightarrow>
          let raw = takeWhile (\<lambda>c. \<not> value_end c) r
          in case decodeURIComponent raw of Some d \<Rightarrow> nonempty d | None \<Rightarrow> nonempty raw)"

fun split_dots :: "string \<Rightarrow> string list" where
  "split_dots [] = [[]]"
| "split_dots (c # s) = (if c = CHR ''.'' then [] # split_dots s
     else (case split_dots s of [] \<Rightarrow> [[c]] | p # ps \<Rightarrow> (c # p) # ps))"

definition decodeJwtExpiryMs :: "(string \<Rightarrow> int option) \<Rightarrow> string option \<Rightarrow> int option" where
  "decodeJwtExpiryMs payloadExp token =
     (case split_dots (or_empty token) of
        _ # payload # _ \<Rightarrow>
          if payload = [] then None
          else (let base64 = map (\<lambda>c. if c = CHR ''-'' then CHR ''+'' else if c = CHR ''_'' then CHR ''/'' else c) payload;
                    padded = base64 @ replicate ((4 - length base64 mod 4) mod 4) (CHR ''='')
                in case payloadExp padded of Some e \<Rightarrow> if e > 0 then Some e else None | None \<Rightarrow> None)
      | _ \<Rightarrow> None)"

definition isPlaybackTokenUsable :: "(string \<Rightarrow> int option) \<Rightarrow> string option \<Rightarrow> int \<Rightarrow> int option \<Rightarrow> bool" where
  "isPlaybackTokenUsable payloadExp token nowMs minRemainingSeconds =
     (if or_empty token = [] then False
      else case decodeJwtExpiryMs payloadExp token of
        None \<Rightarrow> False
      | Some e \<Rightarrow> e - nowMs > max 0 (case minRemainingSeconds of None \<Rightarrow> 20000 | Some m \<Rightarrow> m))"

text \<open>\<open>/\/recordings\/([^/?#]+)\/play(?:\.mp4)?(?:[?#]|$)/\<close> at the head of a text, then the
  leftmost position where it matches.\<close>

definition recordings_dir :: string where "recordings_dir = ''/recordings/''"

definition url_delimiter :: "char \<Rightarrow> bool" where
  "url_delimiter c \<longleftrightarrow> c = CHR ''/'' \<or> c = CHR ''?'' \<or> c = CHR ''#''"

definition ends_path :: "string \<Rightarrow> bool" where
  "ends_path s \<longleftrightarrow> s = [] \<or> hd s = CHR ''?'' \<or> hd s = CHR ''#''"

definition matchRecording :: "string \<Rightarrow> string option" where
  "matchRecording s =
     (if take 12 s \<noteq> recordings_dir then None
      else let i = takeWhile (\<lambda>c. \<not> url_delimiter c) (drop 12 s); r = dropWhile (\<lambda>c. \<not> url_delimiter c) (drop 12 s)
           in if i \<noteq> [] \<and> take 5 r = ''/play'' \<and>
                (take 4 (drop 5 r) = ''.mp4'' \<and> ends_path (drop 9 r) \<or> ends_path (drop 5 r))
              then Some i else None)"

fun findRecording :: "string \<Rightarrow> string option" where
  "findRecording [] = None"
| "findRecording (c # s) = (case matchRecording (c # s) of Some i \<Rightarrow> Some i | None \<Rightarrow> findRecording s)"

definition recordingIdFromSegmentUrl :: "string \<Rightarrow> string option" where
  "recordingIdFromSegmentUrl url =
     (case findRecording url of
        None \<Rightarrow> None
      | Some i \<Rightarrow> (case decodeURIComponent i of Some d \<Rightarrow> nonempty d | None \<Rightarrow> nonempty i))"

definition refreshSegmentUrl :: "string \<Rightarrow> (string \<times> string) list \<Rightarrow> string" where
  "refreshSegmentUrl url tokens =
     (case recordingIdFromSegmentUrl url of
        None \<Rightarrow> url
      | Some i \<Rightarrow>
          (case map_of tokens i of
             None \<Rightarrow> url
           | Some token \<Rightarrow>
               if token = [] then url
               else (case splitToken url of
                  Some (p, r) \<Rightarrow> p @ token_name @ encodeURIComponent token @ dropWhile (\<lambda>c. \<not> value_end c) r
                | None \<Rightarrow> url @ (if CHR ''?'' \<in> set url then ''&'' else ''?'') @ token_name @ encodeURIComponent token)))"

section \<open>Reading the answer\<close>

text \<open>One segment of the answer; \<open>None\<close> where the loop skips it. Its offset is set later.\<close>

definition parseSegment :: "raw_segment option \<Rightarrow> play_segment option" where
  "parseSegment item =
     (case item of None \<Rightarrow> None
      | Some raw \<Rightarrow>
          let recordingId = js_trim (or_empty (rw_recordingId raw)); url0 = js_trim (or_empty (rw_playUrl raw))
          in if recordingId = [] \<or> url0 = [] then None
             else let playUrl = (if take 1 url0 = ''/'' then url0 else recordings_dir @ url0)
                  in (case toMs (rw_startedAt raw) of None \<Rightarrow> None
                      | Some startedAtMs \<Rightarrow>
                          let declared = (case rw_durationSeconds raw of Some d \<Rightarrow> if d > 0 then d else 0 | None \<Rightarrow> 0);
                              duration = (if declared > 0 then declared
                                else (case toMs (rw_endedAt raw) of
                                        Some e \<Rightarrow> if e > startedAtMs then e - startedAtMs else 0 | None \<Rightarrow> 0))
                          in if \<not> duration > 0 then None
                             else Some \<lparr>ps_recordingId = recordingId, ps_startedAtMs = startedAtMs,
                               ps_endedAtMs = startedAtMs + duration, ps_durationSeconds = duration,
                               ps_offsetSeconds = 0, ps_discontinuity = rw_discontinuity raw,
                               ps_playUrl = playUrl, ps_token = readTokenFromUrl playUrl\<rparr>))"

definition segmentKey :: "(string \<Rightarrow> 'k::linorder) \<Rightarrow> play_segment \<Rightarrow> int \<times> 'k" where
  "segmentKey ck s = (ps_startedAtMs s, ck (ps_recordingId s))"

text \<open>The loop that places the segments end to end: the segments, the final cursor and the
  earliest token expiry.\<close>

fun placeSegments :: "(string \<Rightarrow> int option) \<Rightarrow> int \<Rightarrow> int option \<Rightarrow> play_segment list \<Rightarrow>
    play_segment list \<times> int \<times> int option" where
  "placeSegments payloadExp cursor expiry [] = ([], cursor, expiry)"
| "placeSegments payloadExp cursor expiry (item # items) =
     (let e = decodeJwtExpiryMs payloadExp (ps_token item);
          expiry' = (case (e, expiry) of (None, _) \<Rightarrow> expiry | (Some x, None) \<Rightarrow> Some x
                     | (Some x, Some y) \<Rightarrow> if x < y then Some x else Some y);
          (rest, final) = placeSegments payloadExp (cursor + ps_durationSeconds item) expiry' items
      in (item\<lparr>ps_offsetSeconds := cursor\<rparr> # rest, final))"

definition normalizeVodPlaylist ::
  "(string \<Rightarrow> int option) \<Rightarrow> (string \<Rightarrow> 'k::linorder) \<Rightarrow> raw_playlist option \<Rightarrow> int \<Rightarrow> playlist option" where
  "normalizeVodPlaylist payloadExp ck raw fetchedAtMs =
     (case raw of None \<Rightarrow> None
      | Some source \<Rightarrow>
        (case rp_segments source of None \<Rightarrow> None
         | Some items \<Rightarrow>
             let parsed = List.map_filter parseSegment items
             in if parsed = [] then None
                else let (segments, totalDuration, expiry) =
                           placeSegments payloadExp 0 None (sort_key (segmentKey ck) parsed)
                     in Some \<lparr>pl_cameraId = or_empty (rp_cameraId source),
                          pl_fromMs = (case toMs (rp_from source) of Some f \<Rightarrow> f | None \<Rightarrow> ps_startedAtMs (hd segments)),
                          pl_toMs = (case toMs (rp_to source) of Some t \<Rightarrow> t | None \<Rightarrow> ps_endedAtMs (last segments)),
                          pl_segments = segments, pl_totalDurationSeconds = totalDuration,
                          pl_startOffsetSeconds = (case rp_startOffsetSeconds source of
                             Some o' \<Rightarrow> if o' > 0 then min o' totalDuration else 0 | None \<Rightarrow> 0),
                          pl_truncated = rp_truncated source, pl_fetchedAtMs = fetchedAtMs,
                          pl_tokenExpiresAtMs = expiry\<rparr>))"

text \<open>A later segment of the same recording overwrites the token of an earlier one.\<close>

definition segmentTokens :: "playlist option \<Rightarrow> (string \<times> string) list" where
  "segmentTokens pl =
     foldl (\<lambda>tokens s. case ps_token s of Some t \<Rightarrow> if t = [] then tokens else AList.update (ps_recordingId s) t tokens
                       | None \<Rightarrow> tokens)
       [] (case pl of None \<Rightarrow> [] | Some p \<Rightarrow> pl_segments p)"

section \<open>Positions\<close>

datatype placement = Inside | InGap | Before | After

record vod_position =
  vpos_seconds :: int
  vpos_placement :: placement
  vpos_segment :: "play_segment option"
  vpos_segmentIndex :: nat
  vpos_offsetInSegmentSeconds :: int

record segment_location =
  loc_segment :: play_segment
  loc_index :: nat
  loc_offsetInSegmentSeconds :: int

text \<open>The loop over the segments from index \<open>i\<close> on; \<open>None\<close> when it runs off the end.\<close>

fun placeInstant :: "int \<Rightarrow> nat \<Rightarrow> play_segment list \<Rightarrow> vod_position option" where
  "placeInstant ms i [] = None"
| "placeInstant ms i (s # ss) =
     (if ms < ps_startedAtMs s then
        Some \<lparr>vpos_seconds = ps_offsetSeconds s, vpos_placement = InGap, vpos_segment = Some s,
              vpos_segmentIndex = i, vpos_offsetInSegmentSeconds = 0\<rparr>
      else if ms < ps_endedAtMs s then
        Some \<lparr>vpos_seconds = ps_offsetSeconds s + (ms - ps_startedAtMs s), vpos_placement = Inside,
              vpos_segment = Some s, vpos_segmentIndex = i, vpos_offsetInSegmentSeconds = ms - ps_startedAtMs s\<rparr>
      else placeInstant ms (Suc i) ss)"

definition absoluteToVodPosition :: "playlist option \<Rightarrow> instant \<Rightarrow> vod_position option" where
  "absoluteToVodPosition playlist t =
     (case playlist of None \<Rightarrow> None
      | Some pl \<Rightarrow>
        (case pl_segments pl of [] \<Rightarrow> None
         | first # rest \<Rightarrow>
           (case toMs t of None \<Rightarrow> None
            | Some ms \<Rightarrow>
                if ms < ps_startedAtMs first then
                  Some \<lparr>vpos_seconds = 0, vpos_placement = Before, vpos_segment = Some first,
                        vpos_segmentIndex = 0, vpos_offsetInSegmentSeconds = 0\<rparr>
                else (case placeInstant ms 0 (first # rest) of
                  Some p \<Rightarrow> Some p
                | None \<Rightarrow> Some \<lparr>vpos_seconds = pl_totalDurationSeconds pl, vpos_placement = After,
                     vpos_segment = Some (last (first # rest)), vpos_segmentIndex = length rest,
                     vpos_offsetInSegmentSeconds = ps_durationSeconds (last (first # rest))\<rparr>))))"

fun locateFrom :: "int \<Rightarrow> nat \<Rightarrow> play_segment list \<Rightarrow> segment_location option" where
  "locateFrom position i [] = None"
| "locateFrom position i (s # ss) =
     (if position < ps_offsetSeconds s + ps_durationSeconds s
      then Some \<lparr>loc_segment = s, loc_index = i, loc_offsetInSegmentSeconds = max 0 (position - ps_offsetSeconds s)\<rparr>
      else locateFrom position (Suc i) ss)"

text \<open>The position is \<open>None\<close> when it is not a finite number.\<close>

definition locateVodSegment :: "playlist option \<Rightarrow> int option \<Rightarrow> segment_location option" where
  "locateVodSegment playlist positionSeconds =
     (case playlist of None \<Rightarrow> None
      | Some pl \<Rightarrow>
        (if pl_segments pl = [] then None
         else let position = (case positionSeconds of Some raw \<Rightarrow> min (max raw 0) (pl_totalDurationSeconds pl) | None \<Rightarrow> 0)
              in case locateFrom position 0 (pl_segments pl) of
                   Some l \<Rightarrow> Some l
                 | None \<Rightarrow> Some \<lparr>loc_segment = last (pl_segments pl), loc_index = length (pl_segments pl) - 1,
                      loc_offsetInSegmentSeconds = ps_durationSeconds (last (pl_segments pl))\<rparr>))"

definition vodPositionToAbsoluteMs :: "playlist option \<Rightarrow> int option \<Rightarrow> int option" where
  "vodPositionToAbsoluteMs playlist positionSeconds =
     map_option (\<lambda>l. ps_startedAtMs (loc_segment l) + loc_offsetInSegmentSeconds l) (locateVodSegment playlist positionSeconds)"

definition nextVodSegment :: "playlist option \<Rightarrow> nat \<Rightarrow> play_segment option" where
  "nextVodSegment playlist i =
     (case playlist of None \<Rightarrow> None
      | Some pl \<Rightarrow> if Suc i < length (pl_segments pl) then Some (pl_segments pl ! Suc i) else None)"

text \<open>\<open>at\<close> is \<open>Absent\<close> for \<open>null\<close>, \<open>undefined\<close> and the empty string.\<close>

definition resolveInitialSeekSeconds :: "playlist option \<Rightarrow> instant \<Rightarrow> int" where
  "resolveInitialSeekSeconds playlist t =
     (case playlist of None \<Rightarrow> 0
      | Some pl \<Rightarrow>
          (case (if t = Absent then None else absoluteToVodPosition (Some pl) t) of
             Some p \<Rightarrow> vpos_seconds p
           | None \<Rightarrow> pl_startOffsetSeconds pl))"

section \<open>Renewal, prefetch, stalls\<close>

record renewal_state =
  rn_fetchedAtMs :: int
  rn_tokenExpiresAtMs :: "int option"
  rn_tokenTtlSeconds :: "int option"
  rn_renewLeadSeconds :: "int option"
  rn_lastAttemptAtMs :: "int option"
  rn_inFlight :: bool
  rn_consecutiveFailures :: "int option"
  rn_maxFailures :: "int option"
  rn_retryDelaySeconds :: "int option"
  rn_documentVisible :: "bool option"
  rn_playing :: bool

definition or_value :: "'a option \<Rightarrow> 'a \<Rightarrow> 'a" where
  "or_value v d = (case v of None \<Rightarrow> d | Some x \<Rightarrow> x)"

definition renewalFailures :: "renewal_state \<Rightarrow> int" where
  "renewalFailures state = max 0 (or_value (rn_consecutiveFailures state) 0)"

definition vodRenewalDueAtMs :: "renewal_state \<Rightarrow> int" where
  "vodRenewalDueAtMs state =
     (let expiresAtMs = or_value (rn_tokenExpiresAtMs state)
            (rn_fetchedAtMs state + or_value (rn_tokenTtlSeconds state) DEFAULT_PLAY_TOKEN_TTL_SECONDS);
          dueAtMs = expiresAtMs - or_value (rn_renewLeadSeconds state) DEFAULT_RENEW_LEAD_SECONDS;
          floorMs = rn_fetchedAtMs state + MIN_RENEW_INTERVAL_SECONDS;
          due = max dueAtMs floorMs
      in if renewalFailures state > 0
         then max due (or_value (rn_lastAttemptAtMs state) (rn_fetchedAtMs state)
                       + or_value (rn_retryDelaySeconds state) 20000 * renewalFailures state)
         else due)"

definition shouldRenewPlaylist :: "renewal_state option \<Rightarrow> int \<Rightarrow> bool" where
  "shouldRenewPlaylist state nowMs =
     (case state of None \<Rightarrow> False
      | Some st \<Rightarrow>
          if rn_inFlight st then False
          else if renewalFailures st \<ge> max 1 (or_value (rn_maxFailures st) 3) then False
          else if \<not> or_value (rn_documentVisible st) True \<and> \<not> rn_playing st then False
          else nowMs \<ge> vodRenewalDueAtMs st)"

definition shouldPrefetchNextSegment :: "playlist option \<Rightarrow> int option \<Rightarrow> int option \<Rightarrow> play_segment option" where
  "shouldPrefetchNextSegment playlist positionSeconds leadSeconds =
     (case locateVodSegment playlist positionSeconds of None \<Rightarrow> None
      | Some l \<Rightarrow>
        (case nextVodSegment playlist (loc_index l) of None \<Rightarrow> None
         | Some next' \<Rightarrow>
             if ps_durationSeconds (loc_segment l) - loc_offsetInSegmentSeconds l
                  > max 0 (or_value leadSeconds DEFAULT_PREFETCH_LEAD_SECONDS)
             then None else Some next'))"

definition shouldAbortStalledSwap :: "int option \<Rightarrow> int option \<Rightarrow> int option \<Rightarrow> int \<Rightarrow> bool" where
  "shouldAbortStalledSwap swapStartedAtMs lastProgressAtMs timeoutMs nowMs =
     (case swapStartedAtMs of None \<Rightarrow> False
      | Some s \<Rightarrow>
          if (case lastProgressAtMs of None \<Rightarrow> False | Some l \<Rightarrow> l \<ge> s) then False
          else nowMs - s \<ge> max 500 (or_value timeoutMs 4000))"

end
