(* ===== verification/Vod_Player_Properties.thy ===== *)
theory Vod_Player_Properties
  imports Vod_Player
begin

text \<open>
  What the browser's playlist (\<open>Vod_Player\<close>) guarantees: positions and instants are inverse to
  each other, segment URLs keep a usable token, and the renewal comes in time and ends.
\<close>

section \<open>Placed segments\<close>

text \<open>Segments end to end from position \<open>c\<close> on, each as long as its recording.\<close>

fun placed :: "int \<Rightarrow> play_segment list \<Rightarrow> bool" where
  "placed c [] = True"
| "placed c (s # ss) = (ps_offsetSeconds s = c \<and> 0 < ps_durationSeconds s \<and>
     ps_endedAtMs s = ps_startedAtMs s + ps_durationSeconds s \<and> placed (c + ps_durationSeconds s) ss)"

definition pl_ok :: "playlist \<Rightarrow> bool" where
  "pl_ok pl \<longleftrightarrow> pl_segments pl \<noteq> [] \<and> placed 0 (pl_segments pl) \<and>
     pl_totalDurationSeconds pl = sum_list (map ps_durationSeconds (pl_segments pl)) \<and>
     sorted (map ps_startedAtMs (pl_segments pl))"

lemma parseSegment_facts:
  "parseSegment item = Some s \<Longrightarrow> 0 < ps_durationSeconds s \<and> ps_endedAtMs s = ps_startedAtMs s + ps_durationSeconds s"
  by (auto simp: parseSegment_def Let_def split: option.splits if_splits)

lemma placeSegments_placed:
  assumes "placeSegments pe c ex items = (segs, fin, ex')"
    and "\<forall>s\<in>set items. 0 < ps_durationSeconds s \<and> ps_endedAtMs s = ps_startedAtMs s + ps_durationSeconds s"
  shows "placed c segs \<and> fin = c + sum_list (map ps_durationSeconds segs) \<and>
    segs = map2 (\<lambda>s t. s\<lparr>ps_offsetSeconds := ps_offsetSeconds t\<rparr>) items segs \<and> length segs = length items"
  using assms
proof (induction items arbitrary: c ex segs)
  case (Cons item items)
  from Cons.prems(1) obtain ex1 rest where rec: "placeSegments pe (c + ps_durationSeconds item) ex1 items = (rest, fin, ex')"
    and segs: "segs = item\<lparr>ps_offsetSeconds := c\<rparr> # rest"
    by (auto simp: Let_def split: prod.splits)
  have items: "\<forall>s\<in>set items. 0 < ps_durationSeconds s \<and> ps_endedAtMs s = ps_startedAtMs s + ps_durationSeconds s"
    using Cons.prems(2) by simp
  from Cons.IH [OF rec items] segs Cons.prems(2) show ?case by simp
qed simp

lemma map2_nth_segment:
  fixes segs items :: "play_segment list"
  assumes eq: "segs = map2 (\<lambda>s t. s\<lparr>ps_offsetSeconds := ps_offsetSeconds t\<rparr>) items segs"
    and "length segs = length items" "i < length items"
  shows "segs ! i = (items ! i)\<lparr>ps_offsetSeconds := ps_offsetSeconds (segs ! i)\<rparr>"
  using assms(2,3) by (subst eq) simp

lemma map2_fields:
  fixes segs items :: "play_segment list"
  shows "segs = map2 (\<lambda>s t. s\<lparr>ps_offsetSeconds := ps_offsetSeconds t\<rparr>) items segs \<Longrightarrow> length segs = length items \<Longrightarrow>
   map ps_startedAtMs segs = map ps_startedAtMs items \<and> map ps_durationSeconds segs = map ps_durationSeconds items \<and>
   map ps_recordingId segs = map ps_recordingId items \<and> map ps_playUrl segs = map ps_playUrl items"
proof -
  assume eq: "segs = map2 (\<lambda>s t. s\<lparr>ps_offsetSeconds := ps_offsetSeconds t\<rparr>) items segs" and len: "length segs = length items"
  have item: "segs ! i = (items ! i)\<lparr>ps_offsetSeconds := ps_offsetSeconds (segs ! i)\<rparr>" if "i < length items" for i
    by (rule map2_nth_segment [OF eq len that])
  have fields: "map f segs = map f items" if "\<And>s v. f (s\<lparr>ps_offsetSeconds := v\<rparr>) = f s" for f :: "play_segment \<Rightarrow> 'x"
    using len item that by (intro nth_equalityI) (simp_all, metis)
  show ?thesis by (simp add: fields)
qed

lemma normalizeVodPlaylist_Some:
  assumes "normalizeVodPlaylist pe ck raw now = Some pl"
  obtains source items expiry where "raw = Some source" "rp_segments source = Some items"
    "List.map_filter parseSegment items \<noteq> []"
    "placeSegments pe 0 None (sort_key (segmentKey ck) (List.map_filter parseSegment items)) =
       (pl_segments pl, pl_totalDurationSeconds pl, expiry)" "pl_tokenExpiresAtMs pl = expiry"
  using assms by (auto simp: normalizeVodPlaylist_def Let_def split: option.splits if_splits prod.splits)

lemma parsed_facts:
  "s \<in> set (List.map_filter parseSegment items) \<Longrightarrow>
   0 < ps_durationSeconds s \<and> ps_endedAtMs s = ps_startedAtMs s + ps_durationSeconds s"
  using parseSegment_facts by (fastforce simp: List.map_filter_def)

lemma normalize_ok: "normalizeVodPlaylist pe ck raw now = Some pl \<Longrightarrow> pl_ok pl"
proof (erule normalizeVodPlaylist_Some)
  fix source items expiry
  let ?xs = "sort_key (segmentKey ck) (List.map_filter parseSegment items)"
  assume ne: "List.map_filter parseSegment items \<noteq> []"
    and pl: "placeSegments pe 0 None ?xs = (pl_segments pl, pl_totalDurationSeconds pl, expiry)"
  have "\<forall>s\<in>set ?xs. 0 < ps_durationSeconds s \<and> ps_endedAtMs s = ps_startedAtMs s + ps_durationSeconds s"
    using parsed_facts by simp
  note placed = placeSegments_placed [OF pl this]
  have "sorted (map (segmentKey ck) ?xs)" by simp
  then have "sorted (map ps_startedAtMs ?xs)"
    by (simp add: segmentKey_def sorted_map less_eq_prod_def) (rule sorted_wrt_mono_rel, auto)
  moreover have "length (pl_segments pl) \<noteq> 0"
    using placed ne by (metis length_0_conv length_sort)
  ultimately show ?thesis
    using placed map2_fields [of "pl_segments pl" ?xs] by (auto simp: pl_ok_def)
qed

section \<open>Seeking\<close>

lemma placed_offsets_ge: "placed c ss \<Longrightarrow> s \<in> set ss \<Longrightarrow> c \<le> ps_offsetSeconds s"
  by (induction c ss rule: placed.induct) fastforce+

lemma placed_ends:
  "placed c ss \<Longrightarrow> s \<in> set ss \<Longrightarrow> ps_offsetSeconds s + ps_durationSeconds s \<le> c + sum_list (map ps_durationSeconds ss) \<and>
   0 < ps_durationSeconds s \<and> ps_endedAtMs s = ps_startedAtMs s + ps_durationSeconds s"
proof (induction c ss rule: placed.induct)
  case (2 c t ss)
  have "0 \<le> sum_list (map ps_durationSeconds ss)" if "placed d ss" for d
    using that by (induction d ss rule: placed.induct) auto
  then show ?case using 2 by fastforce
qed simp

text \<open>What the search for an instant answers, and where the search for its position lands.\<close>

definition hit :: "vod_position \<Rightarrow> play_segment \<Rightarrow> int \<Rightarrow> bool" where
  "hit p s ms \<longleftrightarrow> vpos_segment p = Some s \<and>
     (vpos_placement p = InGap \<and> ms < ps_startedAtMs s \<and> vpos_seconds p = ps_offsetSeconds s \<and> vpos_offsetInSegmentSeconds p = 0 \<or>
      vpos_placement p = Inside \<and> ps_startedAtMs s \<le> ms \<and> ms < ps_endedAtMs s \<and>
        vpos_seconds p = ps_offsetSeconds s + (ms - ps_startedAtMs s) \<and> vpos_offsetInSegmentSeconds p = ms - ps_startedAtMs s)"

lemma placeInstant_hit:
  "placeInstant ms i ss = Some p \<Longrightarrow> \<exists>s\<in>set ss. hit p s ms"
  by (induction ms i ss rule: placeInstant.induct) (auto simp: hit_def split: if_splits)

lemma hit_bounds:
  assumes "placed c ss" "s \<in> set ss" "hit p s ms"
  shows "ps_offsetSeconds s \<le> vpos_seconds p" "vpos_seconds p < ps_offsetSeconds s + ps_durationSeconds s"
  using placed_ends [OF assms(1,2)] assms(3) by (auto simp: hit_def)

lemma locate_hit:
  assumes "placed c ss" "placeInstant ms i ss = Some p"
  shows "\<exists>s k. hit p s ms \<and> s \<in> set ss \<and> locateFrom (vpos_seconds p) j ss = Some \<lparr>loc_segment = s, loc_index = k,
    loc_offsetInSegmentSeconds = vpos_offsetInSegmentSeconds p\<rparr>"
  using assms
proof (induction c ss arbitrary: i j rule: placed.induct)
  case (2 c t ss)
  show ?case
  proof (cases "ms < ps_startedAtMs t \<or> ms < ps_endedAtMs t")
    case True
    with 2 have "hit p t ms" by (auto simp: hit_def split: if_splits)
    moreover from this 2 have "locateFrom (vpos_seconds p) j (t # ss) = Some \<lparr>loc_segment = t, loc_index = j,
        loc_offsetInSegmentSeconds = vpos_offsetInSegmentSeconds p\<rparr>"
      by (auto simp: hit_def)
    ultimately show ?thesis by auto
  next
    case False
    with 2 have tail: "placed (c + ps_durationSeconds t) ss" "placeInstant ms (Suc i) ss = Some p" by auto
    from "2.IH" [OF this, of "Suc j"] obtain s k where s: "hit p s ms" "s \<in> set ss"
      "locateFrom (vpos_seconds p) (Suc j) ss = Some \<lparr>loc_segment = s, loc_index = k,
         loc_offsetInSegmentSeconds = vpos_offsetInSegmentSeconds p\<rparr>" by blast
    have "c + ps_durationSeconds t \<le> vpos_seconds p"
      using placed_offsets_ge [OF tail(1) s(2)] hit_bounds(1) [OF tail(1) s(2,1)] by simp
    then have "locateFrom (vpos_seconds p) j (t # ss) = locateFrom (vpos_seconds p) (Suc j) ss" using 2 by simp
    with s show ?thesis by auto
  qed
qed simp

text \<open>With starts in order the first answer decides: inside when some recording covers the
  instant, else the first recording after it.\<close>

lemma placeInstant_sorted:
  assumes "placeInstant ms i ss = Some p" "sorted (map ps_startedAtMs ss)"
  shows "(vpos_placement p = Inside \<longleftrightarrow> (\<exists>s\<in>set ss. ps_startedAtMs s \<le> ms \<and> ms < ps_endedAtMs s)) \<and>
    (vpos_placement p = InGap \<longrightarrow> (\<forall>s\<in>set ss. ms < ps_startedAtMs s \<longrightarrow> ps_startedAtMs (the (vpos_segment p)) \<le> ps_startedAtMs s))"
  using assms
proof (induction ms i ss rule: placeInstant.induct)
  case (2 ms i s ss)
  then show ?case by (fastforce split: if_splits)
qed simp

lemma placeInstant_None: "placeInstant ms i ss = None \<longleftrightarrow> (\<forall>s\<in>set ss. ps_startedAtMs s \<le> ms \<and> ps_endedAtMs s \<le> ms)"
  by (induction ms i ss rule: placeInstant.induct) auto

lemma locateFrom_end:
  "placed c ss \<Longrightarrow> c + sum_list (map ps_durationSeconds ss) \<le> position \<Longrightarrow> locateFrom position i ss = None"
proof (induction c ss arbitrary: i rule: placed.induct)
  case (2 c t ss)
  have "0 \<le> sum_list (map ps_durationSeconds ss)" if "placed d ss" for d
    using that by (induction d ss rule: placed.induct) auto
  with 2 show ?case by force
qed simp

lemma locate_ok:
  assumes "pl_ok pl" "0 \<le> x" "x \<le> pl_totalDurationSeconds pl"
  shows "locateVodSegment (Some pl) (Some x) = (case locateFrom x 0 (pl_segments pl) of Some l \<Rightarrow> Some l
    | None \<Rightarrow> Some \<lparr>loc_segment = last (pl_segments pl), loc_index = length (pl_segments pl) - 1,
        loc_offsetInSegmentSeconds = ps_durationSeconds (last (pl_segments pl))\<rparr>)"
  using assms by (simp add: locateVodSegment_def pl_ok_def)

text \<open>Where a seek to an instant lands.\<close>

definition landing :: "playlist \<Rightarrow> vod_position \<Rightarrow> int \<Rightarrow> int" where
  "landing pl p ms = (case vpos_placement p of Inside \<Rightarrow> ms | After \<Rightarrow> ps_endedAtMs (last (pl_segments pl))
     | _ \<Rightarrow> ps_startedAtMs (the (vpos_segment p)))"

lemma seek_lands:
  assumes ok: "pl_ok pl" and p: "absoluteToVodPosition (Some pl) (At ms) = Some p"
  shows "vodPositionToAbsoluteMs (Some pl) (Some (vpos_seconds p)) = Some (landing pl p ms)"
proof -
  obtain s0 ss where segs: "pl_segments pl = s0 # ss" using ok by (cases "pl_segments pl") (auto simp: pl_ok_def)
  have pos: "placed 0 (s0 # ss)" "pl_totalDurationSeconds pl = sum_list (map ps_durationSeconds (s0 # ss))"
    using ok unfolding pl_ok_def segs by blast+
  have total: "0 < pl_totalDurationSeconds pl" "ps_durationSeconds s0 \<le> pl_totalDurationSeconds pl"
    using placed_ends [OF pos(1), of s0] pos(1) unfolding pos(2) by auto
  show ?thesis
  proof (cases "ms < ps_startedAtMs s0")
    case True
    with p segs have "p = \<lparr>vpos_seconds = 0, vpos_placement = Before, vpos_segment = Some s0, vpos_segmentIndex = 0,
        vpos_offsetInSegmentSeconds = 0\<rparr>" by (simp add: absoluteToVodPosition_def)
    then show ?thesis using locate_ok [OF ok, of 0] total pos(1)
      by (simp add: vodPositionToAbsoluteMs_def segs landing_def)
  next
    case False
    show ?thesis
    proof (cases "placeInstant ms 0 (s0 # ss)")
      case None
      let ?last = "last (s0 # ss)"
      have p': "vpos_seconds p = pl_totalDurationSeconds pl" "vpos_placement p = After"
        using p None False segs by (auto simp: absoluteToVodPosition_def simp del: placeInstant.simps)
      have "locateFrom (pl_totalDurationSeconds pl) 0 (s0 # ss) = None"
        by (rule locateFrom_end [OF pos(1)]) (simp add: pos(2))
      then show ?thesis using locate_ok [OF ok, of "pl_totalDurationSeconds pl"] total placed_ends [OF pos(1), of ?last]
        by (simp add: vodPositionToAbsoluteMs_def p' segs landing_def del: locateFrom.simps)
    next
      case (Some q)
      then have q: "q = p" using p False segs by (simp add: absoluteToVodPosition_def del: placeInstant.simps)
      from locate_hit [OF pos(1) Some [unfolded q], of 0] obtain s k where s: "hit p s ms" "s \<in> set (s0 # ss)"
        "locateFrom (vpos_seconds p) 0 (s0 # ss) = Some \<lparr>loc_segment = s, loc_index = k,
           loc_offsetInSegmentSeconds = vpos_offsetInSegmentSeconds p\<rparr>" by blast
      have "0 \<le> vpos_seconds p" "vpos_seconds p \<le> pl_totalDurationSeconds pl"
        using hit_bounds [OF pos(1) s(2,1)] placed_offsets_ge [OF pos(1) s(2)] placed_ends [OF pos(1) s(2)] pos(2) by simp_all
      from locate_ok [OF ok this] s show ?thesis
        by (auto simp: vodPositionToAbsoluteMs_def segs landing_def hit_def simp del: locateFrom.simps)
    qed
  qed
qed


definition sample_raw :: raw_playlist where
  "sample_raw = \<lparr>rp_segments = Some [
     Some \<lparr>rw_recordingId = Some ''r2'', rw_startedAt = At 90000, rw_endedAt = Absent, rw_durationSeconds = Some 30000,
       rw_discontinuity = True, rw_playUrl = Some ''/recordings/r2/play.mp4?token=b''\<rparr>, None,
     Some \<lparr>rw_recordingId = Some ''r1'', rw_startedAt = At 10000, rw_endedAt = At 70000, rw_durationSeconds = None,
       rw_discontinuity = False, rw_playUrl = Some ''r1/play.mp4?token=a%2Fz''\<rparr>],
     rp_cameraId = Some ''c1'', rp_from = At 15000, rp_to = At 120000, rp_startOffsetSeconds = Some 5000, rp_truncated = False\<rparr>"

definition sample_ck :: "string \<Rightarrow> nat" where "sample_ck s = length s"


section \<open>Tokens\<close>

lemma hex_value_digit: "n < 16 \<Longrightarrow> hex_value (hex_digit n) = Some n"
  by (auto simp: hex_value_def hex_digit_def Let_def)

lemma uri_plain_not_percent: "uri_plain c \<Longrightarrow> c \<noteq> CHR ''%''"
  by (auto simp: uri_plain_def Let_def)

definition ascii :: "string \<Rightarrow> bool" where
  "ascii s \<longleftrightarrow> (\<forall>c\<in>set s. (of_char c :: nat) < 128)"

lemma encode_Cons: "encodeURIComponent (c # s) =
    (if uri_plain c then [c] else [CHR ''%'', hex_digit (of_char c div 16), hex_digit (of_char c mod 16)]) @ encodeURIComponent s"
  by (simp add: encodeURIComponent_def)

lemma decode_encode: "ascii s \<Longrightarrow> decodeURIComponent (encodeURIComponent s) = Some s"
proof (induction s)
  case (Cons c s)
  then have c: "(of_char c :: nat) < 128" and IH: "decodeURIComponent (encodeURIComponent s) = Some s"
    by (simp_all add: ascii_def)
  show ?case
  proof (cases "uri_plain c")
    case True
    with IH uri_plain_not_percent [OF True] show ?thesis by (simp add: encode_Cons)
  next
    case False
    have hex: "hex_value (hex_digit (of_char c div 16)) = Some (of_char c div 16)"
      "hex_value (hex_digit (of_char c mod 16)) = Some (of_char c mod 16)"
      using c by (auto intro!: hex_value_digit)
    have "16 * (of_char c div 16) + of_char c mod 16 = (of_char c :: nat)" by simp
    with False IH hex c show ?thesis by (simp add: encode_Cons)
  qed
qed (simp add: encodeURIComponent_def)

lemma hex_digit_plain: "n < 16 \<Longrightarrow> \<not> value_end (hex_digit n)"
proof
  assume "n < 16" "value_end (hex_digit n)"
  moreover have "hex_value (CHR ''&'') = None" "hex_value (CHR ''#'') = None" by (simp_all add: hex_value_def)
  ultimately show False using hex_value_digit [of n] by (auto simp: value_end_def)
qed

lemma encode_no_end: "ascii s \<Longrightarrow> \<forall>c\<in>set (encodeURIComponent s). \<not> value_end c"
proof (induction s)
  case (Cons c s)
  then have "(of_char c :: nat) < 128" "\<forall>d\<in>set (encodeURIComponent s). \<not> value_end d" by (simp_all add: ascii_def)
  moreover have "\<not> value_end c" if "uri_plain c" using that by (auto simp: uri_plain_def value_end_def Let_def)
  moreover have "\<not> value_end (CHR ''%'')" by (simp add: value_end_def)
  ultimately show ?case using hex_digit_plain by (auto simp: encode_Cons)
qed (simp add: encodeURIComponent_def)

lemma splitToken_replace:
  "splitToken url = Some (p, r) \<Longrightarrow> p \<noteq> [] \<and> url = p @ token_name @ r \<and> splitToken (p @ token_name @ x) = Some (p, x)"
proof (induction url arbitrary: p)
  case (Cons c s)
  have len: "length token_name = 6" by (simp add: token_name_def)
  show ?case
  proof (cases "(c = CHR ''?'' \<or> c = CHR ''&'') \<and> take 6 s = token_name")
    case True
    with Cons.prems have "p = [c]" "r = drop 6 s" by auto
    moreover have "s = token_name @ drop 6 s" using True by (metis append_take_drop_id)
    ultimately show ?thesis using True len by simp
  next
    case False
    with Cons.prems obtain q where q: "p = c # q" "splitToken s = Some (q, r)" by (auto split: prod.splits)
    note IH = Cons.IH [OF q(2)]
    then have "take 6 (q @ token_name @ x) = take 6 (q @ token_name @ r)" using len by simp
    moreover have "s = q @ token_name @ r" using IH by blast
    ultimately have "\<not> ((c = CHR ''?'' \<or> c = CHR ''&'') \<and> take 6 (q @ token_name @ x) = token_name)" using False by simp
    then show ?thesis using IH q(1) by auto
  qed
qed simp

lemma splitToken_append:
  assumes "splitToken url = None" "sep = CHR ''?'' \<or> sep = CHR ''&''"
  shows "splitToken (url @ sep # token_name @ x) = Some (url @ [sep], x)"
  using assms(1)
proof (induction url)
  case Nil
  show ?case using assms(2) by (auto simp: token_name_def)
next
  case (Cons c s)
  then have head: "\<not> ((c = CHR ''?'' \<or> c = CHR ''&'') \<and> take 6 s = token_name)" and tail: "splitToken s = None"
    by (auto split: if_splits)
  have "take 6 (s @ sep # token_name @ x) \<noteq> token_name" if "take 6 s \<noteq> token_name"
  proof (cases "6 \<le> length s")
    case False
    then have "sep \<in> set (take 6 (s @ sep # token_name @ x))" by (cases "6 - length s") auto
    moreover have "sep \<notin> set token_name" using assms(2) by (auto simp: token_name_def)
    ultimately show ?thesis by metis
  qed (use that in simp)
  with head have "\<not> ((c = CHR ''?'' \<or> c = CHR ''&'') \<and> take 6 (s @ sep # token_name @ x) = token_name)" by blast
  then show ?case using Cons.IH [OF tail] by auto
qed

lemma token_value:
  assumes "ascii t" "\<forall>c\<in>set (take 1 rest). value_end c" "t \<noteq> []" "splitToken url = Some (p, encodeURIComponent t @ rest)"
  shows "readTokenFromUrl url = Some t"
proof -
  have "takeWhile (\<lambda>c. \<not> value_end c) (encodeURIComponent t @ rest) = encodeURIComponent t"
    using encode_no_end [OF assms(1)] assms(2) by (cases rest) (auto simp: takeWhile_append)
  then show ?thesis using assms decode_encode [OF assms(1)] by (simp add: readTokenFromUrl_def nonempty_def)
qed

lemma dropWhile_first: "\<forall>c\<in>set (take 1 (dropWhile (\<lambda>c. \<not> P c) r)). P c"
proof (induction r)
  case (Cons x r)
  show ?case
  proof (cases "P x")
    case False
    then have "dropWhile (\<lambda>c. \<not> P c) (x # r) = dropWhile (\<lambda>c. \<not> P c) r" by simp
    with Cons.IH show ?thesis by (simp only:)
  qed simp
qed simp

text \<open>(a refreshed URL carries the new token). Whatever token a segment URL carried, and whether
  it carried one, the refreshed URL reads back the token held for its recording; a URL of another
  shape, or a recording without a token, is left as it is.\<close>

theorem player_refresh_token:
  assumes "\<forall>t\<in>snd ` set tokens. ascii t"
  shows "case recordingIdFromSegmentUrl url of
      None \<Rightarrow> refreshSegmentUrl url tokens = url
    | Some i \<Rightarrow> (case map_of tokens i of
         None \<Rightarrow> refreshSegmentUrl url tokens = url
       | Some t \<Rightarrow> if t = [] then refreshSegmentUrl url tokens = url
                   else readTokenFromUrl (refreshSegmentUrl url tokens) = Some t)"
proof (cases "recordingIdFromSegmentUrl url")
  case (Some i)
  show ?thesis
  proof (cases "map_of tokens i")
    case token: (Some t)
    show ?thesis
    proof (cases "t = []")
      case False
      have t: "ascii t" using assms map_of_SomeD [OF token] by force
      show ?thesis
      proof (cases "splitToken url")
        case None
        let ?sep = "if CHR ''?'' \<in> set url then CHR ''&'' else CHR ''?''"
        have url: "refreshSegmentUrl url tokens = url @ ?sep # token_name @ encodeURIComponent t @ []"
          using Some token False None by (simp add: refreshSegmentUrl_def)
        have "splitToken (refreshSegmentUrl url tokens) = Some (url @ [?sep], encodeURIComponent t @ [])"
          unfolding url by (rule splitToken_append [OF None]) simp
        from token_value [OF t _ False this] Some token False show ?thesis by simp
      next
        case (Some pr)
        obtain p r where pr: "pr = (p, r)" by (cases pr)
        let ?rest = "dropWhile (\<lambda>c. \<not> value_end c) r"
        have "refreshSegmentUrl url tokens = p @ token_name @ encodeURIComponent t @ ?rest"
          using \<open>recordingIdFromSegmentUrl url = Some i\<close> token False Some pr by (simp add: refreshSegmentUrl_def)
        then have split: "splitToken (refreshSegmentUrl url tokens) = Some (p, encodeURIComponent t @ ?rest)"
          using splitToken_replace Some pr by simp
        have "readTokenFromUrl (refreshSegmentUrl url tokens) = Some t"
          by (rule token_value [OF t dropWhile_first False split])
        then show ?thesis using \<open>recordingIdFromSegmentUrl url = Some i\<close> token False by simp
      qed
    qed (use Some token in \<open>simp add: refreshSegmentUrl_def\<close>)
  qed (use Some in \<open>simp add: refreshSegmentUrl_def\<close>)
qed (simp add: refreshSegmentUrl_def)

theorem player_refresh_token_witness:
  "readTokenFromUrl (refreshSegmentUrl ''/recordings/r1/play.mp4?x=1&token=old#t'' [(''r1'', ''n/w'')]) = Some ''n/w''"
proof -
  have "recordingIdFromSegmentUrl ''/recordings/r1/play.mp4?x=1&token=old#t'' = Some ''r1''" by code_simp
  then show ?thesis
    using player_refresh_token [of "[(''r1'', ''n/w'')]" "''/recordings/r1/play.mp4?x=1&token=old#t''"]
    by (simp add: ascii_def)
qed

end
