(* ===== verification/Vod_Service.thy ===== *)
theory Vod_Service
  imports Access_Control Auth_Service Env_Settings Vod_Playlist Vod_Player_Properties
begin

text \<open>
  \<open>buildVodPlaylist\<close> of \<open>recordings/recordings.service.ts\<close>: the checks of the request, the
  playback gate, the query, the files that can be played, the plan, one playback token per
  segment. It joins the access control, the settings, the plan and the authentication, and its
  answer is what \<open>Vod_Player\<close> reads. The parameters of the request are texts; \<open>Absent\<close> and
  \<open>Invalid\<close> dates are those \<open>new Date\<close> does not read. What the disk and the diagnostics cache
  hold is given by functions; \<open>VOD_PLAYLIST_MAX_SEGMENTS\<close> is \<open>None\<close> when unset and
  \<open>Some None\<close> when \<open>Number\<close> of it is not finite: \<open>Math.min\<close> and \<open>Math.max\<close> then give \<open>NaN\<close>, no
  length exceeds it, and the rows of the query, 5000 at most, are the only limit.
\<close>

section \<open>The service\<close>

record recording_row =
  rec_id :: string
  rec_cameraId :: string
  rec_startedAt :: int
  rec_endedAt :: "int option"
  rec_durationSeconds :: "int option"
  rec_filePath :: string
  rec_cloudKey :: "string option"
  rec_cloudUploadedAt :: "int option"
  rec_cloudMissingSince :: "int option"

datatype file_state = Refused | NoFile | FileOf nat

record vod_env =
  ve_recordings :: "recording_row list"
  ve_file :: "string \<Rightarrow> file_state"
  ve_codec :: "string \<Rightarrow> string option"
  ve_maxHours :: "string option"
  ve_lookbackMinutes :: "string option"
  ve_maxSegments :: "rat option option"

datatype vod_error = MissingCamera | InvalidFrom | InvalidTo | EmptyInterval | IntervalTooLong | PlaybackDenied

record vod_answer =
  va_cameraId :: string
  va_plan :: vod_plan
  va_playlist :: string
  va_segments :: "(vod_segment \<times> string) list"

definition nuvemDisponivel :: "recording_row \<Rightarrow> bool" where
  "nuvemDisponivel r \<longleftrightarrow> or_empty (rec_cloudKey r) \<noteq> [] \<and> rec_cloudUploadedAt r \<noteq> None \<and> rec_cloudMissingSince r = None"

definition playable :: "vod_env \<Rightarrow> recording_row \<Rightarrow> bool" where
  "playable env r = (case ve_file env (rec_filePath r) of
     Refused \<Rightarrow> False | NoFile \<Rightarrow> nuvemDisponivel r | FileOf bytes \<Rightarrow> \<not> bytes \<le> 1024)"

definition maxHours :: "vod_env \<Rightarrow> rat" where
  "maxHours env = fst (envNumber (ve_maxHours env) 24 \<lparr>opt_min = Some 1, opt_max = Some 72, opt_integer = False\<rparr>)"

definition lookbackMinutes :: "vod_env \<Rightarrow> rat" where
  "lookbackMinutes env = fst (envNumber (ve_lookbackMinutes env) 60 \<lparr>opt_min = Some 1, opt_max = Some 360, opt_integer = False\<rparr>)"

definition limitSegments :: "vod_env \<Rightarrow> int" where
  "limitSegments env = (case ve_maxSegments env of
     None \<Rightarrow> 720 | Some None \<Rightarrow> 5000 | Some (Some n) \<Rightarrow> \<lfloor>max 1 (min 2000 n)\<rfloor>)"

definition queryRecordings :: "vod_env \<Rightarrow> string \<Rightarrow> int \<Rightarrow> int \<Rightarrow> recording_row list" where
  "queryRecordings env cameraId fromMs toMsValue =
     take 5000 (sort_key rec_startedAt (filter (\<lambda>r. rec_cameraId r = cameraId \<and>
       of_int fromMs - lookbackMinutes env * 60 * 1000 \<le> of_int (rec_startedAt r) \<and> rec_startedAt r \<le> toMsValue \<and>
       (case rec_endedAt r of None \<Rightarrow> True | Some e \<Rightarrow> e \<ge> fromMs)) (ve_recordings env)))"

definition sourceOf :: "vod_env \<Rightarrow> recording_row \<Rightarrow> vod_source" where
  "sourceOf env r = \<lparr>vs_id = rec_id r, vs_startedAt = At (rec_startedAt r),
     vs_endedAt = (case rec_endedAt r of None \<Rightarrow> Absent | Some e \<Rightarrow> At e),
     vs_durationSeconds = rec_durationSeconds r, vs_codec = ve_codec env (rec_id r)\<rparr>"

definition vodInput :: "vod_env \<Rightarrow> string \<Rightarrow> int \<Rightarrow> int \<Rightarrow> vod_input" where
  "vodInput env cameraId fromMs toMsValue = \<lparr>
     vi_segments = map (sourceOf env) (filter (playable env) (queryRecordings env cameraId fromMs toMsValue)),
     vi_from = At fromMs, vi_to = At toMsValue, vi_gapToleranceSeconds = None, vi_maxSegments = Some (limitSegments env)\<rparr>"

definition buildSegmentUrl :: "jwt_env \<Rightarrow> string \<Rightarrow> vod_segment \<Rightarrow> string" where
  "buildSegmentUrl jwt userId segment = vp_recordingId segment @ ''/play.mp4?token='' @
     encodeURIComponent (fst (createPlaybackToken jwt userId (vp_recordingId segment)))"

definition answerOf :: "jwt_env \<Rightarrow> string \<Rightarrow> string \<Rightarrow> vod_plan \<Rightarrow> vod_answer" where
  "answerOf jwt userId cameraId plan = \<lparr>va_cameraId = cameraId, va_plan = plan,
     va_playlist = renderVodPlaylist plan (buildSegmentUrl jwt userId) None,
     va_segments = map (\<lambda>s. (s, buildSegmentUrl jwt userId s)) (vod_segments plan)\<rparr>"

definition buildVodPlaylist ::
  "vod_env \<Rightarrow> jwt_env \<Rightarrow> (string \<Rightarrow> 'k::linorder) \<Rightarrow> db \<Rightarrow> auth_user \<Rightarrow> string option \<Rightarrow> instant \<Rightarrow> instant \<Rightarrow>
   vod_error + vod_answer" where
  "buildVodPlaylist env jwt ck db user rawCameraId fromDate toDate =
     (let cameraId = js_trim (or_empty rawCameraId)
      in if cameraId = [] then Inl MissingCamera
         else (case toMs fromDate of None \<Rightarrow> Inl InvalidFrom
         | Some fromMs \<Rightarrow> (case toMs toDate of None \<Rightarrow> Inl InvalidTo
         | Some toMsValue \<Rightarrow>
             if toMsValue \<le> fromMs then Inl EmptyInterval
             else if of_int (toMsValue - fromMs) > maxHours env * 60 * 60 * 1000 then Inl IntervalTooLong
             else (case assertCanPlaybackCamera db user cameraId of Inl _ \<Rightarrow> Inl PlaybackDenied
             | Inr _ \<Rightarrow>
                 (case planVodPlaylist ck (vodInput env cameraId fromMs toMsValue) of
                    None \<Rightarrow> Inl InvalidFrom
                  | Some plan \<Rightarrow> Inr (answerOf jwt (u_id user) cameraId plan))))))"

section \<open>The answer as the browser reads it\<close>

definition wire :: "vod_answer \<Rightarrow> raw_playlist" where
  "wire a = \<lparr>rp_segments = Some (map (\<lambda>(s, url). Some \<lparr>rw_recordingId = Some (vp_recordingId s),
       rw_startedAt = At (vp_startedAt s), rw_endedAt = At (vp_endedAt s), rw_durationSeconds = Some (vp_durationSeconds s),
       rw_discontinuity = vp_discontinuity s, rw_playUrl = Some url\<rparr>) (va_segments a)),
     rp_cameraId = Some (va_cameraId a), rp_from = At (vod_from (va_plan a)), rp_to = At (vod_to (va_plan a)),
     rp_startOffsetSeconds = Some (startOffsetSeconds (va_plan a)), rp_truncated = vod_truncated (va_plan a)\<rparr>"

lemma buildVodPlaylist_Inr:
  assumes "buildVodPlaylist env jwt ck db user rawCameraId fromDate toDate = Inr a"
  obtains f t plan where "toMs fromDate = Some f" "toMs toDate = Some t" "f < t" "of_int (t - f) \<le> maxHours env * 60 * 60 * 1000"
    "canPlaybackCamera db user (js_trim (or_empty rawCameraId))" "js_trim (or_empty rawCameraId) \<noteq> []"
    "planVodPlaylist ck (vodInput env (js_trim (or_empty rawCameraId)) f t) = Some plan"
    "a = answerOf jwt (u_id user) (js_trim (or_empty rawCameraId)) plan"
  using assms
  by (auto simp: buildVodPlaylist_def Let_def assertCanPlaybackCamera_def assert_that_def split: if_splits option.splits sum.splits)

lemma plan_segment_cs:
  assumes "planVodPlaylist ck inp = Some plan" "toMs (vi_from inp) = Some f" "toMs (vi_to inp) = Some t"
  obtains cs where "list_all2 segment_of cs (vod_segments plan)" "set cs \<subseteq> set (snd (collectVod f t (vi_segments inp)))"
    "sorted (map (vodKey ck) cs)" "\<forall>c\<in>set cs. vod_usable f t c"
    "startOffsetSeconds plan = (case cs of [] \<Rightarrow> 0 | c # _ \<Rightarrow> max 0 (min f (vc_endMs c) - vc_startMs c))"
    "vod_totalSeconds plan = sum_list (map vp_durationSeconds (vod_segments plan))"
    "\<forall>i<length (vod_segments plan). vp_offsetSeconds (vod_segments plan ! i) = sum_list (map vp_durationSeconds (take i (vod_segments plan)))"
proof -
  from planVodPlaylist_Some [OF assms] obtain cs m where cs: "cs = fst (vodSelected ck inp f t)"
    and w: "walkVod (vodTolerance inp) None 0 0 0 cs = (vod_segments plan, vod_totalSeconds plan, discontinuities plan, m)"
    and off: "startOffsetSeconds plan = (case cs of [] \<Rightarrow> 0 | c # _ \<Rightarrow> max 0 (min f (vc_endMs c) - vc_startMs c))"
    and usable: "\<forall>c\<in>set cs. vod_usable f t c" by blast
  have "set cs \<subseteq> set (snd (collectVod f t (vi_segments inp)))" "sorted (map (vodKey ck) cs)"
    unfolding cs vodSelected_def by (rule selected_subset, rule selected_sorted)
  then show ?thesis using that [OF walkVod_segments [OF w] _ _ usable off] walkVod_offsets [OF w] by simp
qed

section \<open>Properties\<close>

lemma queryRecordings_rows:
  "r \<in> set (queryRecordings env cam f t) \<Longrightarrow> r \<in> set (ve_recordings env) \<and> rec_cameraId r = cam"
  by (auto simp: queryRecordings_def dest!: in_set_takeD)

lemma sourceOf_segment:
  "source_of (sourceOf env r) c \<Longrightarrow> rec_id r = vc_id c \<and> rec_startedAt r = vc_startMs c"
  by (simp add: source_of_def sourceOf_def)

lemma answered_recording:
  assumes "buildVodPlaylist env jwt ck db user rawCameraId fromDate toDate = Inr a" "(s, url) \<in> set (va_segments a)"
  shows "canPlaybackCamera db user (va_cameraId a) \<and>
    (\<exists>r\<in>set (ve_recordings env). rec_id r = vp_recordingId s \<and> rec_cameraId r = va_cameraId a \<and> playable env r \<and>
       rec_startedAt r = vp_startedAt s) \<and>
    vod_from (va_plan a) < vp_endedAt s \<and> vp_startedAt s < vod_to (va_plan a) \<and>
    url = vp_recordingId s @ ''/play.mp4?token='' @ encodeURIComponent (sign jwt \<lparr>m_sub = u_id user, m_cameraId = None,
      m_recordingId = Some (vp_recordingId s), m_recordingIds = None, m_type = ''play''\<rparr> (mediaTtl jwt))"
proof (rule buildVodPlaylist_Inr [OF assms(1)])
  fix f t plan
  let ?cam = "js_trim (or_empty rawCameraId)"
  let ?inp = "vodInput env ?cam f t"
  assume ft: "toMs fromDate = Some f" "toMs toDate = Some t" and can: "canPlaybackCamera db user ?cam"
    and plan: "planVodPlaylist ck ?inp = Some plan" and a: "a = answerOf jwt (u_id user) ?cam plan"
  have io: "toMs (vi_from ?inp) = Some f" "toMs (vi_to ?inp) = Some t" by (simp_all add: vodInput_def)
  obtain cs where cs: "list_all2 segment_of cs (vod_segments plan)"
    "set cs \<subseteq> set (snd (collectVod f t (vi_segments ?inp)))" by (rule plan_segment_cs [OF plan io]) (rule that)
  have s: "s \<in> set (vod_segments plan)" "url = buildSegmentUrl jwt (u_id user) s"
    using assms(2) by (auto simp: a answerOf_def)
  then obtain c where c: "c \<in> set cs" "segment_of c s"
    using list_all2_partner [OF cs(1)] by blast
  with cs(2) have "c \<in> set (snd (collectVod f t (vi_segments ?inp)))" by blast
  then obtain raw where raw: "raw \<in> set (vi_segments ?inp)" "source_of raw c" "f < vc_endMs c" "vc_startMs c < t"
    unfolding collectVod_iff by blast
  have "vi_segments ?inp = map (sourceOf env) (filter (playable env) (queryRecordings env ?cam f t))"
    by (simp add: vodInput_def)
  with raw(1) have "raw \<in> sourceOf env ` {r \<in> set (queryRecordings env ?cam f t). playable env r}" by simp
  then obtain r where "r \<in> set (queryRecordings env ?cam f t)" "playable env r" "raw = sourceOf env r" by blast
  then have "r \<in> set (ve_recordings env) \<and> rec_cameraId r = ?cam \<and> playable env r \<and> rec_id r = vc_id c \<and> rec_startedAt r = vc_startMs c"
    using queryRecordings_rows [of r env ?cam f t] sourceOf_segment [of env r c] raw(2) by simp
  then have row: "\<exists>r\<in>set (ve_recordings env). rec_id r = vc_id c \<and> rec_cameraId r = ?cam \<and> playable env r \<and> rec_startedAt r = vc_startMs c"
    by blast
  have fields: "va_cameraId a = ?cam" "va_plan a = plan" "vod_from plan = f" "vod_to plan = t"
    "vp_recordingId s = vc_id c" "vp_startedAt s = vc_startMs c" "vp_endedAt s = vc_endMs c"
    using planVodPlaylist_interval [OF plan] io c(2) by (simp_all add: a answerOf_def segment_of_def)
  have url: "url = vc_id c @ ''/play.mp4?token='' @ encodeURIComponent (sign jwt \<lparr>m_sub = u_id user, m_cameraId = None,
      m_recordingId = Some (vc_id c), m_recordingIds = None, m_type = ''play''\<rparr> (mediaTtl jwt))"
    by (simp add: s(2) buildSegmentUrl_def createPlaybackToken_def issued_def Let_def fields)
  show ?thesis unfolding fields by (intro conjI can row raw(3,4) url)
qed


text \<open>A recording id as the database makes them: not empty, no blank at its ends, no delimiter.\<close>

definition plain_id :: "string \<Rightarrow> bool" where
  "plain_id i \<longleftrightarrow> i \<noteq> [] \<and> js_trim i = i \<and> (\<forall>c\<in>set i. c \<noteq> CHR ''/'' \<and> c \<noteq> CHR ''?'' \<and> c \<noteq> CHR ''&'')"

definition read_segment :: "vod_segment \<times> string \<Rightarrow> play_segment" where
  "read_segment = (\<lambda>(s, url). \<lparr>ps_recordingId = vp_recordingId s, ps_startedAtMs = vp_startedAt s, ps_endedAtMs = vp_endedAt s,
     ps_durationSeconds = vp_durationSeconds s, ps_offsetSeconds = vp_offsetSeconds s,
     ps_discontinuity = vp_discontinuity s, ps_playUrl = recordings_dir @ url, ps_token = readTokenFromUrl (recordings_dir @ url)\<rparr>)"

lemma js_trim_kept: "x \<noteq> [] \<Longrightarrow> \<not> js_space (hd x) \<Longrightarrow> \<not> js_space (last x) \<Longrightarrow> js_trim x = x"
proof -
  assume x: "x \<noteq> []" "\<not> js_space (hd x)" "\<not> js_space (last x)"
  then have "dropWhile js_space x = x" by (cases x) simp_all
  moreover have "dropWhile js_space (rev x) = rev x" using x by (cases "rev x") (simp_all add: hd_rev [symmetric])
  ultimately show ?thesis by (simp add: js_trim_def)
qed

lemma encode_no_space: "c \<in> set (encodeURIComponent t) \<Longrightarrow> ascii t \<Longrightarrow> \<not> js_space c"
proof (induction t)
  case (Cons d t)
  have hex: "\<not> js_space (hex_digit n)" if "n < 16" for n
  proof
    assume "js_space (hex_digit n)"
    moreover have "js_space x \<Longrightarrow> hex_value x = None" for x by (auto simp: js_space_def hex_value_def Let_def)
    ultimately show False using hex_value_digit [OF that] by simp
  qed
  have "(of_char d :: nat) < 128" "ascii t" using Cons.prems(2) by (simp_all add: ascii_def)
  moreover have "\<not> js_space d" if "uri_plain d" using that by (auto simp: uri_plain_def js_space_def Let_def)
  moreover have "\<not> js_space (CHR ''%'')" by (simp add: js_space_def)
  ultimately show ?case using Cons hex by (auto simp: encode_Cons split: if_splits)
qed (simp add: encodeURIComponent_def)

lemma encode_Nil_iff: "encodeURIComponent t = [] \<longleftrightarrow> t = []"
  by (cases t) (simp_all add: encode_Cons, simp add: encodeURIComponent_def)

lemma splitToken_plain: "\<forall>c\<in>set u. c \<noteq> CHR ''?'' \<and> c \<noteq> CHR ''&'' \<Longrightarrow> splitToken u = None"
  by (induction u) auto

lemma segment_url_token:
  assumes "plain_id i" "ascii t" "t \<noteq> []"
  shows "readTokenFromUrl (recordings_dir @ i @ ''/play.mp4?token='' @ encodeURIComponent t) = Some t"
proof -
  let ?u = "recordings_dir @ i @ ''/play.mp4''"
  have "splitToken ?u = None"
    by (rule splitToken_plain) (use assms(1) in \<open>auto simp: plain_id_def recordings_dir_def\<close>)
  then have "splitToken (?u @ CHR ''?'' # token_name @ encodeURIComponent t @ []) = Some (?u @ [CHR ''?''], encodeURIComponent t @ [])"
    by (rule splitToken_append) simp
  then show ?thesis
    by (intro token_value [OF assms(2) _ assms(3), of "[]"]) (simp_all add: token_name_def)
qed

lemma segment_url_kept:
  assumes "plain_id i" "ascii t" "t \<noteq> []"
  shows "js_trim (i @ ''/play.mp4?token='' @ encodeURIComponent t) = i @ ''/play.mp4?token='' @ encodeURIComponent t"
    "take 1 (i @ ''/play.mp4?token='' @ encodeURIComponent t) \<noteq> ''/''"
proof -
  have i: "i \<noteq> []" "js_trim i = i" "hd i \<noteq> CHR ''/''" using assms(1) by (auto simp: plain_id_def)
  then have "\<not> js_space (hd i)" using js_trim_ends [of i] by simp
  moreover have "encodeURIComponent t \<noteq> []" using assms(3) by (simp add: encode_Nil_iff)
  moreover from this have "\<not> js_space (last (encodeURIComponent t))"
    using encode_no_space [OF last_in_set assms(2)] by blast
  ultimately show "js_trim (i @ ''/play.mp4?token='' @ encodeURIComponent t) = i @ ''/play.mp4?token='' @ encodeURIComponent t"
    using i(1) by (intro js_trim_kept) simp_all
  show "take 1 (i @ ''/play.mp4?token='' @ encodeURIComponent t) \<noteq> ''/''" using i(1,3) by (cases i) auto
qed

lemma placed_nth: "placed c ss \<Longrightarrow> i < length ss \<Longrightarrow> ps_offsetSeconds (ss ! i) = c + sum_list (map ps_durationSeconds (take i ss))"
  by (induction c ss arbitrary: i rule: placed.induct) (auto simp: nth_Cons' take_Cons')

definition raw_of :: "vod_segment \<times> string \<Rightarrow> raw_segment" where
  "raw_of = (\<lambda>(s, url). \<lparr>rw_recordingId = Some (vp_recordingId s), rw_startedAt = At (vp_startedAt s),
     rw_endedAt = At (vp_endedAt s), rw_durationSeconds = Some (vp_durationSeconds s),
     rw_discontinuity = vp_discontinuity s, rw_playUrl = Some url\<rparr>)"

definition fresh_segment :: "vod_segment \<times> string \<Rightarrow> play_segment" where
  "fresh_segment x = (read_segment x)\<lparr>ps_offsetSeconds := 0\<rparr>"

lemma parse_built_segment:
  assumes "plain_id (vp_recordingId s)" "ascii t" "t \<noteq> []" "0 < vp_durationSeconds s"
    "vp_endedAt s = vp_startedAt s + vp_durationSeconds s"
    "url = vp_recordingId s @ ''/play.mp4?token='' @ encodeURIComponent t"
  shows "parseSegment (Some (raw_of (s, url))) = Some (fresh_segment (s, url))"
proof -
  have "vp_recordingId s \<noteq> []" "js_trim (vp_recordingId s) = vp_recordingId s" "url \<noteq> []"
    using assms(1,6) by (simp_all add: plain_id_def)
  moreover have "js_trim url = url" "take 1 url \<noteq> ''/''" using segment_url_kept [OF assms(1-3)] unfolding assms(6) by blast+
  ultimately show ?thesis
    using assms(4,5) by (simp add: parseSegment_def raw_of_def or_empty_def fresh_segment_def read_segment_def Let_def)
qed

lemma map_filter_all: "\<forall>x\<in>set xs. f (g x) = Some (h x) \<Longrightarrow> List.map_filter f (map g xs) = map h xs"
  by (induction xs) (simp_all add: List.map_filter_simps)

text \<open>The segments as placed by the browser are the segments of the plan.\<close>

lemma placed_as_planned:
  assumes place: "placeSegments pe 0 None (map fresh_segment xs) = (segs, fin, ex)"
    and len: "\<forall>x\<in>set xs. 0 < vp_durationSeconds (fst x) \<and> vp_endedAt (fst x) = vp_startedAt (fst x) + vp_durationSeconds (fst x)"
    and off: "\<forall>i<length xs. vp_offsetSeconds (fst (xs ! i)) = sum_list (map vp_durationSeconds (take i (map fst xs)))"
  shows "segs = map read_segment xs \<and> fin = sum_list (map vp_durationSeconds (map fst xs))"
proof -
  let ?items = "map fresh_segment xs"
  have "\<forall>s\<in>set ?items. 0 < ps_durationSeconds s \<and> ps_endedAtMs s = ps_startedAtMs s + ps_durationSeconds s"
    using len by (auto simp: fresh_segment_def read_segment_def)
  note placed = placeSegments_placed [OF place this]
  have durs: "map ps_durationSeconds segs = map vp_durationSeconds (map fst xs)"
    using placed map2_fields [of segs ?items] by (auto simp: fresh_segment_def read_segment_def case_prod_beta comp_def)
  have "segs ! i = read_segment (xs ! i)" if i: "i < length xs" for i
  proof -
    have "segs ! i = (?items ! i)\<lparr>ps_offsetSeconds := ps_offsetSeconds (segs ! i)\<rparr>"
      using placed i by (metis (no_types, lifting) length_map map2_nth_segment)
    moreover have "ps_offsetSeconds (segs ! i) = sum_list (map ps_durationSeconds (take i segs))"
      using placed_nth [of 0 segs i] placed i by simp
    moreover have "map ps_durationSeconds (take i segs) = map vp_durationSeconds (take i (map fst xs))"
      by (metis durs take_map)
    ultimately show ?thesis using off i by (simp add: fresh_segment_def read_segment_def case_prod_beta)
  qed
  then show ?thesis using placed durs by (auto intro: nth_equalityI)
qed

text \<open>What the plan behind an answer is.\<close>

lemma answer_plan:
  assumes "buildVodPlaylist env jwt ck db user rawCameraId fromDate toDate = Inr a"
    and ids: "\<forall>r\<in>set (ve_recordings env). plain_id (rec_id r)"
  shows "va_segments a = map (\<lambda>s. (s, buildSegmentUrl jwt (u_id user) s)) (vod_segments (va_plan a)) \<and>
    sorted (map (\<lambda>s. (vp_startedAt s, ck (vp_recordingId s))) (vod_segments (va_plan a))) \<and>
    (\<forall>s\<in>set (vod_segments (va_plan a)). plain_id (vp_recordingId s) \<and> 0 < vp_durationSeconds s \<and>
       vp_endedAt s = vp_startedAt s + vp_durationSeconds s) \<and>
    (\<forall>i<length (vod_segments (va_plan a)). vp_offsetSeconds (vod_segments (va_plan a) ! i) =
       sum_list (map vp_durationSeconds (take i (vod_segments (va_plan a))))) \<and>
    vod_totalSeconds (va_plan a) = sum_list (map vp_durationSeconds (vod_segments (va_plan a))) \<and>
    0 \<le> startOffsetSeconds (va_plan a) \<and> startOffsetSeconds (va_plan a) \<le> vod_totalSeconds (va_plan a)"
proof (rule buildVodPlaylist_Inr [OF assms(1)])
  fix f t plan
  let ?cam = "js_trim (or_empty rawCameraId)"
  let ?inp = "vodInput env ?cam f t"
  assume plan: "planVodPlaylist ck ?inp = Some plan" and a: "a = answerOf jwt (u_id user) ?cam plan"
  have io: "toMs (vi_from ?inp) = Some f" "toMs (vi_to ?inp) = Some t" by (simp_all add: vodInput_def)
  show ?thesis
  proof (rule plan_segment_cs [OF plan io])
    fix cs
    assume all2: "list_all2 segment_of cs (vod_segments plan)" and keys: "sorted (map (vodKey ck) cs)"
      and usable: "\<forall>c\<in>set cs. vod_usable f t c"
      and so: "startOffsetSeconds plan = (case cs of [] \<Rightarrow> 0 | c # _ \<Rightarrow> max 0 (min f (vc_endMs c) - vc_startMs c))"
      and total: "vod_totalSeconds plan = sum_list (map vp_durationSeconds (vod_segments plan))"
      and off: "\<forall>i<length (vod_segments plan). vp_offsetSeconds (vod_segments plan ! i) =
        sum_list (map vp_durationSeconds (take i (vod_segments plan)))"
    have "map (\<lambda>s. (vp_startedAt s, ck (vp_recordingId s))) (vod_segments plan) = map (vodKey ck) cs"
      using all2 by (induction rule: list_all2_induct) (simp_all add: segment_of_def vodKey_def)
    then have srt: "sorted (map (\<lambda>s. (vp_startedAt s, ck (vp_recordingId s))) (vod_segments plan))" using keys by simp
    have seg: "plain_id (vp_recordingId s) \<and> 0 < vp_durationSeconds s \<and> vp_endedAt s = vp_startedAt s + vp_durationSeconds s"
      if s: "s \<in> set (vod_segments plan)" for s
    proof -
      have "(s, buildSegmentUrl jwt (u_id user) s) \<in> set (va_segments a)" using s by (auto simp: a answerOf_def)
      from answered_recording [OF assms(1) this] ids have "plain_id (vp_recordingId s)" by auto
      moreover obtain c where "c \<in> set cs" "segment_of c s" using list_all2_partner [OF all2 s] by blast
      ultimately show ?thesis using usable by (auto simp: segment_of_def vod_usable_def)
    qed
    have "0 \<le> startOffsetSeconds plan \<and> startOffsetSeconds plan \<le> vod_totalSeconds plan"
    proof (cases cs)
      case Nil
      then show ?thesis using so all2 total by simp
    next
      case (Cons c cs')
      with all2 obtain s ss where ss: "vod_segments plan = s # ss" "segment_of c s" by (cases "vod_segments plan") auto
      have "0 \<le> sum_list (map vp_durationSeconds ss)" using seg ss(1) by (intro sum_list_nonneg) (auto intro: less_imp_le)
      moreover have "startOffsetSeconds plan \<le> vp_durationSeconds s"
        using so Cons ss(2) seg [of s] ss(1) by (auto simp: segment_of_def)
      ultimately show ?thesis using so Cons total ss(1) by simp
    qed
    then show ?thesis using srt seg off total by (simp add: a answerOf_def)
  qed
qed

text \<open>C18 (the browser plays what the API planned). The answer, read by the browser under the same
  collation, is accepted and gives the segments of the plan, in their order, with their durations
  and offsets, its total length and its start offset; every segment carries the token issued for
  this user and that recording.\<close>

theorem vod_browser_agrees:
  assumes "buildVodPlaylist env jwt ck db user rawCameraId fromDate toDate = Inr a" "va_segments a \<noteq> []"
    and "\<forall>r\<in>set (ve_recordings env). plain_id (rec_id r)"
    and "\<forall>i. ascii (fst (createPlaybackToken jwt (u_id user) i)) \<and> fst (createPlaybackToken jwt (u_id user) i) \<noteq> []"
  shows "\<exists>pl. normalizeVodPlaylist pe ck (Some (wire a)) fetched = Some pl \<and>
    pl_segments pl = map read_segment (va_segments a) \<and>
    (\<forall>s\<in>set (pl_segments pl). ps_token s = Some (fst (createPlaybackToken jwt (u_id user) (ps_recordingId s)))) \<and>
    pl_totalDurationSeconds pl = vod_totalSeconds (va_plan a) \<and> pl_startOffsetSeconds pl = startOffsetSeconds (va_plan a)"
proof -
  let ?ss = "vod_segments (va_plan a)" and ?u = "buildSegmentUrl jwt (u_id user)"
  note plan = answer_plan [OF assms(1,3)]
  then have segs: "va_segments a = map (\<lambda>s. (s, ?u s)) ?ss" by blast
  have seg: "plain_id (vp_recordingId s)" "0 < vp_durationSeconds s" "vp_endedAt s = vp_startedAt s + vp_durationSeconds s"
    if "s \<in> set ?ss" for s using plan that by blast+
  have parsed: "List.map_filter parseSegment (map (\<lambda>x. Some (raw_of x)) (va_segments a)) = map fresh_segment (va_segments a)"
  proof (rule map_filter_all, rule ballI)
    fix x assume "x \<in> set (va_segments a)"
    then obtain s where s: "s \<in> set ?ss" "x = (s, ?u s)" using segs by auto
    show "parseSegment (Some (raw_of x)) = Some (fresh_segment x)"
      unfolding s(2) by (rule parse_built_segment [OF seg(1) [OF s(1)] _ _ seg(2,3) [OF s(1)]])
        (use assms(4) in \<open>simp_all add: buildSegmentUrl_def\<close>)
  qed
  have keys: "map (segmentKey ck) (map fresh_segment (va_segments a)) = map (\<lambda>s. (vp_startedAt s, ck (vp_recordingId s))) ?ss"
    by (simp add: segs segmentKey_def fresh_segment_def read_segment_def)
  have id: "sort_key (segmentKey ck) (map fresh_segment (va_segments a)) = map fresh_segment (va_segments a)"
    by (rule sort_key_id_if_sorted) (unfold keys, use plan in blast)
  obtain placed fin ex where place: "placeSegments pe 0 None (map fresh_segment (va_segments a)) = (placed, fin, ex)"
    by (metis prod_cases3)
  have "placed = map read_segment (va_segments a) \<and> fin = sum_list (map vp_durationSeconds (map fst (va_segments a)))"
    by (rule placed_as_planned [OF place]) (use plan seg in \<open>auto simp: segs comp_def\<close>)
  then have placed: "placed = map read_segment (va_segments a)" "fin = vod_totalSeconds (va_plan a)"
    using plan by (auto simp: segs comp_def)
  have wire: "rp_segments (wire a) = Some (map (\<lambda>x. Some (raw_of x)) (va_segments a))"
    "rp_startOffsetSeconds (wire a) = Some (startOffsetSeconds (va_plan a))"
    by (simp_all add: wire_def raw_of_def case_prod_beta)
  have tokens: "\<forall>s\<in>set placed. ps_token s = Some (fst (createPlaybackToken jwt (u_id user) (ps_recordingId s)))"
    using segment_url_token seg(1) assms(4) by (auto simp: placed segs read_segment_def buildSegmentUrl_def)
  have "normalizeVodPlaylist pe ck (Some (wire a)) fetched \<noteq> None"
    unfolding normalizeVodPlaylist_def by (simp add: wire parsed id place assms(2))
  then obtain pl where pl: "normalizeVodPlaylist pe ck (Some (wire a)) fetched = Some pl" by blast
  then have "pl_segments pl = placed" "pl_totalDurationSeconds pl = fin"
    "pl_startOffsetSeconds pl = (if startOffsetSeconds (va_plan a) > 0 then min (startOffsetSeconds (va_plan a)) fin else 0)"
    unfolding normalizeVodPlaylist_def by (auto simp: wire parsed id place assms(2))
  then show ?thesis using pl placed tokens plan by (intro exI [of _ pl]) auto
qed

section \<open>An answer\<close>

definition sample_vod_env :: vod_env where
  "sample_vod_env = \<lparr>ve_recordings = [
      \<lparr>rec_id = ''r1'', rec_cameraId = ''c1'', rec_startedAt = 0, rec_endedAt = Some 60000, rec_durationSeconds = Some 60,
        rec_filePath = ''a.mp4'', rec_cloudKey = None, rec_cloudUploadedAt = None, rec_cloudMissingSince = None\<rparr>,
      \<lparr>rec_id = ''r2'', rec_cameraId = ''c1'', rec_startedAt = 90000, rec_endedAt = None, rec_durationSeconds = Some 30,
        rec_filePath = ''b.mp4'', rec_cloudKey = Some ''k'', rec_cloudUploadedAt = Some 1, rec_cloudMissingSince = None\<rparr>],
    ve_file = (\<lambda>p. if p = ''a.mp4'' then FileOf 5000 else NoFile), ve_codec = (\<lambda>_. None),
    ve_maxHours = None, ve_lookbackMinutes = None, ve_maxSegments = None\<rparr>"

definition sample_jwt :: jwt_env where
  "sample_jwt = \<lparr>sign = (\<lambda>_ _. ''t/1''), decodeExp = (\<lambda>_. None), verify = (\<lambda>_. None),
     streamTokenExpiresIn = None\<rparr>"

abbreviation sample_build :: "vod_error + vod_answer" where
  "sample_build \<equiv> buildVodPlaylist sample_vod_env sample_jwt length sample_db Access_Control.root (Some ''c1'') (At 30000) (At 200000)"

lemma vod_service_sample:
  obtains plan where "planVodPlaylist length (vodInput sample_vod_env ''c1'' 30000 200000) = Some plan"
    "map vp_recordingId (vod_segments plan) = [''r1'', ''r2'']" "startOffsetSeconds plan = 30000"
proof -
  have q: "queryRecordings sample_vod_env ''c1'' 30000 200000 = ve_recordings sample_vod_env"
    by (simp add: queryRecordings_def sample_vod_env_def lookbackMinutes_def envNumber_def clamp_min_def clamp_max_def Let_def)
  have inp: "vodInput sample_vod_env ''c1'' 30000 200000 = \<lparr>vi_segments =
      [\<lparr>vs_id = ''r1'', vs_startedAt = At 0, vs_endedAt = At 60000, vs_durationSeconds = Some 60, vs_codec = None\<rparr>,
       \<lparr>vs_id = ''r2'', vs_startedAt = At 90000, vs_endedAt = Absent, vs_durationSeconds = Some 30, vs_codec = None\<rparr>],
     vi_from = At 30000, vi_to = At 200000, vi_gapToleranceSeconds = None, vi_maxSegments = Some 720\<rparr>"
    unfolding vodInput_def q
    by (simp add: sample_vod_env_def sourceOf_def playable_def nuvemDisponivel_def or_empty_def limitSegments_def)
  have "case planVodPlaylist (length :: string \<Rightarrow> nat) \<lparr>vi_segments =
      [\<lparr>vs_id = ''r1'', vs_startedAt = At 0, vs_endedAt = At 60000, vs_durationSeconds = Some 60, vs_codec = None\<rparr>,
       \<lparr>vs_id = ''r2'', vs_startedAt = At 90000, vs_endedAt = Absent, vs_durationSeconds = Some 30, vs_codec = None\<rparr>],
     vi_from = At 30000, vi_to = At 200000, vi_gapToleranceSeconds = None, vi_maxSegments = Some 720\<rparr> of
      None \<Rightarrow> False | Some plan \<Rightarrow> map vp_recordingId (vod_segments plan) = [''r1'', ''r2''] \<and> startOffsetSeconds plan = 30000"
    by code_simp
  then show ?thesis using that unfolding inp by (auto split: option.splits)
qed

lemma sample_answer:
  obtains a s url rest where "sample_build = Inr a" "va_segments a = (s, url) # rest" "vp_recordingId s = ''r1''"
    "map (vp_recordingId \<circ> fst) (va_segments a) = [''r1'', ''r2'']" "startOffsetSeconds (va_plan a) = 30000" "va_cameraId a = ''c1''"
proof -
  obtain plan where plan: "planVodPlaylist length (vodInput sample_vod_env ''c1'' 30000 200000) = Some plan"
    "map vp_recordingId (vod_segments plan) = [''r1'', ''r2'']" "startOffsetSeconds plan = 30000" by (rule vod_service_sample)
  let ?a = "answerOf sample_jwt ''root'' ''c1'' plan"
  have "js_trim ''c1'' = ''c1''" "canPlaybackCamera sample_db Access_Control.root ''c1''" by code_simp+
  moreover have "maxHours sample_vod_env = 24"
    by (simp add: maxHours_def envNumber_def sample_vod_env_def clamp_min_def clamp_max_def Let_def)
  ultimately have build: "sample_build = Inr ?a"
    by (simp add: buildVodPlaylist_def or_empty_def assertCanPlaybackCamera_def plan(1) Access_Control.root_def)
  have fields: "map (vp_recordingId \<circ> fst) (va_segments ?a) = [''r1'', ''r2'']" "startOffsetSeconds (va_plan ?a) = 30000"
    "va_cameraId ?a = ''c1''" using plan(2,3) by (simp_all add: answerOf_def comp_def)
  from fields(1) obtain s url rest where "va_segments ?a = (s, url) # rest" "vp_recordingId s = ''r1''"
    by (cases "va_segments ?a") (auto simp: comp_def)
  from that [OF build this fields] show ?thesis .
qed


theorem vod_browser_agrees_witness:
  "\<exists>a pl. sample_build = Inr a \<and> normalizeVodPlaylist (\<lambda>_. None) length (Some (wire a)) 7 = Some pl \<and>
     map ps_recordingId (pl_segments pl) = [''r1'', ''r2''] \<and> pl_startOffsetSeconds pl = 30000"
proof -
  obtain a s url rest where a: "sample_build = Inr a" "va_segments a = (s, url) # rest"
    and facts: "map (vp_recordingId \<circ> fst) (va_segments a) = [''r1'', ''r2'']" "startOffsetSeconds (va_plan a) = 30000"
    by (rule sample_answer)
  have ids: "\<forall>r\<in>set (ve_recordings sample_vod_env). plain_id (rec_id r)"
  proof -
    have "plain_id ''r1''" "plain_id ''r2''" by code_simp+
    then show ?thesis by (simp add: sample_vod_env_def)
  qed
  have tok: "\<forall>i. ascii (fst (createPlaybackToken sample_jwt u i)) \<and> fst (createPlaybackToken sample_jwt u i) \<noteq> []" for u
    by (simp add: createPlaybackToken_def issued_def sample_jwt_def ascii_def Let_def)
  have ne: "va_segments a \<noteq> []" using a(2) by simp
  obtain pl where pl: "normalizeVodPlaylist (\<lambda>_. None) length (Some (wire a)) 7 = Some pl" "pl_segments pl = map read_segment (va_segments a)"
    "pl_startOffsetSeconds pl = startOffsetSeconds (va_plan a)"
    using vod_browser_agrees [OF a(1) ne ids tok] by blast
  moreover have "map ps_recordingId (map read_segment (va_segments a)) = [''r1'', ''r2'']"
    using facts(1) by (simp add: comp_def read_segment_def case_prod_beta)
  ultimately show ?thesis using a(1) facts(2) by auto
qed

end
