(* ===== verification/Playback_Sync.thy ===== *)
theory Playback_Sync
  imports Vod_Player Complex_Main
begin

text \<open>
  \<open>apps/web/src/lib/playback-sync.ts\<close> and the loop of \<open>components/SyncedCameraPlayer.tsx\<close>:
  players of several cameras kept at the instant of one master. Seconds and rates are real
  numbers; instants and the seconds of \<open>Vod_Player\<close> are whole milliseconds. The tick of the loop
  works on a record of what it reads and writes of the video element; a rejected \<open>play()\<close> is
  ignored by the code and not modelled. The reasons of an action are left out.
\<close>

section \<open>Decisions\<close>

definition SYNC_DEAD_BAND_SECONDS :: real where "SYNC_DEAD_BAND_SECONDS = 15 / 100"
definition SYNC_TARGET_SECONDS :: real where "SYNC_TARGET_SECONDS = 1 / 2"
definition SYNC_HARD_SEEK_SECONDS :: real where "SYNC_HARD_SEEK_SECONDS = 2"
definition SYNC_MAX_RATE_FACTOR :: real where "SYNC_MAX_RATE_FACTOR = 3 / 2"
definition SYNC_MIN_RATE_FACTOR :: real where "SYNC_MIN_RATE_FACTOR = 1 / 2"
definition SYNC_SEEK_COOLDOWN_MS :: int where "SYNC_SEEK_COOLDOWN_MS = 1200"
definition SYNC_MIN_READY_STATE :: nat where "SYNC_MIN_READY_STATE = 1"

record follower =
  fo_absoluteMs :: "real option"
  fo_readyState :: nat
  fo_placement :: placement
  fo_offsetInSegmentSeconds :: "real option"
  fo_segmentLoaded :: bool
  fo_lastSeekAtMs :: "int option"

record sync_input =
  sy_masterAbsoluteMs :: "real option"
  sy_masterPaused :: bool
  sy_follower :: follower
  sy_userSpeed :: real
  sy_nowMs :: int

datatype sync_action = NoAction | Rate real real | Seek real real | ReselectSegment | PauseFollower

definition clamp :: "real \<Rightarrow> real \<Rightarrow> real \<Rightarrow> real" where
  "clamp x lo hi = min hi (max lo x)"

definition intensidade :: "real \<Rightarrow> real" where
  "intensidade magnitude = 2 / 10 * exp (9 / 10 *
     (max 0 (magnitude - SYNC_DEAD_BAND_SECONDS) - (SYNC_TARGET_SECONDS - SYNC_DEAD_BAND_SECONDS)))"

definition fator :: "real \<Rightarrow> real" where
  "fator drift = clamp (if drift > 0 then 1 + intensidade \<bar>drift\<bar> else 1 - intensidade \<bar>drift\<bar>)
     SYNC_MIN_RATE_FACTOR SYNC_MAX_RATE_FACTOR"

definition decideSyncAction :: "sync_input \<Rightarrow> sync_action" where
  "decideSyncAction inp =
     (let f = sy_follower inp
      in case sy_masterAbsoluteMs inp of None \<Rightarrow> NoAction
      | Some master \<Rightarrow>
         if sy_masterPaused inp then NoAction
         else if fo_placement f \<noteq> Inside then PauseFollower
         else if \<not> fo_segmentLoaded f then ReselectSegment
         else (case fo_absoluteMs f of None \<Rightarrow> NoAction
         | Some own \<Rightarrow>
            if fo_readyState f < SYNC_MIN_READY_STATE then NoAction
            else let drift = (master - own) / 1000
                 in if \<bar>drift\<bar> \<le> SYNC_DEAD_BAND_SECONDS then Rate (sy_userSpeed inp) drift
                    else if \<bar>drift\<bar> > SYNC_HARD_SEEK_SECONDS then
                      (if (case fo_lastSeekAtMs f of None \<Rightarrow> False | Some l \<Rightarrow> sy_nowMs inp - l < SYNC_SEEK_COOLDOWN_MS)
                       then NoAction
                       else (case fo_offsetInSegmentSeconds f of None \<Rightarrow> ReselectSegment
                             | Some offset \<Rightarrow> Seek (max 0 offset) drift))
                    else Rate (sy_userSpeed inp * fator drift) drift))"

definition shouldApplyRate :: "real \<Rightarrow> real \<Rightarrow> bool" where
  "shouldApplyRate current next' \<longleftrightarrow> \<bar>current - next'\<bar> > 2 / 100"

section \<open>Where the follower should be\<close>

datatype follower_target = Ready string nat int int | Gap | Outside placement | Unavailable

definition resolveFollowerTarget :: "playlist option \<Rightarrow> vod_position option \<Rightarrow> follower_target" where
  "resolveFollowerTarget playlist position =
     (case playlist of None \<Rightarrow> Unavailable
      | Some pl \<Rightarrow>
         if pl_segments pl = [] then Unavailable
         else (case position of None \<Rightarrow> Unavailable
         | Some p \<Rightarrow>
            (case vpos_placement p of
               InGap \<Rightarrow> Gap
             | Before \<Rightarrow> Outside Before
             | After \<Rightarrow> Outside After
             | Inside \<Rightarrow>
                 if vpos_segmentIndex p < length (pl_segments pl)
                 then Ready (ps_recordingId (pl_segments pl ! vpos_segmentIndex p)) (vpos_segmentIndex p)
                        (max 0 (vpos_offsetInSegmentSeconds p)) (vpos_seconds p)
                 else Unavailable)))"

definition needsSourceChange :: "string option \<Rightarrow> follower_target \<Rightarrow> bool" where
  "needsSourceChange loadedRecordingId target =
     (case target of Ready recordingId _ _ _ \<Rightarrow> loadedRecordingId \<noteq> Some recordingId | _ \<Rightarrow> False)"

datatype status_label = NoRecordingNow | BeforeFirst | AfterLast | NoPlaylist

fun followerStatusLabel :: "follower_target \<Rightarrow> status_label option" where
  "followerStatusLabel (Ready _ _ _ _) = None"
| "followerStatusLabel Gap = Some NoRecordingNow"
| "followerStatusLabel (Outside p) = Some (if p = Before then BeforeFirst else AfterLast)"
| "followerStatusLabel Unavailable = Some NoPlaylist"

section \<open>The loop\<close>

record video =
  vi_src :: string
  vi_currentTime :: real
  vi_playbackRate :: real
  vi_paused :: bool
  vi_readyState :: nat

record synced =
  sc_video :: video
  sc_loadedRecordingId :: "string option"
  sc_lastSeekAtMs :: "int option"
  sc_statusLabel :: "status_label option"

record tick_env =
  tk_playlist :: "playlist option"
  tk_tokens :: "(string \<times> string) list"
  tk_targetAbsoluteMs :: "int option"
  tk_masterPaused :: bool
  tk_userSpeed :: real
  tk_nowMs :: int
  tk_apiUrl :: string
  tk_forceDirect :: bool

definition segmentUrl :: "tick_env \<Rightarrow> string \<Rightarrow> string" where
  "segmentUrl env playUrl =
     (let path = refreshSegmentUrl playUrl (tk_tokens env)
      in tk_apiUrl env @ path @ (if tk_forceDirect env then (if CHR ''?'' \<in> set path then ''&'' else ''?'') @ ''forceDirect=1'' else []))"

definition targetOf :: "tick_env \<Rightarrow> follower_target" where
  "targetOf env = resolveFollowerTarget (tk_playlist env)
     (case tk_targetAbsoluteMs env of None \<Rightarrow> None | Some ms \<Rightarrow> absoluteToVodPosition (tk_playlist env) (At ms))"

definition changeSource :: "tick_env \<Rightarrow> string \<Rightarrow> nat \<Rightarrow> int \<Rightarrow> synced \<Rightarrow> synced" where
  "changeSource env recordingId i offset st =
     (case tk_playlist env of None \<Rightarrow> st
      | Some pl \<Rightarrow>
         if \<not> i < length (pl_segments pl) then st
         else st\<lparr>sc_loadedRecordingId := Some recordingId, sc_lastSeekAtMs := Some (tk_nowMs env),
           sc_video := (sc_video st)\<lparr>vi_src := segmentUrl env (ps_playUrl (pl_segments pl ! i)),
             vi_currentTime := of_int offset / 1000, vi_paused := (if tk_masterPaused env then vi_paused (sc_video st) else False)\<rparr>\<rparr>)"

definition actionOf :: "tick_env \<Rightarrow> int \<Rightarrow> synced \<Rightarrow> sync_action" where
  "actionOf env offset st =
     decideSyncAction \<lparr>sy_masterAbsoluteMs = map_option of_int (tk_targetAbsoluteMs env), sy_masterPaused = tk_masterPaused env,
       sy_follower = \<lparr>fo_absoluteMs = map_option (\<lambda>t. of_int t - (of_int offset / 1000 - vi_currentTime (sc_video st)) * 1000) (tk_targetAbsoluteMs env),
         fo_readyState = vi_readyState (sc_video st), fo_placement = Inside, fo_offsetInSegmentSeconds = Some (of_int offset / 1000),
         fo_segmentLoaded = True, fo_lastSeekAtMs = sc_lastSeekAtMs st\<rparr>,
       sy_userSpeed = tk_userSpeed env, sy_nowMs = tk_nowMs env\<rparr>"

fun applyAction :: "tick_env \<Rightarrow> sync_action \<Rightarrow> synced \<Rightarrow> synced" where
  "applyAction env (Rate r d) st = (if shouldApplyRate (vi_playbackRate (sc_video st)) r
     then st\<lparr>sc_video := (sc_video st)\<lparr>vi_playbackRate := r\<rparr>\<rparr> else st)"
| "applyAction env (Seek t d) st = st\<lparr>sc_video := (sc_video st)\<lparr>vi_currentTime := t\<rparr>, sc_lastSeekAtMs := Some (tk_nowMs env)\<rparr>"
| "applyAction env PauseFollower st = st\<lparr>sc_video := (sc_video st)\<lparr>vi_paused := True\<rparr>\<rparr>"
| "applyAction env ReselectSegment st = st\<lparr>sc_loadedRecordingId := None\<rparr>"
| "applyAction env NoAction st = st"

definition followTransport :: "tick_env \<Rightarrow> synced \<Rightarrow> synced" where
  "followTransport env st =
     (if tk_masterPaused env then st\<lparr>sc_video := (sc_video st)\<lparr>vi_paused := True\<rparr>\<rparr>
      else if vi_paused (sc_video st) \<and> vi_readyState (sc_video st) \<ge> 2
      then st\<lparr>sc_video := (sc_video st)\<lparr>vi_paused := False\<rparr>\<rparr> else st)"

definition syncTick :: "tick_env \<Rightarrow> synced \<Rightarrow> synced" where
  "syncTick env st =
     (let target = targetOf env
      in case target of
           Ready recordingId i offset position \<Rightarrow>
             (let st' = st\<lparr>sc_statusLabel := None\<rparr>
              in if needsSourceChange (sc_loadedRecordingId st') target then changeSource env recordingId i offset st'
                 else followTransport env (applyAction env (actionOf env offset st') st'))
         | _ \<Rightarrow> st\<lparr>sc_statusLabel := followerStatusLabel target, sc_video := (sc_video st)\<lparr>vi_paused := True\<rparr>\<rparr>)"

end
