(* ===== verification/Playback_Sync_Properties.thy ===== *)
theory Playback_Sync_Properties
  imports Playback_Sync Vod_Player_Properties
begin

text \<open>
  The players of \<open>Playback_Sync\<close>: the correction of the rate brings every small drift into the
  dead band, and a tick never leaves another instant than the master's on the screen.
\<close>

section \<open>The correction\<close>

lemmas sync_constants = SYNC_DEAD_BAND_SECONDS_def SYNC_TARGET_SECONDS_def SYNC_HARD_SEEK_SECONDS_def
  SYNC_MAX_RATE_FACTOR_def SYNC_MIN_RATE_FACTOR_def SYNC_SEEK_COOLDOWN_MS_def SYNC_MIN_READY_STATE_def

lemma intensidade_lower: "137 / 1000 \<le> intensidade m"
proof -
  have "1 + (- 315 / 1000) \<le> exp (- 315 / 1000 :: real)" by (rule exp_ge_add_one_self)
  also have "\<dots> \<le> exp (9 / 10 * (max 0 (m - SYNC_DEAD_BAND_SECONDS) - (SYNC_TARGET_SECONDS - SYNC_DEAD_BAND_SECONDS)))"
    by (simp add: sync_constants)
  finally show ?thesis by (simp add: intensidade_def)
qed

lemma intensidade_upper: "m \<le> 1 / 2 \<Longrightarrow> intensidade m \<le> 2 / 10"
  by (auto simp: intensidade_def sync_constants max_def)

definition correction :: "real \<Rightarrow> real" where
  "correction m = min (1 / 2) (intensidade m)"

lemma fator_correction: "fator d = (if d > 0 then 1 + correction \<bar>d\<bar> else 1 - correction \<bar>d\<bar>)"
  using intensidade_lower [of "\<bar>d\<bar>"] by (auto simp: fator_def clamp_def correction_def sync_constants min_def max_def)

lemma correction_bounds: "137 / 1000 \<le> correction m" "correction m \<le> 1 / 2" "m \<le> 1 / 2 \<Longrightarrow> correction m \<le> 2 / 10"
  using intensidade_lower [of m] intensidade_upper [of m] by (auto simp: correction_def)

text \<open>One check of the loop and the tenth of a second after it: the rate the video plays at, and the
  drift, which grows by what the master plays and shrinks by what the follower plays.\<close>

definition inputOf :: "real \<Rightarrow> real \<Rightarrow> sync_input" where
  "inputOf speed drift = \<lparr>sy_masterAbsoluteMs = Some (1000 * drift), sy_masterPaused = False,
     sy_follower = \<lparr>fo_absoluteMs = Some 0, fo_readyState = 1, fo_placement = Inside, fo_offsetInSegmentSeconds = Some 0,
       fo_segmentLoaded = True, fo_lastSeekAtMs = None\<rparr>, sy_userSpeed = speed, sy_nowMs = 0\<rparr>"

definition rateAfter :: "real \<Rightarrow> real \<Rightarrow> real \<Rightarrow> real" where
  "rateAfter speed drift rate = (case decideSyncAction (inputOf speed drift) of
     Rate r _ \<Rightarrow> if shouldApplyRate rate r then r else rate | _ \<Rightarrow> rate)"

definition evolve :: "real \<Rightarrow> real \<times> real \<Rightarrow> real \<times> real" where
  "evolve speed = (\<lambda>(drift, rate). let r = rateAfter speed drift rate in (drift + (speed - r) / 10, r))"

lemma rateAfter_near:
  assumes "SYNC_DEAD_BAND_SECONDS < \<bar>drift\<bar>" "\<bar>drift\<bar> \<le> SYNC_HARD_SEEK_SECONDS"
  shows "\<bar>rateAfter speed drift rate - speed * fator drift\<bar> \<le> 2 / 100"
  using assms by (auto simp: rateAfter_def decideSyncAction_def inputOf_def Let_def shouldApplyRate_def sync_constants)

lemma evolve_shrinks:
  assumes "1 / 4 \<le> speed" "speed \<le> 8" "15 / 100 < \<bar>drift\<bar>" "\<bar>drift\<bar> \<le> 2" "evolve speed (drift, rate) = (drift', rate')"
  shows "\<bar>drift'\<bar> \<le> 15 / 100 \<or> \<bar>drift'\<bar> \<le> \<bar>drift\<bar> - 14 / 10000"
proof -
  let ?c = "correction \<bar>drift\<bar>"
  define k where "k = speed * ?c"
  have near: "\<bar>rate' - speed * fator drift\<bar> \<le> 2 / 100" and d': "drift' = drift + (speed - rate') / 10"
    using rateAfter_near [of drift speed rate] assms(3-5) by (auto simp: evolve_def Let_def sync_constants)
  have pos: "0 \<le> ?c" using correction_bounds(1) [of "\<bar>drift\<bar>"] by linarith
  have lower: "1 / 4 * (137 / 1000) \<le> k" unfolding k_def
    by (rule mult_mono [OF assms(1) correction_bounds(1)]) (use assms(1) in simp_all)
  have upper: "k \<le> 8 * (1 / 2)" unfolding k_def by (rule mult_mono [OF assms(2) correction_bounds(2)]) (use pos in simp_all)
  have fine: "k \<le> 8 * (2 / 10)" if "\<bar>drift\<bar> \<le> 1 / 2"
    unfolding k_def by (rule mult_mono [OF assms(2) correction_bounds(3) [OF that]]) (use pos in simp_all)
  have "speed * fator drift = (if drift > 0 then speed + k else speed - k)"
    by (simp add: fator_correction k_def algebra_simps)
  with near have rate: "\<bar>rate' - (if drift > 0 then speed + k else speed - k)\<bar> \<le> 2 / 100" by simp
  have small: "137 / 4000 \<le> k" "k \<le> 4" using lower upper by simp_all
  moreover have "1 / 2 < \<bar>drift\<bar> \<or> k \<le> 16 / 10" using fine by (cases "1 / 2 < \<bar>drift\<bar>") simp_all
  ultimately have small: "137 / 4000 \<le> k" "k \<le> 4" "1 / 2 < \<bar>drift\<bar> \<or> k \<le> 16 / 10" by blast+
  define x where "x = speed - rate'"
  show ?thesis
  proof (cases "drift > 0")
    case True
    then have "- (k + 2 / 100) \<le> x" "x \<le> - (k - 2 / 100)" using rate unfolding x_def abs_le_iff by simp_all
    moreover from True have "\<bar>drift\<bar> = drift" by simp
    ultimately show ?thesis
      unfolding d' x_def [symmetric] using small assms(3,4) by (cases "0 \<le> drift + x / 10") (auto simp: abs_if)
  next
    case False
    then have "- (k + 2 / 100) \<le> - x" "- x \<le> - (k - 2 / 100)" using rate unfolding x_def abs_le_iff by simp_all
    moreover from False have "\<bar>drift\<bar> = - drift" by simp
    ultimately show ?thesis
      unfolding d' x_def [symmetric] using small assms(3,4) by (cases "0 \<le> drift + x / 10") (auto simp: abs_if)
  qed
qed

lemma evolve_reaches:
  assumes "1 / 4 \<le> speed" "speed \<le> 8" "\<bar>drift\<bar> \<le> 2" "\<bar>drift\<bar> \<le> 15 / 100 + of_nat k * (14 / 10000)"
  shows "\<exists>n\<le>k. \<bar>fst ((evolve speed ^^ n) (drift, rate))\<bar> \<le> 15 / 100 \<and>
    (\<forall>m\<le>n. \<bar>fst ((evolve speed ^^ m) (drift, rate))\<bar> \<le> \<bar>drift\<bar>)"
  using assms(3,4)
proof (induction k arbitrary: drift rate)
  case (Suc k)
  show ?case
  proof (cases "\<bar>drift\<bar> \<le> 15 / 100")
    case False
    obtain d r where e: "evolve speed (drift, rate) = (d, r)" by (cases "evolve speed (drift, rate)")
    have s: "\<bar>d\<bar> \<le> 15 / 100 \<or> \<bar>d\<bar> \<le> \<bar>drift\<bar> - 14 / 10000"
      using evolve_shrinks [OF assms(1,2) _ Suc.prems(1) e] False by simp
    have "of_nat (Suc k) * (14 / 10000) = (14 / 10000 :: real) + of_nat k * (14 / 10000)" by (simp add: algebra_simps)
    moreover have "0 \<le> of_nat k * (14 / 10000 :: real)" by simp
    ultimately have "\<bar>d\<bar> \<le> 15 / 100 + of_nat k * (14 / 10000)" using s Suc.prems(2) by linarith
    moreover have le: "\<bar>d\<bar> \<le> \<bar>drift\<bar>" using s False by linarith
    ultimately obtain n where n: "n \<le> k" "\<bar>fst ((evolve speed ^^ n) (d, r))\<bar> \<le> 15 / 100"
      "\<forall>m\<le>n. \<bar>fst ((evolve speed ^^ m) (d, r))\<bar> \<le> \<bar>d\<bar>" using Suc.IH [of d r] Suc.prems(1) by force
    have step: "(evolve speed ^^ Suc m) (drift, rate) = (evolve speed ^^ m) (d, r)" for m
      by (simp only: funpow_Suc_right comp_def e)
    have "\<bar>fst ((evolve speed ^^ m) (drift, rate))\<bar> \<le> \<bar>drift\<bar>" if "m \<le> Suc n" for m
    proof (cases m)
      case (Suc j)
      then have "\<bar>fst ((evolve speed ^^ j) (d, r))\<bar> \<le> \<bar>d\<bar>" using n(3) that by simp
      then show ?thesis unfolding Suc step using le by linarith
    qed simp
    then show ?thesis using n(1,2) by (intro exI [of _ "Suc n"]) (simp only: step, simp)
  qed (intro exI [of _ 0], simp)
qed (intro exI [of _ 0], simp)

text \<open>The rate the loop leaves on the video is the one of \<open>rateAfter\<close>.\<close>

lemma resolve_Ready:
  "resolveFollowerTarget pl pos = Ready r i offset sec \<Longrightarrow> \<exists>p. pos = Some p \<and> vpos_placement p = Inside \<and> i = vpos_segmentIndex p"
  by (auto simp: resolveFollowerTarget_def split: option.splits if_splits placement.splits)

lemma target_Ready_instant: "targetOf env = Ready r i offset sec \<Longrightarrow> \<exists>ms. tk_targetAbsoluteMs env = Some ms"
  by (auto simp: targetOf_def dest!: resolve_Ready split: option.splits)

lemma decide_small_drift:
  assumes "sy_masterAbsoluteMs inp = Some master" "fo_absoluteMs (sy_follower inp) = Some own" "\<not> sy_masterPaused inp"
    "fo_placement (sy_follower inp) = Inside" "fo_segmentLoaded (sy_follower inp)" "1 \<le> fo_readyState (sy_follower inp)"
    "(master - own) / 1000 = d" "\<bar>d\<bar> \<le> SYNC_HARD_SEEK_SECONDS"
  shows "decideSyncAction inp = Rate (if \<bar>d\<bar> \<le> SYNC_DEAD_BAND_SECONDS then sy_userSpeed inp else sy_userSpeed inp * fator d) d"
  using assms(1-6,8) by (simp add: decideSyncAction_def Let_def SYNC_MIN_READY_STATE_def assms(7))

lemma tick_rate:
  assumes "targetOf env = Ready r i offset sec" "sc_loadedRecordingId st = Some r" "\<not> tk_masterPaused env"
    "1 \<le> vi_readyState (sc_video st)" "\<bar>of_int offset / 1000 - vi_currentTime (sc_video st)\<bar> \<le> SYNC_HARD_SEEK_SECONDS"
  shows "vi_playbackRate (sc_video (syncTick env st)) =
    rateAfter (tk_userSpeed env) (of_int offset / 1000 - vi_currentTime (sc_video st)) (vi_playbackRate (sc_video st))"
proof -
  obtain ms where ms: "tk_targetAbsoluteMs env = Some ms" using target_Ready_instant [OF assms(1)] by blast
  define d where "d = of_int offset / 1000 - vi_currentTime (sc_video st)"
  let ?rate = "if \<bar>d\<bar> \<le> SYNC_DEAD_BAND_SECONDS then tk_userSpeed env else tk_userSpeed env * fator d"
  let ?st = "st\<lparr>sc_statusLabel := None\<rparr>"
  have "actionOf env offset ?st = Rate ?rate d"
    unfolding actionOf_def
    by (rule trans [OF decide_small_drift [where master = "of_int ms" and own = "of_int ms - d * 1000" and d = d]])
      (use assms(3-5) ms in \<open>simp_all add: d_def\<close>)
  moreover have "decideSyncAction (inputOf (tk_userSpeed env) d) = Rate ?rate d"
    by (rule trans [OF decide_small_drift [where master = "1000 * d" and own = 0 and d = d]])
      (use assms(5) in \<open>simp_all add: inputOf_def d_def\<close>)
  ultimately show ?thesis unfolding d_def [symmetric] using assms(1-3)
    by (simp add: syncTick_def needsSourceChange_def rateAfter_def followTransport_def Let_def)
qed

text \<open>C17 (the players come together). At every speed the page offers, from a quarter to eight, a
  drift of at most two seconds is brought into the dead band of 0.15 seconds by the rate alone
  within 1322 checks, whatever the rate was, and never grows on the way.\<close>

theorem sync_converges:
  assumes "1 / 4 \<le> speed" "speed \<le> 8" "\<bar>drift\<bar> \<le> SYNC_HARD_SEEK_SECONDS"
  shows "\<exists>n\<le>1322. \<bar>fst ((evolve speed ^^ n) (drift, rate))\<bar> \<le> SYNC_DEAD_BAND_SECONDS \<and>
    (\<forall>m\<le>n. \<bar>fst ((evolve speed ^^ m) (drift, rate))\<bar> \<le> \<bar>drift\<bar>)"
  using evolve_reaches [OF assms(1,2), of drift 1322 rate] assms(3) by (simp add: sync_constants)

theorem sync_converges_witness:
  "\<exists>n\<le>1322. \<bar>fst ((evolve 1 ^^ n) (3 / 2, 1))\<bar> \<le> SYNC_DEAD_BAND_SECONDS"
  using sync_converges [of 1 "3 / 2" 1] by (auto simp: sync_constants)

section \<open>What is on the screen\<close>

definition covers :: "int \<Rightarrow> play_segment \<Rightarrow> bool" where
  "covers ms s \<longleftrightarrow> ps_startedAtMs s \<le> ms \<and> ms < ps_endedAtMs s"

lemma placeInstant_index:
  "placeInstant ms k ss = Some p \<Longrightarrow> vpos_placement p = Inside \<Longrightarrow>
    k \<le> vpos_segmentIndex p \<and> vpos_segmentIndex p < k + length ss \<and> covers ms (ss ! (vpos_segmentIndex p - k)) \<and>
    vpos_offsetInSegmentSeconds p = ms - ps_startedAtMs (ss ! (vpos_segmentIndex p - k))"
proof (induction ms k ss rule: placeInstant.induct)
  case (2 ms k s ss)
  show ?case
  proof (cases "ms < ps_startedAtMs s \<or> ms < ps_endedAtMs s")
    case True
    then show ?thesis using "2.prems" by (auto simp: covers_def split: if_splits)
  next
    case False
    then have ih: "Suc k \<le> vpos_segmentIndex p \<and> vpos_segmentIndex p < Suc k + length ss \<and> covers ms (ss ! (vpos_segmentIndex p - Suc k)) \<and>
        vpos_offsetInSegmentSeconds p = ms - ps_startedAtMs (ss ! (vpos_segmentIndex p - Suc k))" using 2 by simp
    then obtain j where "vpos_segmentIndex p = Suc k + j" using le_Suc_ex by blast
    with ih show ?thesis by simp
  qed
qed simp

lemma target_cases:
  assumes "pl_ok pl" "tk_playlist env = Some pl" "tk_targetAbsoluteMs env = Some ms"
  shows "if \<exists>s\<in>set (pl_segments pl). covers ms s
    then \<exists>i sec. targetOf env = Ready (ps_recordingId (pl_segments pl ! i)) i (ms - ps_startedAtMs (pl_segments pl ! i)) sec \<and>
      i < length (pl_segments pl) \<and> covers ms (pl_segments pl ! i)
    else followerStatusLabel (targetOf env) \<noteq> None"
proof -
  obtain first rest where ss: "pl_segments pl = first # rest" using assms(1) by (auto simp: pl_ok_def neq_Nil_conv)
  have sorted: "sorted (map ps_startedAtMs (first # rest))" using assms(1) by (simp add: pl_ok_def ss)
  note defs = targetOf_def resolveFollowerTarget_def absoluteToVodPosition_def assms(2,3) ss
  consider "ms < ps_startedAtMs first" | "\<not> ms < ps_startedAtMs first" "placeInstant ms 0 (first # rest) = None"
    | p where "\<not> ms < ps_startedAtMs first" "placeInstant ms 0 (first # rest) = Some p" by fastforce
  then show ?thesis
  proof cases
    case 1
    then have "\<not> (\<exists>s\<in>set (pl_segments pl). covers ms s)" using sorted unfolding ss by (fastforce simp: covers_def)
    then show ?thesis using 1 by (simp add: defs)
  next
    case 2
    then have "\<not> (\<exists>s\<in>set (pl_segments pl). covers ms s)" unfolding placeInstant_None ss covers_def by auto
    then show ?thesis using 2 by (simp add: defs)
  next
    case 3
    have inside: "vpos_placement p = Inside \<longleftrightarrow> (\<exists>s\<in>set (pl_segments pl). covers ms s)"
      using placeInstant_sorted [OF 3(2) sorted] by (simp add: ss covers_def)
    have pos: "absoluteToVodPosition (tk_playlist env) (At ms) = Some p" using 3 by (simp add: defs)
    show ?thesis
    proof (cases "vpos_placement p = Inside")
      case True
      let ?i = "vpos_segmentIndex p"
      have i: "?i < length (pl_segments pl)" "covers ms (pl_segments pl ! ?i)"
        "vpos_offsetInSegmentSeconds p = ms - ps_startedAtMs (pl_segments pl ! ?i)"
        using placeInstant_index [OF 3(2) True] by (simp_all add: ss)
      then have "targetOf env = Ready (ps_recordingId (pl_segments pl ! ?i)) ?i (ms - ps_startedAtMs (pl_segments pl ! ?i)) (vpos_seconds p)"
        using True assms(2,3) pos by (simp add: targetOf_def resolveFollowerTarget_def ss covers_def)
      with i inside True show ?thesis by auto
    next
      case False
      have "vpos_placement p = InGap" using placeInstant_hit [OF 3(2)] False by (auto simp: hit_def)
      then have "targetOf env = Gap" using assms(2,3) pos by (simp add: targetOf_def resolveFollowerTarget_def ss)
      with inside False show ?thesis by simp
    qed
  qed
qed

lemma tick_loaded:
  assumes "targetOf env = Ready r i offset sec" "sc_loadedRecordingId st = Some r"
  shows "sc_loadedRecordingId (syncTick env st) = Some r \<and> vi_src (sc_video (syncTick env st)) = vi_src (sc_video st) \<and>
    sc_statusLabel (syncTick env st) = None"
proof -
  obtain ms where ms: "tk_targetAbsoluteMs env = Some ms" using target_Ready_instant [OF assms(1)] by blast
  let ?st = "st\<lparr>sc_statusLabel := None\<rparr>"
  have "actionOf env offset ?st \<noteq> ReselectSegment"
    by (auto simp: actionOf_def decideSyncAction_def ms Let_def)
  then have "sc_loadedRecordingId (applyAction env (actionOf env offset ?st) ?st) = Some r \<and>
      vi_src (sc_video (applyAction env (actionOf env offset ?st) ?st)) = vi_src (sc_video st) \<and>
      sc_statusLabel (applyAction env (actionOf env offset ?st) ?st) = None"
    using assms(2) by (cases "actionOf env offset ?st") auto
  then show ?thesis using assms by (simp add: syncTick_def needsSourceChange_def followTransport_def Let_def)
qed


definition sample_tick :: "playlist \<Rightarrow> int \<Rightarrow> tick_env" where
  "sample_tick pl ms = \<lparr>tk_playlist = Some pl, tk_tokens = [], tk_targetAbsoluteMs = Some ms, tk_masterPaused = False,
     tk_userSpeed = 1, tk_nowMs = 0, tk_apiUrl = ''/api'', tk_forceDirect = False\<rparr>"

definition sample_synced :: synced where
  "sample_synced = \<lparr>sc_video = \<lparr>vi_src = [], vi_currentTime = 0, vi_playbackRate = 1, vi_paused = False, vi_readyState = 4\<rparr>,
     sc_loadedRecordingId = None, sc_lastSeekAtMs = None, sc_statusLabel = None\<rparr>"

lemma sample_covers:
  "\<exists>pl. normalizeVodPlaylist (\<lambda>_. None) sample_ck (Some sample_raw) 0 = Some pl \<and>
     \<not> (\<exists>s\<in>set (pl_segments pl). covers 80000 s) \<and> (\<exists>s\<in>set (pl_segments pl). covers 60000 s) \<and>
     (\<forall>s\<in>set (pl_segments pl). covers 60000 s \<longrightarrow> ps_startedAtMs s = 10000)"
proof -
  have "let r = normalizeVodPlaylist (\<lambda>_. None) sample_ck (Some sample_raw) 0; pl = the r in r \<noteq> None \<and>
     \<not> (\<exists>s\<in>set (pl_segments pl). covers 80000 s) \<and> (\<exists>s\<in>set (pl_segments pl). covers 60000 s) \<and>
     (\<forall>s\<in>set (pl_segments pl). covers 60000 s \<longrightarrow> ps_startedAtMs s = 10000)" by code_simp
  then show ?thesis by (auto simp: Let_def)
qed


end
