(* ===== verification/Js_Number.thy ===== *)
theory Js_Number
  imports Env_Settings
begin

text \<open>
  \<open>Number(text)\<close>: blanks around the text are dropped, the empty text is zero, and decimal,
  hexadecimal, octal and binary literals are read. The value is exact; \<open>None\<close> is \<open>NaN\<close> or an
  infinity.
\<close>

definition digit_val :: "char \<Rightarrow> nat option" where
  "digit_val c = (let n = of_char c :: nat in
     if 48 \<le> n \<and> n \<le> 57 then Some (n - 48)
     else if 65 \<le> n \<and> n \<le> 90 then Some (n - 55)
     else if 97 \<le> n \<and> n \<le> 122 then Some (n - 87) else None)"

text \<open>The value of a nonempty text of digits below the base.\<close>

definition digits_below :: "nat \<Rightarrow> string \<Rightarrow> bool" where
  "digits_below b s \<longleftrightarrow> s \<noteq> [] \<and> list_all (\<lambda>c. case digit_val c of Some d \<Rightarrow> d < b | None \<Rightarrow> False) s"

definition base_value :: "nat \<Rightarrow> string \<Rightarrow> int" where
  "base_value b s = foldl (\<lambda>v c. v * int b + (case digit_val c of Some d \<Rightarrow> int d | None \<Rightarrow> 0)) 0 s"

definition read_base :: "nat \<Rightarrow> string \<Rightarrow> rat option" where
  "read_base b s = (if digits_below b s then Some (of_int (base_value b s)) else None)"

definition radix :: "string \<Rightarrow> nat option" where
  "radix t = (case t of
     z # x # _ \<Rightarrow> if z \<noteq> CHR ''0'' then None
       else if x \<in> {CHR ''x'', CHR ''X''} then Some 16 else if x \<in> {CHR ''o'', CHR ''O''} then Some 8
       else if x \<in> {CHR ''b'', CHR ''B''} then Some 2 else None
   | _ \<Rightarrow> None)"

definition is_exponent :: "char \<Rightarrow> bool" where
  "is_exponent c \<longleftrightarrow> c = CHR ''e'' \<or> c = CHR ''E''"

definition read_exponent :: "string \<Rightarrow> rat option" where
  "read_exponent s =
     (case s of [] \<Rightarrow> Some 1
      | _ # e \<Rightarrow> let (negative, digits) = split_sign e
                 in if digits = [] \<or> \<not> all_digits digits then None
                    else Some (if negative then 1 / 10 ^ dec_val digits else 10 ^ dec_val digits))"

definition read_decimal :: "string \<Rightarrow> rat option" where
  "read_decimal t =
     (let (negative, body) = split_sign t
      in case (decimal_parts (takeWhile (\<lambda>c. \<not> is_exponent c) body), read_exponent (dropWhile (\<lambda>c. \<not> is_exponent c) body)) of
           (Some p, Some e) \<Rightarrow>
             let v = (if negative then - (decimal_value p * e) else decimal_value p * e)
             in if finite_double v then Some v else None
         | _ \<Rightarrow> None)"

definition js_Number :: "string \<Rightarrow> rat option" where
  "js_Number raw =
     (let t = js_trim raw
      in if t = [] then Some 0
         else case radix t of Some b \<Rightarrow> read_base b (drop 2 t) | None \<Rightarrow> read_decimal t)"

definition is_integer :: "rat \<Rightarrow> bool" where
  "is_integer r \<longleftrightarrow> of_int \<lfloor>r\<rfloor> = r"

text \<open>Plain digits are read as their decimal value.\<close>

lemma radix_digits: "list_all is_digit s \<Longrightarrow> radix s = None"
  by (auto simp: radix_def is_digit_def split: list.split)

lemma js_Number_digits:
  assumes "s \<noteq> []" "list_all is_digit s" "finite_double (of_nat (dec_val s))"
  shows "js_Number s = Some (of_nat (dec_val s))"
proof -
  have blank: "list_all (\<lambda>c. \<not> js_space c) s"
    using assms(2) by (auto simp: list_all_iff js_space_def is_digit_def)
  then have trim: "js_trim s = s" by (rule js_trim_plain)
  have noexp: "\<forall>c\<in>set s. \<not> is_exponent c" using assms(2) by (auto simp: list_all_iff is_digit_def is_exponent_def)
  have sign: "split_sign s = (False, s)"
    using assms(1,2) by (cases s) (auto simp: split_sign_def is_digit_def)
  have parts: "decimal_parts s = Some (s, [])"
    using assms(1,2) by (simp add: decimal_parts_def list_all_iff takeWhile_eq_all_conv[THEN iffD2] dropWhile_eq_Nil_conv[THEN iffD2])
  have cut: "takeWhile (\<lambda>c. \<not> is_exponent c) s = s" "dropWhile (\<lambda>c. \<not> is_exponent c) s = []"
    using noexp by (simp_all add: takeWhile_eq_all_conv)
  have val: "decimal_value (s, []) = of_nat (dec_val s)" by (simp add: decimal_value_def dec_val_def)
  have "read_decimal s = Some (of_nat (dec_val s))"
    unfolding read_decimal_def by (simp add: sign parts cut val assms(3) read_exponent_def)
  then show ?thesis unfolding js_Number_def using assms(1,2) by (simp add: trim radix_digits)
qed

text \<open>Whole numbers of up to three hundred digits are finite.\<close>

lemma finite_double_small: "\<bar>r\<bar> \<le> 10 ^ 300 \<Longrightarrow> finite_double r"
proof -
  assume "\<bar>r\<bar> \<le> 10 ^ 300"
  also have "(10 :: rat) ^ 300 < 2 ^ 1024 - 2 ^ 970" by simp
  finally show ?thesis unfolding finite_double_def .
qed

lemma is_integer_of_nat [simp]: "is_integer (of_nat n)"
  by (simp add: is_integer_def)

end
