(* ===== verification/Camera_Network.thy ===== *)
theory Camera_Network
  imports Js_Number "HOL-Library.Word"
begin

unbundle bit_operations_syntax

text \<open>
  \<open>common/network/safe-url.helper.ts\<close>: which addresses a camera may have, and which addresses
  and hosts count as private. Texts are read as Node's \<open>isIP\<close> reads them (POSIX rules, no octal
  octets); a list of subnets is a \<open>BlockList\<close>, which compares an IPv4 address as its mapped IPv6
  address. An unset variable of the environment is the empty text, as in the code.
\<close>

section \<open>Addresses\<close>

datatype ip = V4 "32 word" | V6 "128 word"

definition read_octet :: "string \<Rightarrow> nat option" where
  "read_octet s = (if s \<noteq> [] \<and> length s \<le> 3 \<and> list_all is_digit s \<and> (hd s = CHR ''0'' \<longrightarrow> length s = 1) \<and> dec_val s \<le> 255
     then Some (dec_val s) else None)"

definition of_octets :: "nat \<Rightarrow> nat \<Rightarrow> nat \<Rightarrow> nat \<Rightarrow> 32 word" where
  "of_octets a b c d = word_of_int (((int a * 256 + int b) * 256 + int c) * 256 + int d)"

definition read_ipv4 :: "string \<Rightarrow> (32 word) option" where
  "read_ipv4 s = (case map read_octet (split_on (CHR ''.'') s) of
     [Some a, Some b, Some c, Some d] \<Rightarrow> Some (of_octets a b c d) | _ \<Rightarrow> None)"

text \<open>The groups of an IPv6 text: one to four hexadecimal digits, or an IPv4 text at the end.\<close>

fun read_groups :: "bool \<Rightarrow> string list \<Rightarrow> int list option" where
  "read_groups v4 [] = Some []"
| "read_groups v4 (g # gs) =
     (if length g \<le> 4 \<and> digits_below 16 g then map_option (\<lambda>ns. base_value 16 g # ns) (read_groups v4 gs)
      else if v4 \<and> gs = [] then map_option (\<lambda>w. [uint w div 65536, uint w mod 65536]) (read_ipv4 g)
      else None)"

fun split_double :: "string \<Rightarrow> (string \<times> string) option" where
  "split_double [] = None"
| "split_double (c # s) = (if c = CHR '':'' \<and> take 1 s = '':'' then Some ([], drop 1 s)
     else map_option (\<lambda>(p, r). (c # p, r)) (split_double s))"

definition groups_of :: "string \<Rightarrow> string list" where
  "groups_of s = (if s = [] then [] else split_on (CHR '':'') s)"

definition of_groups :: "int list \<Rightarrow> 128 word" where
  "of_groups gs = word_of_int (foldl (\<lambda>v g. v * 65536 + g) 0 gs)"

text \<open>A zone follows a percent sign and does not change the address.\<close>

definition zone_ok :: "string \<Rightarrow> bool" where
  "zone_ok z \<longleftrightarrow> z = [] \<or>
     tl z \<noteq> [] \<and> list_all (\<lambda>c. digit_val c \<noteq> None \<or> c \<in> {CHR ''-'', CHR ''.'', CHR '':''}) (tl z)"

definition read_ipv6 :: "string \<Rightarrow> (128 word) option" where
  "read_ipv6 raw =
     (let s = takeWhile (\<lambda>c. c \<noteq> CHR ''%'') raw
      in if \<not> zone_ok (dropWhile (\<lambda>c. c \<noteq> CHR ''%'') raw) then None
         else case split_double s of
           None \<Rightarrow> (case read_groups True (split_on (CHR '':'') s) of
              Some gs \<Rightarrow> if length gs = 8 then Some (of_groups gs) else None | None \<Rightarrow> None)
         | Some (p, r) \<Rightarrow> (case (read_groups False (groups_of p), read_groups True (groups_of r)) of
              (Some gs, Some hs) \<Rightarrow>
                if length gs + length hs \<le> 7
                then Some (of_groups (gs @ replicate (8 - length gs - length hs) 0 @ hs)) else None
            | _ \<Rightarrow> None))"

text \<open>\<open>isIP\<close> and the address it stands for.\<close>

definition read_ip :: "string \<Rightarrow> ip option" where
  "read_ip s = (case read_ipv4 s of Some w \<Rightarrow> Some (V4 w) | None \<Rightarrow> map_option V6 (read_ipv6 s))"

section \<open>Subnets\<close>

type_synonym subnet = "ip \<times> nat"

fun mapped :: "ip \<Rightarrow> 128 word" where
  "mapped (V4 a) = push_bit 32 0xFFFF OR ucast a"
| "mapped (V6 a) = a"

fun host_bits :: "subnet \<Rightarrow> nat" where
  "host_bits (V4 a, p) = 32 - p"
| "host_bits (V6 a, p) = 128 - p"

definition in_net :: "ip \<Rightarrow> subnet \<Rightarrow> bool" where
  "in_net a n \<longleftrightarrow> drop_bit (host_bits n) (mapped a) = drop_bit (host_bits n) (mapped (fst n))"

definition blockListHas :: "subnet list \<Rightarrow> string \<Rightarrow> bool" where
  "blockListHas nets text = (case read_ip text of Some a \<Rightarrow> list_ex (in_net a) nets | None \<Rightarrow> False)"

section \<open>The policy\<close>

datatype network_error =
    InvalidAddress | InvalidPort | InvalidEntry string | InvalidPrefix string
  | Blocked | InvalidCgnat | NotConfigured | OutsideNetworks

record network_env =
  ne_denied :: string
  ne_allowed :: string
  ne_cgnatCidrs :: string
  ne_cgnatIps :: string
  ne_nodeEnv :: string

definition DEVELOPMENT_CAMERA_CIDRS :: string where
  "DEVELOPMENT_CAMERA_CIDRS = ''10.0.0.0/8,172.16.0.0/12,192.168.0.0/16,fc00::/7''"

definition CGNAT_CAMERA_CIDR :: string where
  "CGNAT_CAMERA_CIDR = ''100.64.0.0/10''"

definition ALWAYS_DENIED_CAMERA_CIDRS :: string where
  "ALWAYS_DENIED_CAMERA_CIDRS = js_join '','' [''0.0.0.0/8'', ''127.0.0.0/8'', ''169.254.0.0/16'', ''224.0.0.0/4'',
     ''240.0.0.0/4'', ''::/128'', ''::1/128'', ''fe80::/10'', ''ff00::/8'']"

definition normalizeIp :: "string \<Rightarrow> string" where
  "normalizeIp s = (if take 7 s = ''::ffff:'' then drop 7 s else s)"

text \<open>\<open>entry.lastIndexOf('/')\<close>: the text before the last slash and, when there is one, the text
  after it.\<close>

definition split_slash :: "string \<Rightarrow> string \<times> string option" where
  "split_slash entry =
     (if CHR ''/'' \<in> set entry
      then (rev (drop 1 (dropWhile (\<lambda>c. c \<noteq> CHR ''/'') (rev entry))), Some (rev (takeWhile (\<lambda>c. c \<noteq> CHR ''/'') (rev entry))))
      else (entry, None))"

definition read_prefix :: "nat \<Rightarrow> string option \<Rightarrow> rat option" where
  "read_prefix whole p = (case p of None \<Rightarrow> Some (of_nat whole) | Some t \<Rightarrow> js_Number t)"

fun max_prefix :: "ip \<Rightarrow> nat" where
  "max_prefix (V4 a) = 32"
| "max_prefix (V6 a) = 128"

definition parseEntry :: "string \<Rightarrow> string \<Rightarrow> network_error + subnet" where
  "parseEntry label entry =
     (let (address, p) = split_slash entry
      in case read_ip address of
           None \<Rightarrow> Inl (InvalidEntry label)
         | Some a \<Rightarrow>
             (case read_prefix (max_prefix a) p of
                None \<Rightarrow> Inl (InvalidPrefix label)
              | Some r \<Rightarrow> if is_integer r \<and> 0 \<le> r \<and> r \<le> of_nat (max_prefix a) then Inr (a, nat \<lfloor>r\<rfloor>)
                          else Inl (InvalidPrefix label)))"

text \<open>The loop over the entries of a list: empty ones are skipped, the first bad one throws.\<close>

fun eachEntry :: "(string \<Rightarrow> network_error + subnet) \<Rightarrow> string list \<Rightarrow> network_error + subnet list" where
  "eachEntry f [] = Inr []"
| "eachEntry f (raw # rest) =
     (if js_trim raw = [] then eachEntry f rest
      else case f (js_trim raw) of
             Inl e \<Rightarrow> Inl e
           | Inr n \<Rightarrow> (case eachEntry f rest of Inl e \<Rightarrow> Inl e | Inr ns \<Rightarrow> Inr (n # ns)))"

definition parseCidrList :: "string \<Rightarrow> string \<Rightarrow> network_error + subnet list" where
  "parseCidrList value label = eachEntry (parseEntry label) (split_on (CHR '','') value)"

definition trustedEntry :: "subnet list \<Rightarrow> string \<Rightarrow> network_error + subnet" where
  "trustedEntry cgnat entry =
     (let (address, p) = split_slash entry
      in case (read_ip address, read_prefix 32 p) of
           (Some (V4 a), Some r) \<Rightarrow>
             if is_integer r \<and> 10 \<le> r \<and> r \<le> 32 \<and> blockListHas cgnat address then Inr (V4 a, nat \<lfloor>r\<rfloor>)
             else Inl InvalidCgnat
         | _ \<Rightarrow> Inl InvalidCgnat)"

definition parseTrustedCgnatCidrs :: "string \<Rightarrow> network_error + subnet list" where
  "parseTrustedCgnatCidrs value =
     (case parseCidrList CGNAT_CAMERA_CIDR ''CGNAT'' of Inl e \<Rightarrow> Inl e
      | Inr cgnat \<Rightarrow> eachEntry (trustedEntry cgnat) (split_on (CHR '','') value))"

text \<open>The port is \<open>None\<close> when absent; a port that is not a whole number is refused as one out of
  range.\<close>

definition port_refused :: "rat option \<Rightarrow> bool" where
  "port_refused port = (case port of None \<Rightarrow> False | Some p \<Rightarrow> \<not> is_integer p \<or> p < 1 \<or> p > 65535)"

definition checkAllowed :: "string \<Rightarrow> network_env \<Rightarrow> network_error + string" where
  "checkAllowed addr env =
     (let configured = js_trim (ne_allowed env); production = (js_lower (js_trim (ne_nodeEnv env)) = ''production'')
      in if configured = [] \<and> production then Inl NotConfigured
         else (case parseCidrList (if configured = [] then DEVELOPMENT_CAMERA_CIDRS else configured) ''CAMERA_ALLOWED_CIDRS'' of
             Inl e \<Rightarrow> Inl e
           | Inr allowed \<Rightarrow> if blockListHas allowed addr then Inr addr else Inl OutsideNetworks))"

definition checkCgnat :: "string \<Rightarrow> network_env \<Rightarrow> network_error + string" where
  "checkCgnat addr env =
     (case parseTrustedCgnatCidrs (ne_cgnatCidrs env @ '','' @ ne_cgnatIps env) of
        Inl e \<Rightarrow> Inl e
      | Inr trusted \<Rightarrow> if blockListHas trusted addr then Inr addr else Inl Blocked)"

definition assertCameraTargetAllowed :: "string \<Rightarrow> rat option \<Rightarrow> network_env \<Rightarrow> network_error + string" where
  "assertCameraTargetAllowed ipRaw port env =
     (let addr = normalizeIp (js_trim ipRaw)
      in if read_ip addr = None then Inl InvalidAddress
         else if port_refused port then Inl InvalidPort
         else case parseCidrList (ALWAYS_DENIED_CAMERA_CIDRS @ '','' @ ne_denied env) ''CAMERA_DENIED_CIDRS'' of
           Inl e \<Rightarrow> Inl e
         | Inr denied \<Rightarrow>
             if blockListHas denied addr then Inl Blocked
             else (case parseCidrList CGNAT_CAMERA_CIDR ''CGNAT'' of
                 Inl e \<Rightarrow> Inl e
               | Inr cgnat \<Rightarrow> if blockListHas cgnat addr then checkCgnat addr env else checkAllowed addr env))"

section \<open>Private addresses and hosts\<close>

definition parseIpv4Octets :: "string \<Rightarrow> rat list option" where
  "parseIpv4Octets s =
     (let octets = map js_Number (split_on (CHR ''.'') s)
      in if length octets = 4 \<and> list_all (\<lambda>n. case n of Some r \<Rightarrow> is_integer r \<and> 0 \<le> r \<and> r \<le> 255 | None \<Rightarrow> False) octets
         then Some (map the octets) else None)"

definition isPrivateIpv4 :: "string \<Rightarrow> bool" where
  "isPrivateIpv4 s =
     (case parseIpv4Octets s of
        Some (a # b # _) \<Rightarrow> a = 10 \<or> a = 127 \<or> a = 169 \<and> b = 254 \<or> a = 192 \<and> b = 168 \<or>
          a = 172 \<and> b \<ge> 16 \<and> b \<le> 31 \<or> a = 0 \<or> a \<ge> 224
      | _ \<Rightarrow> False)"

definition isPrivateIpv6 :: "string \<Rightarrow> bool" where
  "isPrivateIpv6 s =
     (let n = js_lower s
      in n = ''::1'' \<or> take 2 n \<in> {''fc'', ''fd''} \<or> take 3 n \<in> {''fe8'', ''fe9'', ''fea'', ''feb''})"

definition isPrivateOrReservedIp :: "string \<Rightarrow> bool" where
  "isPrivateOrReservedIp ipRaw =
     (let s = normalizeIp ipRaw
      in case read_ip s of Some (V4 _) \<Rightarrow> isPrivateIpv4 s | Some (V6 _) \<Rightarrow> isPrivateIpv6 s | None \<Rightarrow> False)"

definition ends_with :: "string \<Rightarrow> string \<Rightarrow> bool" where
  "ends_with s t \<longleftrightarrow> length t \<le> length s \<and> drop (length s - length t) s = t"

definition isAllowedHost :: "string \<Rightarrow> string list \<Rightarrow> bool" where
  "isAllowedHost hostname allowlist =
     (if allowlist = [] then True
      else let host = js_lower hostname
           in list_ex (\<lambda>entry. let rule = js_lower (js_trim entry)
                in if rule = [] then False
                   else if take 1 rule = ''.'' then ends_with host rule
                   else host = rule \<or> ends_with host (CHR ''.'' # rule)) allowlist)"

end
