(* ===== verification/Camera_Network_Properties.thy ===== *)
theory Camera_Network_Properties
  imports Camera_Network
begin

text \<open>
  The policy of \<open>Camera_Network\<close>: what an accepted camera address satisfies, that the trusted
  carrier-grade networks stay inside theirs, what a slash without a prefix does, and the networks
  the private IPv4 addresses make up.
\<close>

section \<open>Subnets as sets of addresses\<close>

lemma in_net_trans:
  assumes "host_bits m \<le> host_bits n" "in_net (fst m) n" "in_net a m"
  shows "in_net a n"
proof -
  have shift: "drop_bit (host_bits n) x = drop_bit (host_bits n - host_bits m) (drop_bit (host_bits m) x)" for x :: "128 word"
    using assms(1) by simp
  have "drop_bit (host_bits n) (mapped a) = drop_bit (host_bits n) (mapped (fst m))"
    unfolding shift using assms(3) by (simp add: in_net_def)
  with assms(2) show ?thesis by (simp add: in_net_def)
qed

lemma bit_mapped_V4: "bit (mapped (V4 a)) i \<longleftrightarrow> i < 32 \<and> bit a i \<or> 32 \<le> i \<and> i < 48"
proof -
  have m: "(0xFFFF :: 128 word) = mask 16" by (simp add: mask_eq_exp_minus_1)
  have "bit (push_bit 32 (mask 16 :: 128 word)) i \<longleftrightarrow> 32 \<le> i \<and> i < 128 \<and> i - 32 < 16"
    by (auto simp: bit_push_bit_iff bit_mask_iff simp del: mask_numeral push_bit_numeral)
  moreover have "bit (ucast a :: 128 word) i \<longleftrightarrow> i < 32 \<and> bit a i"
    using bit_imp_le_length [of a i] by (auto simp: bit_ucast_iff)
  ultimately show ?thesis unfolding mapped.simps m bit_or_iff by auto
qed

lemma in_net_V4: "in_net (V4 a) (V4 b, p) \<longleftrightarrow> drop_bit (32 - p) a = drop_bit (32 - p) b"
proof
  assume "in_net (V4 a) (V4 b, p)"
  then have net: "drop_bit (32 - p) (mapped (V4 a)) = drop_bit (32 - p) (mapped (V4 b))" by (simp add: in_net_def)
  have eq: "bit (mapped (V4 a)) (32 - p + i) = bit (mapped (V4 b)) (32 - p + i)" for i
    using arg_cong [OF net, of "\<lambda>w. bit w i"] unfolding bit_drop_bit_eq comp_def .
  have "bit a (32 - p + i) = bit b (32 - p + i)" for i
    using eq [of i] unfolding bit_mapped_V4 by (cases "32 - p + i < 32") (auto dest: bit_imp_le_length)
  then show "drop_bit (32 - p) a = drop_bit (32 - p) b" unfolding bit_eq_iff bit_drop_bit_eq comp_def by blast
next
  assume eq: "drop_bit (32 - p) a = drop_bit (32 - p) b"
  have "bit a (32 - p + i) = bit b (32 - p + i)" for i using arg_cong [OF eq, of "\<lambda>w. bit w i"] by (simp add: bit_drop_bit_eq)
  then show "in_net (V4 a) (V4 b, p)"
    by (auto simp: in_net_def bit_eq_iff bit_drop_bit_eq bit_mapped_V4 simp del: mapped.simps)
qed

lemma in_net_all: "in_net (V4 a) (V4 b, 0)"
  by (simp add: in_net_V4)

lemma uint_drop_bit_div: "uint (drop_bit n (w :: 32 word)) = uint w div 2 ^ n"
  by (metis drop_bit_eq_div of_nat_div of_nat_numeral of_nat_power uint_nat unat_drop_bit_eq)

lemma in_net_div: "in_net (V4 a) (V4 b, p) \<longleftrightarrow> uint a div 2 ^ (32 - p) = uint b div 2 ^ (32 - p)"
  unfolding in_net_V4 word_uint_eq_iff uint_drop_bit_div ..

section \<open>Lists of entries\<close>

lemma eachEntry_append:
  "eachEntry f (xs @ ys) = (case eachEntry f xs of Inl e \<Rightarrow> Inl e
     | Inr ns \<Rightarrow> (case eachEntry f ys of Inl e \<Rightarrow> Inl e | Inr ms \<Rightarrow> Inr (ns @ ms)))"
  by (induction xs) (auto split: sum.splits)

lemma parseCidrList_append:
  "parseCidrList (s @ '','' @ t) label = (case parseCidrList s label of Inl e \<Rightarrow> Inl e
     | Inr ns \<Rightarrow> (case parseCidrList t label of Inl e \<Rightarrow> Inl e | Inr ms \<Rightarrow> Inr (ns @ ms)))"
  unfolding parseCidrList_def using split_on_append [of "CHR '',''" s t] by (simp add: eachEntry_append)

lemma eachEntry_in:
  "eachEntry f xs = Inr ns \<Longrightarrow> n \<in> set ns \<Longrightarrow> \<exists>x\<in>set xs. f (js_trim x) = Inr n"
  by (induction xs arbitrary: ns) (auto split: if_splits sum.splits)

definition denied_nets :: "subnet list" where
  "denied_nets = [(V4 0, 8), (V4 0x7F000000, 8), (V4 0xA9FE0000, 16), (V4 0xE0000000, 4), (V4 0xF0000000, 4),
     (V6 0, 128), (V6 1, 128), (V6 0xFE800000000000000000000000000000, 10), (V6 0xFF000000000000000000000000000000, 8)]"

definition cgnat_net :: subnet where
  "cgnat_net = (V4 0x64400000, 10)"

definition development_nets :: "subnet list" where
  "development_nets = [(V4 0x0A000000, 8), (V4 0xAC100000, 12), (V4 0xC0A80000, 16), (V6 0xFC000000000000000000000000000000, 7)]"

lemma number_literals:
  "js_Number ''8'' = Some 8" "js_Number ''16'' = Some 16" "js_Number ''4'' = Some 4" "js_Number ''128'' = Some 128"
  "js_Number ''10'' = Some 10" "js_Number ''7'' = Some 7" "js_Number ''12'' = Some 12"
  by (subst js_Number_digits, simp, simp add: is_digit_def, rule finite_double_small, simp_all add: dec_val_def char_val_def)+

lemma address_literals:
  "read_ip ''0.0.0.0'' = Some (V4 0)" "read_ip ''127.0.0.0'' = Some (V4 0x7F000000)"
  "read_ip ''169.254.0.0'' = Some (V4 0xA9FE0000)" "read_ip ''224.0.0.0'' = Some (V4 0xE0000000)"
  "read_ip ''240.0.0.0'' = Some (V4 0xF0000000)" "read_ip ''::'' = Some (V6 0)" "read_ip ''::1'' = Some (V6 1)"
  "read_ip ''fe80::'' = Some (V6 0xFE800000000000000000000000000000)"
  "read_ip ''ff00::'' = Some (V6 0xFF000000000000000000000000000000)"
  "read_ip ''100.64.0.0'' = Some (V4 0x64400000)" "read_ip ''10.0.0.0'' = Some (V4 0x0A000000)"
  "read_ip ''172.16.0.0'' = Some (V4 0xAC100000)" "read_ip ''192.168.0.0'' = Some (V4 0xC0A80000)"
  "read_ip ''fc00::'' = Some (V6 0xFC000000000000000000000000000000)"
  by code_simp+

lemmas read_entry = parseEntry_def split_slash_def read_prefix_def number_literals address_literals is_integer_def

lemma plain_entries:
  "js_trim ''0.0.0.0/8'' = ''0.0.0.0/8''" "js_trim ''127.0.0.0/8'' = ''127.0.0.0/8''" "js_trim ''169.254.0.0/16'' = ''169.254.0.0/16''"
  "js_trim ''224.0.0.0/4'' = ''224.0.0.0/4''" "js_trim ''240.0.0.0/4'' = ''240.0.0.0/4''" "js_trim ''::/128'' = ''::/128''"
  "js_trim ''::1/128'' = ''::1/128''" "js_trim ''fe80::/10'' = ''fe80::/10''" "js_trim ''ff00::/8'' = ''ff00::/8''"
  "js_trim ''100.64.0.0/10'' = ''100.64.0.0/10''" "js_trim ''10.0.0.0/8'' = ''10.0.0.0/8''"
  "js_trim ''172.16.0.0/12'' = ''172.16.0.0/12''" "js_trim ''192.168.0.0/16'' = ''192.168.0.0/16''"
  "js_trim ''fc00::/7'' = ''fc00::/7''"
  by code_simp+

lemmas read_list = parseCidrList_def read_entry plain_entries

lemma denied_literal: "parseCidrList ALWAYS_DENIED_CAMERA_CIDRS label = Inr denied_nets"
  by (simp add: read_list ALWAYS_DENIED_CAMERA_CIDRS_def denied_nets_def)

lemma cgnat_literal: "parseCidrList CGNAT_CAMERA_CIDR label = Inr [cgnat_net]"
  by (simp add: read_list CGNAT_CAMERA_CIDR_def cgnat_net_def)

lemma development_literal: "parseCidrList DEVELOPMENT_CAMERA_CIDRS label = Inr development_nets"
  by (simp add: read_list DEVELOPMENT_CAMERA_CIDRS_def development_nets_def)

section \<open>The camera's address\<close>

lemma blockListHas_iff: "read_ip s = Some a \<Longrightarrow> blockListHas nets s \<longleftrightarrow> (\<exists>n\<in>set nets. in_net a n)"
  by (simp add: blockListHas_def list_ex_iff)

lemma trusted_in_cgnat:
  assumes "parseTrustedCgnatCidrs value = Inr nets" "n \<in> set nets"
  shows "\<exists>b p. n = (V4 b, p) \<and> 10 \<le> p \<and> p \<le> 32 \<and> in_net (V4 b) cgnat_net"
proof -
  have "eachEntry (trustedEntry [cgnat_net]) (split_on (CHR '','') value) = Inr nets"
    using assms(1) by (simp add: parseTrustedCgnatCidrs_def cgnat_literal)
  from eachEntry_in [OF this assms(2)] obtain x where "trustedEntry [cgnat_net] x = Inr n" by blast
  then obtain address p b r where "split_slash x = (address, p)" "read_ip address = Some (V4 b)" "read_prefix 32 p = Some r"
    "is_integer r" "10 \<le> r" "r \<le> 32" "blockListHas [cgnat_net] address" "n = (V4 b, nat \<lfloor>r\<rfloor>)"
    by (auto simp: trustedEntry_def split: prod.splits option.splits ip.splits if_splits)
  moreover from this have "10 \<le> nat \<lfloor>r\<rfloor>" "nat \<lfloor>r\<rfloor> \<le> 32" by (auto simp: le_nat_iff floor_le_iff) linarith+
  ultimately show ?thesis by (auto simp: blockListHas_iff)
qed

text \<open>What the settings of the environment stand for.\<close>

definition allowed_text :: "network_env \<Rightarrow> string" where
  "allowed_text env = (if js_trim (ne_allowed env) = [] then DEVELOPMENT_CAMERA_CIDRS else js_trim (ne_allowed env))"

definition open_production :: "network_env \<Rightarrow> bool" where
  "open_production env \<longleftrightarrow> js_trim (ne_allowed env) = [] \<and> js_lower (js_trim (ne_nodeEnv env)) = ''production''"

definition address_permitted :: "network_env \<Rightarrow> ip \<Rightarrow> bool" where
  "address_permitted env a \<longleftrightarrow>
     (\<forall>n\<in>set denied_nets. \<not> in_net a n) \<and>
     (\<exists>ds. parseCidrList (ne_denied env) ''CAMERA_DENIED_CIDRS'' = Inr ds \<and> (\<forall>n\<in>set ds. \<not> in_net a n)) \<and>
     (if in_net a cgnat_net
      then \<exists>ns. parseTrustedCgnatCidrs (ne_cgnatCidrs env @ '','' @ ne_cgnatIps env) = Inr ns \<and> (\<exists>n\<in>set ns. in_net a n)
      else \<not> open_production env \<and>
        (\<exists>ns. parseCidrList (allowed_text env) ''CAMERA_ALLOWED_CIDRS'' = Inr ns \<and> (\<exists>n\<in>set ns. in_net a n)))"

lemma denied_with: "parseCidrList (ALWAYS_DENIED_CAMERA_CIDRS @ CHR '','' # extra) label =
    (case parseCidrList extra label of Inl e \<Rightarrow> Inl e | Inr ds \<Rightarrow> Inr (denied_nets @ ds))"
  using parseCidrList_append [of ALWAYS_DENIED_CAMERA_CIDRS extra label] by (simp add: denied_literal)

lemma checkAllowed_iff:
  "read_ip s = Some a \<Longrightarrow> checkAllowed s env = Inr t \<longleftrightarrow> t = s \<and> \<not> open_production env \<and>
    (\<exists>ns. parseCidrList (allowed_text env) ''CAMERA_ALLOWED_CIDRS'' = Inr ns \<and> (\<exists>n\<in>set ns. in_net a n))"
  by (auto simp: checkAllowed_def Let_def allowed_text_def open_production_def blockListHas_iff split: sum.splits)

lemma checkCgnat_iff:
  "read_ip s = Some a \<Longrightarrow> checkCgnat s env = Inr t \<longleftrightarrow> t = s \<and>
    (\<exists>ns. parseTrustedCgnatCidrs (ne_cgnatCidrs env @ '','' @ ne_cgnatIps env) = Inr ns \<and> (\<exists>n\<in>set ns. in_net a n))"
  by (auto simp: checkCgnat_def blockListHas_iff split: sum.splits)

text \<open>C12 (a camera's address is accepted exactly when the policy permits it). The accepted text is
  the literal address given; its port is a valid one; it lies in none of the networks that are
  always denied (loopback, link-local, multicast, unspecified) nor in a configured denied one; a
  carrier-grade address lies in a trusted network, any other in a configured one, which must exist
  in production.\<close>

theorem camera_target_exact:
  "assertCameraTargetAllowed raw port env = Inr target \<longleftrightarrow>
     target = normalizeIp (js_trim raw) \<and> \<not> port_refused port \<and>
     (\<exists>a. read_ip target = Some a \<and> address_permitted env a)"
proof (cases "read_ip (normalizeIp (js_trim raw))")
  case None
  then show ?thesis by (auto simp: assertCameraTargetAllowed_def Let_def)
next
  case (Some a)
  have target: "(target = normalizeIp (js_trim raw) \<and> \<not> port_refused port \<and> (\<exists>a. read_ip target = Some a \<and> address_permitted env a)) \<longleftrightarrow>
      target = normalizeIp (js_trim raw) \<and> \<not> port_refused port \<and> address_permitted env a" using Some by auto
  note ip = Some blockListHas_iff [OF Some] checkAllowed_iff [OF Some] checkCgnat_iff [OF Some]
  have "assertCameraTargetAllowed raw port env = Inr target \<longleftrightarrow>
      target = normalizeIp (js_trim raw) \<and> \<not> port_refused port \<and> address_permitted env a"
  proof (cases "parseCidrList (ne_denied env) ''CAMERA_DENIED_CIDRS''")
    case (Inl e)
    then show ?thesis
      by (auto simp: assertCameraTargetAllowed_def Let_def ip denied_with address_permitted_def)
  next
    case (Inr ds)
    then show ?thesis
      by (auto simp: assertCameraTargetAllowed_def Let_def ip denied_with cgnat_literal address_permitted_def)
  qed
  then show ?thesis unfolding target .
qed

text \<open>(trusted networks stay inside the carrier-grade one). Whatever the two settings hold, if
  they are accepted, an address of a trusted network is an address of 100.64.0.0/10.\<close>

theorem trusted_cgnat_confined:
  assumes "parseTrustedCgnatCidrs value = Inr nets" "n \<in> set nets" "in_net a n"
  shows "in_net a cgnat_net"
proof -
  obtain b p where n: "n = (V4 b, p)" "10 \<le> p" "p \<le> 32" "in_net (V4 b) cgnat_net"
    using trusted_in_cgnat [OF assms(1,2)] by blast
  show ?thesis by (rule in_net_trans [of n]) (use n assms(3) in \<open>auto simp: cgnat_net_def\<close>)
qed

text \<open>Two settings for the witness: a trusted part of the carrier-grade network, and a slash with
  no prefix after it.\<close>

definition sample_network :: network_env where
  "sample_network = \<lparr>ne_denied = [], ne_allowed = ''10.0.0.0/'', ne_cgnatCidrs = ''100.64.0.0/12'', ne_cgnatIps = [],
     ne_nodeEnv = ''production''\<rparr>"

lemma trusted_sample: "parseTrustedCgnatCidrs ''100.64.0.0/12'' = Inr [(V4 0x64400000, 12)]"
proof -
  have trim: "js_trim ''100.64.0.0/12'' = ''100.64.0.0/12''" by code_simp
  show ?thesis
    by (simp add: parseTrustedCgnatCidrs_def cgnat_literal trustedEntry_def trim split_slash_def read_prefix_def
        number_literals address_literals is_integer_def blockListHas_def cgnat_net_def in_net_def)
qed

theorem trusted_cgnat_confined_witness:
  "in_net (V4 0x64410203) (V4 0x64400000, 12) \<and> in_net (V4 0x64410203) cgnat_net"
proof -
  have "in_net (V4 0x64410203) (V4 0x64400000, 12)" by code_simp
  then show ?thesis using trusted_cgnat_confined [OF trusted_sample, of "(V4 0x64400000, 12)"] by simp
qed

section \<open>A slash without a prefix\<close>

text \<open>(a slash with nothing after it opens the whole IPv4 space). \<open>Number('')\<close> is zero: an entry
  that ends in a slash is not refused but read with prefix zero, and every IPv4 address matches.\<close>

theorem bare_slash_matches_all:
  assumes "read_ipv4 address = Some w" "CHR ''/'' \<notin> set address"
  shows "parseEntry label (address @ ''/'') = Inr (V4 w, 0) \<and> in_net (V4 a) (V4 w, 0)"
proof -
  have "split_slash (address @ ''/'') = (address, Some [])" using assms(2) by (simp add: split_slash_def)
  moreover have "js_Number [] = Some 0" by (simp add: js_Number_def)
  ultimately show ?thesis
    using assms(1) by (simp add: parseEntry_def read_ip_def read_prefix_def is_integer_def in_net_all)
qed

theorem bare_slash_matches_all_witness:
  "parseEntry ''CAMERA_ALLOWED_CIDRS'' ''10.0.0.0/'' = Inr (V4 0x0A000000, 0) \<and> in_net (V4 0x08080808) (V4 0x0A000000, 0)"
proof -
  have "read_ipv4 ''10.0.0.0'' = Some 0x0A000000" by code_simp
  from bare_slash_matches_all [OF this, of "''CAMERA_ALLOWED_CIDRS''" "0x08080808"] show ?thesis by simp
qed

section \<open>Private IPv4 addresses\<close>

definition private_nets :: "subnet list" where
  "private_nets = [(V4 0x0A000000, 8), (V4 0x7F000000, 8), (V4 0xA9FE0000, 16), (V4 0xC0A80000, 16), (V4 0xAC100000, 12),
     (V4 0, 8), (V4 0xE0000000, 3)]"

lemma read_octet_value: "read_octet s = Some n \<Longrightarrow> n \<le> 255 \<and> js_Number s = Some (of_nat n) \<and> s \<noteq> [] \<and> is_digit (hd s)"
proof -
  assume a: "read_octet s = Some n"
  then have s: "s \<noteq> []" "list_all is_digit s" "n = dec_val s" "n \<le> 255" by (auto simp: read_octet_def split: if_splits)
  have "finite_double (of_nat n)"
    using s(4) by (intro finite_double_small) (simp add: order_trans [of _ 255])
  then show ?thesis using s js_Number_digits [of s] by (cases s) auto
qed

lemma read_ipv4_octets:
  assumes "read_ipv4 s = Some w"
  obtains a b c d where "parseIpv4Octets s = Some [of_nat a, of_nat b, of_nat c, of_nat d]"
    "a \<le> 255" "b \<le> 255" "c \<le> 255" "d \<le> 255" "w = of_octets a b c d" "is_digit (hd s)"
proof -
  from assms obtain a b c d where o: "map read_octet (split_on (CHR ''.'') s) = [Some a, Some b, Some c, Some d]" "w = of_octets a b c d"
    by (auto simp: read_ipv4_def split: list.splits option.splits)
  then obtain p q r t where parts: "split_on (CHR ''.'') s = [p, q, r, t]" "read_octet p = Some a" "read_octet q = Some b"
    "read_octet r = Some c" "read_octet t = Some d" by (auto simp: map_eq_Cons_conv)
  note vals = parts(2-5) [THEN read_octet_value]
  have "parseIpv4Octets s = Some [of_nat a, of_nat b, of_nat c, of_nat d]"
    using vals by (simp add: parseIpv4Octets_def parts(1))
  moreover have "is_digit (hd s)"
    using parts(1) vals(1) by (cases s) (auto split: if_splits list.splits)
  ultimately show ?thesis using that vals o(2) by blast
qed

lemma uint_of_octets:
  "a \<le> 255 \<Longrightarrow> b \<le> 255 \<Longrightarrow> c \<le> 255 \<Longrightarrow> d \<le> 255 \<Longrightarrow>
   uint (of_octets a b c d) = ((int a * 256 + int b) * 256 + int c) * 256 + int d"
  unfolding of_octets_def uint_word_of_int by (rule mod_pos_pos_trivial) simp_all

lemma div_mod_pair: "0 \<le> y \<Longrightarrow> y < m \<Longrightarrow> x * m + y = k \<longleftrightarrow> x = k div m \<and> y = k mod m" for m :: int
  by auto

text \<open>(the private IPv4 addresses are those of seven networks). On the text of an IPv4 address
  the test by octets is membership in 10/8, 127/8, 169.254/16, 192.168/16, 172.16/12, 0/8 or
  224/3.\<close>

theorem private_ipv4_exact:
  assumes "read_ipv4 s = Some w"
  shows "isPrivateOrReservedIp s \<longleftrightarrow> (\<exists>n\<in>set private_nets. in_net (V4 w) n)"
proof -
  obtain a b c d where o: "parseIpv4Octets s = Some [of_nat a, of_nat b, of_nat c, of_nat d]"
    "a \<le> 255" "b \<le> 255" "c \<le> 255" "d \<le> 255" "w = of_octets a b c d" "is_digit (hd s)"
    by (rule read_ipv4_octets [OF assms])
  let ?v = "((int a * 256 + int b) * 256 + int c) * 256 + int d"
  have "s \<noteq> [] \<and> hd s \<noteq> CHR '':''" using o(7) assms by (auto simp: is_digit_def read_ipv4_def read_octet_def)
  then have "take 7 s \<noteq> ''::ffff:''" by (cases s) auto
  then have norm: "normalizeIp s = s" by (simp add: normalizeIp_def)
  have div: "?v div 2 ^ 24 = int a" "?v div 2 ^ 16 = int a * 256 + int b" "?v div 2 ^ 20 = int a * 16 + int b div 16"
    "?v div 2 ^ 29 = int a div 32" using o(2-5) by auto
  have v: "uint w = ?v" unfolding o(6) by (rule uint_of_octets [OF o(2-5)])
  have "in_net (V4 w) (V4 0x0A000000, 8) \<longleftrightarrow> a = 10" "in_net (V4 w) (V4 0x7F000000, 8) \<longleftrightarrow> a = 127"
    "in_net (V4 w) (V4 0, 8) \<longleftrightarrow> a = 0" "in_net (V4 w) (V4 0xA9FE0000, 16) \<longleftrightarrow> int a * 256 + int b = 43518"
    "in_net (V4 w) (V4 0xC0A80000, 16) \<longleftrightarrow> int a * 256 + int b = 49320"
    "in_net (V4 w) (V4 0xAC100000, 12) \<longleftrightarrow> int a * 16 + int b div 16 = 2753"
    "in_net (V4 w) (V4 0xE0000000, 3) \<longleftrightarrow> int a div 32 = 7"
    using div by (simp_all add: in_net_div v)
  then have "(\<exists>n\<in>set private_nets. in_net (V4 w) n) \<longleftrightarrow> a = 10 \<or> a = 127 \<or> int a * 256 + int b = 43518 \<or>
      int a * 256 + int b = 49320 \<or> int a * 16 + int b div 16 = 2753 \<or> a = 0 \<or> int a div 32 = 7"
    by (simp add: private_nets_def)
  moreover have "int a * 256 + int b = 43518 \<longleftrightarrow> a = 169 \<and> b = 254" "int a * 256 + int b = 49320 \<longleftrightarrow> a = 192 \<and> b = 168"
    using o(3) by (simp_all add: div_mod_pair)
  moreover have "int a * 16 + int b div 16 = 2753 \<longleftrightarrow> int a = 172 \<and> int b div 16 = 1"
    using o(3) by (subst div_mod_pair) auto
  moreover have "int b div 16 = 1 \<longleftrightarrow> 16 \<le> b \<and> b \<le> 31" by presburger
  moreover have "int a div 32 = 7 \<longleftrightarrow> 224 \<le> a"
  proof
    assume "int a div 32 = 7"
    then have "int a = 224 + int a mod 32" using div_mult_mod_eq [of "int a" 32] by simp
    then show "224 \<le> a" using pos_mod_sign [of 32 "int a"] by linarith
  next
    assume "224 \<le> a"
    then show "int a div 32 = 7" using o(2) div_mod_pair [of "int a - 224" 32 7 "int a"] by simp
  qed
  moreover have "isPrivateIpv4 s \<longleftrightarrow> a = 10 \<or> a = 127 \<or> a = 169 \<and> b = 254 \<or> a = 192 \<and> b = 168 \<or>
      a = 172 \<and> 16 \<le> b \<and> b \<le> 31 \<or> a = 0 \<or> 224 \<le> a"
  proof -
    have q: "(of_nat n :: rat) = numeral k \<longleftrightarrow> n = numeral k" for n k by (metis of_nat_eq_iff of_nat_numeral)
    show ?thesis by (simp add: isPrivateIpv4_def o(1) q)
  qed
  ultimately have "isPrivateIpv4 s \<longleftrightarrow> (\<exists>n\<in>set private_nets. in_net (V4 w) n)" using o(2) by simp
  then show ?thesis using assms by (simp add: isPrivateOrReservedIp_def norm read_ip_def)
qed

text \<open>The mapped form of a private address is only recognised when its last part is dotted and the
  prefix is in lower case.\<close>

lemma mapped_forms:
  "read_ip ''::ffff:7f00:1'' = Some (V6 (mapped (V4 0x7F000001))) \<and> \<not> isPrivateOrReservedIp ''::ffff:7f00:1''"
  by (intro conjI) code_simp+

theorem private_ipv4_exact_witness:
  "isPrivateOrReservedIp ''172.20.0.9'' \<and> read_ipv4 ''172.20.0.9'' = Some 0xAC140009"
proof -
  have w: "read_ipv4 ''172.20.0.9'' = Some 0xAC140009" by code_simp
  have "in_net (V4 0xAC140009) (V4 0xAC100000, 12)" by code_simp
  then show ?thesis using private_ipv4_exact [OF w] w by (simp add: private_nets_def)
qed

end
