(* ===== verification/Licence.thy ===== *)
theory Licence
  imports Prelude Complex_Main
begin

text \<open>
  \<open>commercial-policy/helpers/vencimento-de-licenca.helper.ts\<close> and \<open>teto-de-cameras.helper.ts\<close>:
  the state of an installation's licence after days without contact with the central, and how
  many cameras it may register. Instants are milliseconds; \<open>None\<close> is an absent value or one that
  is not finite. Days are rational numbers, \<open>None\<close> is \<open>Infinity\<close>.
\<close>

section \<open>States by severity\<close>

datatype estado = Active | Grace | Unknown | Restricted | Suspended

fun GRAVIDADE :: "estado \<Rightarrow> nat" where
  "GRAVIDADE Active = 0"
| "GRAVIDADE Grace = 1"
| "GRAVIDADE Unknown = 2"
| "GRAVIDADE Restricted = 3"
| "GRAVIDADE Suspended = 4"

lemma GRAVIDADE_inj: "GRAVIDADE x = GRAVIDADE y \<longleftrightarrow> x = y"
  by (cases x; cases y) simp_all

instantiation estado :: linorder
begin

definition less_eq_estado :: "estado \<Rightarrow> estado \<Rightarrow> bool" where
  "less_eq_estado x y \<longleftrightarrow> GRAVIDADE x \<le> GRAVIDADE y"

definition less_estado :: "estado \<Rightarrow> estado \<Rightarrow> bool" where
  "less_estado x y \<longleftrightarrow> GRAVIDADE x < GRAVIDADE y"

instance
  by standard (auto simp: less_eq_estado_def less_estado_def GRAVIDADE_inj)

end

definition DIAS_ATE_RESTRINGIR :: rat where "DIAS_ATE_RESTRINGIR = 10"
definition DIAS_ATE_SUSPENDER :: rat where "DIAS_ATE_SUSPENDER = 15"
definition DIAS_PARA_COMECAR_A_AVISAR :: rat where "DIAS_PARA_COMECAR_A_AVISAR = 7"
definition DIA_MS :: int where "DIA_MS = 24 * 60 * 60 * 1000"

section \<open>Silence\<close>

definition or_zero :: "int option \<Rightarrow> int" where
  "or_zero x = (case x of None \<Rightarrow> 0 | Some i \<Rightarrow> i)"

definition diasSemContato :: "int option \<Rightarrow> int option \<Rightarrow> int option \<Rightarrow> rat option" where
  "diasSemContato ultimoContatoMs agoraMs maiorInstanteVistoMs =
     (case ultimoContatoMs of None \<Rightarrow> None
      | Some u \<Rightarrow>
          if u \<le> 0 then None
          else let agora = max (max (or_zero agoraMs) (or_zero maiorInstanteVistoMs)) u
               in Some (max 0 (of_int (agora - u) / of_int DIA_MS)))"

definition estadoPorSilencio :: "rat option \<Rightarrow> estado" where
  "estadoPorSilencio dias =
     (case dias of None \<Rightarrow> Suspended
      | Some d \<Rightarrow> if d \<ge> DIAS_ATE_SUSPENDER then Suspended
                  else if d \<ge> DIAS_ATE_RESTRINGIR then Restricted else Active)"

definition combinarEstados :: "estado \<Rightarrow> estado \<Rightarrow> estado" where
  "combinarEstados daCentral doSilencio = (if GRAVIDADE doSilencio > GRAVIDADE daCentral then doSilencio else daCentral)"

section \<open>The decision\<close>

datatype motivo = EmDia | SilencioRestringiu | SilencioSuspendeu | CentralRestringiu | NuncaFalou

record decisao =
  dl_estado :: estado
  dl_diasSemContato :: "int option"
  dl_diasAteOProximoCorte :: "int option"
  dl_avisar :: bool
  dl_motivo :: motivo

record entrada_licenca =
  el_estadoDaCentral :: estado
  el_ultimoContatoMs :: "int option"
  el_agoraMs :: "int option"
  el_maiorInstanteVistoMs :: "int option"

definition decidirLicenca :: "entrada_licenca \<Rightarrow> decisao" where
  "decidirLicenca entrada =
     (let dias = diasSemContato (el_ultimoContatoMs entrada) (el_agoraMs entrada) (el_maiorInstanteVistoMs entrada);
          doSilencio = estadoPorSilencio dias;
          estado = combinarEstados (el_estadoDaCentral entrada) doSilencio
      in \<lparr>dl_estado = estado,
           dl_diasSemContato = map_option floor dias,
           dl_diasAteOProximoCorte = (case dias of None \<Rightarrow> None
             | Some d \<Rightarrow> if estado = Suspended then None
                 else Some (max 0 \<lceil>(if d < DIAS_ATE_RESTRINGIR then DIAS_ATE_RESTRINGIR else DIAS_ATE_SUSPENDER) - d\<rceil>)),
           dl_avisar = (case dias of None \<Rightarrow> True | Some d \<Rightarrow> d \<ge> DIAS_PARA_COMECAR_A_AVISAR),
           dl_motivo = (if dias = None then NuncaFalou else if doSilencio = Suspended then SilencioSuspendeu
             else if doSilencio = Restricted then SilencioRestringiu
             else if estado = Restricted \<or> estado = Suspended then CentralRestringiu else EmDia)\<rparr>)"

section \<open>The ceiling of cameras\<close>

datatype motivo_teto = SemTeto | DentroDoTeto | TetoAtingido | AcimaDoTeto

record decisao_teto =
  dt_permitido :: bool
  dt_vagas :: "int option"
  dt_motivo :: motivo_teto

text \<open>The ceiling is \<open>None\<close> when it is absent, blank or not a finite number.\<close>

definition podeCadastrarCamera :: "rat option \<Rightarrow> rat option \<Rightarrow> rat option \<Rightarrow> decisao_teto" where
  "podeCadastrarCamera cadastradas teto quantidade =
     (let atual = max 0 \<lfloor>case cadastradas of None \<Rightarrow> 0 | Some n \<Rightarrow> n\<rfloor>;
          pedidas = max 1 \<lfloor>case quantidade of None \<Rightarrow> 1 | Some n \<Rightarrow> if n = 0 then 1 else n\<rfloor>
      in case teto of
           None \<Rightarrow> \<lparr>dt_permitido = True, dt_vagas = None, dt_motivo = SemTeto\<rparr>
         | Some t \<Rightarrow>
             if t < 0 then \<lparr>dt_permitido = True, dt_vagas = None, dt_motivo = SemTeto\<rparr>
             else let limite = \<lfloor>t\<rfloor>; vagas = max 0 (limite - atual)
                  in if atual > limite then \<lparr>dt_permitido = False, dt_vagas = Some 0, dt_motivo = AcimaDoTeto\<rparr>
                     else if pedidas > vagas then \<lparr>dt_permitido = False, dt_vagas = Some vagas, dt_motivo = TetoAtingido\<rparr>
                     else \<lparr>dt_permitido = True, dt_vagas = Some vagas, dt_motivo = DentroDoTeto\<rparr>)"

section \<open>Properties\<close>

lemma combinarEstados_max: "combinarEstados x y = max x y"
  by (auto simp: combinarEstados_def max_def less_eq_estado_def GRAVIDADE_inj)

lemma estadoPorSilencio_mono:
  "d \<le> e \<Longrightarrow> estadoPorSilencio (Some d) \<le> estadoPorSilencio (Some e)"
  by (auto simp: estadoPorSilencio_def less_eq_estado_def DIAS_ATE_SUSPENDER_def DIAS_ATE_RESTRINGIR_def)

lemma DIA_MS_pos [simp]: "0 < DIA_MS"
  by (simp add: DIA_MS_def)

lemma diasSemContato_Some:
  "diasSemContato (Some u) agora visto = (if u \<le> 0 then None
     else Some (of_int (max (max (or_zero agora) (or_zero visto)) u - u) / of_int DIA_MS))"
proof -
  have "0 \<le> (of_int (max (max (or_zero agora) (or_zero visto)) u - u) :: rat) / of_int DIA_MS"
    by (intro divide_nonneg_nonneg) (simp_all only: of_int_0_le_iff, simp_all add: less_imp_le)
  then show ?thesis by (simp only: diasSemContato_def Let_def option.case max_absorb2)
qed

lemma diasSemContato_mono:
  assumes "diasSemContato u a v = Some d" "diasSemContato u a' v' = Some e"
    "or_zero a \<le> or_zero a' \<or> or_zero a \<le> or_zero v'" "or_zero v \<le> or_zero v'"
  shows "d \<le> e"
proof (cases u)
  case (Some c)
  then have "d = of_int (max (max (or_zero a) (or_zero v)) c - c) / of_int DIA_MS"
    "e = of_int (max (max (or_zero a') (or_zero v')) c - c) / of_int DIA_MS"
    using assms(1,2) by (auto simp: diasSemContato_Some split: if_splits)
  moreover have "max (max (or_zero a) (or_zero v)) c \<le> max (max (or_zero a') (or_zero v')) c" using assms(3,4) by auto
  then have "(of_int (max (max (or_zero a) (or_zero v)) c - c) :: rat) \<le> of_int (max (max (or_zero a') (or_zero v')) c - c)"
    by (simp only: of_int_le_iff diff_right_mono)
  then have "of_int (max (max (or_zero a) (or_zero v)) c - c) / rat_of_int DIA_MS
      \<le> of_int (max (max (or_zero a') (or_zero v')) c - c) / of_int DIA_MS"
    by (rule divide_right_mono) (simp add: less_imp_le)
  ultimately show ?thesis by simp
qed (use assms in \<open>simp add: diasSemContato_def\<close>)

text \<open>(the clock cannot be turned back to renew a licence). Once an instant has been seen, no
  later decision from the same contact and the same state of the central is milder, whatever the
  clock says then.\<close>

theorem licence_clock_rollback:
  assumes "el_ultimoContatoMs later = el_ultimoContatoMs earlier" "el_estadoDaCentral later = el_estadoDaCentral earlier"
    "or_zero (el_agoraMs earlier) \<le> or_zero (el_maiorInstanteVistoMs later)"
    "or_zero (el_maiorInstanteVistoMs earlier) \<le> or_zero (el_maiorInstanteVistoMs later)"
  shows "dl_estado (decidirLicenca earlier) \<le> dl_estado (decidirLicenca later)"
proof -
  let ?d = "diasSemContato (el_ultimoContatoMs earlier) (el_agoraMs earlier) (el_maiorInstanteVistoMs earlier)"
  let ?e = "diasSemContato (el_ultimoContatoMs later) (el_agoraMs later) (el_maiorInstanteVistoMs later)"
  have "?d = None \<longleftrightarrow> ?e = None" unfolding assms(1) by (auto simp: diasSemContato_def Let_def split: option.splits)
  then have "estadoPorSilencio ?d \<le> estadoPorSilencio ?e"
    using diasSemContato_mono [of "el_ultimoContatoMs earlier" _ _ _ "el_agoraMs later" "el_maiorInstanteVistoMs later"] assms
    by (cases ?d; cases ?e) (auto intro!: estadoPorSilencio_mono)
  then show ?thesis by (simp add: decidirLicenca_def Let_def combinarEstados_max assms(2) max.coboundedI2)
qed

definition sample_licence :: entrada_licenca where
  "sample_licence = \<lparr>el_estadoDaCentral = Active, el_ultimoContatoMs = Some 1000, el_agoraMs = Some (1000 + 11 * DIA_MS),
     el_maiorInstanteVistoMs = None\<rparr>"

theorem licence_clock_rollback_witness:
  "let later = sample_licence\<lparr>el_agoraMs := Some 2000, el_maiorInstanteVistoMs := Some (1000 + 11 * DIA_MS)\<rparr>
   in dl_estado (decidirLicenca sample_licence) = Restricted \<and> Restricted \<le> dl_estado (decidirLicenca later)"
proof -
  have r: "dl_estado (decidirLicenca sample_licence) = Restricted" by code_simp
  show ?thesis
    using licence_clock_rollback [of "sample_licence\<lparr>el_agoraMs := Some 2000, el_maiorInstanteVistoMs := Some (1000 + 11 * DIA_MS)\<rparr>" sample_licence]
    by (simp add: r Let_def) (simp add: sample_licence_def or_zero_def DIA_MS_def)
qed

text \<open>(what silence costs). With a last contact on record, fewer than ten days of silence change
  nothing, from ten days on the installation is at least restricted, from fifteen days on it is
  suspended; the warning starts on the seventh day; while it is not suspended the next cut is
  announced, at least a day ahead before the first of them.\<close>

theorem licence_silence:
  assumes "el_ultimoContatoMs entrada = Some u" "0 < u"
  defines "silent \<equiv> max (max (or_zero (el_agoraMs entrada)) (or_zero (el_maiorInstanteVistoMs entrada))) u - u"
  shows "(silent < 10 * DIA_MS \<longrightarrow> dl_estado (decidirLicenca entrada) = el_estadoDaCentral entrada) \<and>
    (10 * DIA_MS \<le> silent \<longrightarrow> Restricted \<le> dl_estado (decidirLicenca entrada)) \<and>
    (15 * DIA_MS \<le> silent \<longleftrightarrow> dl_estado (decidirLicenca entrada) = Suspended \<and> dl_motivo (decidirLicenca entrada) = SilencioSuspendeu) \<and>
    (dl_avisar (decidirLicenca entrada) \<longleftrightarrow> 7 * DIA_MS \<le> silent) \<and>
    (dl_estado (decidirLicenca entrada) \<noteq> Suspended \<longrightarrow>
      (\<exists>k. dl_diasAteOProximoCorte (decidirLicenca entrada) = Some k \<and> 1 \<le> k \<and>
         k = (if silent < 10 * DIA_MS then 10 else 15) - silent div DIA_MS))"
proof -
  define d :: rat where "d = of_int silent / of_int DIA_MS"
  have days: "diasSemContato (Some u) (el_agoraMs entrada) (el_maiorInstanteVistoMs entrada) = Some d"
    using assms(2) by (simp add: diasSemContato_Some d_def silent_def)
  have le: "of_int k \<le> d \<longleftrightarrow> k * DIA_MS \<le> silent" for k
  proof -
    have "of_int k \<le> d \<longleftrightarrow> of_int (k * DIA_MS) \<le> (of_int silent :: rat)" unfolding d_def by (simp add: pos_le_divide_eq)
    then show ?thesis by (simp only: of_int_le_iff)
  qed
  have cuts: "10 \<le> d \<longleftrightarrow> 10 * DIA_MS \<le> silent" "15 \<le> d \<longleftrightarrow> 15 * DIA_MS \<le> silent" "7 \<le> d \<longleftrightarrow> 7 * DIA_MS \<le> silent"
    using le [of 10] le [of 15] le [of 7] by simp_all
  have flo: "\<lfloor>d\<rfloor> = silent div DIA_MS" unfolding d_def by (rule floor_divide_of_int_eq)
  let ?s = "estadoPorSilencio (Some d)"
  have state: "?s = (if 15 * DIA_MS \<le> silent then Suspended else if 10 * DIA_MS \<le> silent then Restricted else Active)"
    by (simp add: estadoPorSilencio_def DIAS_ATE_SUSPENDER_def DIAS_ATE_RESTRINGIR_def cuts)
  have est: "dl_estado (decidirLicenca entrada) = max (el_estadoDaCentral entrada) ?s"
    by (simp add: decidirLicenca_def Let_def assms(1) days combinarEstados_max)
  have bot: "Active \<le> e" and top: "e \<le> Suspended" for e by (cases e; simp add: less_eq_estado_def)+
  have gap: "15 * DIA_MS \<le> silent \<Longrightarrow> 10 * DIA_MS \<le> silent" using DIA_MS_pos by linarith
  have 1: "dl_estado (decidirLicenca entrada) = el_estadoDaCentral entrada" if "silent < 10 * DIA_MS"
    using that bot gap by (auto simp: est state max_absorb1)
  have 2: "Restricted \<le> dl_estado (decidirLicenca entrada)" if "10 * DIA_MS \<le> silent"
    using that by (simp add: est state le_max_iff_disj top)
  have 3: "15 * DIA_MS \<le> silent \<longleftrightarrow> dl_estado (decidirLicenca entrada) = Suspended \<and> dl_motivo (decidirLicenca entrada) = SilencioSuspendeu"
    by (auto simp: est state max_absorb2 top) (auto simp: decidirLicenca_def Let_def assms(1) days state split: if_splits)
  have 4: "dl_avisar (decidirLicenca entrada) \<longleftrightarrow> 7 * DIA_MS \<le> silent"
    by (simp add: decidirLicenca_def Let_def assms(1) days DIAS_PARA_COMECAR_A_AVISAR_def cuts)
  have 5: "\<exists>k. dl_diasAteOProximoCorte (decidirLicenca entrada) = Some k \<and> 1 \<le> k \<and>
      k = (if silent < 10 * DIA_MS then 10 else 15) - silent div DIA_MS" if alive: "dl_estado (decidirLicenca entrada) \<noteq> Suspended"
  proof -
    let ?k = "(if silent < 10 * DIA_MS then 10 else 15) - silent div DIA_MS"
    have below: "silent < 15 * DIA_MS" using alive top by (fastforce simp: est state max_absorb2 split: if_splits)
    have "d < 15" "silent < 10 * DIA_MS \<Longrightarrow> d < 10" using below cuts by linarith+
    then have "silent div DIA_MS < 15" "silent < 10 * DIA_MS \<Longrightarrow> silent div DIA_MS < 10"
      unfolding flo [symmetric] by (simp_all add: floor_less_iff)
    then have "1 \<le> ?k" by (cases "silent < 10 * DIA_MS") simp_all
    moreover have "\<lceil>of_int n - d\<rceil> = n - silent div DIA_MS" for n
      unfolding flo [symmetric] by (simp add: ceiling_def)
    from this [of 10] this [of 15] have "dl_diasAteOProximoCorte (decidirLicenca entrada) = Some (max 0 ?k)"
      using alive by (simp add: decidirLicenca_def Let_def assms(1) days DIAS_ATE_RESTRINGIR_def DIAS_ATE_SUSPENDER_def cuts flip: not_le)
    ultimately show ?thesis by simp
  qed
  show ?thesis by (intro conjI impI 1 2 3 4 5)
qed

theorem licence_silence_witness:
  "dl_estado (decidirLicenca sample_licence) = Restricted \<and>
   dl_diasAteOProximoCorte (decidirLicenca sample_licence) = Some 4 \<and> Restricted \<le> dl_estado (decidirLicenca sample_licence)"
proof -
  have u: "el_ultimoContatoMs sample_licence = Some 1000" by (simp add: sample_licence_def)
  have r: "dl_estado (decidirLicenca sample_licence) = Restricted" by code_simp
  have silent: "max (max (or_zero (el_agoraMs sample_licence)) (or_zero (el_maiorInstanteVistoMs sample_licence))) 1000 - 1000 = 11 * DIA_MS"
    by (simp add: sample_licence_def or_zero_def DIA_MS_def)
  show ?thesis using licence_silence [OF u] by (simp add: r silent DIA_MS_def)
qed

section \<open>Registering cameras\<close>

text \<open>The registrations of an installation: every one asks for whole cameras and is only made when
  the ceiling of that moment permits it.\<close>

fun cadastrar :: "nat \<Rightarrow> (rat option \<times> nat) list \<Rightarrow> nat" where
  "cadastrar n [] = n"
| "cadastrar n ((teto, k) # pedidos) =
     cadastrar (if dt_permitido (podeCadastrarCamera (Some (of_nat n)) teto (Some (of_nat k))) then n + k else n) pedidos"

lemma permitido_iff:
  assumes "0 < k"
  shows "dt_permitido (podeCadastrarCamera (Some (of_nat n)) teto (Some (of_nat k))) \<longleftrightarrow>
    (\<forall>t. teto = Some t \<and> 0 \<le> t \<longrightarrow> of_nat (n + k) \<le> t)"
proof (cases teto)
  case (Some t)
  have "int n + int k \<le> \<lfloor>t\<rfloor> \<longleftrightarrow> of_nat (n + k) \<le> t" by (simp add: le_floor_iff)
  then show ?thesis using assms Some by (auto simp: podeCadastrarCamera_def Let_def)
qed (simp add: podeCadastrarCamera_def)

text \<open>(the ceiling of cameras is never passed by registering). Whatever is asked for, under a
  ceiling that does not grow the installation ends with no more cameras than the ceiling, unless
  it started with more, and then it gains none; nothing is ever removed.\<close>

theorem camera_ceiling:
  assumes "\<forall>(teto, k)\<in>set pedidos. teto = Some t \<and> 0 < k" "0 \<le> t"
  shows "n \<le> cadastrar n pedidos \<and> (of_nat n \<le> t \<longrightarrow> of_nat (cadastrar n pedidos) \<le> t) \<and>
    (t < of_nat n \<longrightarrow> cadastrar n pedidos = n)"
  using assms(1)
proof (induction pedidos arbitrary: n)
  case (Cons p pedidos)
  obtain teto k where p: "p = (teto, k)" by (cases p)
  with Cons.prems have k: "teto = Some t" "0 < k" by auto
  show ?case
  proof (cases "of_nat (n + k) \<le> t")
    case True
    then have "dt_permitido (podeCadastrarCamera (Some (of_nat n)) teto (Some (of_nat k)))"
      using permitido_iff [OF k(2), of n teto] k(1) by auto
    moreover have "\<not> t < of_nat n" using True by simp
    ultimately show ?thesis using Cons.IH [of "n + k"] Cons.prems True by (auto simp: p not_less)
  next
    case False
    then have "\<not> dt_permitido (podeCadastrarCamera (Some (of_nat n)) teto (Some (of_nat k)))"
      using permitido_iff [OF k(2), of n teto] k(1) assms(2) by auto
    then show ?thesis using Cons.IH [of n] Cons.prems by (auto simp: p)
  qed
qed simp

theorem camera_ceiling_witness:
  "of_nat (cadastrar 3 [(Some (9 / 2), 1), (Some (9 / 2), 1)]) \<le> (9 / 2 :: rat) \<and> cadastrar 3 [(Some (9 / 2), 1), (Some (9 / 2), 1)] = 4"
proof -
  have "cadastrar 3 [(Some (9 / 2), 1), (Some (9 / 2), 1)] = 4" by code_simp
  then show ?thesis using camera_ceiling [of "[(Some (9 / 2), 1), (Some (9 / 2), 1)]" "9 / 2" 3] by simp
qed

end
