(* ===== verification/Http_Range.thy ===== *)
theory Http_Range
  imports Js_Number
begin

text \<open>
  \<open>recordings/helpers/http-range.helper.ts\<close>: the bytes a \<open>Range\<close> header asks for and the validator
  a player uses to keep them. Sizes are whole bytes; digits are read exactly, and a number too
  large for a double is infinite, which only the start and a suffix length notice.
\<close>

section \<open>The range\<close>

datatype alcance = Completo | Parcial int int | Insatisfazivel

text \<open>\<open>/^bytes=(.*)$/i\<close> on the trimmed header: the rest, trimmed again.\<close>

definition range_spec :: "string \<Rightarrow> string option" where
  "range_spec header =
     (let h = js_trim header
      in if js_lower (take 6 h) = ''bytes='' \<and> list_all (\<lambda>c. c \<noteq> nl \<and> c \<noteq> CHR 0x0D) (drop 6 h)
         then Some (js_trim (drop 6 h)) else None)"

text \<open>\<open>/^(\d*)-(\d*)$/\<close>.\<close>

definition range_parts :: "string \<Rightarrow> (string \<times> string) option" where
  "range_parts s =
     (case dropWhile is_digit s of
        c # t \<Rightarrow> if c = CHR ''-'' \<and> list_all is_digit t then Some (takeWhile is_digit s, t) else None
      | [] \<Rightarrow> None)"

definition digits_number :: "string \<Rightarrow> int option" where
  "digits_number s = (if finite_double (of_nat (dec_val s)) then Some (int (dec_val s)) else None)"

definition resolverRange :: "string option \<Rightarrow> int \<Rightarrow> alcance" where
  "resolverRange header fileSize =
     (if or_empty header = [] \<or> fileSize \<le> 0 then Completo
      else case range_spec (or_empty header) of None \<Rightarrow> Completo
      | Some spec \<Rightarrow>
        if CHR '','' \<in> set spec then Completo
        else (case range_parts spec of None \<Rightarrow> Completo
        | Some (startText, endText) \<Rightarrow>
            if startText = [] \<and> endText = [] then Completo
            else if startText = [] then
              (case digits_number endText of None \<Rightarrow> Insatisfazivel
               | Some n \<Rightarrow> if n \<le> 0 then Insatisfazivel else Parcial (max 0 (fileSize - n)) (fileSize - 1))
            else (case digits_number startText of None \<Rightarrow> Completo
               | Some start \<Rightarrow>
                   let end' = (if endText = [] then fileSize - 1
                         else case digits_number endText of None \<Rightarrow> fileSize - 1 | Some n \<Rightarrow> min n (fileSize - 1))
                   in if start \<ge> fileSize \<or> start > end' then Insatisfazivel else Parcial start end')))"

section \<open>The validator\<close>

text \<open>\<open>toString(16)\<close> of a whole number.\<close>

definition hex_char :: "nat \<Rightarrow> char" where
  "hex_char n = (if n < 10 then char_of (48 + n) else char_of (87 + n))"

fun hex_digits :: "nat \<Rightarrow> string" where
  "hex_digits n = (if n < 16 then [hex_char n] else hex_digits (n div 16) @ [hex_char (n mod 16)])"

declare hex_digits.simps [simp del]

definition hex_int :: "int \<Rightarrow> string" where
  "hex_int i = (if i < 0 then ''-'' @ hex_digits (nat (- i)) else hex_digits (nat i))"

definition etag :: "nat \<Rightarrow> rat \<Rightarrow> string" where
  "etag bytes mtimeMs = [CHR 0x22] @ hex_digits bytes @ ''-'' @ hex_int \<lfloor>mtimeMs\<rfloor> @ [CHR 0x22]"

section \<open>Properties\<close>

lemma resolverRange_bounds: "resolverRange header fileSize = Parcial s e \<Longrightarrow> 0 \<le> s \<and> s \<le> e \<and> e < fileSize"
  by (auto simp: resolverRange_def digits_number_def Let_def split: if_splits option.splits)

lemma digits_number_dec: "n < 10 ^ 300 \<Longrightarrow> digits_number (dec_digits n) = Some (int n)"
proof -
  assume "n < 10 ^ 300"
  then have "(of_nat n :: rat) \<le> of_nat (10 ^ 300)" unfolding of_nat_le_iff by simp
  then have "finite_double (of_nat n)" by (intro finite_double_small) (simp del: of_nat_le_iff)
  then show ?thesis by (simp add: digits_number_def dec_val_digits)
qed

lemma digits_all: "list_all is_digit (dec_digits n)"
  using dec_digits_are_digits by (auto simp: list_all_iff)

lemma range_spec_plain:
  assumes "\<forall>c\<in>set s. is_digit c \<or> c = CHR ''-''" "s \<noteq> []"
  shows "range_spec (''bytes='' @ s) = Some s"
proof -
  have blank: "list_all (\<lambda>c. \<not> js_space c) s" "list_all (\<lambda>c. c \<noteq> nl \<and> c \<noteq> CHR 0x0D) s"
    using assms(1) by (auto simp: list_all_iff js_space_def is_digit_def)
  have "js_trim (''bytes='' @ s) = ''bytes='' @ s" "js_trim s = s"
    using blank(1) by (auto intro!: js_trim_plain simp: js_space_def)
  moreover have "js_lower ''bytes='' = ''bytes=''" by code_simp
  ultimately show ?thesis using blank(2) by (simp add: range_spec_def)
qed

lemma range_parts_dec: "list_all is_digit s \<Longrightarrow> list_all is_digit t \<Longrightarrow> range_parts (s @ CHR ''-'' # t) = Some (s, t)"
proof -
  assume a: "list_all is_digit s" "list_all is_digit t"
  have n: "\<not> is_digit (CHR ''-'')" by (simp add: is_digit_def)
  have "takeWhile is_digit (s @ CHR ''-'' # t) = s" "dropWhile is_digit (s @ CHR ''-'' # t) = CHR ''-'' # t"
    using a(1) n by (simp_all add: takeWhile_append dropWhile_append list_all_iff)
  then show ?thesis using a(2) by (simp add: range_parts_def)
qed

lemma resolve_printed:
  assumes "list_all is_digit s" "list_all is_digit t" "0 < fileSize"
  shows "resolverRange (Some (''bytes='' @ s @ ''-'' @ t)) fileSize =
    (if s = [] \<and> t = [] then Completo
     else if s = [] then
       (case digits_number t of None \<Rightarrow> Insatisfazivel
        | Some n \<Rightarrow> if n \<le> 0 then Insatisfazivel else Parcial (max 0 (fileSize - n)) (fileSize - 1))
     else (case digits_number s of None \<Rightarrow> Completo
        | Some start \<Rightarrow>
            let end' = (if t = [] then fileSize - 1
                  else case digits_number t of None \<Rightarrow> fileSize - 1 | Some n \<Rightarrow> min n (fileSize - 1))
            in if start \<ge> fileSize \<or> start > end' then Insatisfazivel else Parcial start end'))"
proof -
  have "range_spec (''bytes='' @ s @ CHR ''-'' # t) = Some (s @ CHR ''-'' # t)"
    using assms(1,2) by (intro range_spec_plain) (auto simp: list_all_iff)
  moreover have "CHR '','' \<notin> set (s @ CHR ''-'' # t)" using assms(1,2) by (auto simp: list_all_iff is_digit_def)
  ultimately show ?thesis
    using assms by (simp add: resolverRange_def or_empty_def range_parts_dec)
qed

text \<open>(a range is answered as HTTP says, inside the file). For a file that is not empty and
  numbers below 10 to the 300: a closed range is cut at the end of the file and refused when it
  starts beyond it or is turned round; an open one runs to the end; a suffix is the last bytes,
  the whole file when it is shorter, and refused when it is empty. Whatever the header, a partial
  answer lies inside the file.\<close>

theorem http_range_exact:
  assumes "0 < fileSize" "a < 10 ^ 300" "b < 10 ^ 300"
  shows "resolverRange (Some (''bytes='' @ dec_digits a @ ''-'' @ dec_digits b)) fileSize =
      (if fileSize \<le> int a \<or> b < a then Insatisfazivel else Parcial (int a) (min (int b) (fileSize - 1))) \<and>
    resolverRange (Some (''bytes='' @ dec_digits a @ ''-'')) fileSize =
      (if fileSize \<le> int a then Insatisfazivel else Parcial (int a) (fileSize - 1)) \<and>
    resolverRange (Some (''bytes=-'' @ dec_digits b)) fileSize =
      (if b = 0 then Insatisfazivel else Parcial (max 0 (fileSize - int b)) (fileSize - 1)) \<and>
    (\<forall>header s e. resolverRange header fileSize = Parcial s e \<longrightarrow> 0 \<le> s \<and> s \<le> e \<and> e < fileSize)"
proof (intro conjI)
  note dig = digits_number_dec [OF assms(2)] digits_number_dec [OF assms(3)]
  show "resolverRange (Some (''bytes='' @ dec_digits a @ ''-'' @ dec_digits b)) fileSize =
      (if fileSize \<le> int a \<or> b < a then Insatisfazivel else Parcial (int a) (min (int b) (fileSize - 1)))"
    using resolve_printed [OF digits_all digits_all assms(1)] by (auto simp: dig Let_def)
  show "resolverRange (Some (''bytes='' @ dec_digits a @ ''-'')) fileSize =
      (if fileSize \<le> int a then Insatisfazivel else Parcial (int a) (fileSize - 1))"
    using resolve_printed [OF digits_all _ assms(1), of "[]" a] by (auto simp: dig Let_def)
  show "resolverRange (Some (''bytes=-'' @ dec_digits b)) fileSize =
      (if b = 0 then Insatisfazivel else Parcial (max 0 (fileSize - int b)) (fileSize - 1))"
    using resolve_printed [OF _ digits_all assms(1), of "[]" b] by (auto simp: dig)
  show "\<forall>header s e. resolverRange header fileSize = Parcial s e \<longrightarrow> 0 \<le> s \<and> s \<le> e \<and> e < fileSize"
    using resolverRange_bounds by blast
qed

theorem http_range_exact_witness:
  "resolverRange (Some (''bytes='' @ dec_digits 5 @ ''-'' @ dec_digits 200)) 100 = Parcial 5 99"
  using http_range_exact [of 100 5 200] by simp

end
