(* ===== verification/Export_Queue.thy ===== *)
theory Export_Queue
  imports Access_Control Env_Settings
begin

text \<open>
  Exports of an interval as jobs: \<open>jobs/helpers/range-export-job.helper.ts\<close> (identity, progress,
  recovery of orphans) and the operations of \<open>recordings/recordings.service.ts\<close> that enqueue an
  export and recover the orphans. The queue is BullMQ, which is not in the repository: a record
  of its operations over an abstract state, with what its documentation says of them as
  \<open>bull_ok\<close>. \<open>sha\<close> is the first half of the hexadecimal SHA-256 of a text. Instants and attempts
  are whole numbers, \<open>None\<close> when absent or not finite; the clock is an argument. Warnings and the
  texts of the log are left out.
\<close>

section \<open>Identity\<close>

datatype export_profile = AutoProfile | CompatibleProfile

record export_identity =
  ei_cameraId :: string
  ei_fromMs :: int
  ei_toMs :: int
  ei_profile :: export_profile

datatype identity_error = MissingCameraId | InvalidDate

fun profile_text :: "export_profile \<Rightarrow> string" where
  "profile_text AutoProfile = ''auto''"
| "profile_text CompatibleProfile = ''compatible''"

definition normalizeRangeExportIdentity ::
  "string option \<Rightarrow> instant \<Rightarrow> instant \<Rightarrow> string option \<Rightarrow> identity_error + export_identity" where
  "normalizeRangeExportIdentity rawCameraId fromDate toDate profile =
     (let cameraId = js_trim (or_empty rawCameraId)
      in if cameraId = [] then Inl MissingCameraId
         else (case (toMs fromDate, toMs toDate) of
             (Some f, Some t) \<Rightarrow> Inr \<lparr>ei_cameraId = cameraId, ei_fromMs = f, ei_toMs = t,
                ei_profile = (if profile = Some ''compatible'' then CompatibleProfile else AutoProfile)\<rparr>
           | _ \<Rightarrow> Inl InvalidDate))"

definition canonical :: "export_identity \<Rightarrow> string" where
  "canonical i = js_join ''|'' [ei_cameraId i, int_dec (ei_fromMs i), int_dec (ei_toMs i), profile_text (ei_profile i)]"

definition identityKey :: "(string \<Rightarrow> string) \<Rightarrow> export_identity \<Rightarrow> string" where
  "identityKey sha i = sha (canonical i)"

definition buildRangeExportJobId :: "(string \<Rightarrow> string) \<Rightarrow> export_identity \<Rightarrow> string" where
  "buildRangeExportJobId sha i = ''rex-'' @ identityKey sha i"

definition buildRangeExportFileName :: "(string \<Rightarrow> string) \<Rightarrow> export_identity \<Rightarrow> string" where
  "buildRangeExportFileName sha i = ''range-'' @ identityKey sha i @ ''.mp4''"

section \<open>Progress\<close>

datatype export_step = Queued | Planning | Copying | Encoding | Validating | Hashing | Done

fun STEP_PERCENT :: "export_step \<Rightarrow> nat" where
  "STEP_PERCENT Queued = 0"
| "STEP_PERCENT Planning = 5"
| "STEP_PERCENT Copying = 20"
| "STEP_PERCENT Encoding = 40"
| "STEP_PERCENT Validating = 75"
| "STEP_PERCENT Hashing = 90"
| "STEP_PERCENT Done = 100"

definition rangeExportProgress :: "export_step \<Rightarrow> export_step \<times> nat" where
  "rangeExportProgress s = (s, STEP_PERCENT s)"

section \<open>Orphans\<close>

record active_job =
  aj_id :: string
  aj_processedOn :: "int option"
  aj_heartbeatAt :: "int option"
  aj_attemptsMade :: "int option"

datatype orphan_action = Keep | Requeue | Abandon
datatype orphan_reason = RecentHeartbeat | AttemptsSpent int int | NoHeartbeat | HeartbeatExpired

record orphan_decision =
  od_id :: string
  od_action :: orphan_action
  od_reason :: orphan_reason
  od_staleForMs :: "int option"

record orphan_options =
  oo_now :: "int option"
  oo_staleAfterMs :: "int option"
  oo_maxAttempts :: "int option"

definition DEFAULT_STALE_AFTER_MS :: int where "DEFAULT_STALE_AFTER_MS = 10 * 60000"
definition DEFAULT_MAX_ATTEMPTS :: int where "DEFAULT_MAX_ATTEMPTS = 3"

definition else_default :: "'a option \<Rightarrow> 'a \<Rightarrow> 'a" where
  "else_default x d = (case x of None \<Rightarrow> d | Some v \<Rightarrow> v)"

text \<open>The decision for one job; a stale time of \<open>None\<close> is \<open>Infinity\<close>.\<close>

definition orphanDecision :: "int \<Rightarrow> int \<Rightarrow> int \<Rightarrow> active_job \<Rightarrow> orphan_decision" where
  "orphanDecision nowMs staleAfterMs maxAttempts job =
     (let heartbeat = (case aj_heartbeatAt job of Some h \<Rightarrow> Some h | None \<Rightarrow> aj_processedOn job);
          staleFor = map_option (\<lambda>h. max 0 (nowMs - h)) heartbeat;
          attempts = max 0 (else_default (aj_attemptsMade job) 0)
      in if (case staleFor of None \<Rightarrow> False | Some s \<Rightarrow> s \<le> staleAfterMs)
         then \<lparr>od_id = aj_id job, od_action = Keep, od_reason = RecentHeartbeat, od_staleForMs = staleFor\<rparr>
         else if attempts + 1 \<ge> maxAttempts
         then \<lparr>od_id = aj_id job, od_action = Abandon, od_reason = AttemptsSpent attempts maxAttempts, od_staleForMs = staleFor\<rparr>
         else \<lparr>od_id = aj_id job, od_action = Requeue,
                od_reason = (if heartbeat = None then NoHeartbeat else HeartbeatExpired), od_staleForMs = staleFor\<rparr>)"

definition planOrphanRecovery :: "int \<Rightarrow> active_job list \<Rightarrow> orphan_options \<Rightarrow> orphan_decision list" where
  "planOrphanRecovery clockMs jobs options =
     map (orphanDecision (else_default (oo_now options) clockMs)
       (max 0 (else_default (oo_staleAfterMs options) DEFAULT_STALE_AFTER_MS))
       (max 1 (else_default (oo_maxAttempts options) DEFAULT_MAX_ATTEMPTS))) jobs"

section \<open>The queue\<close>

record export_data =
  xd_cameraId :: string
  xd_from :: string
  xd_to :: string
  xd_profile :: export_profile
  xd_reason :: string
  xd_label :: "string option"
  xd_requestedByUserId :: string

record job =
  jb_id :: string
  jb_name :: "string option"
  jb_data :: export_data
  jb_processedOn :: "int option"
  jb_progressAt :: "int option"
  jb_attemptsMade :: "int option"

text \<open>The operations the code uses: the job of an id, the active ones, whether a worker holds the lock
  of one, removing one (\<open>None\<close> when it throws) and adding one under an id.\<close>

record 'q bull =
  bq_job :: "'q \<Rightarrow> string \<Rightarrow> job option"
  bq_active :: "'q \<Rightarrow> job list"
  bq_locked :: "'q \<Rightarrow> string \<Rightarrow> bool"
  bq_remove :: "'q \<Rightarrow> string \<Rightarrow> 'q option"
  bq_add :: "'q \<Rightarrow> string \<Rightarrow> string \<Rightarrow> export_data \<Rightarrow> 'q"

definition RANGE_EXPORT_JOB_NAME :: string where "RANGE_EXPORT_JOB_NAME = ''export-range''"

definition fresh_job :: "string \<Rightarrow> string \<Rightarrow> export_data \<Rightarrow> job" where
  "fresh_job nm i d = \<lparr>jb_id = i, jb_name = Some nm, jb_data = d, jb_processedOn = None, jb_progressAt = None, jb_attemptsMade = Some 0\<rparr>"

definition upto_id :: "'q bull \<Rightarrow> 'q \<Rightarrow> 'q \<Rightarrow> string \<Rightarrow> bool" where
  "upto_id b q q' i \<longleftrightarrow> (\<forall>k. k \<noteq> i \<longrightarrow> bq_job b q' k = bq_job b q k \<and> bq_locked b q' k = bq_locked b q k)"

text \<open>What the documentation of BullMQ promises: an id names one job; adding under an id that exists
  changes nothing, under a new one it makes a job with no attempts; removing fails exactly when a
  worker holds the lock, and takes one job out.\<close>

definition bull_ok :: "'q bull \<Rightarrow> bool" where
  "bull_ok b \<longleftrightarrow>
     (\<forall>q i nm d. bq_job b q i \<noteq> None \<longrightarrow> bq_add b q nm i d = q) \<and>
     (\<forall>q i nm d. bq_job b q i = None \<longrightarrow> bq_job b (bq_add b q nm i d) i = Some (fresh_job nm i d) \<and> upto_id b q (bq_add b q nm i d) i) \<and>
     (\<forall>q i. bq_remove b q i = None \<longleftrightarrow> bq_locked b q i) \<and>
     (\<forall>q i q'. bq_remove b q i = Some q' \<longrightarrow> bq_job b q' i = None \<and> upto_id b q q' i) \<and>
     (\<forall>q j. j \<in> set (bq_active b q) \<longrightarrow> bq_job b q (jb_id j) = Some j) \<and>
     (\<forall>q. distinct (map jb_id (bq_active b q)))"

section \<open>Enqueuing\<close>

datatype enqueue_error = BadIdentity identity_error | EmptyRange | RangeTooLong | ExportDenied
datatype enqueue_result = AlreadyDone string | EnqueuedAs string

record export_env =
  xe_maxHours :: "string option"
  xe_staleMs :: "string option"
  xe_maxAttempts :: "string option"
  xe_clockMs :: int

definition rangeExportMaxHours :: "export_env \<Rightarrow> rat" where
  "rangeExportMaxHours env = fst (envNumber (xe_maxHours env) 6 \<lparr>opt_min = Some 1, opt_max = Some 72, opt_integer = False\<rparr>)"

record export_params =
  ep_cameraId :: "string option"
  ep_from :: instant
  ep_to :: instant
  ep_profile :: "string option"
  ep_reason :: string
  ep_label :: "string option"

text \<open>\<open>ready\<close> tells whether the file of an identity is in the table of clips and on the disk.\<close>

definition enqueueCameraRangeExport ::
  "'q bull \<Rightarrow> (string \<Rightarrow> string) \<Rightarrow> export_env \<Rightarrow> (export_identity \<Rightarrow> bool) \<Rightarrow> db \<Rightarrow> auth_user \<Rightarrow> export_params \<Rightarrow> 'q \<Rightarrow>
   'q \<times> (enqueue_error + enqueue_result)" where
  "enqueueCameraRangeExport b sha env ready db user params q =
     (case normalizeRangeExportIdentity (ep_cameraId params) (ep_from params) (ep_to params) (ep_profile params) of
        Inl e \<Rightarrow> (q, Inl (BadIdentity e))
      | Inr i \<Rightarrow>
          if ei_toMs i \<le> ei_fromMs i then (q, Inl EmptyRange)
          else if of_int (ei_toMs i - ei_fromMs i) > rangeExportMaxHours env * 60 * 60000 then (q, Inl RangeTooLong)
          else (case assertCanPlaybackCamera db user (ei_cameraId i) of Inl _ \<Rightarrow> (q, Inl ExportDenied)
          | Inr _ \<Rightarrow>
              let jobId = buildRangeExportJobId sha i
              in if ready i then (q, Inr (AlreadyDone jobId))
                 else (bq_add b q RANGE_EXPORT_JOB_NAME jobId \<lparr>xd_cameraId = ei_cameraId i, xd_from = toISOString (ei_fromMs i),
                         xd_to = toISOString (ei_toMs i), xd_profile = ei_profile i, xd_reason = ep_reason params,
                         xd_label = ep_label params, xd_requestedByUserId = u_id user\<rparr>,
                       Inr (EnqueuedAs jobId))))"

section \<open>Recovering orphans\<close>

record recovery_counts =
  rc_requeued :: nat
  rc_abandoned :: nat
  rc_kept :: nat
  rc_skipped :: nat

definition viewOf :: "job \<Rightarrow> active_job" where
  "viewOf j = \<lparr>aj_id = jb_id j, aj_processedOn = jb_processedOn j, aj_heartbeatAt = jb_progressAt j,
     aj_attemptsMade = Some (else_default (jb_attemptsMade j) 0)\<rparr>"

definition orphanOptions :: "export_env \<Rightarrow> orphan_options" where
  "orphanOptions env = \<lparr>oo_now = Some (xe_clockMs env),
     oo_staleAfterMs = Some \<lfloor>fst (envNumber (xe_staleMs env) 600000 \<lparr>opt_min = Some 60000, opt_max = Some 21600000, opt_integer = True\<rparr>)\<rfloor>,
     oo_maxAttempts = Some \<lfloor>fst (envNumber (xe_maxAttempts env) 3 \<lparr>opt_min = Some 1, opt_max = Some 10, opt_integer = True\<rparr>)\<rfloor>\<rparr>"

text \<open>The loop over the decisions, with the jobs the scan found.\<close>

fun recoverEach :: "'q bull \<Rightarrow> job list \<Rightarrow> orphan_decision list \<Rightarrow> 'q \<times> recovery_counts \<Rightarrow> 'q \<times> recovery_counts" where
  "recoverEach b jobs [] st = st"
| "recoverEach b jobs (d # ds) (q, n) =
     (case find (\<lambda>j. jb_id j = od_id d) jobs of
        None \<Rightarrow> recoverEach b jobs ds (q, n)
      | Some j \<Rightarrow>
          if od_action d = Keep then recoverEach b jobs ds (q, n\<lparr>rc_kept := Suc (rc_kept n)\<rparr>)
          else (case bq_remove b q (jb_id j) of
             None \<Rightarrow> recoverEach b jobs ds (q, n\<lparr>rc_skipped := Suc (rc_skipped n)\<rparr>)
           | Some q' \<Rightarrow>
               if od_action d = Requeue
               then recoverEach b jobs ds (bq_add b q' RANGE_EXPORT_JOB_NAME (od_id d) (jb_data j), n\<lparr>rc_requeued := Suc (rc_requeued n)\<rparr>)
               else recoverEach b jobs ds (q', n\<lparr>rc_abandoned := Suc (rc_abandoned n)\<rparr>)))"

definition scanned :: "'q bull \<Rightarrow> 'q \<Rightarrow> job list" where
  "scanned b q = filter (\<lambda>j. or_empty (jb_name j) = [] \<or> jb_name j = Some RANGE_EXPORT_JOB_NAME) (bq_active b q)"

definition recoverOrphanRangeExports :: "'q bull \<Rightarrow> export_env \<Rightarrow> 'q \<Rightarrow> 'q \<times> recovery_counts" where
  "recoverOrphanRangeExports b env q =
     (let jobs = scanned b q; decisions = planOrphanRecovery (xe_clockMs env) (map viewOf jobs) (orphanOptions env)
      in recoverEach b jobs decisions (q, \<lparr>rc_requeued = 0, rc_abandoned = 0, rc_kept = 0, rc_skipped = 0\<rparr>))"

end
