(* ===== verification/Export_Queue_Properties.thy ===== *)
theory Export_Queue_Properties
  imports Export_Queue
begin

text \<open>
  The export queue (\<open>Export_Queue\<close>): requests have the same job exactly when they ask for the same,
  what the recovery of orphans does to every job, that it forgets how often one has failed, and
  that a request whose job is still kept queues nothing.
\<close>

section \<open>Identity\<close>

lemma last_separator:
  assumes "c \<notin> set x" "c \<notin> set y"
  shows "a @ c # x = b @ c # y \<longleftrightarrow> a = b \<and> x = y"
proof
  assume eq: "a @ c # x = b @ c # y"
  have cut: "takeWhile (\<lambda>d. d \<noteq> c) (rev s @ c # r) = rev s" if "c \<notin> set s" for s r
    using that by (induction s arbitrary: r rule: rev_induct) auto
  have "rev x @ c # rev a = rev y @ c # rev b" using arg_cong [OF eq, of rev] by simp
  then have "rev x = rev y" by (metis cut assms)
  then show "a = b \<and> x = y" using eq by simp
qed simp

lemma int_dec_no_bar: "CHR ''|'' \<notin> set (int_dec i)"
  using dec_digits_are_digits by (auto simp: int_dec_def is_digit_def) fastforce+

lemma int_dec_inj: "int_dec i = int_dec j \<longleftrightarrow> i = j"
proof
  assume eq: "int_dec i = int_dec j"
  have digit: "hd (dec_digits n) \<noteq> CHR ''-''" for n
    using dec_digits_are_digits [of "hd (dec_digits n)" n] by (auto simp: is_digit_def)
  then have minus: "dec_digits n \<noteq> CHR ''-'' # dec_digits m" for n m by (metis list.sel(1))
  show "i = j" using eq minus minus [symmetric] dec_digits_inj [of "nat (- i)" "nat (- j)"] dec_digits_inj [of "nat i" "nat j"]
    by (auto simp: int_dec_def split: if_splits)
qed simp

text \<open>(one job per request). Two requests have the same canonical text, of which the id of the
  job and the name of the file are made, exactly when they ask for the same camera, interval and
  profile.\<close>

theorem export_identity_exact:
  "canonical i = canonical j \<longleftrightarrow> i = (j :: export_identity)"
proof
  assume eq: "canonical i = canonical j"
  have p: "CHR ''|'' \<notin> set (profile_text q)" "profile_text q = profile_text r \<longleftrightarrow> q = r" for q r
    by (cases q; cases r; simp)+
  from eq have "ei_cameraId i = ei_cameraId j \<and> int_dec (ei_fromMs i) = int_dec (ei_fromMs j) \<and>
      int_dec (ei_toMs i) = int_dec (ei_toMs j) \<and> profile_text (ei_profile i) = profile_text (ei_profile j)"
    using last_separator [OF p(1) p(1), of "ei_cameraId i @ CHR ''|'' # int_dec (ei_fromMs i) @ CHR ''|'' # int_dec (ei_toMs i)"
        "ei_profile i" "ei_cameraId j @ CHR ''|'' # int_dec (ei_fromMs j) @ CHR ''|'' # int_dec (ei_toMs j)" "ei_profile j"]
      last_separator [OF int_dec_no_bar int_dec_no_bar, of "ei_cameraId i @ CHR ''|'' # int_dec (ei_fromMs i)" "ei_toMs i"
        "ei_cameraId j @ CHR ''|'' # int_dec (ei_fromMs j)" "ei_toMs j"]
      last_separator [OF int_dec_no_bar int_dec_no_bar, of "ei_cameraId i" "ei_fromMs i" "ei_cameraId j" "ei_fromMs j"]
    by (simp add: canonical_def)
  then show "i = j" by (simp add: int_dec_inj p(2))
qed simp

section \<open>Recovery\<close>

lemma bull_add:
  assumes "bull_ok b"
  shows "bq_job b q i \<noteq> None \<Longrightarrow> bq_add b q nm i d = q"
    "bq_job b q i = None \<Longrightarrow> bq_job b (bq_add b q nm i d) i = Some (fresh_job nm i d)"
    "upto_id b q (bq_add b q nm i d) i"
  using assms unfolding bull_ok_def by (blast, blast, cases "bq_job b q i") (auto simp: upto_id_def)

lemma bull_remove:
  assumes "bull_ok b" "bq_remove b q i = Some q'"
  shows "bq_job b q' i = None" "upto_id b q q' i"
  using assms unfolding bull_ok_def by blast+

lemma bull_locked: "bull_ok b \<Longrightarrow> bq_remove b q i = None \<longleftrightarrow> bq_locked b q i"
  unfolding bull_ok_def by blast

lemma upto_id_trans: "upto_id b q q1 i \<Longrightarrow> upto_id b q1 q2 i \<Longrightarrow> upto_id b q q2 i"
  by (simp add: upto_id_def)

lemma upto_idD: "upto_id b q q' i \<Longrightarrow> k \<noteq> i \<Longrightarrow> bq_job b q' k = bq_job b q k \<and> bq_locked b q' k = bq_locked b q k"
  by (simp add: upto_id_def)

text \<open>What becomes of the job of an id after the decision on it.\<close>

definition recovered :: "orphan_action \<Rightarrow> bool \<Rightarrow> job \<Rightarrow> job option" where
  "recovered a locked j =
     (if a = Keep \<or> locked then Some j
      else if a = Requeue then Some (fresh_job RANGE_EXPORT_JOB_NAME (jb_id j) (jb_data j)) else None)"

lemma recoverEach_one:
  assumes "bull_ok b" "find (\<lambda>j. jb_id j = od_id d) jobs = Some j" "bq_job b q (jb_id j) = Some j"
  obtains q' n' where "recoverEach b jobs (d # ds) (q, n) = recoverEach b jobs ds (q', n')"
    "bq_job b q' (jb_id j) = recovered (od_action d) (bq_locked b q (jb_id j)) j" "upto_id b q q' (jb_id j)"
proof -
  have id: "jb_id j = od_id d" using find_Some_mem [OF assms(2)] by simp
  show ?thesis
  proof (cases "od_action d = Keep")
    case True
    then show ?thesis using assms(2,3) by (intro that [of q]) (auto simp: recovered_def upto_id_def)
  next
    case keep: False
    show ?thesis
    proof (cases "bq_remove b q (jb_id j)")
      case None
      then show ?thesis using assms keep bull_locked [OF assms(1), of q "jb_id j"]
        by (intro that [of q]) (auto simp: recovered_def upto_id_def)
    next
      case (Some q1)
      note gone = bull_remove [OF assms(1) Some]
      have "\<not> bq_locked b q (jb_id j)" using Some bull_locked [OF assms(1), of q "jb_id j"] by auto
      note rec = keep this Some assms(2)
      show ?thesis
      proof (cases "od_action d = Requeue")
        case True
        let ?q = "bq_add b q1 RANGE_EXPORT_JOB_NAME (od_id d) (jb_data j)"
        show ?thesis
        proof (rule that)
          show "recoverEach b jobs (d # ds) (q, n) = recoverEach b jobs ds (?q, n\<lparr>rc_requeued := Suc (rc_requeued n)\<rparr>)"
            using rec True by simp
          show "bq_job b ?q (jb_id j) = recovered (od_action d) (bq_locked b q (jb_id j)) j"
            using bull_add(2) [OF assms(1) gone(1)] rec True id by (simp add: recovered_def)
          show "upto_id b q ?q (jb_id j)" using upto_id_trans [OF gone(2) bull_add(3) [OF assms(1)]] id by simp
        qed
      next
        case False
        then have "recoverEach b jobs (d # ds) (q, n) = recoverEach b jobs ds (q1, n\<lparr>rc_abandoned := Suc (rc_abandoned n)\<rparr>)"
          using rec by simp
        then show ?thesis using gone rec False by (intro that) (auto simp: recovered_def)
      qed
    qed
  qed
qed

lemma recoverEach_all:
  assumes "bull_ok b" "distinct (map od_id ds)"
    "\<forall>d\<in>set ds. \<exists>j. find (\<lambda>j. jb_id j = od_id d) jobs = Some j \<and> bq_job b q (od_id d) = Some j"
  shows "(\<forall>d\<in>set ds. \<forall>j. find (\<lambda>j. jb_id j = od_id d) jobs = Some j \<longrightarrow>
      bq_job b (fst (recoverEach b jobs ds (q, n))) (od_id d) = recovered (od_action d) (bq_locked b q (od_id d)) j) \<and>
    (\<forall>k. k \<notin> od_id ` set ds \<longrightarrow> bq_job b (fst (recoverEach b jobs ds (q, n))) k = bq_job b q k)"
  using assms(2,3)
proof (induction ds arbitrary: q n)
  case (Cons d ds)
  obtain j where j: "find (\<lambda>j. jb_id j = od_id d) jobs = Some j" "bq_job b q (od_id d) = Some j" using Cons.prems(2) by auto
  have id: "jb_id j = od_id d" using find_Some_mem [OF j(1)] by simp
  obtain q' n' where step: "recoverEach b jobs (d # ds) (q, n) = recoverEach b jobs ds (q', n')"
    "bq_job b q' (od_id d) = recovered (od_action d) (bq_locked b q (od_id d)) j" "upto_id b q q' (od_id d)"
    by (rule recoverEach_one [OF assms(1) j(1), of q ds n]) (use j(2) id in auto)
  have other: "od_id e \<noteq> od_id d" if "e \<in> set ds" for e using Cons.prems(1) that by (auto simp: image_iff)
  note frame = upto_idD [OF step(3)]
  have "\<forall>e\<in>set ds. \<exists>j. find (\<lambda>j. jb_id j = od_id e) jobs = Some j \<and> bq_job b q' (od_id e) = Some j"
    using Cons.prems(2) other frame by auto
  note ih = Cons.IH [OF _ this, of n']
  show ?case unfolding step(1) using ih Cons.prems(1) step(2) j frame other by auto
qed simp

lemma scanned_decisions:
  assumes "bull_ok b" "j \<in> set (scanned b q)"
  shows "find (\<lambda>x. jb_id x = jb_id j) (scanned b q) = Some j \<and> bq_job b q (jb_id j) = Some j"
proof -
  have "distinct (map jb_id (bq_active b q))" using assms(1) unfolding bull_ok_def by blast
  then have "distinct (map jb_id (scanned b q))" by (simp add: scanned_def distinct_map_filter)
  moreover have "bq_job b q (jb_id j) = Some j" using assms unfolding bull_ok_def scanned_def by auto
  ultimately show ?thesis using assms(2) find_unique_key [of jb_id "scanned b q" j] by auto
qed

text \<open>The decision on a job in an environment.\<close>

definition decisionOn :: "export_env \<Rightarrow> job \<Rightarrow> orphan_decision" where
  "decisionOn env j = hd (planOrphanRecovery (xe_clockMs env) [viewOf j] (orphanOptions env))"

lemma decisionOn_plan: "planOrphanRecovery (xe_clockMs env) (map viewOf js) (orphanOptions env) = map (decisionOn env) js"
  by (simp add: planOrphanRecovery_def decisionOn_def)

lemma decisionOn_id [simp]: "od_id (decisionOn env j) = jb_id j"
  by (simp add: decisionOn_def planOrphanRecovery_def orphanDecision_def Let_def viewOf_def)

lemma recovery_each:
  assumes "bull_ok b"
  shows "(\<forall>j\<in>set (scanned b q). bq_job b (fst (recoverOrphanRangeExports b env q)) (jb_id j) =
      recovered (od_action (decisionOn env j)) (bq_locked b q (jb_id j)) j) \<and>
    (\<forall>k. k \<notin> jb_id ` set (scanned b q) \<longrightarrow> bq_job b (fst (recoverOrphanRangeExports b env q)) k = bq_job b q k)"
proof -
  let ?ds = "map (decisionOn env) (scanned b q)"
  have "distinct (map jb_id (bq_active b q))" using assms unfolding bull_ok_def by blast
  then have "distinct (map od_id ?ds)" by (simp add: scanned_def distinct_map_filter comp_def)
  moreover have "\<forall>d\<in>set ?ds. \<exists>j. find (\<lambda>j. jb_id j = od_id d) (scanned b q) = Some j \<and> bq_job b q (od_id d) = Some j"
    using scanned_decisions [OF assms] by auto
  ultimately show ?thesis
    using recoverEach_all [OF assms, of ?ds "scanned b q" q] scanned_decisions [OF assms]
    unfolding recoverOrphanRangeExports_def Let_def decisionOn_plan by (auto simp: image_image)
qed

text \<open>(what the recovery does to every job). A scanned job with a recent heartbeat or a lock stays
  as it is; another is put back under its id with no attempts while it has attempts left, and taken
  out when it has none; nothing else is touched.\<close>

theorem orphan_recovery_exact:
  assumes "bull_ok b"
  shows "(\<forall>j\<in>set (scanned b q). bq_job b (fst (recoverOrphanRangeExports b env q)) (jb_id j) =
      recovered (od_action (decisionOn env j)) (bq_locked b q (jb_id j)) j) \<and>
    (\<forall>k. k \<notin> jb_id ` set (scanned b q) \<longrightarrow> bq_job b (fst (recoverOrphanRangeExports b env q)) k = bq_job b q k)"
  by (rule recovery_each [OF assms])

section \<open>A job that brings its process down\<close>

text \<open>After every crash the job of the id is active again, without a lock, with the attempts it had,
  and its heartbeat is too old to be kept.\<close>

definition crashes_on :: "'q bull \<Rightarrow> export_env \<Rightarrow> string \<Rightarrow> ('q \<Rightarrow> 'q) \<Rightarrow> bool" where
  "crashes_on b env i crash \<longleftrightarrow> (\<forall>q j. bq_job b q i = Some j \<longrightarrow>
     (\<exists>j'\<in>set (scanned b (crash q)). jb_id j' = i \<and> jb_data j' = jb_data j \<and> jb_attemptsMade j' = jb_attemptsMade j \<and>
        \<not> bq_locked b (crash q) i \<and> od_action (decisionOn env j') \<noteq> Keep))"

definition maxAttempts :: "export_env \<Rightarrow> int" where
  "maxAttempts env = max 1 (else_default (oo_maxAttempts (orphanOptions env)) DEFAULT_MAX_ATTEMPTS)"

lemma decisionOn_requeue:
  assumes "od_action (decisionOn env j) \<noteq> Keep" "jb_attemptsMade j = Some 0" "2 \<le> maxAttempts env"
  shows "od_action (decisionOn env j) = Requeue"
  using assms by (auto simp: decisionOn_def planOrphanRecovery_def orphanDecision_def Let_def viewOf_def maxAttempts_def
      else_default_def split: if_splits option.splits)

lemma crash_round:
  assumes "bull_ok b" "crashes_on b env i crash" "2 \<le> maxAttempts env" "bq_job b q i = Some j" "jb_attemptsMade j = Some 0"
  shows "bq_job b (fst (recoverOrphanRangeExports b env (crash q))) i = Some (fresh_job RANGE_EXPORT_JOB_NAME i (jb_data j))"
proof -
  obtain j' where j': "j' \<in> set (scanned b (crash q))" "jb_id j' = i" "jb_data j' = jb_data j" "jb_attemptsMade j' = Some 0"
    "\<not> bq_locked b (crash q) i" "od_action (decisionOn env j') \<noteq> Keep"
    using assms(2,4,5) unfolding crashes_on_def by metis
  have "od_action (decisionOn env j') = Requeue" by (rule decisionOn_requeue [OF j'(6,4) assms(3)])
  then show ?thesis using recovery_each [OF assms(1), of "crash q" env] j'(1,2,3,5) by (auto simp: recovered_def)
qed

text \<open>(a job that kills its process is never given up). Under the default settings, and under any
  that allow two attempts, an export that brings the process down each time is put back as a new
  job with no attempts: however often it happens, the count never reaches the limit at which the
  recovery would take it out.\<close>

theorem orphan_crash_loop:
  assumes "bull_ok b" "crashes_on b env i crash" "2 \<le> maxAttempts env" "bq_job b q i = Some j" "jb_attemptsMade j = Some 0"
  shows "bq_job b (((\<lambda>q. fst (recoverOrphanRangeExports b env (crash q))) ^^ Suc n) q) i =
    Some (fresh_job RANGE_EXPORT_JOB_NAME i (jb_data j))"
proof (induction n)
  case 0
  then show ?case using crash_round [OF assms] by simp
next
  case (Suc n)
  have "jb_attemptsMade (fresh_job nm k d) = Some 0" "jb_data (fresh_job nm k d) = d" for nm k d by (simp_all add: fresh_job_def)
  then show ?case using crash_round [OF assms(1-3) Suc] by simp
qed

section \<open>Enqueuing\<close>

text \<open>C27 (what a request does to the queue). It is answered as queued exactly when its identity is
  valid, the interval is not empty nor too long, the user may play the camera back and there is no
  file yet; then the job of that id is the one that was there, whatever its state, or a new one
  with the data of the request. A job that failed and is still kept is therefore not tried again.
  No other answer and no other job changes.\<close>

theorem export_enqueue_exact:
  assumes "bull_ok b" "enqueueCameraRangeExport b sha env ready db user params q = (q', r)"
  shows "(r = Inr (EnqueuedAs k) \<longleftrightarrow>
      (\<exists>i. normalizeRangeExportIdentity (ep_cameraId params) (ep_from params) (ep_to params) (ep_profile params) = Inr i \<and>
         ei_fromMs i < ei_toMs i \<and> of_int (ei_toMs i - ei_fromMs i) \<le> rangeExportMaxHours env * 60 * 60000 \<and>
         canPlaybackCamera db user (ei_cameraId i) \<and> \<not> ready i \<and> k = buildRangeExportJobId sha i)) \<and>
    (r = Inr (EnqueuedAs k) \<longrightarrow> upto_id b q q' k \<and>
       (case bq_job b q k of Some j \<Rightarrow> q' = q
        | None \<Rightarrow> \<exists>d. bq_job b q' k = Some (fresh_job RANGE_EXPORT_JOB_NAME k d) \<and> xd_requestedByUserId d = u_id user)) \<and>
    ((\<forall>k. r \<noteq> Inr (EnqueuedAs k)) \<longrightarrow> q' = q)"
proof (cases "normalizeRangeExportIdentity (ep_cameraId params) (ep_from params) (ep_to params) (ep_profile params)")
  case (Inl e)
  then show ?thesis using assms(2) by (auto simp: enqueueCameraRangeExport_def)
next
  case (Inr i)
  have gate: "assertCanPlaybackCamera db user c = (if canPlaybackCamera db user c then Inr () else Inl Forbidden)" for c
    by (simp add: assertCanPlaybackCamera_def assert_that_def)
  let ?k = "buildRangeExportJobId sha i"
  let ?go = "ei_fromMs i < ei_toMs i \<and> of_int (ei_toMs i - ei_fromMs i) \<le> rangeExportMaxHours env * 60 * 60000 \<and>
    canPlaybackCamera db user (ei_cameraId i) \<and> \<not> ready i"
  show ?thesis
  proof (cases ?go)
    case True
    then obtain d where d: "q' = bq_add b q RANGE_EXPORT_JOB_NAME ?k d" "r = Inr (EnqueuedAs ?k)" "xd_requestedByUserId d = u_id user"
      using assms(2) Inr by (auto simp: enqueueCameraRangeExport_def gate Let_def simp del: of_int_diff)
    have add: "upto_id b q q' ?k" "bq_job b q ?k \<noteq> None \<Longrightarrow> q' = q"
      "bq_job b q ?k = None \<Longrightarrow> bq_job b q' ?k = Some (fresh_job RANGE_EXPORT_JOB_NAME ?k d)"
      unfolding d(1) by (rule bull_add [OF assms(1)]; assumption)+
    show ?thesis using True Inr d(2,3) add by (auto split: option.split)
  next
    case False
    then have "q' = q \<and> (\<forall>k. r \<noteq> Inr (EnqueuedAs k))"
      using assms(2) Inr by (auto simp: enqueueCameraRangeExport_def gate Let_def simp del: of_int_diff split: if_splits)
    then show ?thesis using False Inr by auto
  qed
qed

section \<open>A queue in memory\<close>

text \<open>A queue for the witnesses: the jobs by id, each with whether it is active and locked.\<close>

type_synonym mem_queue = "(string \<times> job \<times> bool \<times> bool) list"

definition mem_job :: "mem_queue \<Rightarrow> string \<Rightarrow> job option" where
  "mem_job q i = map_option (\<lambda>(j, _). j\<lparr>jb_id := i\<rparr>) (map_of q i)"

definition mem_active :: "mem_queue \<Rightarrow> job list" where
  "mem_active q = map (\<lambda>(i, j, _). j\<lparr>jb_id := i\<rparr>) (filter (\<lambda>(_, _, a, _). a) (AList.clearjunk q))"

definition mem_locked :: "mem_queue \<Rightarrow> string \<Rightarrow> bool" where
  "mem_locked q i = (case map_of q i of Some (_, _, l) \<Rightarrow> l | None \<Rightarrow> False)"

definition mem_bull :: "mem_queue bull" where
  "mem_bull = \<lparr>bq_job = mem_job, bq_active = mem_active, bq_locked = mem_locked,
     bq_remove = (\<lambda>q i. if mem_locked q i then None else Some (AList.delete i q)),
     bq_add = (\<lambda>q nm i d. if map_of q i = None then (i, fresh_job nm i d, False, False) # q else q)\<rparr>"

lemma mem_active_job: "j \<in> set (mem_active q) \<Longrightarrow> mem_job q (jb_id j) = Some j"
proof -
  assume "j \<in> set (mem_active q)"
  then obtain i x a l where x: "(i, x, a, l) \<in> set (AList.clearjunk q)" "j = x\<lparr>jb_id := i\<rparr>" by (auto simp: mem_active_def)
  then have "map_of (AList.clearjunk q) i = Some (x, a, l)" by (simp add: map_of_is_SomeI)
  then show ?thesis by (simp add: mem_job_def x(2) map_of_clearjunk)
qed

lemma mem_active_distinct: "distinct (map jb_id (mem_active q))"
proof -
  have "map jb_id (mem_active q) = map fst (filter (\<lambda>(_, _, a, _). a) (AList.clearjunk q))"
    by (simp add: mem_active_def case_prod_beta comp_def)
  then show ?thesis by (simp add: distinct_map_filter)
qed

lemma mem_bull_ok: "bull_ok mem_bull"
  unfolding bull_ok_def mem_bull_def
  using mem_active_job mem_active_distinct
  by (auto simp: mem_job_def mem_locked_def upto_id_def fresh_job_def delete_conv' split: if_splits)

definition sample_data :: export_data where
  "sample_data = \<lparr>xd_cameraId = ''c1'', xd_from = ''f'', xd_to = ''t'', xd_profile = AutoProfile, xd_reason = ''r'',
     xd_label = None, xd_requestedByUserId = ''u1''\<rparr>"

definition sample_export_env :: export_env where
  "sample_export_env = \<lparr>xe_maxHours = None, xe_staleMs = None, xe_maxAttempts = None, xe_clockMs = 9000000\<rparr>"

text \<open>A crash that leaves the job active without a heartbeat or a lock.\<close>

definition mem_crash :: "string \<Rightarrow> mem_queue \<Rightarrow> mem_queue" where
  "mem_crash i q = (case map_of q i of None \<Rightarrow> q
     | Some (j, _) \<Rightarrow> [(i, j\<lparr>jb_name := Some RANGE_EXPORT_JOB_NAME, jb_processedOn := None, jb_progressAt := None\<rparr>, True, False)])"

lemma sample_max: "maxAttempts sample_export_env = 3"
  by (simp add: maxAttempts_def orphanOptions_def sample_export_env_def envNumber_def Let_def else_default_def
      clamp_min_def clamp_max_def truncate_rat_def)

lemma mem_crashes: "crashes_on mem_bull sample_export_env i (mem_crash i)"
  unfolding crashes_on_def
proof (intro allI impI)
  fix q j
  assume "bq_job mem_bull q i = Some j"
  then obtain x a l where x: "map_of q i = Some (x, a, l)" "j = x\<lparr>jb_id := i\<rparr>" by (auto simp: mem_bull_def mem_job_def)
  let ?j = "x\<lparr>jb_id := i, jb_name := Some RANGE_EXPORT_JOB_NAME, jb_processedOn := None, jb_progressAt := None\<rparr>"
  have "?j \<in> set (scanned mem_bull (mem_crash i q))"
    by (simp add: scanned_def mem_bull_def mem_active_def mem_crash_def x(1) clearjunk.simps)
  moreover have "\<not> bq_locked mem_bull (mem_crash i q) i" by (simp add: mem_bull_def mem_locked_def mem_crash_def x(1))
  moreover have "od_action (decisionOn sample_export_env ?j) \<noteq> Keep"
    by (simp add: decisionOn_def planOrphanRecovery_def orphanDecision_def Let_def viewOf_def)
  ultimately show "\<exists>j'\<in>set (scanned mem_bull (mem_crash i q)). jb_id j' = i \<and> jb_data j' = jb_data j \<and>
      jb_attemptsMade j' = jb_attemptsMade j \<and> \<not> bq_locked mem_bull (mem_crash i q) i \<and>
      od_action (decisionOn sample_export_env j') \<noteq> Keep"
    by (intro bexI [of _ ?j]) (simp_all add: x(2))
qed

theorem orphan_crash_loop_witness:
  "bq_job mem_bull (((\<lambda>q. fst (recoverOrphanRangeExports mem_bull sample_export_env (mem_crash ''rex-1'' q))) ^^ Suc 50)
      [(''rex-1'', fresh_job RANGE_EXPORT_JOB_NAME ''rex-1'' sample_data, False, False)]) ''rex-1'' =
    Some (fresh_job RANGE_EXPORT_JOB_NAME ''rex-1'' sample_data)"
proof -
  let ?q = "[(''rex-1'', fresh_job RANGE_EXPORT_JOB_NAME ''rex-1'' sample_data, False, False)]"
  have j: "bq_job mem_bull ?q ''rex-1'' = Some (fresh_job RANGE_EXPORT_JOB_NAME ''rex-1'' sample_data)"
    by (simp add: mem_bull_def mem_job_def fresh_job_def)
  have "jb_attemptsMade (fresh_job RANGE_EXPORT_JOB_NAME ''rex-1'' sample_data) = Some 0"
    "jb_data (fresh_job RANGE_EXPORT_JOB_NAME ''rex-1'' sample_data) = sample_data" by (simp_all add: fresh_job_def)
  then show ?thesis using orphan_crash_loop [OF mem_bull_ok mem_crashes _ j, of 50] by (simp only: sample_max)
qed

theorem orphan_recovery_exact_witness:
  "bq_job mem_bull (fst (recoverOrphanRangeExports mem_bull sample_export_env
      [(''rex-1'', (fresh_job RANGE_EXPORT_JOB_NAME ''rex-1'' sample_data)\<lparr>jb_attemptsMade := Some 2\<rparr>, True, False)])) ''rex-1'' = None"
proof -
  let ?j = "(fresh_job RANGE_EXPORT_JOB_NAME ''rex-1'' sample_data)\<lparr>jb_attemptsMade := Some 2\<rparr>"
  let ?q = "[(''rex-1'', ?j, True, False)]"
  have "?j \<in> set (scanned mem_bull ?q)" "\<not> bq_locked mem_bull ?q ''rex-1''"
    by (simp_all add: scanned_def mem_bull_def mem_active_def mem_locked_def fresh_job_def clearjunk.simps)
  moreover have "od_action (decisionOn sample_export_env ?j) = Abandon"
    using sample_max by (simp add: decisionOn_def planOrphanRecovery_def orphanDecision_def Let_def viewOf_def fresh_job_def
        maxAttempts_def else_default_def)
  ultimately show ?thesis using orphan_recovery_exact [OF mem_bull_ok, of ?q sample_export_env]
    by (auto simp: recovered_def fresh_job_def)
qed

definition sample_params :: export_params where
  "sample_params = \<lparr>ep_cameraId = Some ''c1'', ep_from = At 0, ep_to = At 60000, ep_profile = None, ep_reason = ''r'', ep_label = None\<rparr>"

definition sample_identity :: export_identity where
  "sample_identity = \<lparr>ei_cameraId = ''c1'', ei_fromMs = 0, ei_toMs = 60000, ei_profile = AutoProfile\<rparr>"

text \<open>The job of the request failed three times and is kept: the answer says queued and the queue is
  the same.\<close>

theorem export_enqueue_exact_witness:
  "let k = buildRangeExportJobId (\<lambda>s. s) sample_identity;
       q = [(k, (fresh_job RANGE_EXPORT_JOB_NAME k sample_data)\<lparr>jb_attemptsMade := Some 3\<rparr>, False, False)]
   in enqueueCameraRangeExport mem_bull (\<lambda>s. s) sample_export_env (\<lambda>_. False) sample_db Access_Control.root sample_params q =
        (q, Inr (EnqueuedAs k))"
proof -
  let ?k = "buildRangeExportJobId (\<lambda>s. s) sample_identity"
  let ?q = "[(?k, (fresh_job RANGE_EXPORT_JOB_NAME ?k sample_data)\<lparr>jb_attemptsMade := Some 3\<rparr>, False, False)]"
  obtain q' r where run: "enqueueCameraRangeExport mem_bull (\<lambda>s. s) sample_export_env (\<lambda>_. False) sample_db Access_Control.root sample_params ?q = (q', r)"
    by (cases "enqueueCameraRangeExport mem_bull (\<lambda>s. s) sample_export_env (\<lambda>_. False) sample_db Access_Control.root sample_params ?q")
  note ex = export_enqueue_exact [OF mem_bull_ok run, of ?k]
  have "js_trim ''c1'' = ''c1''" "canPlaybackCamera sample_db Access_Control.root ''c1''" by code_simp+
  then have "r = Inr (EnqueuedAs ?k)"
    using ex by (auto simp: normalizeRangeExportIdentity_def sample_params_def sample_identity_def or_empty_def rangeExportMaxHours_def
        sample_export_env_def envNumber_def clamp_min_def clamp_max_def)
  moreover have "bq_job mem_bull ?q ?k \<noteq> None" by (simp add: mem_bull_def mem_job_def)
  ultimately have "q' = ?q" using ex by (auto split: option.splits)
  with run \<open>r = _\<close> show ?thesis by (simp only: Let_def)
qed

end
