(* ===== verification/Rotation.thy ===== *)
theory Rotation
  imports Prelude Complex_Main "HOL-Library.Sublist"
begin

text \<open>
  \<open>recordings/helpers/rotacao-por-camera.helper.ts\<close> and \<open>retencao-efetiva.helper.ts\<close>: which
  recordings to delete when the disk is full, taken in turns from every camera, and how many days
  a camera keeps. Sizes are whole bytes; a size that is absent or not a number is \<open>None\<close>, a
  number of days that is not finite too. \<open>localeCompare\<close> is the collation key \<open>ck\<close>.
\<close>

section \<open>Rotation\<close>

record candidata =
  rc_id :: string
  rc_cameraId :: string
  rc_startedAt :: int
  rc_sizeBytes :: "int option"
  rc_protegida :: bool

record plano =
  aApagar :: "candidata list"
  bytesEstimados :: int
  camerasSemFolga :: "string list"

definition bytesDe :: "candidata \<Rightarrow> int" where
  "bytesDe x = (case rc_sizeBytes x of None \<Rightarrow> 0 | Some n \<Rightarrow> if n > 0 then n else 0)"

type_synonym filas = "(string \<times> candidata list) list"

definition fila :: "filas \<Rightarrow> string \<Rightarrow> candidata list" where
  "fila fs c = (case map_of fs c of None \<Rightarrow> [] | Some q \<Rightarrow> q)"

fun agrupar :: "candidata list \<Rightarrow> filas \<Rightarrow> filas" where
  "agrupar [] fs = fs"
| "agrupar (x # xs) fs =
     (if rc_protegida x then agrupar xs fs
      else agrupar xs (AList.update (rc_cameraId x) (fila fs (rc_cameraId x) @ [x]) fs))"

definition porCamera :: "candidata list \<Rightarrow> filas" where
  "porCamera candidatas = map (\<lambda>(c, q). (c, sort_key rc_startedAt q)) (agrupar candidatas [])"

definition ordemDasCameras :: "(string \<Rightarrow> 'k::linorder) \<Rightarrow> string list \<Rightarrow> filas \<Rightarrow> string list" where
  "ordemDasCameras ck ativas fs =
     sort_key (\<lambda>c. (if c \<in> set ativas then 0 else 1 :: nat, ck c)) (map fst fs)"

text \<open>One pass of the inner loop: the queues, what to delete, the bytes, and whether it took
  anything.\<close>

fun rodada :: "int \<Rightarrow> string list \<Rightarrow> filas \<times> candidata list \<times> int \<times> bool \<Rightarrow> filas \<times> candidata list \<times> int \<times> bool" where
  "rodada need [] st = st"
| "rodada need (c # cs) (fs, apagar, bytes, pegou) =
     (if bytes \<ge> need then (fs, apagar, bytes, pegou)
      else case fila fs c of
        [] \<Rightarrow> rodada need cs (fs, apagar, bytes, pegou)
      | x # q \<Rightarrow> rodada need cs (AList.update c q fs, apagar @ [x], bytes + bytesDe x, True))"

definition restam :: "string list \<Rightarrow> filas \<Rightarrow> nat" where
  "restam ordem fs = sum_list (map (\<lambda>c. length (fila fs c)) ordem)"

lemma fila_update [simp]: "fila (AList.update c q fs) d = (if d = c then q else fila fs d)"
  by (simp add: fila_def update_conv')

lemma restam_update_le: "length q \<le> length (fila fs c) \<Longrightarrow> restam ordem (AList.update c q fs) \<le> restam ordem fs"
  unfolding restam_def by (rule sum_list_mono) simp

lemma restam_update_less:
  "c \<in> set ordem \<Longrightarrow> length q < length (fila fs c) \<Longrightarrow> restam ordem (AList.update c q fs) < restam ordem fs"
proof (induction ordem)
  case (Cons d ordem)
  have le: "restam ordem (AList.update c q fs) \<le> restam ordem fs"
    using Cons.prems(2) by (intro restam_update_le) simp
  then show ?case using Cons by (cases "d = c") (auto simp: restam_def)
qed simp

lemma rodada_restam_le:
  "rodada need cs (fs, a, b, p) = (fs', a', b', p') \<Longrightarrow> restam ordem fs' \<le> restam ordem fs"
proof (induction cs arbitrary: fs a b p)
  case (Cons c cs)
  show ?case
  proof (cases "fila fs c")
    case (Cons x q)
    then have "restam ordem (AList.update c q fs) \<le> restam ordem fs" by (intro restam_update_le) simp
    then show ?thesis using Cons.prems Cons.IH Cons by (fastforce split: if_splits)
  qed (use Cons in \<open>auto split: if_splits\<close>)
qed simp

lemma rodada_restam_less:
  "rodada need cs (fs, a, b, False) = (fs', a', b', True) \<Longrightarrow> set cs \<subseteq> set ordem \<Longrightarrow> restam ordem fs' < restam ordem fs"
proof (induction cs arbitrary: fs a b)
  case (Cons c cs)
  show ?case
  proof (cases "fila fs c")
    case Nil
    with Cons show ?thesis by (auto split: if_splits)
  next
    case q: (Cons x q)
    with Cons.prems have rec: "rodada need cs (AList.update c q fs, a @ [x], b + bytesDe x, True) = (fs', a', b', True)"
      by (auto split: if_splits)
    have "restam ordem fs' \<le> restam ordem (AList.update c q fs)" by (rule rodada_restam_le [OF rec])
    also have "\<dots> < restam ordem fs" using Cons.prems(2) q by (intro restam_update_less) auto
    finally show ?thesis .
  qed
qed simp

text \<open>The outer loop: rounds until there are enough bytes or a round takes nothing.\<close>

function rodadas :: "int \<Rightarrow> string list \<Rightarrow> filas \<Rightarrow> candidata list \<Rightarrow> int \<Rightarrow> filas \<times> candidata list \<times> int" where
  "rodadas need ordem fs apagar bytes =
     (if bytes < need
      then (case rodada need ordem (fs, apagar, bytes, False) of
              (fs', apagar', bytes', pegou) \<Rightarrow>
                if pegou then rodadas need ordem fs' apagar' bytes' else (fs', apagar', bytes'))
      else (fs, apagar, bytes))"
  by pat_completeness auto
termination
  by (relation "measure (\<lambda>(need, ordem, fs, apagar, bytes). restam ordem fs)")
    (auto intro!: rodada_restam_less dest: sym)

declare rodadas.simps [simp del]

definition planejarRotacao :: "(string \<Rightarrow> 'k::linorder) \<Rightarrow> candidata list \<Rightarrow> int \<Rightarrow> string list \<Rightarrow> plano" where
  "planejarRotacao ck candidatas need ativas =
     (if \<not> need > 0 then \<lparr>aApagar = [], bytesEstimados = 0, camerasSemFolga = []\<rparr>
      else let fs = porCamera candidatas;
               (fs', apagar, bytes) = rodadas need (ordemDasCameras ck ativas fs) fs [] 0
           in \<lparr>aApagar = apagar, bytesEstimados = bytes,
                camerasSemFolga = filter (\<lambda>c. fila fs' c = [] \<and> \<not> list_ex (\<lambda>r. rc_cameraId r = c) apagar) ativas\<rparr>)"

section \<open>Retention\<close>

record entrada_retencao =
  er_retentionDays :: "rat option"
  er_followsGroup :: bool
  er_grupoRetentionDays :: "rat option"

definition PISO_DIAS :: int where "PISO_DIAS = 1"

definition retencaoEfetiva :: "entrada_retencao \<Rightarrow> rat \<Rightarrow> int" where
  "retencaoEfetiva e globalDays =
     (let global = max PISO_DIAS (if \<lfloor>globalDays\<rfloor> = 0 then PISO_DIAS else \<lfloor>globalDays\<rfloor>);
          escolhido = (if er_followsGroup e then er_grupoRetentionDays e else er_retentionDays e)
      in case escolhido of None \<Rightarrow> global
         | Some dias \<Rightarrow> if dias < of_int PISO_DIAS then global else \<lfloor>dias\<rfloor>)"

definition diasQuePerde :: "rat option \<Rightarrow> rat option \<Rightarrow> int" where
  "diasQuePerde atuais novos = (case (atuais, novos) of
     (Some a, Some n) \<Rightarrow> max 0 (\<lfloor>a\<rfloor> - \<lfloor>n\<rfloor>) | _ \<Rightarrow> 0)"

end
