(* ===== verification/Recording_Supervisor.thy ===== *)
theory Recording_Supervisor
  imports Rotation Env_Settings
begin

text \<open>
  \<open>recordings/recording-process-manager.service.ts\<close>: which camera has a recording process, why it is
  started, stopped, suspended and restarted, with the restart of
  \<open>jobs/processors/camera-health-check.processor.ts\<close> and \<open>modoArmado\<close> of
  \<open>cameras/helpers/gatilho-de-gravacao.helper.ts\<close>. The object the code keeps for a process is a
  record under a number, so that the map of the active cameras can point to it and a process that
  is no longer in that map still exists. A timer is its due instant; \<open>setTimeout\<close> truncates its
  delay to whole milliseconds and takes one millisecond for a delay out of 1 to 2147483647. What a call finds outside (policy, disk,
  ffmpeg, database) is its argument. Metrics, the log, and the files of the ring that keeps the
  seconds before an event are left out.
\<close>

section \<open>Modes and segment lengths\<close>

definition modoArmado :: "string option \<Rightarrow> bool" where
  "modoArmado recordingMode = (or_empty recordingMode = ''motion'' \<or> or_empty recordingMode = ''object'')"

definition SEGMENT_SECONDS_MIN :: int where "SEGMENT_SECONDS_MIN = 5"
definition SEGMENT_SECONDS_MAX :: int where "SEGMENT_SECONDS_MAX = 3600"
definition SEGMENT_SECONDS_FALLBACK :: int where "SEGMENT_SECONDS_FALLBACK = 300"

text \<open>\<open>None\<close> is a value whose \<open>Number\<close> is not finite.\<close>

definition normalizeSegmentSeconds :: "rat option \<Rightarrow> int" where
  "normalizeSegmentSeconds requested =
     (case requested of None \<Rightarrow> SEGMENT_SECONDS_FALLBACK
      | Some r \<Rightarrow> let numeric = (if r < 0 then \<lceil>r\<rceil> else \<lfloor>r\<rfloor>)
                  in if numeric < SEGMENT_SECONDS_MIN then SEGMENT_SECONDS_MIN
                     else if numeric > SEGMENT_SECONDS_MAX then SEGMENT_SECONDS_MAX else numeric)"

section \<open>State\<close>

record camera_row =
  cr_enabled :: bool
  cr_recordingEnabled :: bool
  cr_recordingMode :: string

record write_sample =
  ws_filePath :: string
  ws_sizeBytes :: int
  ws_mtimeMs :: int
  ws_observedAtMs :: int

text \<open>\<open>Finalizing\<close> is a \<open>finalizePromise\<close> that is not settled, with its \<open>abnormal\<close>.\<close>

datatype process_phase = Running | Finalizing bool | Finished

record process_state =
  ps_cameraId :: string
  ps_segmentSeconds :: rat
  ps_startedAt :: int
  ps_outputDir :: string
  ps_stopRequested :: bool
  ps_phase :: process_phase
  ps_writeSample :: "write_sample option"

record restart_timer =
  rt_due :: int
  rt_segmentSeconds :: rat
  rt_attempt :: nat

datatype worker_action = WorkerStart rat | WorkerStop

datatype event_kind = MotionStarted | MotionStopped | MotionFailed | FailsafeStarted | FailsafeStopped | SuspendedDiskGuard | ResumedDiskGuard

record manager =
  mg_cameras :: "(string \<times> camera_row) list"
  mg_processes :: "(nat \<times> process_state) list"
  mg_nextProcess :: nat
  mg_active :: "(string \<times> nat) list"
  mg_motionTimers :: "(string \<times> int) list"
  mg_manualTimers :: "(string \<times> int) list"
  mg_restartTimers :: "(string \<times> restart_timer) list"
  mg_restartAttempts :: "(string \<times> int list) list"
  mg_blindFailsafe :: "string list"
  mg_suspended :: "(string \<times> rat \<times> int) list"
  mg_shuttingDown :: bool
  mg_published :: "(string \<times> worker_action) list"
  mg_rings :: "string list"
  mg_failureEvents :: "(string \<times> int) list"
  mg_events :: "(string \<times> event_kind) list"

record manager_config =
  mc_local :: bool
  mc_autoRestart :: "string option"
  mc_maxAttempts :: "string option"
  mc_windowMs :: "string option"
  mc_baseDelayMs :: "string option"
  mc_maxDelayMs :: "string option"
  mc_segmentSeconds :: "string option"
  mc_maxUsedPercent :: "string option"
  mc_postRollSeconds :: "string option"
  mc_motionSegmentSeconds :: "string option"
  mc_preEventSeconds :: "string option"
  mc_failureCooldownSeconds :: "string option"
  mc_minFreeBytes :: int
  mc_minFreePercent :: rat

record storage_usage =
  su_totalBytes :: int
  su_freeBytes :: int

text \<open>What one call meets: the commercial policy, the write probe, the disk, ffmpeg, the address,
  password and directory of the camera, the update of its row, the command channel of the worker, and
  the table of events.\<close>

record start_env =
  se_feature :: bool
  se_writable :: bool
  se_usage :: storage_usage
  se_ffmpeg :: bool
  se_input :: bool
  se_outputDir :: string
  se_updates :: bool
  se_publishes :: bool
  se_registers :: bool

datatype start_error = CameraDisabled | FeatureDenied | NotWritable | NoSpace | NoCamera | NoFfmpeg | NoInput | NotSaved | NotPublished
datatype start_status = StartRequested | AlreadyRecording | RecordingStarted
datatype stop_status = StopRequested | NotRecording | RecordingStopped

section \<open>Settings\<close>

definition whole :: "string option \<Rightarrow> rat \<Rightarrow> rat \<Rightarrow> int" where
  "whole raw fallback lo = \<lfloor>fst (envNumber raw fallback \<lparr>opt_min = Some lo, opt_max = None, opt_integer = True\<rparr>)\<rfloor>"

definition isAutoRestartEnabled :: "manager_config \<Rightarrow> bool" where
  "isAutoRestartEnabled cfg = (mc_autoRestart cfg \<noteq> Some ''false'')"

definition getRestartMaxAttempts :: "manager_config \<Rightarrow> int" where
  "getRestartMaxAttempts cfg = whole (mc_maxAttempts cfg) 5 1"

definition getRestartWindowMs :: "manager_config \<Rightarrow> int" where
  "getRestartWindowMs cfg = whole (mc_windowMs cfg) 600000 1000"

definition getRestartBaseDelayMs :: "manager_config \<Rightarrow> int" where
  "getRestartBaseDelayMs cfg = whole (mc_baseDelayMs cfg) 1000 1"

definition getRestartMaxDelayMs :: "manager_config \<Rightarrow> int" where
  "getRestartMaxDelayMs cfg = whole (mc_maxDelayMs cfg) 30000 1"

definition positive_setting :: "string option \<Rightarrow> rat" where
  "positive_setting raw =
     (let configured = fst (envNumber raw 60 \<lparr>opt_min = None, opt_max = None, opt_integer = False\<rparr>)
      in if configured > 0 then configured else 60)"

definition getMotionPostRollSeconds :: "manager_config \<Rightarrow> rat" where
  "getMotionPostRollSeconds cfg = positive_setting (mc_postRollSeconds cfg)"

definition getMotionSegmentSeconds :: "manager_config \<Rightarrow> rat" where
  "getMotionSegmentSeconds cfg = positive_setting (mc_motionSegmentSeconds cfg)"

definition getDiskGuardMaxUsedPercent :: "manager_config \<Rightarrow> rat" where
  "getDiskGuardMaxUsedPercent cfg =
     fst (envNumber (mc_maxUsedPercent cfg) 85 \<lparr>opt_min = Some 1, opt_max = Some 100, opt_integer = False\<rparr>)"

definition defaultSegmentSeconds :: "manager_config \<Rightarrow> rat" where
  "defaultSegmentSeconds cfg = fst (envNumber (mc_segmentSeconds cfg) 300
     \<lparr>opt_min = Some (of_int SEGMENT_SECONDS_MIN), opt_max = Some (of_int SEGMENT_SECONDS_MAX), opt_integer = True\<rparr>)"

definition preEventSeconds :: "manager_config \<Rightarrow> rat" where
  "preEventSeconds cfg = fst (envNumber (mc_preEventSeconds cfg) 0 \<lparr>opt_min = Some 0, opt_max = Some 30, opt_integer = False\<rparr>)"

definition failureEventCooldownMs :: "manager_config \<Rightarrow> int" where
  "failureEventCooldownMs cfg = \<lfloor>fst (envNumber (mc_failureCooldownSeconds cfg) 300
     \<lparr>opt_min = Some 10, opt_max = Some 86400, opt_integer = True\<rparr>)\<rfloor> * 1000"

section \<open>The disk\<close>

definition freePercent :: "storage_usage \<Rightarrow> rat" where
  "freePercent u = (if su_totalBytes u > 0 then of_int (su_freeBytes u) / of_int (su_totalBytes u) * 100 else 0)"

definition usedPercent :: "storage_usage \<Rightarrow> rat" where
  "usedPercent u = (if su_totalBytes u > 0 then 100 - freePercent u else 100)"

definition critical :: "manager_config \<Rightarrow> storage_usage \<Rightarrow> bool" where
  "critical cfg u \<longleftrightarrow> su_freeBytes u < mc_minFreeBytes cfg \<or> freePercent u < mc_minFreePercent cfg \<or>
     usedPercent u \<ge> getDiskGuardMaxUsedPercent cfg"

definition assertMinimumStorageFree :: "manager_config \<Rightarrow> storage_usage \<Rightarrow> start_error + unit" where
  "assertMinimumStorageFree cfg u = (if critical cfg u then Inl NoSpace else Inr ())"

section \<open>The end of a process\<close>

definition after :: "int \<Rightarrow> rat \<Rightarrow> int" where
  "after now delay = now + (if 1 \<le> delay \<and> delay \<le> 2147483647 then \<lfloor>delay\<rfloor> else 1)"

definition clearMotionStopTimer :: "string \<Rightarrow> manager \<Rightarrow> manager" where
  "clearMotionStopTimer cam st = st\<lparr>mg_motionTimers := AList.delete cam (mg_motionTimers st)\<rparr>"

definition clearManualStopTimer :: "string \<Rightarrow> manager \<Rightarrow> manager" where
  "clearManualStopTimer cam st = st\<lparr>mg_manualTimers := AList.delete cam (mg_manualTimers st)\<rparr>"

definition cancelPendingRestart :: "string \<Rightarrow> manager \<Rightarrow> manager" where
  "cancelPendingRestart cam st = st\<lparr>mg_restartTimers := AList.delete cam (mg_restartTimers st),
     mg_restartAttempts := AList.delete cam (mg_restartAttempts st)\<rparr>"

record restart_plan =
  rp_allowed :: bool
  rp_attempt :: nat
  rp_delayMs :: int

definition attemptsOf :: "string \<Rightarrow> manager \<Rightarrow> int list" where
  "attemptsOf cam st = (case map_of (mg_restartAttempts st) cam of None \<Rightarrow> [] | Some xs \<Rightarrow> xs)"

definition planRecordingRestart :: "manager_config \<Rightarrow> int \<Rightarrow> string \<Rightarrow> manager \<Rightarrow> manager \<times> restart_plan" where
  "planRecordingRestart cfg now cam st =
     (let previous = filter (\<lambda>t. t > now - getRestartWindowMs cfg) (attemptsOf cam st)
      in if int (length previous) \<ge> getRestartMaxAttempts cfg
         then (st\<lparr>mg_restartAttempts := AList.update cam previous (mg_restartAttempts st)\<rparr>,
               \<lparr>rp_allowed = False, rp_attempt = length previous, rp_delayMs = 0\<rparr>)
         else (st\<lparr>mg_restartAttempts := AList.update cam (previous @ [now]) (mg_restartAttempts st)\<rparr>,
               \<lparr>rp_allowed = True, rp_attempt = Suc (length previous),
                rp_delayMs = min (getRestartMaxDelayMs cfg) (getRestartBaseDelayMs cfg * 2 ^ length previous)\<rparr>))"

definition scheduleRecordingRestart :: "manager_config \<Rightarrow> int \<Rightarrow> process_state \<Rightarrow> manager \<Rightarrow> manager" where
  "scheduleRecordingRestart cfg now p st =
     (let cam = ps_cameraId p
      in if ps_stopRequested p \<or> mg_shuttingDown st \<or> \<not> mc_local cfg \<or> \<not> isAutoRestartEnabled cfg \<or>
            map_of (mg_restartTimers st) cam \<noteq> None \<or> map_of (mg_active st) cam \<noteq> None then st
         else let (st', plan) = planRecordingRestart cfg now cam st
              in if \<not> rp_allowed plan then st'
                 else st'\<lparr>mg_restartTimers := AList.update cam
                        \<lparr>rt_due = after now (of_int (rp_delayMs plan)), rt_segmentSeconds = ps_segmentSeconds p, rt_attempt = rp_attempt plan\<rparr>
                        (mg_restartTimers st')\<rparr>)"

definition setProcess :: "nat \<Rightarrow> process_state \<Rightarrow> manager \<Rightarrow> manager" where
  "setProcess n p st = st\<lparr>mg_processes := AList.update n p (mg_processes st)\<rparr>"

text \<open>\<open>finalizeRecordingState\<close> up to its wait for the scan of the segments, and after it.\<close>

definition finalizeBegin :: "nat \<Rightarrow> manager \<Rightarrow> manager" where
  "finalizeBegin n st =
     (case map_of (mg_processes st) n of None \<Rightarrow> st
      | Some p \<Rightarrow> if ps_phase p = Running then setProcess n (p\<lparr>ps_phase := Finalizing (\<not> ps_stopRequested p)\<rparr>) st else st)"

definition finalizeEnd :: "manager_config \<Rightarrow> int \<Rightarrow> nat \<Rightarrow> manager \<Rightarrow> manager" where
  "finalizeEnd cfg now n st =
     (case map_of (mg_processes st) n of None \<Rightarrow> st
      | Some p \<Rightarrow> (case ps_phase p of
          Finalizing abnormal \<Rightarrow>
            let st1 = setProcess n (p\<lparr>ps_phase := Finished\<rparr>) st;
                st2 = (if map_of (mg_active st1) (ps_cameraId p) = Some n
                       then st1\<lparr>mg_active := AList.delete (ps_cameraId p) (mg_active st1)\<rparr> else st1)
            in if abnormal then scheduleRecordingRestart cfg now p st2 else st2
        | _ \<Rightarrow> st))"

definition finalizeRecordingState :: "manager_config \<Rightarrow> int \<Rightarrow> nat \<Rightarrow> manager \<Rightarrow> manager" where
  "finalizeRecordingState cfg now n st = finalizeEnd cfg now n (finalizeBegin n st)"

section \<open>Starting and stopping\<close>

text \<open>What to write into \<open>recordingMode\<close>.\<close>

definition resolveRecordingModeUpdate :: "string \<Rightarrow> string option \<Rightarrow> manager \<Rightarrow> string option" where
  "resolveRecordingModeUpdate cam requested st =
     (case requested of None \<Rightarrow> None
      | Some m \<Rightarrow> if m = [] then None
          else if m = ''manual'' \<and> modoArmado (map_option cr_recordingMode (map_of (mg_cameras st) cam)) then None
          else Some m)"

definition updateCamera :: "string \<Rightarrow> (camera_row \<Rightarrow> camera_row) \<Rightarrow> manager \<Rightarrow> manager" where
  "updateCamera cam f st =
     (case map_of (mg_cameras st) cam of None \<Rightarrow> st
      | Some r \<Rightarrow> st\<lparr>mg_cameras := AList.update cam (f r) (mg_cameras st)\<rparr>)"

definition saveDesired :: "string \<Rightarrow> bool \<Rightarrow> string option \<Rightarrow> manager \<Rightarrow> manager" where
  "saveDesired cam wanted requested st =
     updateCamera cam (\<lambda>r. r\<lparr>cr_recordingEnabled := wanted,
       cr_recordingMode := (case resolveRecordingModeUpdate cam requested st of None \<Rightarrow> cr_recordingMode r | Some m \<Rightarrow> m)\<rparr>) st"

definition publishWorkerCommand :: "string \<Rightarrow> worker_action \<Rightarrow> manager \<Rightarrow> manager" where
  "publishWorkerCommand cam a st = st\<lparr>mg_published := mg_published st @ [(cam, a)]\<rparr>"

text \<open>\<open>start\<close> up to where it has decided to spawn a process (\<open>None\<close>), before it waits for the address
  of the camera and its codec.\<close>

definition startChecks :: "manager_config \<Rightarrow> start_env \<Rightarrow> string \<Rightarrow> rat \<Rightarrow> string option \<Rightarrow> manager \<Rightarrow>
    manager \<times> (start_error + start_status option)" where
  "startChecks cfg e cam seconds mode st =
     (let row = map_of (mg_cameras st) cam
      in if (case row of Some r \<Rightarrow> \<not> cr_enabled r | None \<Rightarrow> False) then (st, Inl CameraDisabled)
         else if \<not> se_feature e then (st, Inl FeatureDenied)
         else if \<not> se_writable e then (st, Inl NotWritable)
         else if assertMinimumStorageFree cfg (se_usage e) \<noteq> Inr () then (st, Inl NoSpace)
         else if row = None then (st, Inl NoCamera)
         else if \<not> mc_local cfg then
           (if \<not> se_updates e then (st, Inl NotSaved)
            else if \<not> se_publishes e then (saveDesired cam True mode st, Inl NotPublished)
            else (publishWorkerCommand cam (WorkerStart seconds) (saveDesired cam True mode st), Inr (Some StartRequested)))
         else if map_of (mg_active st) cam \<noteq> None then
           (if \<not> se_updates e then (st, Inl NotSaved) else (saveDesired cam True mode st, Inr (Some AlreadyRecording)))
         else if \<not> se_ffmpeg e then (st, Inl NoFfmpeg)
         else if \<not> se_input e then (st, Inl NoInput)
         else (st, Inr None))"

text \<open>The rest of it: the process, its place in the map, the row; a row that cannot be written stops
  the process again.\<close>

definition startSpawn :: "manager_config \<Rightarrow> start_env \<Rightarrow> int \<Rightarrow> string \<Rightarrow> rat \<Rightarrow> string option \<Rightarrow> manager \<Rightarrow>
    manager \<times> (start_error + start_status)" where
  "startSpawn cfg e now cam seconds mode st =
     (let n = mg_nextProcess st;
          p = \<lparr>ps_cameraId = cam, ps_segmentSeconds = seconds, ps_startedAt = now, ps_outputDir = se_outputDir e,
               ps_stopRequested = False, ps_phase = Running, ps_writeSample = None\<rparr>;
          st1 = (setProcess n p st)\<lparr>mg_nextProcess := Suc n, mg_active := AList.update cam n (mg_active st)\<rparr>
      in if se_updates e then (saveDesired cam True mode st1, Inr RecordingStarted)
         else (finalizeRecordingState cfg now n (setProcess n (p\<lparr>ps_stopRequested := True\<rparr>) st1), Inl NotSaved))"

definition start :: "manager_config \<Rightarrow> start_env \<Rightarrow> int \<Rightarrow> string \<Rightarrow> rat \<Rightarrow> string option \<Rightarrow> manager \<Rightarrow>
    manager \<times> (start_error + start_status)" where
  "start cfg e now cam seconds mode st =
     (case startChecks cfg e cam seconds mode st of
        (st', Inl err) \<Rightarrow> (st', Inl err)
      | (st', Inr (Some r)) \<Rightarrow> (st', Inr r)
      | (st', Inr None) \<Rightarrow> startSpawn cfg e now cam seconds mode st')"

text \<open>The end that somebody asked for: mark, kill, finalize. A finalization that has begun is waited
  for.\<close>

definition endProcess :: "manager_config \<Rightarrow> int \<Rightarrow> nat \<Rightarrow> manager \<Rightarrow> manager" where
  "endProcess cfg now n st =
     (case map_of (mg_processes st) n of None \<Rightarrow> st
      | Some p \<Rightarrow> finalizeRecordingState cfg now n (setProcess n (p\<lparr>ps_stopRequested := True\<rparr>) st))"

definition stop :: "manager_config \<Rightarrow> start_env \<Rightarrow> int \<Rightarrow> string \<Rightarrow> string option \<Rightarrow> manager \<Rightarrow>
    manager \<times> (start_error + stop_status)" where
  "stop cfg e now cam mode st =
     (if map_of (mg_cameras st) cam = None then (st, Inl NoCamera)
      else if \<not> se_updates e then (st, Inl NotSaved)
      else let st1 = saveDesired cam False mode st
           in if \<not> mc_local cfg then
                (if se_publishes e then (publishWorkerCommand cam WorkerStop st1, Inr StopRequested) else (st1, Inl NotPublished))
              else let st2 = cancelPendingRestart cam st1
                   in (case map_of (mg_active st2) cam of
                         None \<Rightarrow> (st2, Inr NotRecording)
                       | Some n \<Rightarrow> (endProcess cfg now n st2, Inr RecordingStopped)))"

text \<open>The call of a restart timer.\<close>

definition restartRecordingAfterCrash :: "manager_config \<Rightarrow> start_env \<Rightarrow> int \<Rightarrow> string \<Rightarrow> rat \<Rightarrow> manager \<Rightarrow> manager" where
  "restartRecordingAfterCrash cfg e now cam seconds st0 =
     (let st = st0\<lparr>mg_restartTimers := AList.delete cam (mg_restartTimers st0)\<rparr>
      in if mg_shuttingDown st \<or> map_of (mg_active st) cam \<noteq> None then st
         else (case map_of (mg_cameras st) cam of
             None \<Rightarrow> st
           | Some r \<Rightarrow> if \<not> cr_recordingEnabled r \<or> \<not> cr_enabled r then st
               else fst (start cfg e now cam (if seconds > 0 then seconds else defaultSegmentSeconds cfg) None st)))"

text \<open>The restart of the health check, which must not leave the camera unwanted; \<open>rearms\<close> tells
  whether its own update of the row goes through.\<close>

definition reiniciarGravacaoPreservandoArmada :: "manager_config \<Rightarrow> start_env \<Rightarrow> start_env \<Rightarrow> bool \<Rightarrow> int \<Rightarrow> string \<Rightarrow> rat \<Rightarrow> manager \<Rightarrow>
    manager \<times> (start_error + start_status)" where
  "reiniciarGravacaoPreservandoArmada cfg e1 e2 rearms now cam seconds st =
     (case stop cfg e1 now cam None st of
        (st1, Inl err) \<Rightarrow> (st1, Inl err)
      | (st1, Inr _) \<Rightarrow> (case start cfg e2 now cam seconds None st1 of
            (st2, Inr r) \<Rightarrow> (st2, Inr r)
          | (st2, Inl err) \<Rightarrow> (if rearms then updateCamera cam (\<lambda>r. r\<lparr>cr_recordingEnabled := True\<rparr>) st2 else st2, Inl err)))"

section \<open>Manual recording\<close>

text \<open>\<open>Math.round\<close>; a duration of zero or not a number is 600.\<close>

definition manualDuration :: "rat option \<Rightarrow> int" where
  "manualDuration maxDurationSeconds =
     (let r = (case maxDurationSeconds of None \<Rightarrow> 0 | Some d \<Rightarrow> \<lfloor>d + 1 / 2\<rfloor>)
      in min 600 (max 10 (if r = 0 then 600 else r)))"

definition startManualRecording :: "manager_config \<Rightarrow> start_env \<Rightarrow> int \<Rightarrow> string \<Rightarrow> rat \<Rightarrow> rat option \<Rightarrow> manager \<Rightarrow>
    manager \<times> (start_error + start_status \<times> int)" where
  "startManualRecording cfg e now cam seconds maxDurationSeconds st =
     (let duration = manualDuration maxDurationSeconds;
          st1 = clearManualStopTimer cam (clearMotionStopTimer cam st)
      in case start cfg e now cam seconds (Some ''manual'') st1 of
           (st2, Inl err) \<Rightarrow> (st2, Inl err)
         | (st2, Inr r) \<Rightarrow> (st2\<lparr>mg_manualTimers := AList.update cam (after now (of_int (duration * 1000))) (mg_manualTimers st2)\<rparr>,
                            Inr (r, duration)))"

definition stopManualRecording :: "manager_config \<Rightarrow> start_env \<Rightarrow> int \<Rightarrow> string \<Rightarrow> manager \<Rightarrow> manager \<times> (start_error + stop_status)" where
  "stopManualRecording cfg e now cam st = stop cfg e now cam (Some ''manual'') (clearManualStopTimer cam st)"

section \<open>Events and the ring before them\<close>

text \<open>An event that cannot be written is lost; the callers that do not catch that say so.\<close>

definition registerEvent :: "bool \<Rightarrow> string \<Rightarrow> event_kind \<Rightarrow> manager \<Rightarrow> manager" where
  "registerEvent registers cam kind st = (if registers then st\<lparr>mg_events := mg_events st @ [(cam, kind)]\<rparr> else st)"

text \<open>The cameras with a process that keeps the last seconds in a ring; its files are left out.\<close>

definition startPreBuffer :: "manager_config \<Rightarrow> start_env \<Rightarrow> string \<Rightarrow> manager \<Rightarrow> manager" where
  "startPreBuffer cfg e cam st =
     (if preEventSeconds cfg \<le> 0 \<or> \<not> mc_local cfg \<or> cam \<in> set (mg_rings st) \<or> \<not> se_ffmpeg e \<or> \<not> se_input e then st
      else case map_of (mg_cameras st) cam of None \<Rightarrow> st
        | Some r \<Rightarrow> if cr_enabled r then st\<lparr>mg_rings := mg_rings st @ [cam]\<rparr> else st)"

definition stopPreBuffer :: "string \<Rightarrow> manager \<Rightarrow> manager" where
  "stopPreBuffer cam st = st\<lparr>mg_rings := removeAll cam (mg_rings st)\<rparr>"

section \<open>Motion\<close>

definition scheduleMotionStop :: "int \<Rightarrow> string \<Rightarrow> rat \<Rightarrow> manager \<Rightarrow> manager" where
  "scheduleMotionStop now cam postRollSeconds st =
     st\<lparr>mg_motionTimers := AList.update cam (after now (postRollSeconds * 1000)) (AList.delete cam (mg_motionTimers st))\<rparr>"

definition stopMotionRecordingAfterQuiet :: "manager_config \<Rightarrow> start_env \<Rightarrow> int \<Rightarrow> string \<Rightarrow> manager \<Rightarrow> manager" where
  "stopMotionRecordingAfterQuiet cfg e now cam st0 =
     (let st = clearMotionStopTimer cam st0
      in if cam \<in> set (mg_blindFailsafe st) then st
         else (case map_of (mg_cameras st) cam of None \<Rightarrow> st
           | Some r \<Rightarrow> if \<not> modoArmado (Some (cr_recordingMode r)) \<or> \<not> cr_recordingEnabled r then st
               else (case stop cfg e now cam None (startPreBuffer cfg e cam st) of
                   (st1, Inl _) \<Rightarrow> st1
                 | (st1, Inr _) \<Rightarrow> registerEvent (se_registers e) cam MotionStopped st1)))"

datatype motion_answer = CameraMissing | CameraOff | NotArmed | StartFailed "start_error option" | MotionRecording start_status

text \<open>\<open>remote\<close> is the \<open>isRecording\<close> of the status, which only the worker mode asks for.\<close>

definition alreadyRecording :: "manager_config \<Rightarrow> bool \<Rightarrow> string \<Rightarrow> manager \<Rightarrow> bool" where
  "alreadyRecording cfg remote cam st = (if mc_local cfg then map_of (mg_active st) cam \<noteq> None else remote)"

text \<open>The \<open>catch\<close>: the ring is the only cover left, and the failure is told once in a while. The answer
  is the error of the start, or \<open>None\<close> when an event could not be written.\<close>

definition motionFailed :: "manager_config \<Rightarrow> start_env \<Rightarrow> int \<Rightarrow> string \<Rightarrow> start_error option \<Rightarrow> manager \<Rightarrow> manager \<times> motion_answer" where
  "motionFailed cfg e now cam err st0 =
     (let st = startPreBuffer cfg e cam st0;
          last = (case map_of (mg_failureEvents st) cam of None \<Rightarrow> 0 | Some t \<Rightarrow> t)
      in if now - last \<ge> failureEventCooldownMs cfg
         then (registerEvent (se_registers e) cam MotionFailed (st\<lparr>mg_failureEvents := AList.update cam now (mg_failureEvents st)\<rparr>),
               StartFailed (if se_registers e then err else None))
         else (st, StartFailed err))"

definition handleMotionDetected :: "manager_config \<Rightarrow> start_env \<Rightarrow> bool \<Rightarrow> int \<Rightarrow> string \<Rightarrow> manager \<Rightarrow> manager \<times> motion_answer" where
  "handleMotionDetected cfg e remote now cam st =
     (case map_of (mg_cameras st) cam of None \<Rightarrow> (st, CameraMissing)
      | Some r \<Rightarrow>
          if \<not> cr_enabled r then (st, CameraOff)
          else if \<not> modoArmado (Some (cr_recordingMode r)) then (st, NotArmed)
          else if alreadyRecording cfg remote cam st
            then (scheduleMotionStop now cam (getMotionPostRollSeconds cfg) st, MotionRecording AlreadyRecording)
          else (case start cfg e now cam (getMotionSegmentSeconds cfg) None st of
              (st1, Inl err) \<Rightarrow> motionFailed cfg e now cam (Some err) st1
            | (st1, Inr s) \<Rightarrow>
                let st2 = stopPreBuffer cam (st1\<lparr>mg_failureEvents := AList.delete cam (mg_failureEvents st1)\<rparr>)
                in if \<not> se_registers e then motionFailed cfg e now cam None st2
                   else (scheduleMotionStop now cam (getMotionPostRollSeconds cfg) (registerEvent (se_registers e) cam MotionStarted st2), MotionRecording s)))"

definition setMotionRecording :: "manager_config \<Rightarrow> start_env \<Rightarrow> bool \<Rightarrow> int \<Rightarrow> string \<Rightarrow> bool \<Rightarrow> manager \<Rightarrow>
    manager \<times> (start_error + string option)" where
  "setMotionRecording cfg e updates now cam enabled st =
     (case map_of (mg_cameras st) cam of None \<Rightarrow> (st, Inl NoCamera)
      | Some r \<Rightarrow>
          let st1 = fst (stop cfg e now cam None (clearMotionStopTimer cam st));
              modoDestino = (if \<not> enabled then ''manual''
                else if modoArmado (Some (cr_recordingMode r)) then cr_recordingMode r else ''motion'');
              st2 = (if enabled then st1 else stopPreBuffer cam st1)
          in if \<not> updates then (st2, Inl NotSaved)
             else let st3 = updateCamera cam (\<lambda>r. r\<lparr>cr_recordingMode := modoDestino, cr_recordingEnabled := False\<rparr>) st2
                  in (if enabled then startPreBuffer cfg e cam st3 else st3, Inr (if enabled then Some modoDestino else None)))"

section \<open>The blind detector\<close>

datatype failsafe = Ligado | Desligado | Inalterado

definition definirFailsafeDetectorCego :: "manager_config \<Rightarrow> start_env \<Rightarrow> bool \<Rightarrow> int \<Rightarrow> string \<Rightarrow> bool \<Rightarrow> manager \<Rightarrow> manager \<times> failsafe" where
  "definirFailsafeDetectorCego cfg e remote now cam cego st =
     (if cego = (cam \<in> set (mg_blindFailsafe st)) then (st, Inalterado)
      else if (case map_of (mg_cameras st) cam of None \<Rightarrow> True
                 | Some r \<Rightarrow> \<not> cr_enabled r \<or> \<not> modoArmado (Some (cr_recordingMode r)))
        then (st\<lparr>mg_blindFailsafe := removeAll cam (mg_blindFailsafe st)\<rparr>, Inalterado)
      else if cego then
        (let st1 = clearMotionStopTimer cam (st\<lparr>mg_blindFailsafe := mg_blindFailsafe st @ [cam]\<rparr>)
         in (if alreadyRecording cfg remote cam st1 then registerEvent (se_registers e) cam FailsafeStarted st1
             else (case start cfg e now cam (getMotionSegmentSeconds cfg) None st1 of
                 (st2, Inl _) \<Rightarrow> st2
               | (st2, Inr _) \<Rightarrow> registerEvent (se_registers e) cam FailsafeStarted st2), Ligado))
      else (registerEvent (se_registers e) cam FailsafeStopped (scheduleMotionStop now cam (getMotionPostRollSeconds cfg)
              (st\<lparr>mg_blindFailsafe := removeAll cam (mg_blindFailsafe st)\<rparr>)), Desligado))"

section \<open>The disk guard\<close>

record disk_recording =
  dr_id :: string
  dr_cameraId :: string
  dr_startedAt :: int
  dr_endedAt :: "int option"
  dr_sizeBytes :: "int option"
  dr_filePath :: string
  dr_localDeletedAt :: "int option"

record disk =
  dk_recordings :: "disk_recording list"
  dk_files :: "(string \<times> int) list"

text \<open>What a round of the guard meets: the disk before and after the rotation (\<open>None\<close> when it cannot
  be read), the held recordings (\<open>None\<close> when they cannot be looked up), whether the query goes through, the path of a recording under the
  root (\<open>None\<close> when it is outside), the files and the rows that cannot be deleted, and
  whether events can be written.\<close>

record guard_env =
  ge_before :: "storage_usage option"
  ge_after :: "storage_usage option"
  ge_holds :: "string list option"
  ge_query :: bool
  ge_path :: "string \<Rightarrow> string option"
  ge_unlinkFails :: "string \<Rightarrow> bool"
  ge_deleteFails :: "string \<Rightarrow> bool"
  ge_registers :: bool

definition protegidas :: "guard_env \<Rightarrow> string list" where
  "protegidas g = (case ge_holds g of None \<Rightarrow> [] | Some ids \<Rightarrow> filter (\<lambda>i. i \<noteq> []) ids)"

definition candidatasDoDisco :: "guard_env \<Rightarrow> disk \<Rightarrow> candidata list" where
  "candidatasDoDisco g d =
     map (\<lambda>r. \<lparr>rc_id = dr_id r, rc_cameraId = dr_cameraId r, rc_startedAt = dr_startedAt r,
        rc_sizeBytes = dr_sizeBytes r, rc_protegida = (dr_id r \<in> set (protegidas g))\<rparr>)
       (take 5000 (sort_key dr_startedAt (filter (\<lambda>r. dr_localDeletedAt r = None \<and> dr_endedAt r \<noteq> None) (dk_recordings d))))"

fun apagarPlano :: "guard_env \<Rightarrow> candidata list \<Rightarrow> disk \<times> int \<Rightarrow> disk \<times> int" where
  "apagarPlano g [] st = st"
| "apagarPlano g (x # xs) (d, liberados) =
     (case find (\<lambda>r. dr_id r = rc_id x) (dk_recordings d) of
        None \<Rightarrow> apagarPlano g xs (d, liberados)
      | Some original \<Rightarrow> (case ge_path g (dr_filePath original) of
          None \<Rightarrow> apagarPlano g xs (d, liberados)
        | Some caminho \<Rightarrow>
            let exists_now = map_of (dk_files d) caminho \<noteq> None;
                tamanho = (case map_of (dk_files d) caminho of None \<Rightarrow> 0 | Some n \<Rightarrow> n)
            in if exists_now \<and> ge_unlinkFails g caminho then apagarPlano g xs (d, liberados)
               else apagarPlano g xs
                 (\<lparr>dk_recordings = (if ge_deleteFails g (dr_id original) then dk_recordings d
                      else filter (\<lambda>r. dr_id r \<noteq> dr_id original) (dk_recordings d)),
                   dk_files = AList.delete caminho (dk_files d)\<rparr>, liberados + tamanho)))"

text \<open>The bytes to free, a fraction; the rotation compares them with whole sizes, so that the next
  whole number is the same.\<close>

definition faltam :: "manager_config \<Rightarrow> int \<Rightarrow> rat" where
  "faltam cfg freeBytes = max 0 (max (of_int (mc_minFreeBytes cfg) * (5 / 4)) 536870912 - of_int freeBytes)"

definition rotacionarParaLiberarEspaco :: "(string \<Rightarrow> 'k::linorder) \<Rightarrow> manager_config \<Rightarrow> guard_env \<Rightarrow> string list \<Rightarrow> int \<Rightarrow> disk \<Rightarrow> disk \<times> int" where
  "rotacionarParaLiberarEspaco ck cfg g ativas freeBytes d =
     (if faltam cfg freeBytes \<le> 0 \<or> \<not> ge_query g then (d, 0)
      else apagarPlano g (aApagar (planejarRotacao ck (candidatasDoDisco g d) \<lceil>faltam cfg freeBytes\<rceil> ativas)) (d, 0))"

definition suspendRecordingForDiskGuard :: "manager_config \<Rightarrow> bool \<Rightarrow> int \<Rightarrow> string \<Rightarrow> manager \<Rightarrow> manager" where
  "suspendRecordingForDiskGuard cfg registers now cam st =
     (case map_of (mg_active st) cam of None \<Rightarrow> st
      | Some n \<Rightarrow> (case map_of (mg_processes st) n of None \<Rightarrow> st
        | Some p \<Rightarrow> registerEvent registers cam SuspendedDiskGuard
            (endProcess cfg now n (st\<lparr>mg_suspended := AList.update cam (ps_segmentSeconds p, 0) (mg_suspended st)\<rparr>))))"

text \<open>One suspended camera; \<open>found\<close> tells whether the lookup of its row goes through.\<close>

definition resumeOne :: "manager_config \<Rightarrow> (string \<Rightarrow> start_env) \<Rightarrow> (string \<Rightarrow> bool) \<Rightarrow> int \<Rightarrow> string \<times> rat \<times> int \<Rightarrow> manager \<Rightarrow> manager" where
  "resumeOne cfg envs found now entry st =
     (case entry of (cam, seconds, retryAt) \<Rightarrow>
        let forget = (\<lambda>st. st\<lparr>mg_suspended := AList.delete cam (mg_suspended st)\<rparr>)
        in if retryAt > now then st
           else (case (if found cam then map_of (mg_cameras st) cam else None) of
               None \<Rightarrow> forget st
             | Some r \<Rightarrow>
                 if \<not> cr_enabled r \<or> \<not> cr_recordingEnabled r \<or> cr_recordingMode r \<noteq> ''continuous'' then forget st
                 else (case start cfg (envs cam) now cam seconds (Some ''continuous'') st of
                     (st', Inr _) \<Rightarrow> registerEvent (se_registers (envs cam)) cam ResumedDiskGuard (forget st')
                   | (st', Inl _) \<Rightarrow> st'\<lparr>mg_suspended := AList.update cam (seconds, now + 60000) (mg_suspended st')\<rparr>)))"

definition resumeContinuousRecordingsAfterDiskGuard ::
  "manager_config \<Rightarrow> (string \<Rightarrow> start_env) \<Rightarrow> (string \<Rightarrow> bool) \<Rightarrow> int \<Rightarrow> manager \<Rightarrow> manager" where
  "resumeContinuousRecordingsAfterDiskGuard cfg envs found now st = fold (resumeOne cfg envs found now) (mg_suspended st) st"

definition enforceDiskGuard ::
  "(string \<Rightarrow> 'k::linorder) \<Rightarrow> manager_config \<Rightarrow> guard_env \<Rightarrow> (string \<Rightarrow> start_env) \<Rightarrow> (string \<Rightarrow> bool) \<Rightarrow> int \<Rightarrow> manager \<times> disk \<Rightarrow> manager \<times> disk" where
  "enforceDiskGuard ck cfg g envs found now st_d =
     (case st_d of (st, d) \<Rightarrow>
        if \<not> mc_local cfg \<or> (mg_active st = [] \<and> mg_suspended st = []) then (st, d)
        else (case ge_before g of None \<Rightarrow> (st, d)
          | Some u \<Rightarrow>
              if \<not> critical cfg u then (resumeContinuousRecordingsAfterDiskGuard cfg envs found now st, d)
              else if mg_active st = [] then (st, d)
              else let ativas = map fst (mg_active st);
                       (d', liberou) = rotacionarParaLiberarEspaco ck cfg g ativas (su_freeBytes u) d;
                       suspended = fold (suspendRecordingForDiskGuard cfg (ge_registers g) now) ativas st
                   in if liberou > 0 then
                        (case ge_after g of None \<Rightarrow> (st, d')
                         | Some u' \<Rightarrow> if \<not> critical cfg u' then (st, d') else (suspended, d'))
                      else (suspended, d')))"

section \<open>All cameras\<close>

text \<open>A stop that throws ends the loop.\<close>

fun stopEach :: "manager_config \<Rightarrow> (string \<Rightarrow> start_env) \<Rightarrow> int \<Rightarrow> string list \<Rightarrow> manager \<Rightarrow> manager" where
  "stopEach cfg envs now [] st = st"
| "stopEach cfg envs now (cam # cams) st =
     (case stop cfg (envs cam) now cam None st of
        (st', Inl _) \<Rightarrow> st'
      | (st', Inr _) \<Rightarrow> stopEach cfg envs now cams st')"

definition stopAll :: "manager_config \<Rightarrow> (string \<Rightarrow> start_env) \<Rightarrow> int \<Rightarrow> manager \<Rightarrow> manager" where
  "stopAll cfg envs now st = (if \<not> mc_local cfg then st else stopEach cfg envs now (map fst (mg_active st)) st)"

definition onApplicationShutdown :: "manager_config \<Rightarrow> (string \<Rightarrow> start_env) \<Rightarrow> int \<Rightarrow> manager \<Rightarrow> manager" where
  "onApplicationShutdown cfg envs now st =
     (let st1 = fold cancelPendingRestart (map fst (mg_restartTimers st)) (st\<lparr>mg_shuttingDown := True\<rparr>);
          st2 = st1\<lparr>mg_motionTimers := [], mg_manualTimers := [], mg_rings := []\<rparr>
      in if mc_local cfg then stopAll cfg envs now st2 else st2)"

definition startEnabledContinuousRecordingsInner :: "manager_config \<Rightarrow> (string \<Rightarrow> start_env) \<Rightarrow> int \<Rightarrow> manager \<Rightarrow> manager" where
  "startEnabledContinuousRecordingsInner cfg envs now st =
     fold (\<lambda>cam st. fst (start cfg (envs cam) now cam (defaultSegmentSeconds cfg) None st))
       (map fst (take 500 (filter (\<lambda>(cam, r). cr_enabled r \<and> cr_recordingEnabled r \<and> cr_recordingMode r = ''continuous'')
         (mg_cameras st)))) st"

end
