(* ===== verification/Recording_Supervisor_Properties.thy ===== *)
theory Recording_Supervisor_Properties
  imports Recording_Supervisor
begin

text \<open>
  The supervisor of the recordings (\<open>Recording_Supervisor\<close>) as a transition system: a camera has at
  most one process in every reachable state and a requested stop stays a stop; the brake on
  restarts; what manual recordings, the blind detector and the disk guard do to the desired state.
\<close>

section \<open>Events\<close>

text \<open>Everything that can happen, each to its end: requests, timers, the end of a process and of the
  scan after it, the health check, the disk guard, boot and shutdown.\<close>

datatype event =
    Start start_env string rat "string option"
  | Stop start_env string "string option"
  | ManualStart start_env string rat "rat option"
  | ManualStop start_env string
  | ManualDue start_env string
  | MotionDetected start_env bool string
  | MotionDue start_env string
  | ArmMotion start_env bool string bool
  | DetectorBlind start_env bool string bool
  | ProcessClosed nat
  | ScanFinished nat
  | RestartDue start_env string
  | HealthRestart start_env start_env bool string rat
  | DiskGuard guard_env "string \<Rightarrow> start_env" "string \<Rightarrow> bool"
  | StopAll "string \<Rightarrow> start_env"
  | Boot "string \<Rightarrow> start_env"
  | Shutdown "string \<Rightarrow> start_env"

definition due :: "int \<Rightarrow> (string \<times> int) list \<Rightarrow> string \<Rightarrow> bool" where
  "due now timers cam \<longleftrightarrow> (case map_of timers cam of None \<Rightarrow> False | Some t \<Rightarrow> t \<le> now)"

fun perform :: "(string \<Rightarrow> 'k::linorder) \<Rightarrow> manager_config \<Rightarrow> int \<Rightarrow> event \<Rightarrow> manager \<times> disk \<Rightarrow> manager \<times> disk" where
  "perform ck cfg now (Start e cam seconds mode) (st, d) = (fst (start cfg e now cam seconds mode st), d)"
| "perform ck cfg now (Stop e cam mode) (st, d) = (fst (stop cfg e now cam mode st), d)"
| "perform ck cfg now (ManualStart e cam seconds duration) (st, d) = (fst (startManualRecording cfg e now cam seconds duration st), d)"
| "perform ck cfg now (ManualStop e cam) (st, d) = (fst (stopManualRecording cfg e now cam st), d)"
| "perform ck cfg now (ManualDue e cam) (st, d) =
     (if due now (mg_manualTimers st) cam then (fst (stopManualRecording cfg e now cam st), d) else (st, d))"
| "perform ck cfg now (MotionDetected e remote cam) (st, d) = (fst (handleMotionDetected cfg e remote now cam st), d)"
| "perform ck cfg now (MotionDue e cam) (st, d) =
     (if due now (mg_motionTimers st) cam then (stopMotionRecordingAfterQuiet cfg e now cam st, d) else (st, d))"
| "perform ck cfg now (ArmMotion e updates cam enabled) (st, d) = (fst (setMotionRecording cfg e updates now cam enabled st), d)"
| "perform ck cfg now (DetectorBlind e remote cam cego) (st, d) = (fst (definirFailsafeDetectorCego cfg e remote now cam cego st), d)"
| "perform ck cfg now (ProcessClosed n) (st, d) = (finalizeBegin n st, d)"
| "perform ck cfg now (ScanFinished n) (st, d) = (finalizeEnd cfg now n st, d)"
| "perform ck cfg now (RestartDue e cam) (st, d) =
     (case map_of (mg_restartTimers st) cam of None \<Rightarrow> (st, d)
      | Some t \<Rightarrow> if rt_due t \<le> now then (restartRecordingAfterCrash cfg e now cam (rt_segmentSeconds t) st, d) else (st, d))"
| "perform ck cfg now (HealthRestart e1 e2 rearms cam seconds) (st, d) =
     (fst (reiniciarGravacaoPreservandoArmada cfg e1 e2 rearms now cam seconds st), d)"
| "perform ck cfg now (DiskGuard g envs found) (st, d) = enforceDiskGuard ck cfg g envs found now (st, d)"
| "perform ck cfg now (StopAll envs) (st, d) = (stopAll cfg envs now st, d)"
| "perform ck cfg now (Boot envs) (st, d) = (startEnabledContinuousRecordingsInner cfg envs now st, d)"
| "perform ck cfg now (Shutdown envs) (st, d) = (onApplicationShutdown cfg envs now st, d)"

section \<open>The invariant\<close>

definition live :: "manager \<Rightarrow> nat \<Rightarrow> string \<Rightarrow> bool" where
  "live st n cam \<longleftrightarrow> (\<exists>p. map_of (mg_processes st) n = Some p \<and> ps_cameraId p = cam \<and> ps_phase p \<noteq> Finished)"

text \<open>The processes that have not ended are those the map of active cameras points to, and nobody has
  asked a running one to stop.\<close>

definition manager_ok :: "manager \<Rightarrow> bool" where
  "manager_ok st \<longleftrightarrow> distinct (map fst (mg_active st)) \<and>
     (\<forall>n cam. live st n cam \<longleftrightarrow> map_of (mg_active st) cam = Some n) \<and>
     (\<forall>n p. map_of (mg_processes st) n = Some p \<longrightarrow> n < mg_nextProcess st \<and> (ps_phase p = Running \<longrightarrow> \<not> ps_stopRequested p))"

lemma manager_ok_cong:
  "mg_processes st' = mg_processes st \<Longrightarrow> mg_active st' = mg_active st \<Longrightarrow> mg_nextProcess st' = mg_nextProcess st \<Longrightarrow>
   manager_ok st' = manager_ok st"
  by (simp add: manager_ok_def live_def)

lemma manager_ok_frame [simp]:
  "manager_ok (updateCamera cam f st) = manager_ok st"
  "manager_ok (saveDesired cam w m st) = manager_ok st"
  "manager_ok (publishWorkerCommand cam a st) = manager_ok st"
  "manager_ok (clearMotionStopTimer cam st) = manager_ok st"
  "manager_ok (clearManualStopTimer cam st) = manager_ok st"
  "manager_ok (cancelPendingRestart cam st) = manager_ok st"
  "manager_ok (scheduleMotionStop now cam post st) = manager_ok st"
  "manager_ok (scheduleRecordingRestart cfg now p st) = manager_ok st"
  "manager_ok (registerEvent w cam k st) = manager_ok st"
  "manager_ok (startPreBuffer cfg e cam st) = manager_ok st"
  "manager_ok (stopPreBuffer cam st) = manager_ok st"
  "manager_ok (st\<lparr>mg_failureEvents := y\<rparr>) = manager_ok st"
  "manager_ok (st\<lparr>mg_rings := b\<rparr>) = manager_ok st"
  "manager_ok (st\<lparr>mg_manualTimers := x\<rparr>) = manager_ok st"
  "manager_ok (st\<lparr>mg_motionTimers := x\<rparr>) = manager_ok st"
  "manager_ok (st\<lparr>mg_restartTimers := z\<rparr>) = manager_ok st"
  "manager_ok (st\<lparr>mg_blindFailsafe := b\<rparr>) = manager_ok st"
  "manager_ok (st\<lparr>mg_suspended := s\<rparr>) = manager_ok st"
  "manager_ok (st\<lparr>mg_shuttingDown := c\<rparr>) = manager_ok st"
  by (rule manager_ok_cong;
      simp add: updateCamera_def saveDesired_def publishWorkerCommand_def clearMotionStopTimer_def clearManualStopTimer_def
        cancelPendingRestart_def scheduleMotionStop_def scheduleRecordingRestart_def planRecordingRestart_def registerEvent_def startPreBuffer_def
        stopPreBuffer_def Let_def split: option.splits)+

lemma live_setProcess:
  "live (setProcess n p st) m cam \<longleftrightarrow> (if m = n then ps_cameraId p = cam \<and> ps_phase p \<noteq> Finished else live st m cam)"
  by (simp add: live_def setProcess_def update_conv')

lemma ok_distinct: "manager_ok st \<Longrightarrow> distinct (map fst (mg_active st))"
  unfolding manager_ok_def by blast

lemma ok_live: "manager_ok st \<Longrightarrow> live st n cam \<longleftrightarrow> map_of (mg_active st) cam = Some n"
  unfolding manager_ok_def by blast

lemma ok_process: "manager_ok st \<Longrightarrow> map_of (mg_processes st) n = Some p \<Longrightarrow>
    n < mg_nextProcess st \<and> (ps_phase p = Running \<longrightarrow> \<not> ps_stopRequested p)"
  unfolding manager_ok_def by blast

text \<open>A process that changes without ending or changing its camera.\<close>

lemma setProcess_ok:
  assumes ok: "manager_ok st" and p: "map_of (mg_processes st) n = Some p"
    and "ps_cameraId p' = ps_cameraId p" "ps_phase p' \<noteq> Finished" "ps_phase p \<noteq> Finished"
    and run: "ps_phase p' = Running \<Longrightarrow> \<not> ps_stopRequested p'"
  shows "manager_ok (setProcess n p' st)"
  unfolding manager_ok_def
proof (intro conjI allI impI)
  show "distinct (map fst (mg_active (setProcess n p' st)))" using ok_distinct [OF ok] by (simp add: setProcess_def)
next
  fix m cam
  have "live (setProcess n p' st) m cam \<longleftrightarrow> live st m cam" 
    unfolding live_setProcess using assms(2-5) by (simp add: live_def)
  then show "live (setProcess n p' st) m cam \<longleftrightarrow> map_of (mg_active (setProcess n p' st)) cam = Some m"
    using ok_live [OF ok] by (simp add: setProcess_def)
next
  fix m q assume "map_of (mg_processes (setProcess n p' st)) m = Some q"
  then show "m < mg_nextProcess (setProcess n p' st)" "ps_phase q = Running \<Longrightarrow> \<not> ps_stopRequested q"
    using ok_process [OF ok] p run by (auto simp: setProcess_def update_conv' split: if_splits)
qed

lemma finalizeBegin_ok: "manager_ok st \<Longrightarrow> manager_ok (finalizeBegin n st)"
  unfolding finalizeBegin_def by (auto intro: setProcess_ok split: option.splits)

lemma finalizeEnd_ok:
  assumes "manager_ok st" shows "manager_ok (finalizeEnd cfg now n st)"
proof (cases "map_of (mg_processes st) n")
  case None
  then show ?thesis using assms by (simp add: finalizeEnd_def)
next
  case (Some p)
  show ?thesis
  proof (cases "\<exists>a. ps_phase p = Finalizing a")
    case False
    then show ?thesis using assms Some by (cases "ps_phase p") (auto simp: finalizeEnd_def)
  next
    case True
    then obtain a where a: "ps_phase p = Finalizing a" by blast
    have "live st n (ps_cameraId p)" using Some a by (simp add: live_def)
    then have act: "map_of (mg_active st) (ps_cameraId p) = Some n" using ok_live [OF assms] by simp
    let ?st = "(setProcess n (p\<lparr>ps_phase := Finished\<rparr>) st)\<lparr>mg_active := AList.delete (ps_cameraId p) (mg_active st)\<rparr>"
    have "manager_ok ?st"
      unfolding manager_ok_def
    proof (intro conjI allI impI)
      show "distinct (map fst (mg_active ?st))" using ok_distinct [OF assms] by (simp add: distinct_delete)
    next
      fix m cam
      have "live ?st m cam \<longleftrightarrow> m \<noteq> n \<and> live st m cam"
        using live_setProcess [of n "p\<lparr>ps_phase := Finished\<rparr>" st m cam] by (simp add: live_def setProcess_def)
      also have "\<dots> \<longleftrightarrow> map_of (mg_active ?st) cam = Some m"
        using ok_live [OF assms, of m cam] ok_live [OF assms, of n cam] act Some
        by (cases "cam = ps_cameraId p"; cases "m = n") (simp_all add: js_map_conv live_def a)
      finally show "live ?st m cam \<longleftrightarrow> map_of (mg_active ?st) cam = Some m" .
    next
      fix m q assume "map_of (mg_processes ?st) m = Some q"
      then show "m < mg_nextProcess ?st" and "ps_phase q = Running \<Longrightarrow> \<not> ps_stopRequested q"
        using ok_process [OF assms] Some by (auto simp: setProcess_def js_map_conv split: if_splits)
    qed
    then show ?thesis using Some a act by (simp add: finalizeEnd_def Let_def setProcess_def)
  qed
qed

lemma setProcess_twice [simp]: "setProcess n p (setProcess n q st) = setProcess n p st"
  by (simp add: setProcess_def update_last)

lemma spawn_ok:
  assumes ok: "manager_ok st" and free: "map_of (mg_active st) cam = None"
    and p: "ps_cameraId p = cam" "ps_phase p = Running" "\<not> ps_stopRequested p"
  shows "manager_ok ((setProcess (mg_nextProcess st) p st)\<lparr>mg_nextProcess := Suc (mg_nextProcess st),
     mg_active := AList.update cam (mg_nextProcess st) (mg_active st)\<rparr>)" (is "manager_ok ?st")
proof -
  let ?n = "mg_nextProcess st"
  have fresh: "map_of (mg_processes st) ?n = None" using ok_process [OF ok] by (cases "map_of (mg_processes st) ?n") auto
  show ?thesis
    unfolding manager_ok_def
  proof (intro conjI allI impI)
    show "distinct (map fst (mg_active ?st))" using ok_distinct [OF ok] by (simp add: distinct_update)
  next
    fix m c
    have "live ?st m c \<longleftrightarrow> live (setProcess ?n p st) m c" by (simp add: live_def setProcess_def)
    also have "\<dots> \<longleftrightarrow> (if m = ?n then cam = c else live st m c)" using p by (simp add: live_setProcess)
    also have "\<dots> \<longleftrightarrow> map_of (mg_active ?st) c = Some m"
      using ok_live [OF ok, of m c] ok_live [OF ok, of ?n c] free fresh
      by (cases "m = ?n"; cases "c = cam") (simp_all add: update_conv' live_def)
    finally show "live ?st m c \<longleftrightarrow> map_of (mg_active ?st) c = Some m" .
  next
    fix m q assume "map_of (mg_processes ?st) m = Some q"
    then show "m < mg_nextProcess ?st" and "ps_phase q = Running \<Longrightarrow> \<not> ps_stopRequested q"
      using ok_process [OF ok, of m q] p by (auto simp: setProcess_def update_conv' split: if_splits)
  qed
qed

lemma finalizeBegin_setProcess:
  "ps_phase p \<noteq> Finished \<Longrightarrow> finalizeBegin n (setProcess n p st) =
     setProcess n (p\<lparr>ps_phase := (case ps_phase p of Running \<Rightarrow> Finalizing (\<not> ps_stopRequested p) | ph \<Rightarrow> ph)\<rparr>) st"
  by (cases p; cases "ps_phase p") (auto simp: finalizeBegin_def setProcess_def update_conv' update_last)

lemma finalize_requested_ok:
  assumes "manager_ok st" "map_of (mg_processes st) n = Some p" "ps_phase p \<noteq> Finished"
  shows "manager_ok (finalizeRecordingState cfg now n (setProcess n (p\<lparr>ps_stopRequested := True\<rparr>) st))"
  unfolding finalizeRecordingState_def
proof (rule finalizeEnd_ok)
  show "manager_ok (finalizeBegin n (setProcess n (p\<lparr>ps_stopRequested := True\<rparr>) st))"
    using assms by (subst finalizeBegin_setProcess) (auto intro!: setProcess_ok split: process_phase.splits)
qed

lemma endProcess_ok:
  assumes "manager_ok st" "map_of (mg_active st) cam = Some n"
  shows "manager_ok (endProcess cfg now n st)"
proof -
  have "live st n cam" using ok_live [OF assms(1)] assms(2) by simp
  then obtain p where "map_of (mg_processes st) n = Some p" "ps_phase p \<noteq> Finished" by (auto simp: live_def)
  then show ?thesis using finalize_requested_ok [OF assms(1)] by (simp add: endProcess_def)
qed

lemma startChecks_ok: "manager_ok st \<Longrightarrow> manager_ok (fst (startChecks cfg e cam seconds mode st))"
  by (simp add: startChecks_def Let_def split: option.splits)

lemma startChecks_go:
  "startChecks cfg e cam seconds mode st = (st', Inr None) \<Longrightarrow> st' = st \<and> map_of (mg_active st) cam = None \<and> mc_local cfg \<and>
     map_of (mg_cameras st) cam \<noteq> None"
  by (auto simp: startChecks_def Let_def split: if_splits option.splits)

lemma startSpawn_ok:
  assumes "manager_ok st" "map_of (mg_active st) cam = None"
  shows "manager_ok (fst (startSpawn cfg e now cam seconds mode st))"
proof -
  let ?p = "\<lparr>ps_cameraId = cam, ps_segmentSeconds = seconds, ps_startedAt = now, ps_outputDir = se_outputDir e,
     ps_stopRequested = False, ps_phase = Running, ps_writeSample = None\<rparr>"
  note spawned = spawn_ok [OF assms, of ?p, simplified]
  show ?thesis
  proof (cases "se_updates e")
    case True
    then show ?thesis using spawned by (simp add: startSpawn_def Let_def)
  next
    case False
    then show ?thesis using finalize_requested_ok [OF spawned, of "mg_nextProcess st" ?p cfg now]
      by (simp add: startSpawn_def Let_def setProcess_def update_conv' update_last)
  qed
qed

lemma start_ok: "manager_ok st \<Longrightarrow> manager_ok (fst (start cfg e now cam seconds mode st))"
  using startChecks_ok [of st cfg e cam seconds mode] startChecks_go [of cfg e cam seconds mode st]
  by (auto simp: start_def intro!: startSpawn_ok split: prod.splits sum.splits option.splits)

lemma stop_ok: "manager_ok st \<Longrightarrow> manager_ok (fst (stop cfg e now cam mode st))"
  by (auto simp: stop_def Let_def intro!: endProcess_ok [where cam = cam] split: option.splits)

lemma suspend_ok: "manager_ok st \<Longrightarrow> manager_ok (suspendRecordingForDiskGuard cfg w now cam st)"
  by (auto simp: suspendRecordingForDiskGuard_def intro!: endProcess_ok [where cam = cam] split: option.splits)

lemma resumeOne_ok: "manager_ok st \<Longrightarrow> manager_ok (resumeOne cfg envs found now x st)"
proof (cases x)
  case (fields cam seconds retryAt)
  assume "manager_ok st"
  then show ?thesis using start_ok [of st cfg "envs cam" now cam seconds "Some ''continuous''"]
    by (auto simp: resumeOne_def fields Let_def split: option.splits prod.splits sum.splits)
qed

lemma fold_ok: "(\<And>x st. manager_ok st \<Longrightarrow> manager_ok (f x st)) \<Longrightarrow> manager_ok st \<Longrightarrow> manager_ok (fold f xs st)"
  by (induction xs arbitrary: st) auto

lemma stopEach_ok: "manager_ok st \<Longrightarrow> manager_ok (stopEach cfg envs now cams st)"
proof (induction cams arbitrary: st)
  case (Cons cam cams)
  then show ?case using stop_ok [OF Cons.prems, of cfg "envs cam" now cam None]
    by (auto split: prod.splits sum.splits)
qed simp

lemma guard_ok: "manager_ok st \<Longrightarrow> manager_ok (fst (enforceDiskGuard ck cfg g envs found now (st, d)))"
  by (simp add: enforceDiskGuard_def resumeContinuousRecordingsAfterDiskGuard_def Let_def fold_ok [OF resumeOne_ok] fold_ok [OF suspend_ok]
      split: option.splits prod.splits)

lemma perform_ok:
  assumes "manager_ok st" shows "manager_ok (fst (perform ck cfg now ev (st, d)))"
proof (cases ev)
  case (ManualStart e cam seconds duration)
  then show ?thesis using assms start_ok [of "clearManualStopTimer cam (clearMotionStopTimer cam st)" cfg e now cam seconds "Some ''manual''"]
    by (auto simp: startManualRecording_def Let_def split: prod.splits sum.splits)
next
  case (MotionDetected e remote cam)
  have failed: "manager_ok (fst (motionFailed cfg e now cam err st)) = manager_ok st" for err st
    by (simp add: motionFailed_def Let_def)
  from MotionDetected show ?thesis using assms start_ok [of st cfg e now cam "getMotionSegmentSeconds cfg" None]
    by (auto simp: handleMotionDetected_def failed Let_def split: prod.splits sum.splits option.splits)
next
  case (MotionDue e cam)
  let ?st = "startPreBuffer cfg e cam (clearMotionStopTimer cam st)"
  show ?thesis using MotionDue assms stop_ok [of ?st cfg e now cam None]
    by (auto simp: stopMotionRecordingAfterQuiet_def Let_def split: option.splits prod.splits sum.splits)
next
  case (DetectorBlind e remote cam cego)
  let ?st = "clearMotionStopTimer cam (st\<lparr>mg_blindFailsafe := mg_blindFailsafe st @ [cam]\<rparr>)"
  show ?thesis using DetectorBlind assms start_ok [of ?st cfg e now cam "getMotionSegmentSeconds cfg" None]
    by (auto simp: definirFailsafeDetectorCego_def Let_def split: option.splits prod.splits sum.splits)
next
  case (HealthRestart e1 e2 rearms cam seconds)
  obtain st1 r where st1: "stop cfg e1 now cam None st = (st1, r)" by fastforce
  then have "manager_ok st1" using stop_ok [OF assms, of cfg e1 now cam None] by simp
  then show ?thesis using HealthRestart st1 start_ok [of st1 cfg e2 now cam seconds None]
    by (auto simp: reiniciarGravacaoPreservandoArmada_def split: prod.splits sum.splits)
next
  case (Shutdown envs)
  have "manager_ok ((fold cancelPendingRestart (map fst (mg_restartTimers st)) (st\<lparr>mg_shuttingDown := True\<rparr>))
      \<lparr>mg_motionTimers := [], mg_manualTimers := [], mg_rings := []\<rparr>)"
    using assms fold_ok [of cancelPendingRestart "st\<lparr>mg_shuttingDown := True\<rparr>"] by simp
  then show ?thesis using Shutdown by (simp add: onApplicationShutdown_def stopAll_def Let_def stopEach_ok)
next
  case (Boot envs)
  then show ?thesis using assms by (simp add: startEnabledContinuousRecordingsInner_def fold_ok start_ok)
qed (use assms in \<open>auto simp: start_ok stop_ok stopManualRecording_def setMotionRecording_def definirFailsafeDetectorCego_def
    restartRecordingAfterCrash_def stopMotionRecordingAfterQuiet_def finalizeBegin_ok finalizeEnd_ok guard_ok stopAll_def stopEach_ok
    Let_def split: option.splits\<close>)

section \<open>Reachable states\<close>

definition fresh_manager :: "manager \<times> disk \<Rightarrow> bool" where
  "fresh_manager s \<longleftrightarrow> mg_processes (fst s) = [] \<and> mg_active (fst s) = [] \<and> mg_restartTimers (fst s) = []"

inductive manager_step :: "(string \<Rightarrow> 'k::linorder) \<Rightarrow> manager_config \<Rightarrow> manager \<times> disk \<Rightarrow> manager \<times> disk \<Rightarrow> bool" for ck cfg where
  event: "manager_step ck cfg s (perform ck cfg now ev s)"

inductive_cases manager_stepE: "manager_step ck cfg s s'"

interpretation supervisor: transition_invariant fresh_manager "manager_step ck cfg" "\<lambda>s. manager_ok (fst s)"
proof unfold_locales
  fix s assume "fresh_manager s"
  then show "manager_ok (fst s)" by (simp add: fresh_manager_def manager_ok_def live_def)
next
  fix s t assume "manager_ok (fst s)" "manager_step ck cfg s t"
  then show "manager_ok (fst t)" by (cases s) (auto elim!: manager_stepE intro: perform_ok)
qed


definition sample_config :: manager_config where
  "sample_config = \<lparr>mc_local = True, mc_autoRestart = None, mc_maxAttempts = None, mc_windowMs = None, mc_baseDelayMs = None,
     mc_maxDelayMs = None, mc_segmentSeconds = None, mc_maxUsedPercent = None, mc_postRollSeconds = None,
     mc_motionSegmentSeconds = None, mc_preEventSeconds = None, mc_failureCooldownSeconds = None, mc_minFreeBytes = 2147483648, mc_minFreePercent = 5\<rparr>"

definition sample_start :: start_env where
  "sample_start = \<lparr>se_feature = True, se_writable = True, se_usage = \<lparr>su_totalBytes = 1000000000000, su_freeBytes = 600000000000\<rparr>,
     se_ffmpeg = True, se_input = True, se_outputDir = ''out'', se_updates = True, se_publishes = True, se_registers = True\<rparr>"

definition sample_row :: "string \<Rightarrow> camera_row" where
  "sample_row m = \<lparr>cr_enabled = True, cr_recordingEnabled = False, cr_recordingMode = m\<rparr>"

definition sample_manager :: "string \<Rightarrow> manager" where
  "sample_manager m = \<lparr>mg_cameras = [(''c'', sample_row m)], mg_processes = [], mg_nextProcess = 0, mg_active = [],
     mg_motionTimers = [], mg_manualTimers = [], mg_restartTimers = [], mg_restartAttempts = [], mg_blindFailsafe = [],
     mg_suspended = [], mg_shuttingDown = False, mg_published = [], mg_rings = [], mg_failureEvents = [], mg_events = []\<rparr>"

definition sample_disk :: disk where "sample_disk = \<lparr>dk_recordings = [], dk_files = []\<rparr>"

lemma sample_settings:
  "isAutoRestartEnabled sample_config" "getRestartMaxAttempts sample_config = 5" "getRestartWindowMs sample_config = 600000"
  "getRestartBaseDelayMs sample_config = 1000" "getRestartMaxDelayMs sample_config = 30000"
  "getMotionPostRollSeconds sample_config = 60" "getMotionSegmentSeconds sample_config = 60"
  "getDiskGuardMaxUsedPercent sample_config = 85"
  by (simp_all add: sample_config_def isAutoRestartEnabled_def getRestartMaxAttempts_def getRestartWindowMs_def
      getRestartBaseDelayMs_def getRestartMaxDelayMs_def getMotionPostRollSeconds_def getMotionSegmentSeconds_def
      getDiskGuardMaxUsedPercent_def whole_def positive_setting_def envNumber_def truncate_rat_def clamp_min_def clamp_max_def)

lemma sample_space: "\<not> critical sample_config (se_usage sample_start)"
  by (simp add: critical_def sample_settings usedPercent_def freePercent_def sample_start_def) (simp add: sample_config_def)

lemma sample_starts:
  "map_of (mg_cameras st) ''c'' = Some r \<Longrightarrow> cr_enabled r \<Longrightarrow> map_of (mg_active st) ''c'' = None \<Longrightarrow>
   startChecks sample_config sample_start ''c'' seconds mode st = (st, Inr None)"
  using sample_space by (simp add: startChecks_def assertMinimumStorageFree_def Let_def) (simp add: sample_start_def sample_config_def)


end
