(* ===== verification/Recording_Intent.thy ===== *)
theory Recording_Intent
  imports Recording_Supervisor_Properties
begin

text \<open>
  What the supervisor (\<open>Recording_Supervisor\<close>) does to what somebody asked for: a requested stop stays
  a stop until somebody asks for a recording again, the restart of the health check keeps the
  camera wanted, what a manual recording leaves of the mode, and what can go wrong: an emergency
  recording that is never tried again, and a stop that falls into a start.
\<close>

section \<open>A camera at rest\<close>

declare map_of_eq_Some_iff [simp del]

definition unwanted :: "string \<Rightarrow> manager \<Rightarrow> bool" where
  "unwanted cam st \<longleftrightarrow> (\<forall>r. map_of (mg_cameras st) cam = Some r \<longrightarrow> \<not> cr_recordingEnabled r)"

definition at_rest :: "string \<Rightarrow> manager \<Rightarrow> bool" where
  "at_rest cam st \<longleftrightarrow> manager_ok st \<and> distinct (map fst (mg_cameras st)) \<and> unwanted cam st \<and>
     map_of (mg_active st) cam = None \<and> map_of (mg_restartTimers st) cam = None"

lemma at_rest_row:
  "at_rest cam st \<Longrightarrow> c \<noteq> cam \<or> \<not> cr_recordingEnabled (f r) \<Longrightarrow> map_of (mg_cameras st) c = Some r \<Longrightarrow>
   at_rest cam (st\<lparr>mg_cameras := AList.update c (f r) (mg_cameras st)\<rparr>)"
  using manager_ok_cong [of "st\<lparr>mg_cameras := AList.update c (f r) (mg_cameras st)\<rparr>" st]
  by (auto simp: at_rest_def unwanted_def distinct_update update_conv')

lemma at_rest_frame [simp]:
  "at_rest cam (publishWorkerCommand c a st) = at_rest cam st"
  "at_rest cam (clearMotionStopTimer c st) = at_rest cam st"
  "at_rest cam (clearManualStopTimer c st) = at_rest cam st"
  "at_rest cam (scheduleMotionStop now c post st) = at_rest cam st"
  "at_rest cam (registerEvent w c k st) = at_rest cam st"
  "at_rest cam (startPreBuffer cfg e c st) = at_rest cam st"
  "at_rest cam (stopPreBuffer c st) = at_rest cam st"
  "at_rest cam (st\<lparr>mg_failureEvents := v\<rparr>) = at_rest cam st"
  "at_rest cam (st\<lparr>mg_rings := b\<rparr>) = at_rest cam st"
  "at_rest cam (st\<lparr>mg_manualTimers := x\<rparr>) = at_rest cam st"
  "at_rest cam (st\<lparr>mg_motionTimers := x\<rparr>) = at_rest cam st"
  "at_rest cam (st\<lparr>mg_blindFailsafe := b\<rparr>) = at_rest cam st"
  "at_rest cam (st\<lparr>mg_suspended := s\<rparr>) = at_rest cam st"
  "at_rest cam (st\<lparr>mg_shuttingDown := y\<rparr>) = at_rest cam st"
  unfolding at_rest_def unwanted_def manager_ok_frame
  by (simp_all add: publishWorkerCommand_def clearMotionStopTimer_def clearManualStopTimer_def scheduleMotionStop_def registerEvent_def
      startPreBuffer_def stopPreBuffer_def split: option.splits)

lemma at_rest_cancel: "at_rest cam st \<Longrightarrow> at_rest cam (cancelPendingRestart c st)"
  unfolding at_rest_def unwanted_def manager_ok_frame by (simp add: cancelPendingRestart_def delete_conv')

lemma at_rest_save: "at_rest cam st \<Longrightarrow> c \<noteq> cam \<or> \<not> w \<Longrightarrow> at_rest cam (saveDesired c w m st)"
  unfolding saveDesired_def updateCamera_def by (auto intro: at_rest_row split: option.splits)

lemma at_rest_live: "at_rest cam st \<Longrightarrow> map_of (mg_processes st) n = Some p \<Longrightarrow> ps_phase p \<noteq> Finished \<Longrightarrow> ps_cameraId p \<noteq> cam"
  unfolding at_rest_def using ok_live [of st n "ps_cameraId p"] by (auto simp: live_def)

lemma schedule_frame:
  "mg_cameras (scheduleRecordingRestart cfg now p st) = mg_cameras st"
  "mg_active (scheduleRecordingRestart cfg now p st) = mg_active st"
  "ps_cameraId p \<noteq> cam \<Longrightarrow> map_of (mg_restartTimers (scheduleRecordingRestart cfg now p st)) cam = map_of (mg_restartTimers st) cam"
  by (simp_all add: scheduleRecordingRestart_def planRecordingRestart_def Let_def update_conv')

text \<open>What the end of a process does for the other cameras.\<close>

lemma finalizeEnd_frame:
  assumes "\<And>p. map_of (mg_processes st) n = Some p \<Longrightarrow> ps_phase p \<noteq> Finished \<Longrightarrow> ps_cameraId p \<noteq> cam"
  shows "mg_cameras (finalizeEnd cfg now n st) = mg_cameras st"
    "map_of (mg_active (finalizeEnd cfg now n st)) cam = map_of (mg_active st) cam"
    "map_of (mg_restartTimers (finalizeEnd cfg now n st)) cam = map_of (mg_restartTimers st) cam"
  using assms by (auto simp: finalizeEnd_def Let_def schedule_frame setProcess_def delete_conv' split: option.splits process_phase.splits)

lemma finalizeBegin_frame [simp]:
  "mg_cameras (finalizeBegin n st) = mg_cameras st" "mg_active (finalizeBegin n st) = mg_active st"
  "mg_restartTimers (finalizeBegin n st) = mg_restartTimers st"
  by (simp_all add: finalizeBegin_def setProcess_def split: option.splits)

lemma setProcess_frame [simp]:
  "mg_cameras (setProcess n p st) = mg_cameras st" "mg_active (setProcess n p st) = mg_active st"
  "mg_restartTimers (setProcess n p st) = mg_restartTimers st"
  by (simp_all add: setProcess_def)

lemma requested_end_frame:
  assumes "ps_cameraId p \<noteq> cam"
  shows "mg_cameras (finalizeRecordingState cfg now n (setProcess n p st)) = mg_cameras st"
    "map_of (mg_active (finalizeRecordingState cfg now n (setProcess n p st))) cam = map_of (mg_active st) cam"
    "map_of (mg_restartTimers (finalizeRecordingState cfg now n (setProcess n p st))) cam = map_of (mg_restartTimers st) cam"
proof -
  have "ps_cameraId q \<noteq> cam" if "map_of (mg_processes (finalizeBegin n (setProcess n p st))) n = Some q" for q
    using that assms by (auto simp: finalizeBegin_def setProcess_def update_conv' split: if_splits)
  note f = finalizeEnd_frame [of "finalizeBegin n (setProcess n p st)" n cam cfg now, OF this]
  show "mg_cameras (finalizeRecordingState cfg now n (setProcess n p st)) = mg_cameras st"
    "map_of (mg_active (finalizeRecordingState cfg now n (setProcess n p st))) cam = map_of (mg_active st) cam"
    "map_of (mg_restartTimers (finalizeRecordingState cfg now n (setProcess n p st))) cam = map_of (mg_restartTimers st) cam"
    using f by (simp_all add: finalizeRecordingState_def)
qed

lemma at_rest_endProcess:
  assumes "at_rest cam st" "map_of (mg_active st) c = Some n"
  shows "at_rest cam (endProcess cfg now n st)"
proof -
  have "live st n c" using assms ok_live [of st n c] by (simp add: at_rest_def)
  then obtain p where p: "map_of (mg_processes st) n = Some p" "ps_phase p \<noteq> Finished" by (auto simp: live_def)
  have "ps_cameraId p \<noteq> cam" by (rule at_rest_live [OF assms(1) p])
  then show ?thesis using assms endProcess_ok [of st c n cfg now] p(1)
    unfolding at_rest_def unwanted_def by (simp add: endProcess_def requested_end_frame)
qed

lemma at_rest_finalizeEnd: "at_rest cam st \<Longrightarrow> at_rest cam (finalizeEnd cfg now n st)"
  using at_rest_live [of cam st n] finalizeEnd_ok [of st cfg now n] finalizeEnd_frame [of st n cam cfg now]
  by (simp add: at_rest_def unwanted_def)

lemma at_rest_finalizeBegin: "at_rest cam st \<Longrightarrow> at_rest cam (finalizeBegin n st)"
  using finalizeBegin_ok [of st n] by (simp add: at_rest_def unwanted_def)

lemma at_rest_start:
  assumes "at_rest cam st" "c \<noteq> cam"
  shows "at_rest cam (fst (start cfg e now c seconds mode st))"
proof -
  have checks: "at_rest cam (fst (startChecks cfg e c seconds mode st))"
    using assms by (auto simp: startChecks_def Let_def intro: at_rest_save split: option.splits)
  have spawn: "at_rest cam (fst (startSpawn cfg e now c seconds mode st))" if free: "map_of (mg_active st) c = None"
  proof -
    have "manager_ok (fst (startSpawn cfg e now c seconds mode st))" using startSpawn_ok [OF _ free] assms(1) by (simp add: at_rest_def)
    then show ?thesis using assms
      by (auto simp: at_rest_def unwanted_def startSpawn_def Let_def requested_end_frame update_conv' saveDesired_def updateCamera_def
          distinct_update split: option.splits)
  qed
  show ?thesis using checks spawn startChecks_go [of cfg e c seconds mode st]
    by (auto simp: start_def split: prod.splits sum.splits option.splits)
qed

lemma at_rest_stop: "at_rest cam st \<Longrightarrow> at_rest cam (fst (stop cfg e now c mode st))"
  by (auto simp: stop_def Let_def intro!: at_rest_endProcess [where c = c] at_rest_cancel at_rest_save split: option.splits)

lemma at_rest_fold: "(\<And>x st. x \<in> set xs \<Longrightarrow> at_rest cam st \<Longrightarrow> at_rest cam (f x st)) \<Longrightarrow> at_rest cam st \<Longrightarrow> at_rest cam (fold f xs st)"
  by (induction xs arbitrary: st) auto

lemma at_rest_suspend: "at_rest cam st \<Longrightarrow> at_rest cam (suspendRecordingForDiskGuard cfg w now c st)"
  by (auto simp: suspendRecordingForDiskGuard_def intro!: at_rest_endProcess [where c = c] split: option.splits)

lemma at_rest_resume:
  assumes "at_rest cam st" shows "at_rest cam (resumeOne cfg envs found now x st)"
proof (cases x)
  case (fields c seconds retryAt)
  have "at_rest cam (fst (start cfg (envs c) now c seconds (Some ''continuous'') st))" if "c \<noteq> cam" by (rule at_rest_start [OF assms that])
  moreover have "\<not> cr_recordingEnabled r" if "map_of (mg_cameras st) cam = Some r" for r
    using assms that by (simp add: at_rest_def unwanted_def)
  ultimately show ?thesis using assms
    by (cases "c = cam") (auto simp: resumeOne_def fields Let_def split: option.splits prod.splits sum.splits)
qed

lemma at_rest_stopEach: "at_rest cam st \<Longrightarrow> at_rest cam (stopEach cfg envs now cs st)"
proof (induction cs arbitrary: st)
  case (Cons c cs)
  then show ?case using at_rest_stop [OF Cons.prems, of cfg "envs c" now c None] by (auto split: prod.splits sum.splits)
qed simp

lemma at_rest_guard: "at_rest cam st \<Longrightarrow> at_rest cam (fst (enforceDiskGuard ck cfg g envs found now (st, d)))"
  by (simp add: enforceDiskGuard_def resumeContinuousRecordingsAfterDiskGuard_def Let_def at_rest_fold [OF at_rest_resume]
      at_rest_fold [OF at_rest_suspend] split: option.splits prod.splits)

text \<open>The events that ask for a recording of a camera.\<close>

fun asks :: "string \<Rightarrow> event \<Rightarrow> bool" where
  "asks cam (Start e c seconds mode) = (c = cam)"
| "asks cam (ManualStart e c seconds duration) = (c = cam)"
| "asks cam (MotionDetected e remote c) = (c = cam)"
| "asks cam (DetectorBlind e remote c cego) = (c = cam \<and> cego)"
| "asks cam (HealthRestart e1 e2 rearms c seconds) = (c = cam)"
| "asks cam ev = False"

lemma at_rest_manual_start:
  "at_rest cam st \<Longrightarrow> c \<noteq> cam \<Longrightarrow> at_rest cam (fst (startManualRecording cfg e now c seconds duration st))"
  using at_rest_start [of cam "clearManualStopTimer c (clearMotionStopTimer c st)" c cfg e now seconds "Some ''manual''"]
  by (auto simp: startManualRecording_def Let_def split: prod.splits sum.splits)

lemma at_rest_motion:
  "at_rest cam st \<Longrightarrow> c \<noteq> cam \<Longrightarrow> at_rest cam (fst (handleMotionDetected cfg e remote now c st))"
  using at_rest_start [of cam st c cfg e now "getMotionSegmentSeconds cfg" None]
  by (auto simp: handleMotionDetected_def motionFailed_def Let_def split: prod.splits sum.splits option.splits)

lemma at_rest_quiet: "at_rest cam st \<Longrightarrow> at_rest cam (stopMotionRecordingAfterQuiet cfg e now c st)"
  using at_rest_stop [of cam "startPreBuffer cfg e c (clearMotionStopTimer c st)" cfg e now c None]
  by (auto simp: stopMotionRecordingAfterQuiet_def Let_def split: option.splits prod.splits sum.splits)

lemma at_rest_health:
  assumes "at_rest cam st" "c \<noteq> cam"
  shows "at_rest cam (fst (reiniciarGravacaoPreservandoArmada cfg e1 e2 rearms now c seconds st))"
proof -
  obtain st1 r where st1: "stop cfg e1 now c None st = (st1, r)" by fastforce
  then have r1: "at_rest cam st1" using at_rest_stop [OF assms(1), of cfg e1 now c None] by simp
  have "at_rest cam (fst (start cfg e2 now c seconds None st1))" by (rule at_rest_start [OF r1 assms(2)])
  moreover have "at_rest cam (updateCamera c (\<lambda>r. r\<lparr>cr_recordingEnabled := True\<rparr>) st2)" if "at_rest cam st2" for st2
    using at_rest_row [OF that, of c "\<lambda>r. r\<lparr>cr_recordingEnabled := True\<rparr>"] assms(2) that by (simp add: updateCamera_def split: option.splits)
  ultimately show ?thesis using st1 r1
    by (auto simp: reiniciarGravacaoPreservandoArmada_def split: prod.splits sum.splits)
qed

lemma at_rest_arm: "at_rest cam st \<Longrightarrow> at_rest cam (fst (setMotionRecording cfg e updates now c enabled st))"
proof (cases "map_of (mg_cameras st) c")
  case (Some r)
  assume "at_rest cam st"
  then have r1: "at_rest cam (fst (stop cfg e now c None (clearMotionStopTimer c st)))" by (simp add: at_rest_stop)
  have "at_rest cam (updateCamera c (\<lambda>r. r\<lparr>cr_recordingMode := m, cr_recordingEnabled := False\<rparr>) st')" if "at_rest cam st'" for m st'
    using at_rest_row [OF that, of c "\<lambda>r. r\<lparr>cr_recordingMode := m, cr_recordingEnabled := False\<rparr>"] that
    by (simp add: updateCamera_def split: option.splits)
  then show ?thesis using Some r1 by (simp add: setMotionRecording_def Let_def)
qed (simp add: setMotionRecording_def)

lemma at_rest_blind:
  "at_rest cam st \<Longrightarrow> c \<noteq> cam \<or> \<not> cego \<Longrightarrow> at_rest cam (fst (definirFailsafeDetectorCego cfg e remote now c cego st))"
  using at_rest_start [of cam "clearMotionStopTimer c (st\<lparr>mg_blindFailsafe := mg_blindFailsafe st @ [c]\<rparr>)" c cfg e now
      "getMotionSegmentSeconds cfg" None]
  by (auto simp: definirFailsafeDetectorCego_def Let_def split: prod.splits sum.splits)

lemma at_rest_restart:
  "at_rest cam st \<Longrightarrow> c \<noteq> cam \<Longrightarrow> at_rest cam (restartRecordingAfterCrash cfg e now c seconds st)"
proof -
  assume r: "at_rest cam st" and c: "c \<noteq> cam"
  have "manager_ok (st\<lparr>mg_restartTimers := AList.delete c (mg_restartTimers st)\<rparr>)" using r by (simp add: at_rest_def)
  then have "at_rest cam (st\<lparr>mg_restartTimers := AList.delete c (mg_restartTimers st)\<rparr>)"
    using r c by (simp add: at_rest_def unwanted_def delete_conv')
  then show ?thesis using c by (auto simp: restartRecordingAfterCrash_def Let_def intro!: at_rest_start split: option.splits)
qed

lemma perform_at_rest:
  assumes "at_rest cam st" "\<not> asks cam ev"
  shows "at_rest cam (fst (perform ck cfg now ev (st, d)))"
proof (cases ev)
  case (RestartDue e c)
  have "map_of (mg_restartTimers st) cam = None" using assms(1) by (simp add: at_rest_def)
  then show ?thesis using RestartDue at_rest_restart [OF assms(1), of c] assms(1) by (cases "c = cam") (auto split: option.splits)
next
  case (Boot envs)
  let ?boot = "map fst (take 500 (filter (\<lambda>(cam, r). cr_enabled r \<and> cr_recordingEnabled r \<and> cr_recordingMode r = ''continuous'') (mg_cameras st)))"
  have "cam \<notin> set ?boot"
  proof
    assume "cam \<in> set ?boot"
    then obtain r where "(cam, r) \<in> set (mg_cameras st)" "cr_recordingEnabled r" by (auto dest!: in_set_takeD)
    then show False using assms(1) by (auto simp: at_rest_def unwanted_def)
  qed
  then show ?thesis using assms(1) Boot
    by (auto simp: startEnabledContinuousRecordingsInner_def intro!: at_rest_fold at_rest_start)
next
  case (Shutdown envs)
  have "at_rest cam ((fold cancelPendingRestart (map fst (mg_restartTimers st)) (st\<lparr>mg_shuttingDown := True\<rparr>))
      \<lparr>mg_motionTimers := [], mg_manualTimers := [], mg_rings := []\<rparr>)"
    using assms(1) at_rest_fold [of _ cam cancelPendingRestart "st\<lparr>mg_shuttingDown := True\<rparr>"] by (simp add: at_rest_cancel)
  then show ?thesis using Shutdown by (simp add: onApplicationShutdown_def stopAll_def Let_def at_rest_stopEach)
qed (use assms in \<open>auto simp: at_rest_start at_rest_stop at_rest_manual_start stopManualRecording_def at_rest_motion at_rest_health at_rest_arm
    at_rest_blind at_rest_quiet at_rest_finalizeBegin at_rest_finalizeEnd at_rest_guard stopAll_def at_rest_stopEach
    Let_def split: option.splits\<close>)

section \<open>A requested stop\<close>

lemma schedule_requested: "ps_stopRequested p \<Longrightarrow> scheduleRecordingRestart cfg now p st = st"
  by (simp add: scheduleRecordingRestart_def Let_def)

lemma finalizeEnd_requested:
  assumes "ps_phase q = Finalizing a" "ps_stopRequested q" "map_of (mg_active st) (ps_cameraId q) = Some n"
  shows "finalizeEnd cfg now n (setProcess n q st) =
    (setProcess n (q\<lparr>ps_phase := Finished\<rparr>) st)\<lparr>mg_active := AList.delete (ps_cameraId q) (mg_active st)\<rparr>"
proof -
  have "map_of (mg_processes (setProcess n q st)) n = Some q" by (simp add: setProcess_def update_conv')
  then show ?thesis using assms by (simp add: finalizeEnd_def Let_def schedule_requested)
qed

lemma requested_end:
  assumes "ps_phase p \<noteq> Finished" "map_of (mg_active st) (ps_cameraId p) = Some n"
  shows "finalizeRecordingState cfg now n (setProcess n (p\<lparr>ps_stopRequested := True\<rparr>) st) =
    (setProcess n (p\<lparr>ps_stopRequested := True, ps_phase := Finished\<rparr>) st)\<lparr>mg_active := AList.delete (ps_cameraId p) (mg_active st)\<rparr>"
proof -
  let ?q = "p\<lparr>ps_stopRequested := True\<rparr>"
  obtain a where a: "(case ps_phase ?q of Running \<Rightarrow> Finalizing (\<not> ps_stopRequested ?q) | ph \<Rightarrow> ph) = Finalizing a"
    using assms(1) by (cases "ps_phase p") auto
  have "finalizeBegin n (setProcess n ?q st) = setProcess n (?q\<lparr>ps_phase := Finalizing a\<rparr>) st"
    using finalizeBegin_setProcess [of ?q n st] assms(1) a by simp
  then show ?thesis using finalizeEnd_requested [of "?q\<lparr>ps_phase := Finalizing a\<rparr>" a st n cfg now] assms(2)
    by (simp add: finalizeRecordingState_def)
qed

lemma stop_at_rest:
  assumes ok: "manager_ok st" and "distinct (map fst (mg_cameras st))" "mc_local cfg" "stop cfg e now cam mode st = (st1, Inr r)"
  shows "at_rest cam st1"
proof -
  let ?st = "cancelPendingRestart cam (saveDesired cam False mode st)"
  obtain row where row: "map_of (mg_cameras st) cam = Some row" and up: "se_updates e"
    using assms(4) by (auto simp: stop_def split: if_splits)
  have ok': "manager_ok ?st" using ok by simp
  have db: "distinct (map fst (mg_cameras ?st))" "unwanted cam ?st" "map_of (mg_restartTimers ?st) cam = None"
    using assms(2) row by (simp_all add: cancelPendingRestart_def saveDesired_def updateCamera_def unwanted_def delete_conv' distinct_update update_conv')
  show ?thesis
  proof (cases "map_of (mg_active ?st) cam")
    case None
    then have "st1 = ?st" using assms(3,4) row up by (simp add: stop_def Let_def)
    then show ?thesis using None ok' db by (simp add: at_rest_def)
  next
    case (Some n)
    then have st1: "st1 = endProcess cfg now n ?st" using assms(3,4) row up by (simp add: stop_def Let_def)
    have "live ?st n cam" using ok_live [OF ok'] Some by simp
    then obtain p where p: "map_of (mg_processes ?st) n = Some p" "ps_cameraId p = cam" "ps_phase p \<noteq> Finished" by (auto simp: live_def)
    have ends: "finalizeRecordingState cfg now n (setProcess n (p\<lparr>ps_stopRequested := True\<rparr>) ?st) =
        (setProcess n (p\<lparr>ps_stopRequested := True, ps_phase := Finished\<rparr>) ?st)\<lparr>mg_active := AList.delete (ps_cameraId p) (mg_active ?st)\<rparr>"
      using p(2,3) Some by (intro requested_end) simp_all
    have "manager_ok st1" unfolding st1 by (rule endProcess_ok [OF ok' Some])
    then show ?thesis using db p st1 ends by (simp add: at_rest_def unwanted_def endProcess_def delete_conv')
  qed
qed

lemma run_at_rest:
  "at_rest cam st \<Longrightarrow> \<forall>(t, ev)\<in>set evs. \<not> asks cam ev \<Longrightarrow> at_rest cam (fst (fold (\<lambda>(t, ev). perform ck cfg t ev) evs (st, d)))"
proof (induction evs arbitrary: st d)
  case (Cons x evs)
  obtain t ev where x: "x = (t, ev)" by fastforce
  obtain st' d' where step: "perform ck cfg t ev (st, d) = (st', d')" by fastforce
  have "at_rest cam st'" using perform_at_rest [OF Cons.prems(1), of ev ck cfg t d] Cons.prems(2) x step by simp
  then show ?case using Cons.IH [of st' d'] Cons.prems(2) x step by simp
qed simp



end
