(* ===== verification/Recording_Requests.thy ===== *)
theory Recording_Requests
  imports Recording_Intent
begin

text \<open>
  Single requests to the supervisor (\<open>Recording_Supervisor\<close>): what a manual recording leaves behind,
  the emergency recording of a blind detector, a stop that falls between the two halves of a
  start, and the restart of the health check.
\<close>

section \<open>What a start leaves in the row\<close>

definition desired :: "bool \<Rightarrow> string option \<Rightarrow> camera_row \<Rightarrow> camera_row" where
  "desired wanted requested r = r\<lparr>cr_recordingEnabled := wanted, cr_recordingMode :=
     (case requested of None \<Rightarrow> cr_recordingMode r
      | Some m \<Rightarrow> if m = [] \<or> (m = ''manual'' \<and> modoArmado (Some (cr_recordingMode r))) then cr_recordingMode r else m)\<rparr>"

lemma desired_fields [simp]:
  "cr_recordingEnabled (desired w m r) = w" "cr_enabled (desired w m r) = cr_enabled r"
  by (simp_all add: desired_def)

lemma saveDesired_row:
  "map_of (mg_cameras st) cam = Some r \<Longrightarrow> map_of (mg_cameras (saveDesired cam w m st)) c =
     (if c = cam then Some (desired w m r) else map_of (mg_cameras st) c)"
  by (auto simp: saveDesired_def updateCamera_def resolveRecordingModeUpdate_def desired_def update_conv' split: option.splits)

lemma saveDesired_frame [simp]:
  "mg_active (saveDesired cam w m st) = mg_active st" "mg_processes (saveDesired cam w m st) = mg_processes st"
  by (simp_all add: saveDesired_def updateCamera_def split: option.splits)

lemma finalizeEnd_cameras [simp]: "mg_cameras (finalizeEnd cfg now n st) = mg_cameras st"
  by (simp add: finalizeEnd_def Let_def schedule_frame split: option.splits process_phase.splits)

lemma finalize_cameras [simp]: "mg_cameras (finalizeRecordingState cfg now n st) = mg_cameras st"
  by (simp add: finalizeRecordingState_def)

lemma endProcess_cameras [simp]: "mg_cameras (endProcess cfg now n st) = mg_cameras st"
  by (simp add: endProcess_def split: option.splits)

lemma start_row:
  assumes "start cfg e now cam seconds mode st = (st', Inr x)" "map_of (mg_cameras st) cam = Some r"
  shows "map_of (mg_cameras st') cam = Some (desired True mode r)"
  using assms by (auto simp: start_def startChecks_def startSpawn_def Let_def saveDesired_row publishWorkerCommand_def
      split: if_splits option.splits prod.splits)

lemma start_failed_row:
  assumes "start cfg e now cam seconds mode st = (st', Inl err)"
  shows "map_of (mg_cameras st') cam = map_of (mg_cameras st) cam \<or>
    (\<exists>r. map_of (mg_cameras st) cam = Some r \<and> map_of (mg_cameras st') cam = Some (desired True mode r))"
  using assms by (auto simp: start_def startChecks_def startSpawn_def Let_def saveDesired_row publishWorkerCommand_def
      split: if_splits option.splits prod.splits)

lemma stop_row:
  assumes "stop cfg e now cam mode st = (st', Inr x)" "map_of (mg_cameras st) cam = Some r"
  shows "map_of (mg_cameras st') cam = Some (desired False mode r)"
  using assms by (auto simp: stop_def Let_def saveDesired_row publishWorkerCommand_def cancelPendingRestart_def
      split: if_splits option.splits)

lemma schedule_manual [simp]: "mg_manualTimers (scheduleRecordingRestart cfg now p st) = mg_manualTimers st"
  by (simp add: scheduleRecordingRestart_def planRecordingRestart_def Let_def)

lemma stop_timers: "stop cfg e now cam mode st = (st', x) \<Longrightarrow> mg_manualTimers st' = mg_manualTimers st"
  by (auto simp: stop_def Let_def saveDesired_def updateCamera_def publishWorkerCommand_def cancelPendingRestart_def endProcess_def
      finalizeRecordingState_def finalizeBegin_def finalizeEnd_def setProcess_def
      split: if_splits option.splits process_phase.splits)

section \<open>Manual recording\<close>

lemma manualDuration_bounds: "10 \<le> manualDuration d" "manualDuration d \<le> 600"
  by (simp_all add: manualDuration_def Let_def)

text \<open>(what a manual recording leaves behind). A manual recording is stopped between ten seconds
  and ten minutes after it was asked for. An armed camera keeps its mode, before and after the stop.
  A camera of any other mode, one that records continuously too, is in manual mode from then on and
  not wanted after the stop: its own recording does not come back.\<close>

theorem manual_recording_mode:
  assumes "startManualRecording cfg e now cam seconds duration st = (st1, Inr x)" "map_of (mg_cameras st) cam = Some r"
    and "stopManualRecording cfg e' now' cam st1 = (st2, Inr y)"
  shows "(\<exists>t. map_of (mg_manualTimers st1) cam = Some t \<and> now + 10000 \<le> t \<and> t \<le> now + 600000) \<and>
    map_of (mg_manualTimers st2) cam = None \<and>
    map_of (mg_cameras st2) cam = Some (r\<lparr>cr_recordingEnabled := False,
      cr_recordingMode := (if modoArmado (Some (cr_recordingMode r)) then cr_recordingMode r else ''manual'')\<rparr>)"
proof -
  let ?st = "clearManualStopTimer cam (clearMotionStopTimer cam st)"
  obtain s st0 where s: "start cfg e now cam seconds (Some ''manual'') ?st = (st0, Inr s)"
    and st1: "st1 = st0\<lparr>mg_manualTimers := AList.update cam (after now (of_int (manualDuration duration * 1000))) (mg_manualTimers st0)\<rparr>"
    using assms(1) by (auto simp: startManualRecording_def Let_def split: prod.splits sum.splits)
  have "map_of (mg_cameras ?st) cam = Some r" using assms(2) by (simp add: clearManualStopTimer_def clearMotionStopTimer_def)
  then have "map_of (mg_cameras st1) cam = Some (desired True (Some ''manual'') r)" using start_row [OF s] st1 by simp
  then have row: "map_of (mg_cameras (clearManualStopTimer cam st1)) cam = Some (desired True (Some ''manual'') r)"
    by (simp add: clearManualStopTimer_def)
  have fin: "stop cfg e' now' cam (Some ''manual'') (clearManualStopTimer cam st1) = (st2, Inr y)" using assms(3) by (simp add: stopManualRecording_def)
  have "map_of (mg_cameras st2) cam = Some (desired False (Some ''manual'') (desired True (Some ''manual'') r))" by (rule stop_row [OF fin row])
  moreover have "desired False (Some ''manual'') (desired True (Some ''manual'') r) = r\<lparr>cr_recordingEnabled := False,
      cr_recordingMode := (if modoArmado (Some (cr_recordingMode r)) then cr_recordingMode r else ''manual'')\<rparr>"
    by (cases r) (simp add: desired_def modoArmado_def or_empty_def)
  moreover have "\<exists>t. map_of (mg_manualTimers st1) cam = Some t \<and> now + 10000 \<le> t \<and> t \<le> now + 600000"
    using manualDuration_bounds [of duration] st1 by (auto simp: update_conv' after_def)
  moreover have "map_of (mg_manualTimers st2) cam = None"
    using stop_timers [OF fin] by (simp add: clearManualStopTimer_def delete_conv')
  ultimately show ?thesis by simp
qed

lemma sample_start_row:
  assumes "map_of (mg_cameras st) ''c'' = Some r" "cr_enabled r" "map_of (mg_active st) ''c'' = None"
  obtains st' where "start sample_config sample_start now ''c'' seconds mode st = (st', Inr RecordingStarted)"
    "map_of (mg_active st') ''c'' = Some (mg_nextProcess st)"
proof -
  have "se_updates sample_start" by (simp add: sample_start_def)
  then show ?thesis using sample_starts [OF assms] that
    by (simp add: start_def startSpawn_def Let_def saveDesired_def updateCamera_def assms(1) setProcess_def update_conv' split: option.splits)
qed

lemma sample_stops:
  assumes "map_of (mg_cameras st) ''c'' \<noteq> None"
  obtains st' x where "stop sample_config sample_start now ''c'' mode st = (st', Inr x)"
proof -
  have "se_updates sample_start" "mc_local sample_config" by (simp_all add: sample_start_def sample_config_def)
  then have "\<exists>x. snd (stop sample_config sample_start now ''c'' mode st) = Inr x" using assms
    by (auto simp: stop_def Let_def split: option.splits)
  then show ?thesis using that by (metis prod.collapse)
qed

theorem manual_recording_mode_witness:
  "\<exists>st1 x st2 y. startManualRecording sample_config sample_start 7 ''c'' 300 None (sample_manager ''continuous'') = (st1, Inr x) \<and>
     stopManualRecording sample_config sample_start 600007 ''c'' st1 = (st2, Inr y) \<and>
     map_of (mg_cameras st2) ''c'' = Some (sample_row ''manual'')"
proof -
  let ?st = "clearManualStopTimer ''c'' (clearMotionStopTimer ''c'' (sample_manager ''continuous''))"
  have row: "map_of (mg_cameras ?st) ''c'' = Some (sample_row ''continuous'')" "map_of (mg_active ?st) ''c'' = None"
    "map_of (mg_cameras (sample_manager ''continuous'')) ''c'' = Some (sample_row ''continuous'')"
    by (simp_all add: clearManualStopTimer_def clearMotionStopTimer_def sample_manager_def)
  obtain st' where s: "start sample_config sample_start 7 ''c'' 300 (Some ''manual'') ?st = (st', Inr RecordingStarted)"
    by (rule sample_start_row [OF row(1) _ row(2)]) (simp_all add: sample_row_def)
  then obtain st1 x where s1: "startManualRecording sample_config sample_start 7 ''c'' 300 None (sample_manager ''continuous'') = (st1, Inr x)"
    "mg_cameras st1 = mg_cameras st'" by (auto simp: startManualRecording_def Let_def)
  have "map_of (mg_cameras (clearManualStopTimer ''c'' st1)) ''c'' \<noteq> None"
    using start_row [OF s row(1)] s1(2) by (simp add: clearManualStopTimer_def)
  then obtain st2 y where s2: "stopManualRecording sample_config sample_start 600007 ''c'' st1 = (st2, Inr y)"
    unfolding stopManualRecording_def by (rule sample_stops)
  show ?thesis using manual_recording_mode [OF s1(1) row(3) s2] s1(1) s2
    by (auto simp: sample_row_def modoArmado_def or_empty_def)
qed

section \<open>The blind detector\<close>

lemma start_failed_inactive:
  assumes "start cfg e now cam seconds mode st = (st', Inl err)" "map_of (mg_active st) cam = None"
  shows "map_of (mg_active st') cam = None" "mg_blindFailsafe st' = mg_blindFailsafe st"
proof -
  have checks: "map_of (mg_active (fst (startChecks cfg e cam seconds mode st))) cam = None"
    "mg_blindFailsafe (fst (startChecks cfg e cam seconds mode st)) = mg_blindFailsafe st"
    using assms(2) by (auto simp: startChecks_def Let_def saveDesired_def updateCamera_def publishWorkerCommand_def split: option.splits)
  have spawn: "map_of (mg_active (fst (startSpawn cfg e now cam seconds mode st))) cam = None \<and>
      mg_blindFailsafe (fst (startSpawn cfg e now cam seconds mode st)) = mg_blindFailsafe st"
    if failed: "snd (startSpawn cfg e now cam seconds mode st) = Inl err"
  proof -
    let ?n = "mg_nextProcess st"
    let ?p = "\<lparr>ps_cameraId = cam, ps_segmentSeconds = seconds, ps_startedAt = now, ps_outputDir = se_outputDir e,
       ps_stopRequested = False, ps_phase = Running, ps_writeSample = None\<rparr>"
    let ?st = "(setProcess ?n ?p st)\<lparr>mg_nextProcess := Suc ?n, mg_active := AList.update cam ?n (mg_active st)\<rparr>"
    have "fst (startSpawn cfg e now cam seconds mode st) =
        finalizeRecordingState cfg now ?n (setProcess ?n (?p\<lparr>ps_stopRequested := True\<rparr>) ?st)"
      using failed by (simp add: startSpawn_def Let_def split: if_splits)
    moreover have "map_of (mg_active ?st) (ps_cameraId ?p) = Some ?n" by (simp add: update_conv')
    ultimately show ?thesis using requested_end [of ?p ?st ?n cfg now] by (simp add: delete_conv' setProcess_def)
  qed
  show "map_of (mg_active st') cam = None" "mg_blindFailsafe st' = mg_blindFailsafe st"
    using assms(1) checks spawn startChecks_go [of cfg e cam seconds mode st]
    by (auto simp: start_def split: prod.splits sum.splits option.splits)
qed

text \<open>(an emergency recording is tried once). While the detector of an armed camera is blind a post
  roll that was planned before does not stop its recording. But when the recording could not be
  started, the camera is marked all the same, and no later report that the detector is still blind
  does anything: the recording is never tried again.\<close>

theorem blind_failsafe_tried_once:
  assumes "mc_local cfg" "map_of (mg_cameras st) cam = Some r" "cr_enabled r" "modoArmado (Some (cr_recordingMode r))"
    and "cam \<notin> set (mg_blindFailsafe st)" "map_of (mg_active st) cam = None"
    and "start cfg e now cam (getMotionSegmentSeconds cfg) None
      (clearMotionStopTimer cam (st\<lparr>mg_blindFailsafe := mg_blindFailsafe st @ [cam]\<rparr>)) = (st0, Inl err)"
    and "definirFailsafeDetectorCego cfg e remote now cam True st = (st1, res)"
  shows "res = Ligado \<and> map_of (mg_active st1) cam = None \<and>
    (\<forall>e' remote' now'. definirFailsafeDetectorCego cfg e' remote' now' cam True st1 = (st1, Inalterado)) \<and>
    (\<forall>e' now'. stopMotionRecordingAfterQuiet cfg e' now' cam st1 = clearMotionStopTimer cam st1)"
proof -
  let ?st = "clearMotionStopTimer cam (st\<lparr>mg_blindFailsafe := mg_blindFailsafe st @ [cam]\<rparr>)"
  have a: "map_of (mg_active ?st) cam = None" using assms(6) by (simp add: clearMotionStopTimer_def)
  have "st1 = st0 \<and> res = Ligado"
    using assms(1-5,7,8) a by (simp add: definirFailsafeDetectorCego_def Let_def alreadyRecording_def)
  moreover have "cam \<in> set (mg_blindFailsafe st0)"
    using start_failed_inactive(2) [OF assms(7) a] by (simp add: clearMotionStopTimer_def)
  ultimately show ?thesis using start_failed_inactive(1) [OF assms(7) a]
    by (simp add: definirFailsafeDetectorCego_def stopMotionRecordingAfterQuiet_def clearMotionStopTimer_def Let_def)
qed

theorem blind_failsafe_tried_once_witness:
  "let st1 = fst (definirFailsafeDetectorCego sample_config (sample_start\<lparr>se_writable := False\<rparr>) False 7 ''c'' True (sample_manager ''motion''))
   in map_of (mg_active st1) ''c'' = None \<and>
     definirFailsafeDetectorCego sample_config sample_start False 99 ''c'' True st1 = (st1, Inalterado)"
proof -
  let ?e = "sample_start\<lparr>se_writable := False\<rparr>"
  obtain st1 res where d: "definirFailsafeDetectorCego sample_config ?e False 7 ''c'' True (sample_manager ''motion'') = (st1, res)" by fastforce
  have local: "mc_local sample_config" by (simp add: sample_config_def)
  have row: "map_of (mg_cameras (sample_manager ''motion'')) ''c'' = Some (sample_row ''motion'')" "cr_enabled (sample_row ''motion'')"
    "modoArmado (Some (cr_recordingMode (sample_row ''motion'')))" "''c'' \<notin> set (mg_blindFailsafe (sample_manager ''motion''))"
    "map_of (mg_active (sample_manager ''motion'')) ''c'' = None"
    by (simp_all add: sample_manager_def sample_row_def modoArmado_def or_empty_def)
  have "start sample_config ?e 7 ''c'' (getMotionSegmentSeconds sample_config) None
      (clearMotionStopTimer ''c'' (sample_manager ''motion''\<lparr>mg_blindFailsafe := mg_blindFailsafe (sample_manager ''motion'') @ [''c'']\<rparr>)) =
    (clearMotionStopTimer ''c'' (sample_manager ''motion''\<lparr>mg_blindFailsafe := mg_blindFailsafe (sample_manager ''motion'') @ [''c'']\<rparr>), Inl NotWritable)"
    by (simp add: start_def startChecks_def Let_def clearMotionStopTimer_def sample_manager_def sample_row_def sample_start_def)
  from blind_failsafe_tried_once [OF local row this d] show ?thesis using d by (simp add: Let_def)
qed

section \<open>A stop within a start\<close>

text \<open>C26 (a stop that falls into a start is lost). A start looks whether the camera is recording, then
  waits for its address and codec, and only then has a process. A stop in between is answered, writes
  that the camera is not wanted and finds nothing to end; the start goes on, and in the end the
  camera has a process and is wanted.\<close>

theorem stop_lost_in_start:
  assumes "startChecks cfg e cam seconds mode st = (st1, Inr None)" "se_updates e" "se_updates e'"
  shows "let (st2, answer) = stop cfg e' now cam mode' st1; (st3, started) = startSpawn cfg e now' cam seconds mode st2
    in answer = Inr NotRecording \<and> unwanted cam st2 \<and> started = Inr RecordingStarted \<and>
      (\<exists>n. map_of (mg_active st3) cam = Some n \<and> live st3 n cam) \<and> \<not> unwanted cam st3"
proof -
  note go = startChecks_go [OF assms(1)]
  from go obtain r where r: "map_of (mg_cameras st) cam = Some r" by auto
  let ?st2 = "cancelPendingRestart cam (saveDesired cam False mode' st)"
  have act: "map_of (mg_active ?st2) cam = None" "map_of (mg_cameras ?st2) cam = Some (desired False mode' r)"
    using go r saveDesired_row [OF r, of False mode' cam]
    by (simp_all add: cancelPendingRestart_def)
  have stopped: "stop cfg e' now cam mode' st1 = (?st2, Inr NotRecording)"
    using go r act(1) assms(3) by (simp add: stop_def Let_def)
  let ?n = "mg_nextProcess ?st2"
  let ?p = "\<lparr>ps_cameraId = cam, ps_segmentSeconds = seconds, ps_startedAt = now', ps_outputDir = se_outputDir e,
     ps_stopRequested = False, ps_phase = Running, ps_writeSample = None\<rparr>"
  let ?st3 = "(setProcess ?n ?p ?st2)\<lparr>mg_nextProcess := Suc ?n, mg_active := AList.update cam ?n (mg_active ?st2)\<rparr>"
  have spawned: "startSpawn cfg e now' cam seconds mode ?st2 = (saveDesired cam True mode ?st3, Inr RecordingStarted)"
    using assms(2) by (simp add: startSpawn_def Let_def)
  have "map_of (mg_cameras ?st3) cam = Some (desired False mode' r)" using act(2) by simp
  then have wants: "\<not> unwanted cam (saveDesired cam True mode ?st3)" by (simp add: saveDesired_row unwanted_def)
  have "live (saveDesired cam True mode ?st3) ?n cam"
    by (simp add: live_def setProcess_def update_conv')
  moreover have "map_of (mg_active (saveDesired cam True mode ?st3)) cam = Some ?n" by (simp add: update_conv')
  moreover have "unwanted cam ?st2" using act(2) by (simp add: unwanted_def)
  ultimately show ?thesis using stopped spawned wants by (simp only: Let_def prod.case) blast
qed

theorem stop_lost_in_start_witness:
  "let (st2, answer) = stop sample_config sample_start 8 ''c'' None (sample_manager ''continuous'');
       (st3, started) = startSpawn sample_config sample_start 9 ''c'' 300 None st2
   in answer = Inr NotRecording \<and> map_of (mg_active st3) ''c'' \<noteq> None"
proof -
  have "startChecks sample_config sample_start ''c'' 300 None (sample_manager ''continuous'') = (sample_manager ''continuous'', Inr None)"
    by (rule sample_starts [of _ "sample_row ''continuous''"]) (simp_all add: sample_manager_def sample_row_def)
  moreover have "se_updates sample_start" by (simp add: sample_start_def)
  ultimately show ?thesis using stop_lost_in_start [of sample_config sample_start "''c''" 300 None "sample_manager ''continuous''"
        "sample_manager ''continuous''" sample_start 8 None 9]
    by (auto simp: Let_def split: prod.splits)
qed

section \<open>The restart of the health check\<close>

text \<open>(the health check keeps a camera wanted, but for one case). However its stop and its start end,
  the row of a camera that was wanted is the same afterwards, if the update that rearms it goes
  through; except in worker mode when the command to stop cannot be published after the row has been
  written: then the camera stays unwanted.\<close>

theorem health_restart_keeps_wanted:
  assumes "map_of (mg_cameras st) cam = Some r" "cr_recordingEnabled r"
    and "reiniciarGravacaoPreservandoArmada cfg e1 e2 True now cam seconds st = (st', x)"
  shows "map_of (mg_cameras st') cam =
    Some (if \<not> mc_local cfg \<and> se_updates e1 \<and> \<not> se_publishes e1 then r\<lparr>cr_recordingEnabled := False\<rparr> else r)"
proof -
  have same: "desired True None q = q\<lparr>cr_recordingEnabled := True\<rparr>" "desired False None q = q\<lparr>cr_recordingEnabled := False\<rparr>" for q
    by (simp_all add: desired_def)
  have id: "r\<lparr>cr_recordingEnabled := True\<rparr> = r" using assms(2) by (cases r) simp
  obtain st1 y where st1: "stop cfg e1 now cam None st = (st1, y)" by fastforce
  show ?thesis
  proof (cases y)
    case (Inl s)
    then have "map_of (mg_cameras st1) cam =
        Some (if \<not> mc_local cfg \<and> se_updates e1 \<and> \<not> se_publishes e1 then r\<lparr>cr_recordingEnabled := False\<rparr> else r)"
      using st1 assms(1) saveDesired_row [OF assms(1), of False None cam] same
      by (auto simp: stop_def Let_def split: if_splits option.splits)
    then show ?thesis using assms(3) st1 Inl by (simp add: reiniciarGravacaoPreservandoArmada_def)
  next
    case (Inr s)
    then have row: "map_of (mg_cameras st1) cam = Some (r\<lparr>cr_recordingEnabled := False\<rparr>)"
      using stop_row [of cfg e1 now cam None st st1 s r] st1 assms(1) same by simp
    have reached: "mc_local cfg \<or> \<not> se_updates e1 \<or> se_publishes e1"
      using st1 Inr assms(1) by (auto simp: stop_def Let_def split: if_splits)
    obtain st2 z where st2: "start cfg e2 now cam seconds None st1 = (st2, z)" by fastforce
    show ?thesis
    proof (cases z)
      case (Inr t)
      then show ?thesis using start_row [of cfg e2 now cam seconds None st1 st2 t] st2 row \<open>y = _\<close> st1 assms(3) same id
        reached by (auto simp: reiniciarGravacaoPreservandoArmada_def id)
    next
      case (Inl err)
      have "\<exists>q. map_of (mg_cameras st2) cam = Some q \<and> q\<lparr>cr_recordingEnabled := True\<rparr> = r"
        using start_failed_row [of cfg e2 now cam seconds None st1 st2 err] st2 Inl row same id by auto
      then show ?thesis using st1 st2 Inl \<open>y = _\<close> assms(3) reached
        by (auto simp: reiniciarGravacaoPreservandoArmada_def updateCamera_def update_conv')
    qed
  qed
qed

theorem health_restart_keeps_wanted_witness:
  "let st = (sample_manager ''continuous'')\<lparr>mg_cameras := [(''c'', sample_row ''continuous''\<lparr>cr_recordingEnabled := True\<rparr>)]\<rparr>;
       (st', x) = reiniciarGravacaoPreservandoArmada sample_config sample_start (sample_start\<lparr>se_writable := False\<rparr>) True 7 ''c'' 300 st
   in map_of (mg_cameras st') ''c'' = Some (sample_row ''continuous''\<lparr>cr_recordingEnabled := True\<rparr>)"
proof -
  let ?r = "sample_row ''continuous''\<lparr>cr_recordingEnabled := True\<rparr>"
  let ?st = "(sample_manager ''continuous'')\<lparr>mg_cameras := [(''c'', ?r)]\<rparr>"
  obtain st' x where run: "reiniciarGravacaoPreservandoArmada sample_config sample_start (sample_start\<lparr>se_writable := False\<rparr>) True 7 ''c'' 300 ?st = (st', x)"
    by fastforce
  have "map_of (mg_cameras ?st) ''c'' = Some ?r" "cr_recordingEnabled ?r" "mc_local sample_config" by (simp_all add: sample_config_def)
  then show ?thesis using health_restart_keeps_wanted [of ?st "''c''" ?r, OF _ _ run] run by (simp add: Let_def)
qed

end
