(* ===== verification/Recording_Guard.thy ===== *)
theory Recording_Guard
  imports Recording_Intent
begin

text \<open>
  The disk guard and the brake on restarts of \<open>Recording_Supervisor\<close>: what a full disk does to the
  recordings, which of them come back, and how often and how late a recording that dies is
  restarted.
\<close>

section \<open>Suspension\<close>

lemma suspend_effect:
  assumes ok: "manager_ok st" and act: "map_of (mg_active st) cam = Some n" and p: "map_of (mg_processes st) n = Some p"
  shows "mg_active (suspendRecordingForDiskGuard cfg w now cam st) = AList.delete cam (mg_active st)"
    "mg_suspended (suspendRecordingForDiskGuard cfg w now cam st) = AList.update cam (ps_segmentSeconds p, 0) (mg_suspended st)"
    "mg_cameras (suspendRecordingForDiskGuard cfg w now cam st) = mg_cameras st"
    "mg_restartTimers (suspendRecordingForDiskGuard cfg w now cam st) = mg_restartTimers st"
    "m \<noteq> n \<Longrightarrow> map_of (mg_processes (suspendRecordingForDiskGuard cfg w now cam st)) m = map_of (mg_processes st) m"
proof -
  let ?st = "st\<lparr>mg_suspended := AList.update cam (ps_segmentSeconds p, 0) (mg_suspended st)\<rparr>"
  have "live st n cam" using ok_live [OF ok] act by simp
  then have q: "ps_phase p \<noteq> Finished" "ps_cameraId p = cam" using p by (auto simp: live_def)
  have "suspendRecordingForDiskGuard cfg w now cam st =
      registerEvent w cam SuspendedDiskGuard (finalizeRecordingState cfg now n (setProcess n (p\<lparr>ps_stopRequested := True\<rparr>) ?st))"
    using act p by (simp add: suspendRecordingForDiskGuard_def endProcess_def)
  also have "\<dots> = registerEvent w cam SuspendedDiskGuard
      ((setProcess n (p\<lparr>ps_stopRequested := True, ps_phase := Finished\<rparr>) ?st)\<lparr>mg_active := AList.delete cam (mg_active st)\<rparr>)"
    using requested_end [of p ?st n cfg now] q act by simp
  finally show "mg_active (suspendRecordingForDiskGuard cfg w now cam st) = AList.delete cam (mg_active st)"
    "mg_suspended (suspendRecordingForDiskGuard cfg w now cam st) = AList.update cam (ps_segmentSeconds p, 0) (mg_suspended st)"
    "mg_cameras (suspendRecordingForDiskGuard cfg w now cam st) = mg_cameras st"
    "mg_restartTimers (suspendRecordingForDiskGuard cfg w now cam st) = mg_restartTimers st"
    "m \<noteq> n \<Longrightarrow> map_of (mg_processes (suspendRecordingForDiskGuard cfg w now cam st)) m = map_of (mg_processes st) m"
    by (simp_all add: registerEvent_def setProcess_def update_conv')
qed

definition segmentOf :: "manager \<Rightarrow> string \<Rightarrow> rat option" where
  "segmentOf st cam = (case map_of (mg_active st) cam of None \<Rightarrow> None
     | Some n \<Rightarrow> map_option ps_segmentSeconds (map_of (mg_processes st) n))"

lemma suspend_all:
  assumes "manager_ok st" "distinct cams" "\<forall>c\<in>set cams. map_of (mg_active st) c \<noteq> None"
  shows "let st' = fold (suspendRecordingForDiskGuard cfg w now) cams st in
    mg_cameras st' = mg_cameras st \<and> mg_restartTimers st' = mg_restartTimers st \<and>
    (\<forall>c. map_of (mg_active st') c = (if c \<in> set cams then None else map_of (mg_active st) c)) \<and>
    (\<forall>c\<in>set cams. \<exists>s. segmentOf st c = Some s \<and> map_of (mg_suspended st') c = Some (s, 0)) \<and>
    (\<forall>c. c \<notin> set cams \<longrightarrow> map_of (mg_suspended st') c = map_of (mg_suspended st) c)"
  using assms
proof (induction cams arbitrary: st)
  case (Cons cam cams)
  obtain n where n: "map_of (mg_active st) cam = Some n" using Cons.prems(3) by auto
  have "live st n cam" using ok_live [OF Cons.prems(1)] n by simp
  then obtain p where p: "map_of (mg_processes st) n = Some p" by (auto simp: live_def)
  let ?st = "suspendRecordingForDiskGuard cfg w now cam st"
  note eff = suspend_effect [where cfg = cfg and w = w and now = now, OF Cons.prems(1) n p]
  have ok': "manager_ok ?st" by (rule suspend_ok [OF Cons.prems(1)])
  have act: "map_of (mg_active ?st) c = (if c = cam then None else map_of (mg_active st) c)" for c
    unfolding eff(1) by (simp add: delete_conv')
  have "\<forall>c\<in>set cams. map_of (mg_active ?st) c \<noteq> None" using Cons.prems(2,3) act by auto
  from Cons.IH [OF ok' _ this] Cons.prems(2) have ih:
    "mg_cameras (fold (suspendRecordingForDiskGuard cfg w now) cams ?st) = mg_cameras ?st"
    "mg_restartTimers (fold (suspendRecordingForDiskGuard cfg w now) cams ?st) = mg_restartTimers ?st"
    "\<And>c. map_of (mg_active (fold (suspendRecordingForDiskGuard cfg w now) cams ?st)) c = (if c \<in> set cams then None else map_of (mg_active ?st) c)"
    "\<And>c. c \<in> set cams \<Longrightarrow> \<exists>s. segmentOf ?st c = Some s \<and> map_of (mg_suspended (fold (suspendRecordingForDiskGuard cfg w now) cams ?st)) c = Some (s, 0)"
    "\<And>c. c \<notin> set cams \<Longrightarrow> map_of (mg_suspended (fold (suspendRecordingForDiskGuard cfg w now) cams ?st)) c = map_of (mg_suspended ?st) c"
    by (auto simp: Let_def)
  have seg: "segmentOf ?st c = segmentOf st c" if "c \<noteq> cam" for c
  proof (cases "map_of (mg_active st) c")
    case (Some m)
    have "live st m c" using ok_live [OF Cons.prems(1)] Some by simp
    then have "m \<noteq> n" using \<open>live st n cam\<close> that by (auto simp: live_def)
    then show ?thesis using act [of c] that Some eff(5) by (simp add: segmentOf_def)
  qed (use act [of c] that in \<open>simp add: segmentOf_def\<close>)
  have "segmentOf st cam = Some (ps_segmentSeconds p)" using n p by (simp add: segmentOf_def)
  moreover have "map_of (mg_suspended ?st) c = (if c = cam then Some (ps_segmentSeconds p, 0) else map_of (mg_suspended st) c)" for c
    unfolding eff(2) by (simp add: update_conv')
  moreover have "\<exists>s. segmentOf st c = Some s \<and> map_of (mg_suspended (fold (suspendRecordingForDiskGuard cfg w now) cams ?st)) c = Some (s, 0)"
    if "c \<in> set cams" for c using ih(4) [OF that] seg [of c] that Cons.prems(2) by (cases "c = cam") simp_all
  ultimately show ?case using ih(1-3,5) eff(3,4) act Cons.prems(2) by (auto simp: Let_def)
qed simp

lemma map_of_all_None: "(\<And>c. map_of xs c = None) \<Longrightarrow> xs = []"
  by (metis list.exhaust map_of_eq_None_iff list.set_intros(1) imageI)

text \<open>C8 (a disk full by percentage stops everything without making room). The rotation only makes up
  for free bytes that are missing to one and a quarter times the minimum, or to 512 megabytes. When
  the disk is over its percentage but those bytes are free, as on any disk much larger than the
  minimum, the guard deletes nothing and suspends every recording. The cameras stay wanted, each is
  noted with its segment length, and no restart is planned.\<close>

theorem guard_suspends_without_rotating:
  assumes "fresh_manager s" "(manager_step ck cfg)\<^sup>*\<^sup>* s (st, d)" "mc_local cfg" "mg_active st \<noteq> []"
    and "ge_before g = Some u" "usedPercent u \<ge> getDiskGuardMaxUsedPercent cfg"
    and "of_int (mc_minFreeBytes cfg) * (5 / 4) \<le> (of_int (su_freeBytes u) :: rat)" "536870912 \<le> su_freeBytes u"
    and "enforceDiskGuard ck cfg g envs found now (st, d) = (st', d')"
  shows "d' = d \<and> mg_active st' = [] \<and> mg_cameras st' = mg_cameras st \<and> mg_restartTimers st' = mg_restartTimers st \<and>
    (\<forall>(cam, n)\<in>set (mg_active st). \<exists>seconds. segmentOf st cam = Some seconds \<and> map_of (mg_suspended st') cam = Some (seconds, 0))"
proof -
  have ok: "manager_ok (fst (st, d))" by (rule supervisor.steps_inv [OF assms(2) supervisor.init_inv [OF assms(1)]])
  have "(536870912 :: rat) \<le> of_int (su_freeBytes u)" using assms(8) by (metis of_int_le_iff of_int_numeral)
  then have "faltam cfg (su_freeBytes u) \<le> 0" using assms(7) by (simp add: faltam_def)
  then have "enforceDiskGuard ck cfg g envs found now (st, d) =
      (fold (suspendRecordingForDiskGuard cfg (ge_registers g) now) (map fst (mg_active st)) st, d)"
    using assms(3-6) by (simp add: enforceDiskGuard_def critical_def rotacionarParaLiberarEspaco_def)
  then have st': "st' = fold (suspendRecordingForDiskGuard cfg (ge_registers g) now) (map fst (mg_active st)) st" "d' = d" using assms(9) by auto
  have "\<forall>c\<in>set (map fst (mg_active st)). map_of (mg_active st) c \<noteq> None" by (simp add: map_of_eq_None_iff)
  from suspend_all [OF _ _ this, of cfg "ge_registers g" now] ok ok_distinct have all:
    "mg_cameras st' = mg_cameras st" "mg_restartTimers st' = mg_restartTimers st"
    "\<And>c. map_of (mg_active st') c = (if c \<in> set (map fst (mg_active st)) then None else map_of (mg_active st) c)"
    "\<forall>c\<in>set (map fst (mg_active st)). \<exists>s. segmentOf st c = Some s \<and> map_of (mg_suspended st') c = Some (s, 0)"
    unfolding st' by (auto simp: Let_def)
  have "map_of (mg_active st') c = None" for c using all(3) [of c] by (auto simp: map_of_eq_None_iff)
  then have "mg_active st' = []" by (rule map_of_all_None)
  then show ?thesis using st'(2) all(1,2,4) by force
qed

definition sample_recording :: disk_recording where
  "sample_recording = \<lparr>dr_id = ''old'', dr_cameraId = ''c'', dr_startedAt = 0, dr_endedAt = Some 1, dr_sizeBytes = Some 1000000000,
     dr_filePath = ''old.mp4'', dr_localDeletedAt = None\<rparr>"

definition full_disk :: storage_usage where
  "full_disk = \<lparr>su_totalBytes = 1000000000000, su_freeBytes = 150000000000\<rparr>"

definition sample_guard :: guard_env where
  "sample_guard = \<lparr>ge_before = Some full_disk, ge_after = Some full_disk, ge_holds = Some [], ge_query = True, ge_path = Some,
     ge_unlinkFails = (\<lambda>_. False), ge_deleteFails = (\<lambda>_. False), ge_registers = True\<rparr>"

text \<open>A disk of a terabyte at 85 per cent with an old recording that could go: it stays, and the
  camera stops.\<close>

theorem guard_suspends_without_rotating_witness:
  "let d = \<lparr>dk_recordings = [sample_recording], dk_files = [(''old.mp4'', 1000000000)]\<rparr>;
       st = fst (start sample_config sample_start 7 ''c'' 300 None (sample_manager ''continuous''));
       (st', d') = enforceDiskGuard (\<lambda>s::string. s) sample_config sample_guard (\<lambda>_. sample_start) (\<lambda>_. True) 8 (st, d)
   in mg_active st \<noteq> [] \<and> d' = d \<and> mg_active st' = []"
proof -
  let ?d = "\<lparr>dk_recordings = [sample_recording], dk_files = [(''old.mp4'', 1000000000)]\<rparr>"
  let ?s = "(sample_manager ''continuous'', ?d)"
  let ?st = "fst (start sample_config sample_start 7 ''c'' 300 None (sample_manager ''continuous''))"
  obtain st' d' where run: "enforceDiskGuard (\<lambda>s::string. s) sample_config sample_guard (\<lambda>_. sample_start) (\<lambda>_. True) 8 (?st, ?d) = (st', d')"
    by fastforce
  have "perform (\<lambda>s::string. s) sample_config 7 (Start sample_start ''c'' 300 None) ?s = (?st, ?d)" by simp
  then have steps: "(manager_step (\<lambda>s::string. s) sample_config)\<^sup>*\<^sup>* ?s (?st, ?d)" by (metis event r_into_rtranclp)
  have f: "fresh_manager ?s" by (simp add: fresh_manager_def sample_manager_def)
  have row: "map_of (mg_cameras (sample_manager ''continuous'')) ''c'' = Some (sample_row ''continuous'')"
    "map_of (mg_active (sample_manager ''continuous'')) ''c'' = None" by (simp_all add: sample_manager_def)
  have act: "mg_active ?st \<noteq> []" using sample_starts [OF row(1) _ row(2), of 300 None]
    by (simp add: start_def startSpawn_def Let_def sample_row_def sample_start_def saveDesired_def updateCamera_def setProcess_def sample_manager_def)
  have full: "ge_before sample_guard = Some full_disk" "usedPercent full_disk \<ge> getDiskGuardMaxUsedPercent sample_config"
    "of_int (mc_minFreeBytes sample_config) * (5 / 4) \<le> (of_int (su_freeBytes full_disk) :: rat)" "536870912 \<le> su_freeBytes full_disk"
    "mc_local sample_config"
    by (simp_all add: sample_guard_def full_disk_def usedPercent_def freePercent_def sample_settings) (simp_all add: sample_config_def)
  show ?thesis
    using guard_suspends_without_rotating [OF f steps full(5) act full(1-4) run] act run by (simp add: Let_def)
qed

section \<open>The brake on restarts\<close>

text \<open>The instants at which restarts of a camera are allowed, when its recording dies at the given
  instants.\<close>

fun granted :: "manager_config \<Rightarrow> string \<Rightarrow> int list \<Rightarrow> manager \<Rightarrow> int list" where
  "granted cfg cam [] st = []"
| "granted cfg cam (t # ts) st =
     (case planRecordingRestart cfg t cam st of
        (st', plan) \<Rightarrow> (if rp_allowed plan then [t] else []) @ granted cfg cam ts st')"

definition in_window :: "manager_config \<Rightarrow> int \<Rightarrow> int list \<Rightarrow> int list" where
  "in_window cfg t ts = filter (\<lambda>x. t - getRestartWindowMs cfg < x \<and> x \<le> t) ts"

lemma attemptsOf_plan:
  "attemptsOf cam (fst (planRecordingRestart cfg t cam st)) =
     (let previous = filter (\<lambda>x. x > t - getRestartWindowMs cfg) (attemptsOf cam st)
      in if int (length previous) \<ge> getRestartMaxAttempts cfg then previous else previous @ [t])"
  by (simp add: planRecordingRestart_def attemptsOf_def Let_def update_conv')

lemma whole_ge: "of_int lo \<le> f \<Longrightarrow> lo \<le> whole raw f (of_int lo)"
  by (simp add: whole_def envNumber_def clamp_min_def clamp_max_def Let_def le_floor_iff)

lemma max_attempts_pos: "1 \<le> getRestartMaxAttempts cfg"
  using whole_ge [of 1 5 "mc_maxAttempts cfg"] by (simp add: getRestartMaxAttempts_def)

lemma delays_pos: "1 \<le> getRestartMaxDelayMs cfg" "1 \<le> getRestartBaseDelayMs cfg" "1000 \<le> getRestartWindowMs cfg"
  using whole_ge [of 1 30000 "mc_maxDelayMs cfg"] whole_ge [of 1 1000 "mc_baseDelayMs cfg"] whole_ge [of 1000 600000 "mc_windowMs cfg"]
  by (simp_all add: getRestartMaxDelayMs_def getRestartBaseDelayMs_def getRestartWindowMs_def)

lemma granted_subset: "set (granted cfg cam ts st) \<subseteq> set ts"
  by (induction ts arbitrary: st) (auto split: prod.splits)

lemma in_window_le: "int (length (in_window cfg t xs)) \<le> int (length xs)"
  by (simp add: in_window_def)

lemma granted_window:
  assumes "sorted ts" "\<forall>x\<in>set (attemptsOf cam st). \<forall>y\<in>set ts. x \<le> y" "int (length (attemptsOf cam st)) \<le> getRestartMaxAttempts cfg"
  shows "int (length (in_window cfg t (attemptsOf cam st @ granted cfg cam ts st))) \<le> getRestartMaxAttempts cfg"
  using assms
proof (induction ts arbitrary: st)
  case Nil
  then show ?case using in_window_le [of cfg t "attemptsOf cam st"] by simp
next
  case (Cons u ts)
  obtain st' plan where p: "planRecordingRestart cfg u cam st = (st', plan)" by fastforce
  let ?A = "attemptsOf cam st" and ?M = "getRestartMaxAttempts cfg"
  let ?prev = "filter (\<lambda>x. x > u - getRestartWindowMs cfg) ?A"
  have allowed: "rp_allowed plan \<longleftrightarrow> \<not> int (length ?prev) \<ge> ?M" using p by (auto simp: planRecordingRestart_def Let_def split: if_splits)
  have A': "attemptsOf cam st' = (if rp_allowed plan then ?prev @ [u] else ?prev)"
    using attemptsOf_plan [of cam cfg u st] p allowed by (simp add: Let_def)
  have prev_le: "int (length ?prev) \<le> ?M" using Cons.prems(3) length_filter_le [of "\<lambda>x. x > u - getRestartWindowMs cfg" ?A] by linarith
  have le: "\<forall>x\<in>set ?A. x \<le> u" using Cons.prems(2) by simp
  have later: "\<forall>y\<in>set ts. u \<le> y" "sorted ts" using Cons.prems(1) by auto
  have ih: "int (length (in_window cfg t (attemptsOf cam st' @ granted cfg cam ts st'))) \<le> ?M"
  proof (rule Cons.IH [OF later(2)])
    show "\<forall>x\<in>set (attemptsOf cam st'). \<forall>y\<in>set ts. x \<le> y" using A' Cons.prems(2) later(1) by auto
    show "int (length (attemptsOf cam st')) \<le> ?M" using A' prev_le allowed by simp
  qed
  show ?case
  proof (cases "u \<le> t")
    case True
    have "in_window cfg t ?A = in_window cfg t ?prev"
      unfolding in_window_def filter_filter using True by (intro filter_cong) auto
    moreover have "in_window cfg t (?A @ granted cfg cam (u # ts) st) =
        in_window cfg t ?A @ in_window cfg t (if rp_allowed plan then [u] else []) @ in_window cfg t (granted cfg cam ts st')"
      by (simp add: in_window_def p)
    moreover have "in_window cfg t (attemptsOf cam st' @ granted cfg cam ts st') =
        in_window cfg t ?prev @ in_window cfg t (if rp_allowed plan then [u] else []) @ in_window cfg t (granted cfg cam ts st')"
      by (simp add: A' in_window_def)
    ultimately show ?thesis using ih by simp
  next
    case False
    have "u \<le> x" if "x \<in> set (granted cfg cam (u # ts) st)" for x using subsetD [OF granted_subset that] later(1) by auto
    then have "in_window cfg t (granted cfg cam (u # ts) st) = []"
      using False by (fastforce simp: in_window_def filter_empty_conv simp del: granted.simps)
    then have "in_window cfg t (?A @ granted cfg cam (u # ts) st) = in_window cfg t ?A" by (simp add: in_window_def)
    then show ?thesis using Cons.prems(3) in_window_le [of cfg t ?A] by simp
  qed
qed

text \<open>C33 (the brake on restarts). When a recording keeps dying, no window of the configured length holds
  more restarts than configured. Each restart waits for at least a millisecond and at most for the
  configured maximum, and as long as that maximum is not reached, twice as long as the one before in
  the same window.\<close>

theorem restart_brake:
  assumes "sorted ts" "attemptsOf cam st = []"
  shows "int (length (in_window cfg t (granted cfg cam ts st))) \<le> getRestartMaxAttempts cfg \<and>
    (\<forall>now st' st2 plan. planRecordingRestart cfg now cam st' = (st2, plan) \<and> rp_allowed plan \<longrightarrow>
       1 \<le> rp_delayMs plan \<and> rp_delayMs plan \<le> getRestartMaxDelayMs cfg \<and> rp_attempt plan = length (attemptsOf cam st2) \<and>
       rp_delayMs plan = min (getRestartMaxDelayMs cfg) (getRestartBaseDelayMs cfg * 2 ^ (rp_attempt plan - 1)))"
proof (intro conjI allI impI)
  show "int (length (in_window cfg t (granted cfg cam ts st))) \<le> getRestartMaxAttempts cfg"
    using granted_window [of ts cam st cfg t] assms max_attempts_pos [of cfg] by simp
next
  fix now st' st2 plan assume p: "planRecordingRestart cfg now cam st' = (st2, plan) \<and> rp_allowed plan"
  let ?n = "length (filter (\<lambda>x. x > now - getRestartWindowMs cfg) (attemptsOf cam st'))"
  have plan: "rp_attempt plan = Suc ?n" "rp_delayMs plan = min (getRestartMaxDelayMs cfg) (getRestartBaseDelayMs cfg * 2 ^ ?n)"
    and few: "\<not> int ?n \<ge> getRestartMaxAttempts cfg"
    using p by (auto simp: planRecordingRestart_def Let_def split: if_splits)
  have "1 * 1 \<le> getRestartBaseDelayMs cfg * 2 ^ ?n" using delays_pos(2) [of cfg] by (intro mult_mono) auto
  then show "1 \<le> rp_delayMs plan" using plan(2) delays_pos(1) [of cfg] by simp
  show "rp_delayMs plan \<le> getRestartMaxDelayMs cfg" using plan(2) by simp
  show "rp_attempt plan = length (attemptsOf cam st2)"
    using attemptsOf_plan [of cam cfg now st'] p plan(1) few by (simp add: Let_def)
  show "rp_delayMs plan = min (getRestartMaxDelayMs cfg) (getRestartBaseDelayMs cfg * 2 ^ (rp_attempt plan - 1))"
    using plan by simp
qed

text \<open>Seven deaths in six seconds: five restarts.\<close>

theorem restart_brake_witness:
  "granted sample_config ''c'' [0, 1000, 2000, 3000, 4000, 5000, 6000] (sample_manager ''continuous'') = [0, 1000, 2000, 3000, 4000] \<and>
   int (length (in_window sample_config 6000 (granted sample_config ''c'' [0, 1000, 2000, 3000, 4000, 5000, 6000] (sample_manager ''continuous'')))) \<le> 5"
proof -
  have "granted sample_config ''c'' [0, 1000, 2000, 3000, 4000, 5000, 6000] (sample_manager ''continuous'') = [0, 1000, 2000, 3000, 4000]"
    by (simp add: planRecordingRestart_def attemptsOf_def sample_manager_def sample_settings Let_def)
  moreover have "attemptsOf ''c'' (sample_manager ''continuous'') = []" by (simp add: attemptsOf_def sample_manager_def)
  ultimately show ?thesis
    using restart_brake [of "[0, 1000, 2000, 3000, 4000, 5000, 6000]" "''c''" "sample_manager ''continuous''" sample_config 6000]
    by (simp add: sample_settings)
qed

section \<open>Resuming\<close>

text \<open>What a start leaves of the other cameras.\<close>

lemma saveDesired_other:
  "mg_active (saveDesired c w m st) = mg_active st" "mg_suspended (saveDesired c w m st) = mg_suspended st"
  "c \<noteq> cam \<Longrightarrow> map_of (mg_cameras (saveDesired c w m st)) cam = map_of (mg_cameras st) cam"
  by (simp_all add: saveDesired_def updateCamera_def update_conv' split: option.splits)

lemma start_suspended: "mg_suspended (fst (start cfg e now c seconds mode st)) = mg_suspended st"
  by (simp add: start_def startChecks_def startSpawn_def Let_def saveDesired_other publishWorkerCommand_def finalizeRecordingState_def
      finalizeBegin_def finalizeEnd_def setProcess_def scheduleRecordingRestart_def planRecordingRestart_def
      split: option.splits process_phase.splits)

lemma start_other:
  assumes "c \<noteq> cam"
  shows "map_of (mg_cameras (fst (start cfg e now c seconds mode st))) cam = map_of (mg_cameras st) cam \<and>
    map_of (mg_active (fst (start cfg e now c seconds mode st))) cam = map_of (mg_active st) cam"
proof -
  have checks: "map_of (mg_cameras (fst (startChecks cfg e c seconds mode st))) cam = map_of (mg_cameras st) cam \<and>
      map_of (mg_active (fst (startChecks cfg e c seconds mode st))) cam = map_of (mg_active st) cam"
    using assms by (auto simp: startChecks_def Let_def saveDesired_other publishWorkerCommand_def split: option.splits)
  have spawn: "map_of (mg_cameras (fst (startSpawn cfg e now c seconds mode st))) cam = map_of (mg_cameras st) cam \<and>
      map_of (mg_active (fst (startSpawn cfg e now c seconds mode st))) cam = map_of (mg_active st) cam"
    using assms by (simp add: startSpawn_def Let_def saveDesired_other requested_end_frame update_conv')
  show ?thesis using checks spawn startChecks_go [of cfg e c seconds mode st]
    by (auto simp: start_def split: prod.splits sum.splits option.splits)
qed

lemma resume_other:
  assumes "cam \<noteq> fst x"
  shows "map_of (mg_cameras (resumeOne cfg envs found now x st)) cam = map_of (mg_cameras st) cam \<and>
    map_of (mg_active (resumeOne cfg envs found now x st)) cam = map_of (mg_active st) cam \<and>
    map_of (mg_suspended (resumeOne cfg envs found now x st)) cam = map_of (mg_suspended st) cam"
proof (cases x)
  case (fields c seconds retryAt)
  have "c \<noteq> cam" using assms fields by simp
  note o = start_other [OF this, of cfg "envs c" now seconds "Some ''continuous''" st]
    start_suspended [of cfg "envs c" now c seconds "Some ''continuous''" st]
  show ?thesis using o \<open>c \<noteq> cam\<close>
    by (auto simp: resumeOne_def fields Let_def delete_conv' update_conv' registerEvent_def split: option.splits prod.splits sum.splits)
qed

lemma resume_others:
  "cam \<notin> fst ` set xs \<Longrightarrow> map_of (mg_cameras (fold (resumeOne cfg envs found now) xs st)) cam = map_of (mg_cameras st) cam \<and>
    map_of (mg_active (fold (resumeOne cfg envs found now) xs st)) cam = map_of (mg_active st) cam \<and>
    map_of (mg_suspended (fold (resumeOne cfg envs found now) xs st)) cam = map_of (mg_suspended st) cam"
  by (induction xs arbitrary: st) (simp_all add: resume_other)

definition starts_well :: "manager_config \<Rightarrow> start_env \<Rightarrow> bool" where
  "starts_well cfg e \<longleftrightarrow> se_feature e \<and> se_writable e \<and> \<not> critical cfg (se_usage e) \<and> se_ffmpeg e \<and> se_input e \<and> se_updates e"

lemma start_well:
  assumes "starts_well cfg e" "mc_local cfg" "map_of (mg_cameras st) cam = Some r" "cr_enabled r"
  shows "\<exists>st' s. start cfg e now cam seconds mode st = (st', Inr s) \<and> map_of (mg_active st') cam \<noteq> None"
  using assms by (auto simp: starts_well_def start_def startChecks_def startSpawn_def assertMinimumStorageFree_def Let_def
      saveDesired_other update_conv' split: option.splits)

lemma resume_one:
  assumes "starts_well cfg (envs cam)" "mc_local cfg" "map_of (mg_cameras st) cam = Some r" "cr_enabled r" "cr_recordingEnabled r"
    "cr_recordingMode r = ''continuous''" "found cam" "retryAt \<le> now"
  shows "map_of (mg_active (resumeOne cfg envs found now (cam, seconds, retryAt) st)) cam \<noteq> None \<and>
    map_of (mg_suspended (resumeOne cfg envs found now (cam, seconds, retryAt) st)) cam = None"
proof -
  obtain st' s where "start cfg (envs cam) now cam seconds (Some ''continuous'') st = (st', Inr s)" "map_of (mg_active st') cam \<noteq> None"
    using start_well [OF assms(1-4)] by blast
  then show ?thesis using assms(3-8) by (simp add: resumeOne_def registerEvent_def Let_def delete_conv')
qed

text \<open>(continuous recordings come back). In the first round of the guard that finds the disk below its
  limits, every suspended camera that records continuously, is enabled and still wanted, and whose
  turn has come, has a process again and is no longer noted as suspended, if its start meets no
  obstacle; how the others end does not matter.\<close>

theorem guard_resumes_continuous:
  assumes "mc_local cfg" "ge_before g = Some u" "\<not> critical cfg u" "distinct (map fst (mg_suspended st))"
    and "map_of (mg_suspended st) cam = Some (seconds, retryAt)" "retryAt \<le> now" "found cam" "starts_well cfg (envs cam)"
    and "map_of (mg_cameras st) cam = Some r" "cr_enabled r" "cr_recordingEnabled r" "cr_recordingMode r = ''continuous''"
  shows "case enforceDiskGuard ck cfg g envs found now (st, d) of
    (st', d') \<Rightarrow> map_of (mg_active st') cam \<noteq> None \<and> map_of (mg_suspended st') cam = None \<and> d' = d"
proof -
  have "(cam, seconds, retryAt) \<in> set (mg_suspended st)" using assms(5) by (rule map_of_SomeD)
  then obtain xs ys where split: "mg_suspended st = xs @ (cam, seconds, retryAt) # ys" by (metis split_list)
  then have others: "cam \<notin> fst ` set xs" "cam \<notin> fst ` set ys" using assms(4) by auto
  let ?f = "fold (resumeOne cfg envs found now)"
  let ?x = "resumeOne cfg envs found now (cam, seconds, retryAt) (?f xs st)"
  have "map_of (mg_cameras (?f xs st)) cam = Some r" using resume_others [OF others(1), of cfg envs found now st] assms(9) by simp
  note one = resume_one [where envs = envs and found = found, OF assms(8,1) this assms(10-12,7,6)]
  have "?f (mg_suspended st) st = ?f ys ?x" by (simp add: split)
  moreover have "enforceDiskGuard ck cfg g envs found now (st, d) = (?f (mg_suspended st) st, d)"
    using assms(1-3) split by (simp add: enforceDiskGuard_def resumeContinuousRecordingsAfterDiskGuard_def)
  ultimately show ?thesis using one resume_others [OF others(2), of cfg envs found now ?x] by simp
qed

theorem guard_resumes_continuous_witness:
  "let st = sample_manager ''continuous''\<lparr>mg_cameras := [(''c'', sample_row ''continuous''\<lparr>cr_recordingEnabled := True\<rparr>)],
       mg_suspended := [(''c'', 300, 0)]\<rparr>;
       g = sample_guard\<lparr>ge_before := Some (se_usage sample_start)\<rparr>
   in map_of (mg_active (fst (enforceDiskGuard (\<lambda>s::string. s) sample_config g (\<lambda>_. sample_start) (\<lambda>_. True) 8 (st, sample_disk)))) ''c'' \<noteq> None"
proof -
  let ?st = "sample_manager ''continuous''\<lparr>mg_cameras := [(''c'', sample_row ''continuous''\<lparr>cr_recordingEnabled := True\<rparr>)],
       mg_suspended := [(''c'', 300, 0)]\<rparr>"
  let ?g = "sample_guard\<lparr>ge_before := Some (se_usage sample_start)\<rparr>"
  have "starts_well sample_config sample_start" using sample_space by (simp add: starts_well_def) (simp add: sample_start_def)
  then show ?thesis
    using guard_resumes_continuous [of sample_config ?g "se_usage sample_start" ?st "''c''" 300 0 8 "\<lambda>_. True" "\<lambda>_. sample_start"
        "sample_row ''continuous''\<lparr>cr_recordingEnabled := True\<rparr>" sample_disk "\<lambda>s::string. s"] sample_space
    by (auto simp: Let_def sample_row_def sample_config_def split: prod.splits)
qed

end
