(* ===== verification/Rotation_Properties.thy ===== *)
theory Rotation_Properties
  imports Rotation
begin

text \<open>
  The rotation (\<open>Rotation\<close>) is a round robin over the cameras: it takes the oldest recording of
  each in turn, no more than needed, and no camera loses two recordings more than another that
  still has some.
\<close>

section \<open>The queues\<close>

definition livres :: "candidata list \<Rightarrow> string \<Rightarrow> candidata list" where
  "livres candidatas c = filter (\<lambda>x. rc_cameraId x = c \<and> \<not> rc_protegida x) candidatas"

lemma fila_agrupar: "fila (agrupar xs fs) c = fila fs c @ livres xs c"
  by (induction xs fs rule: agrupar.induct) (auto simp: livres_def)

lemma agrupar_keys:
  "distinct (map fst fs) \<Longrightarrow> distinct (map fst (agrupar xs fs))"
  by (induction xs fs rule: agrupar.induct) (auto simp: distinct_update)

lemma agrupar_dom: "fst ` set (agrupar xs fs) = fst ` set fs \<union> {rc_cameraId x |x. x \<in> set xs \<and> \<not> rc_protegida x}"
  by (induction xs fs rule: agrupar.induct) (auto simp: dom_update)

lemma map_of_values: "map_of (map (\<lambda>(c, q). (c, f q)) fs) c = map_option f (map_of fs c)"
  by (induction fs) auto

lemma fila_porCamera: "fila (porCamera candidatas) c = sort_key rc_startedAt (livres candidatas c)"
proof -
  have "fila (porCamera candidatas) c = sort_key rc_startedAt (fila (agrupar candidatas []) c)"
    by (simp add: fila_def porCamera_def map_of_values split: option.split)
  then show ?thesis by (simp add: fila_agrupar) (simp add: fila_def)
qed

lemma keys_porCamera: "map fst (porCamera candidatas) = map fst (agrupar candidatas [])"
  by (simp add: porCamera_def case_prod_beta comp_def)

lemma ordem_distinct: "distinct (ordemDasCameras ck ativas (porCamera candidatas))"
  unfolding ordemDasCameras_def keys_porCamera by (simp add: agrupar_keys)

lemma ordem_complete: "c \<in> set (ordemDasCameras ck ativas (porCamera candidatas)) \<longleftrightarrow> livres candidatas c \<noteq> []"
proof -
  have "set (map fst (agrupar candidatas [])) = {rc_cameraId x |x. x \<in> set candidatas \<and> \<not> rc_protegida x}"
    using agrupar_dom [of candidatas "[]"] by simp
  then show ?thesis unfolding ordemDasCameras_def keys_porCamera livres_def by (auto simp: filter_empty_conv)
qed

section \<open>The reference: rows of the queues, cut when there is enough\<close>

definition linha :: "(string \<Rightarrow> candidata list) \<Rightarrow> string list \<Rightarrow> nat \<Rightarrow> candidata list" where
  "linha q ordem j = concat (map (\<lambda>c. if j < length (q c) then [q c ! j] else []) ordem)"

lemma linha_Nil_iff: "linha q ordem j = [] \<longleftrightarrow> (\<forall>c\<in>set ordem. length (q c) \<le> j)"
  by (induction ordem) (auto simp: linha_def)

fun ate :: "int \<Rightarrow> int \<Rightarrow> candidata list \<Rightarrow> candidata list" where
  "ate need b [] = []"
| "ate need b (x # xs) = (if b \<ge> need then [] else x # ate need (b + bytesDe x) xs)"

abbreviation soma :: "candidata list \<Rightarrow> int" where "soma xs \<equiv> sum_list (map bytesDe xs)"

lemma bytesDe_nonneg: "0 \<le> bytesDe x"
  by (simp add: bytesDe_def split: option.split)

lemma soma_nonneg: "0 \<le> soma xs"
  by (intro sum_list_nonneg) (auto simp: bytesDe_nonneg)

lemma ate_enough [simp]: "need \<le> b \<Longrightarrow> ate need b xs = []"
  by (cases xs) simp_all

lemma ate_append: "ate need b (xs @ ys) = ate need b xs @ ate need (b + soma (ate need b xs)) ys"
  by (induction need b xs rule: ate.induct) (auto simp: algebra_simps)

lemma ate_all: "b + soma (ate need b xs) < need \<Longrightarrow> ate need b xs = xs"
  by (induction need b xs rule: ate.induct) (auto simp: algebra_simps)

lemma ate_prefix: "prefix (ate need b xs) xs"
  by (induction need b xs rule: ate.induct) auto

lemma ate_minimal: "ate need b xs \<noteq> [] \<Longrightarrow> b + soma (butlast (ate need b xs)) < need"
proof (induction need b xs rule: ate.induct)
  case (2 need b x xs)
  then show ?case by (cases "ate need (b + bytesDe x) xs = []") (auto simp: algebra_simps split: if_splits)
qed simp

lemma ate_Nil_iff: "b < need \<Longrightarrow> ate need b xs = [] \<longleftrightarrow> xs = []"
  by (cases xs) auto

lemma rodada_ate:
  assumes "distinct cs" "\<forall>c\<in>set cs. fila fs c = drop j (q c)" "rodada need cs (fs, a, b, p) = (fs', a', b', p')"
  shows "a' = a @ ate need b (linha q cs j) \<and> b' = b + soma (ate need b (linha q cs j)) \<and>
    (p' \<longleftrightarrow> p \<or> ate need b (linha q cs j) \<noteq> []) \<and>
    (b' < need \<longrightarrow> (\<forall>c\<in>set cs. fila fs' c = drop (Suc j) (q c))) \<and> (\<forall>d. d \<notin> set cs \<longrightarrow> fila fs' d = fila fs d)"
  using assms
proof (induction cs arbitrary: fs a b p)
  case (Cons c cs)
  have row: "linha q (c # cs) j = (if j < length (q c) then [q c ! j] else []) @ linha q cs j" by (simp add: linha_def)
  show ?case
  proof (cases "need \<le> b")
    case True
    with Cons.prems show ?thesis by simp
  next
    case False
    show ?thesis
    proof (cases "j < length (q c)")
      case True
      then have q: "fila fs c = q c ! j # drop (Suc j) (q c)" using Cons.prems(2) by (simp add: Cons_nth_drop_Suc)
      let ?fs = "AList.update c (drop (Suc j) (q c)) fs" and ?x = "q c ! j"
      have rec: "rodada need cs (?fs, a @ [?x], b + bytesDe ?x, True) = (fs', a', b', p')"
        using Cons.prems(3) False q by simp
      have "\<forall>d\<in>set cs. fila ?fs d = drop j (q d)" using Cons.prems(1,2) by auto
      from Cons.IH [OF _ this rec] Cons.prems(1) False True show ?thesis unfolding row by (auto simp: algebra_simps)
    next
      case len: False
      then have q: "fila fs c = []" "drop (Suc j) (q c) = []" using Cons.prems(2) by simp_all
      have rec: "rodada need cs (fs, a, b, p) = (fs', a', b', p')" using Cons.prems(3) False q by simp
      from Cons.IH [OF _ _ rec] Cons.prems(1,2) len q show ?thesis unfolding row by auto
    qed
  qed
qed (simp add: linha_def)

definition linhas :: "(string \<Rightarrow> candidata list) \<Rightarrow> string list \<Rightarrow> nat \<Rightarrow> nat \<Rightarrow> candidata list" where
  "linhas q ordem j n = concat (map (linha q ordem) [j..<n])"

lemma linhas_Cons: "j < n \<Longrightarrow> linhas q ordem j n = linha q ordem j @ linhas q ordem (Suc j) n"
  by (simp add: linhas_def upt_conv_Cons)

lemma linhas_Nil [simp]: "linhas q ordem n n = []"
  by (simp add: linhas_def)

lemma rodadas_ate:
  assumes "distinct ordem" "\<forall>c\<in>set ordem. fila fs c = drop j (q c)" "rodadas need ordem fs a b = (fs', a', b')"
  shows "\<exists>n\<ge>j. a' = a @ ate need b (linhas q ordem j n) \<and> b' = b + soma (ate need b (linhas q ordem j n)) \<and>
    (b' < need \<longrightarrow> (\<forall>c\<in>set ordem. length (q c) \<le> n \<and> fila fs' c = []))"
  using assms
proof (induction need ordem fs a b arbitrary: j rule: rodadas.induct)
  case (1 need ordem fs a b)
  show ?case
  proof (cases "b < need")
    case False
    with "1.prems"(3) have "fs' = fs" "a' = a" "b' = b" by (simp_all add: rodadas.simps [of need])
    with False show ?thesis by (intro exI [of _ j]) simp
  next
    case True
    obtain fs1 a1 b1 p1 where round: "rodada need ordem (fs, a, b, False) = (fs1, a1, b1, p1)" by (metis prod_cases4)
    note r = rodada_ate [OF "1.prems"(1,2) round]
    show ?thesis
    proof (cases p1)
      case False
      then have "linha q ordem j = []" using r ate_Nil_iff [OF True] by blast
      then have short: "\<forall>c\<in>set ordem. length (q c) \<le> j" by (simp add: linha_Nil_iff)
      have "fs' = fs1" "a' = a1" "b' = b1" using "1.prems"(3) True round False by (simp_all add: rodadas.simps [of need])
      moreover have "a1 = a" "b1 = b" using r False by auto
      moreover from this have "\<forall>c\<in>set ordem. fila fs1 c = []" using r True short by auto
      ultimately show ?thesis using short by (intro exI [of _ j]) simp
    next
      case p1: True
      then have tail: "rodadas need ordem fs1 a1 b1 = (fs', a', b')"
        using "1.prems"(3) True round by (simp add: rodadas.simps [of need ordem fs])
      show ?thesis
      proof (cases "b1 < need")
        case False
        then have "fs' = fs1" "a' = a1" "b' = b1" using tail by (simp_all add: rodadas.simps [of need])
        then show ?thesis using r False by (intro exI [of _ "Suc j"]) (simp add: linhas_Cons)
      next
        case more: True
        then have "\<forall>c\<in>set ordem. fila fs1 c = drop (Suc j) (q c)" using r by blast
        from "1.IH" [OF True round [symmetric] refl refl p1 "1.prems"(1) this tail] obtain n where n: "Suc j \<le> n"
          "a' = a1 @ ate need b1 (linhas q ordem (Suc j) n)" "b' = b1 + soma (ate need b1 (linhas q ordem (Suc j) n))"
          "b' < need \<longrightarrow> (\<forall>c\<in>set ordem. length (q c) \<le> n \<and> fila fs' c = [])" by auto
        then show ?thesis using r by (intro exI [of _ n]) (auto simp: linhas_Cons ate_append)
      qed
    qed
  qed
qed

section \<open>Fairness\<close>

lemma prefix_concat:
  "prefix p (concat (map f [0..<n])) \<Longrightarrow> \<exists>j m. p = concat (map f [0..<j]) @ take m (f j)"
proof (induction n)
  case (Suc n)
  then have "prefix p (concat (map f [0..<n]) @ f n)" by simp
  then consider "prefix p (concat (map f [0..<n]))" | t where "p = concat (map f [0..<n]) @ t" "prefix t (f n)"
    by (auto simp: prefix_append)
  then show ?case
  proof cases
    case 1
    then show ?thesis by (rule Suc.IH)
  next
    case 2
    then show ?thesis by (metis prefix_def append_eq_conv_conj)
  qed
qed (intro exI [of _ 0], simp)

definition da :: "string \<Rightarrow> candidata list \<Rightarrow> candidata list" where
  "da c xs = filter (\<lambda>x. rc_cameraId x = c) xs"

lemma da_linha:
  assumes "distinct ordem" "\<forall>d x. x \<in> set (q d) \<longrightarrow> rc_cameraId x = d"
  shows "da c (linha q ordem j) = (if c \<in> set ordem \<and> j < length (q c) then [q c ! j] else [])"
  using assms(1)
proof (induction ordem)
  case (Cons d ordem)
  have cam: "j < length (q d) \<Longrightarrow> rc_cameraId (q d ! j) = d" using assms(2) by simp
  have row: "linha q (d # ordem) j = (if j < length (q d) then [q d ! j] else []) @ linha q ordem j" by (simp add: linha_def)
  show ?case using Cons cam unfolding row by (auto simp: da_def)
qed (simp add: linha_def da_def)

lemma da_linhas:
  assumes "distinct ordem" "\<forall>d x. x \<in> set (q d) \<longrightarrow> rc_cameraId x = d" "c \<in> set ordem"
  shows "da c (linhas q ordem 0 n) = take n (q c)"
proof (induction n)
  case (Suc n)
  have "da c (linhas q ordem 0 (Suc n)) = da c (linhas q ordem 0 n) @ da c (linha q ordem n)"
    by (simp add: linhas_def da_def)
  then show ?case using Suc da_linha [OF assms(1,2), of c n] assms(3) by (simp add: take_Suc_conv_app_nth)
qed (simp add: linhas_def da_def)

lemma da_outside:
  "\<forall>d x. x \<in> set (q d) \<longrightarrow> rc_cameraId x = d \<Longrightarrow> distinct ordem \<Longrightarrow> c \<notin> set ordem \<Longrightarrow> da c (linhas q ordem 0 n) = []"
proof (induction n)
  case (Suc n)
  have "da c (linhas q ordem 0 (Suc n)) = da c (linhas q ordem 0 n) @ da c (linha q ordem n)"
    by (simp add: linhas_def da_def)
  with Suc da_linha [OF Suc.prems(2,1), of c n] show ?case by simp
qed (simp add: linhas_def da_def)

lemma prefix_filter: "prefix p xs \<Longrightarrow> prefix (filter P p) (filter P xs)"
  by (auto simp: prefix_def)

lemma round_robin_counts:
  assumes "distinct ordem" "\<forall>d x. x \<in> set (q d) \<longrightarrow> rc_cameraId x = d" "prefix p (linhas q ordem 0 n)"
    "c \<in> set ordem" "d \<in> set ordem" "length (da d p) < length (q d)"
  shows "length (da c p) \<le> Suc (length (da d p))"
proof -
  obtain j m where p: "p = linhas q ordem 0 j @ take m (linha q ordem j)"
    using prefix_concat assms(3) unfolding linhas_def by blast
  have upper: "length (da c p) \<le> Suc j"
  proof -
    have "length (filter (\<lambda>x. rc_cameraId x = c) (take m (linha q ordem j))) \<le> length (da c (linha q ordem j))"
      unfolding da_def by (metis append_take_drop_id filter_append length_append le_add1)
    also have "\<dots> \<le> 1" using da_linha [OF assms(1,2), of c j] by simp
    finally show ?thesis using da_linhas [OF assms(1,2,4), of j] unfolding p by (simp add: da_def)
  qed
  have "length (take j (q d)) \<le> length (da d p)"
    using da_linhas [OF assms(1,2,5), of j] unfolding p by (simp add: da_def)
  then have "j \<le> length (da d p)" using assms(6) by simp
  with upper show ?thesis by simp
qed

text \<open>What the plan deletes from one camera, and the recordings of it that may go, oldest first.\<close>

definition apagadas :: "plano \<Rightarrow> string \<Rightarrow> candidata list" where
  "apagadas plan c = da c (aApagar plan)"

definition disponiveis :: "candidata list \<Rightarrow> string \<Rightarrow> candidata list" where
  "disponiveis candidatas c = sort_key rc_startedAt (livres candidatas c)"

text \<open>C14 (the rotation is fair, oldest first, and takes no more than needed). What is deleted from a
  camera is a prefix of its unprotected recordings in age order; no camera loses two more than
  another that still has some; either the bytes asked for are reached, and without the last
  deletion they would not be, or nothing deletable is left; the cameras reported without slack are
  the active ones that had nothing to give.\<close>

theorem rotation_fair:
  assumes "0 < need"
  shows "let plan = planejarRotacao ck candidatas need ativas in
    (\<forall>c. prefix (apagadas plan c) (disponiveis candidatas c)) \<and>
    (\<forall>c d. length (apagadas plan d) < length (disponiveis candidatas d) \<longrightarrow>
       length (apagadas plan c) \<le> Suc (length (apagadas plan d))) \<and>
    bytesEstimados plan = soma (aApagar plan) \<and>
    (aApagar plan \<noteq> [] \<longrightarrow> soma (butlast (aApagar plan)) < need) \<and>
    (need \<le> bytesEstimados plan \<or> (\<forall>c. apagadas plan c = disponiveis candidatas c))"
proof -
  let ?q = "disponiveis candidatas" and ?fs = "porCamera candidatas" and ?ordem = "ordemDasCameras ck ativas (porCamera candidatas)"
  obtain fs' a b where run: "rodadas need ?ordem ?fs [] 0 = (fs', a, b)" by (metis prod_cases3)
  have dist: "distinct ?ordem" by (rule ordem_distinct)
  have cam: "\<forall>d x. x \<in> set (?q d) \<longrightarrow> rc_cameraId x = d" by (auto simp: disponiveis_def livres_def)
  have dom: "c \<in> set ?ordem \<longleftrightarrow> ?q c \<noteq> []" for c by (metis ordem_complete disponiveis_def set_sort set_empty)
  have "\<forall>c\<in>set ?ordem. fila ?fs c = drop 0 (?q c)" by (simp add: fila_porCamera disponiveis_def)
  from rodadas_ate [OF dist this run] obtain n where n: "a = ate need 0 (linhas ?q ?ordem 0 n)" "b = soma a"
    "b < need \<longrightarrow> (\<forall>c\<in>set ?ordem. length (?q c) \<le> n)" by auto
  have plan: "aApagar (planejarRotacao ck candidatas need ativas) = a"
    "bytesEstimados (planejarRotacao ck candidatas need ativas) = b"
    using assms by (simp_all add: planejarRotacao_def run)
  have pre: "prefix a (linhas ?q ?ordem 0 n)" unfolding n(1) by (rule ate_prefix)
  have own: "prefix (da c a) (?q c)" for c
  proof -
    have "prefix (da c a) (da c (linhas ?q ?ordem 0 n))" unfolding da_def by (rule prefix_filter [OF pre])
    also have "prefix (da c (linhas ?q ?ordem 0 n)) (?q c)"
      using da_linhas [OF dist cam, of c n] da_outside [OF cam dist, of c n] by (cases "c \<in> set ?ordem") (auto simp: take_is_prefix)
    finally show ?thesis .
  qed
  have fair: "length (da c a) \<le> Suc (length (da d a))" if less: "length (da d a) < length (?q d)" for c d
  proof (cases "c \<in> set ?ordem")
    case True
    moreover have "?q d \<noteq> []" using less by force
    then have "d \<in> set ?ordem" unfolding dom .
    ultimately show ?thesis by (rule round_robin_counts [OF dist cam pre _ _ less])
  next
    case False
    then have "?q c = []" unfolding dom by simp
    then show ?thesis using own [of c] by simp
  qed
  have min: "a \<noteq> [] \<longrightarrow> soma (butlast a) < need" using ate_minimal [of need 0 "linhas ?q ?ordem 0 n"] unfolding n(1) by simp
  have all: "da c a = ?q c" if "b < need" for c
  proof -
    have "a = linhas ?q ?ordem 0 n" using ate_all [of 0 need "linhas ?q ?ordem 0 n"] that n(1,2) by simp
    moreover have "?q c = []" if "c \<notin> set ?ordem" using that unfolding dom by simp
    ultimately show ?thesis using da_linhas [OF dist cam, of c n] own [of c] n(3) that
      by (cases "c \<in> set ?ordem") simp_all
  qed
  show ?thesis using own fair min all n(2) unfolding Let_def apagadas_def plan by (auto simp: not_le)
qed

definition sample_candidatas :: "candidata list" where
  "sample_candidatas =
     [\<lparr>rc_id = ''a1'', rc_cameraId = ''a'', rc_startedAt = 20, rc_sizeBytes = Some 10, rc_protegida = False\<rparr>,
      \<lparr>rc_id = ''a0'', rc_cameraId = ''a'', rc_startedAt = 10, rc_sizeBytes = Some 10, rc_protegida = False\<rparr>,
      \<lparr>rc_id = ''bb0'', rc_cameraId = ''bb'', rc_startedAt = 90, rc_sizeBytes = Some 10, rc_protegida = False\<rparr>,
      \<lparr>rc_id = ''a2'', rc_cameraId = ''a'', rc_startedAt = 5, rc_sizeBytes = Some 10, rc_protegida = True\<rparr>]"

lemma rotation_sample:
  "map rc_id (aApagar (planejarRotacao length sample_candidatas 15 [''a'', ''bb''])) = [''a0'', ''bb0''] \<and>
   map rc_id (disponiveis sample_candidatas ''a'') = [''a0'', ''a1'']"
  by code_simp

theorem rotation_fair_witness:
  "let plan = planejarRotacao length sample_candidatas 15 [''a'', ''bb''] in
    map rc_id (aApagar plan) = [''a0'', ''bb0''] \<and>
    map rc_id (disponiveis sample_candidatas ''a'') = [''a0'', ''a1''] \<and>
    (\<forall>c. prefix (apagadas plan c) (disponiveis sample_candidatas c)) \<and> soma (butlast (aApagar plan)) < 15"
proof -
  have "aApagar (planejarRotacao length sample_candidatas 15 [''a'', ''bb'']) \<noteq> []" using rotation_sample by auto
  then show ?thesis
    using rotation_fair [of 15 length sample_candidatas "[''a'', ''bb'']"] rotation_sample by (simp add: Let_def)
qed

end
