(* ===== verification/Guard_Rotation.thy ===== *)
theory Guard_Rotation
  imports Recording_Guard Rotation_Properties
begin

text \<open>
  The rotation of \<open>Rotation\<close> in the hands of the disk guard of \<open>Recording_Supervisor\<close>: which
  recordings and files a round may delete, and how many bytes it counts as freed.
\<close>

section \<open>What the plan takes\<close>

lemma rodada_sub:
  "rodada need cs (fs, a, b, p) = (fs', a', b', p') \<Longrightarrow> \<forall>c. set (fila fs c) \<subseteq> S \<Longrightarrow> set a \<subseteq> S \<Longrightarrow>
   (\<forall>c. set (fila fs' c) \<subseteq> S) \<and> set a' \<subseteq> S"
proof (induction cs arbitrary: fs a b p)
  case (Cons c cs)
  show ?case
  proof (cases "fila fs c")
    case q: (Cons x q)
    have sub: "set (x # q) \<subseteq> S" using Cons.prems(2) q by metis
    then have "\<forall>d. set (fila (AList.update c q fs) d) \<subseteq> S" "set (a @ [x]) \<subseteq> S" using Cons.prems(2,3) by auto
    then show ?thesis using Cons.IH [of "AList.update c q fs" "a @ [x]" "b + bytesDe x" True] Cons.prems q by (auto split: if_splits)
  qed (use Cons in \<open>auto split: if_splits\<close>)
qed simp

lemma rodadas_sub:
  "rodadas need ordem fs a b = (fs', a', b') \<Longrightarrow> \<forall>c. set (fila fs c) \<subseteq> S \<Longrightarrow> set a \<subseteq> S \<Longrightarrow> set a' \<subseteq> S"
proof (induction need ordem fs a b rule: rodadas.induct)
  case (1 need ordem fs a b)
  obtain fs1 a1 b1 p1 where round: "rodada need ordem (fs, a, b, False) = (fs1, a1, b1, p1)" by (metis prod_cases4)
  note sub = rodada_sub [OF round "1.prems"(2,3)]
  show ?case
  proof (cases "b < need \<and> p1")
    case True
    then have "rodadas need ordem fs1 a1 b1 = (fs', a', b')" using "1.prems"(1) round by (simp add: rodadas.simps [of need ordem fs])
    then show ?thesis using "1.IH" [OF _ round [symmetric] refl refl] True sub by blast
  next
    case False
    then show ?thesis using "1.prems"(1,3) round sub by (auto simp: rodadas.simps [of need ordem fs] split: if_splits)
  qed
qed

lemma plan_sub: "set (aApagar (planejarRotacao ck candidatas need ativas)) \<subseteq> {x \<in> set candidatas. \<not> rc_protegida x}"
proof (cases "need > 0")
  case True
  let ?fs = "porCamera candidatas" and ?S = "{x \<in> set candidatas. \<not> rc_protegida x}"
  obtain fs' a b where run: "rodadas need (ordemDasCameras ck ativas ?fs) ?fs [] 0 = (fs', a, b)" by (metis prod_cases3)
  have "\<forall>c. set (fila ?fs c) \<subseteq> ?S" by (auto simp: fila_porCamera livres_def)
  then have "set a \<subseteq> ?S" using rodadas_sub [OF run] by simp
  then show ?thesis using True run by (simp add: planejarRotacao_def)
qed (simp add: planejarRotacao_def)

section \<open>What the round deletes\<close>

definition may_go :: "guard_env \<Rightarrow> disk_recording \<Rightarrow> bool" where
  "may_go g r \<longleftrightarrow> dr_id r \<notin> set (protegidas g) \<and> dr_localDeletedAt r = None \<and> dr_endedAt r \<noteq> None"

definition bytes_on :: "disk \<Rightarrow> int" where "bytes_on d = sum_list (map snd (dk_files d))"

lemma bytes_delete:
  "distinct (map fst fs) \<Longrightarrow> sum_list (map snd fs) =
     sum_list (map snd (AList.delete f fs)) + (case map_of fs f of None \<Rightarrow> 0 | Some n \<Rightarrow> (n :: int))"
proof (induction fs)
  case (Cons x fs)
  obtain a n where x: "x = (a, n)" by fastforce
  show ?case
  proof (cases "a = f")
    case True
    then have "f \<notin> fst ` set fs" using Cons.prems x by auto
    then have "AList.delete f fs = fs" "map_of fs f = None" by (auto simp: AList.delete_id map_of_eq_None_iff)
    then show ?thesis using x True by (simp add: AList.delete_eq)
  qed (use Cons x in \<open>simp add: AList.delete_eq\<close>)
qed (simp add: AList.delete_eq)

text \<open>One step, over the recordings there were at first.\<close>

definition only_deletes :: "guard_env \<Rightarrow> disk \<Rightarrow> disk \<Rightarrow> bool" where
  "only_deletes g d d' \<longleftrightarrow> set (dk_recordings d') \<subseteq> set (dk_recordings d) \<and>
     (\<forall>r\<in>set (dk_recordings d). r \<notin> set (dk_recordings d') \<longrightarrow> may_go g r) \<and>
     (\<forall>f. map_of (dk_files d') f \<noteq> map_of (dk_files d) f \<longrightarrow>
        map_of (dk_files d') f = None \<and> (\<exists>r\<in>set (dk_recordings d). may_go g r \<and> ge_path g (dr_filePath r) = Some f))"

lemma only_deletes_refl: "only_deletes g d d"
  by (simp add: only_deletes_def)

lemma only_deletes_one:
  assumes "only_deletes g d0 d" "distinct (map dr_id (dk_recordings d0))" "r \<in> set (dk_recordings d)" "may_go g r"
    and "ge_path g (dr_filePath r) = Some f"
  shows "only_deletes g d0 \<lparr>dk_recordings = (if fails then dk_recordings d else filter (\<lambda>q. dr_id q \<noteq> dr_id r) (dk_recordings d)),
    dk_files = AList.delete f (dk_files d)\<rparr>"
proof -
  have r0: "r \<in> set (dk_recordings d0)" using assms(1,3) by (auto simp: only_deletes_def)
  have same: "q = r" if "q \<in> set (dk_recordings d0)" "dr_id q = dr_id r" for q
    by (rule inj_key [OF assms(2) that(1) r0 that(2)])
  show ?thesis using assms(1,4,5) r0 same by (auto simp: only_deletes_def delete_conv')
qed

lemma apagar_effect:
  assumes "apagarPlano g xs (d, n) = (d', n')" "only_deletes g d0 d" "distinct (map dr_id (dk_recordings d0))"
    and "distinct (map fst (dk_files d))" "\<forall>x\<in>set xs. \<exists>r\<in>set (dk_recordings d0). dr_id r = rc_id x \<and> may_go g r"
  shows "only_deletes g d0 d' \<and> n' - n = bytes_on d - bytes_on d'"
  using assms(1,2,4,5)
proof (induction xs arbitrary: d n)
  case (Cons x xs)
  show ?case
  proof (cases "find (\<lambda>r. dr_id r = rc_id x) (dk_recordings d)")
    case None
    then show ?thesis using Cons by simp
  next
    case (Some r)
    have r: "r \<in> set (dk_recordings d)" "dr_id r = rc_id x" using find_Some_mem [OF Some] by auto
    obtain r0 where r0: "r0 \<in> set (dk_recordings d0)" "dr_id r0 = rc_id x" "may_go g r0" using Cons.prems(4) by auto
    have "r \<in> set (dk_recordings d0)" using Cons.prems(2) r(1) by (auto simp: only_deletes_def)
    then have "r = r0" using inj_key [OF assms(3) _ r0(1)] r(2) r0(2) by simp
    then have good: "may_go g r" using r0(3) by simp
    show ?thesis
    proof (cases "ge_path g (dr_filePath r)")
      case None
      then show ?thesis using Cons Some by simp
    next
      case f: (Some f)
      let ?d = "\<lparr>dk_recordings = (if ge_deleteFails g (dr_id r) then dk_recordings d else filter (\<lambda>q. dr_id q \<noteq> dr_id r) (dk_recordings d)),
         dk_files = AList.delete f (dk_files d)\<rparr>"
      let ?k = "case map_of (dk_files d) f of None \<Rightarrow> 0 | Some m \<Rightarrow> m"
      show ?thesis
      proof (cases "map_of (dk_files d) f \<noteq> None \<and> ge_unlinkFails g f")
        case True
        then have "apagarPlano g (x # xs) (d, n) = apagarPlano g xs (d, n)" using Some f by simp
        then show ?thesis using Cons by simp
      next
        case False
        then have "apagarPlano g (x # xs) (d, n) = apagarPlano g xs (?d, n + ?k)" using Some f by (auto simp: Let_def)
        then have rec: "apagarPlano g xs (?d, n + ?k) = (d', n')" using Cons.prems(1) by simp
        have "distinct (map fst (dk_files ?d))" using Cons.prems(3) by (simp add: distinct_delete)
        moreover have "\<forall>x\<in>set xs. \<exists>r\<in>set (dk_recordings d0). dr_id r = rc_id x \<and> may_go g r" using Cons.prems(4) by simp
        ultimately have "only_deletes g d0 d' \<and> n' - (n + ?k) = bytes_on ?d - bytes_on d'"
          using Cons.IH [OF rec only_deletes_one [OF Cons.prems(2) assms(3) r(1) good f]] by blast
        moreover have "bytes_on d = bytes_on ?d + ?k" using bytes_delete [OF Cons.prems(3), of f] by (simp add: bytes_on_def)
        ultimately show ?thesis by simp
      qed
    qed
  qed
qed simp

text \<open>C21 (what a full disk may cost). A round of the rotation deletes rows and files of finished
  recordings on the local disk only, never one that the lookup of the recordings held for an
  investigation has found, and the bytes it reports as freed are those that went from the disk,
  whatever deletions fail on the way. A lookup that fails finds none, and protects none.\<close>

theorem rotation_spares_holds:
  assumes "distinct (map dr_id (dk_recordings d))" "distinct (map fst (dk_files d))"
    and "rotacionarParaLiberarEspaco ck cfg g ativas freeBytes d = (d', freed)"
  shows "set (dk_recordings d') \<subseteq> set (dk_recordings d) \<and>
    (\<forall>r\<in>set (dk_recordings d). r \<notin> set (dk_recordings d') \<longrightarrow>
       dr_id r \<notin> set (protegidas g) \<and> dr_localDeletedAt r = None \<and> dr_endedAt r \<noteq> None) \<and>
    (\<forall>f. map_of (dk_files d') f \<noteq> map_of (dk_files d) f \<longrightarrow> map_of (dk_files d') f = None \<and>
       (\<exists>r\<in>set (dk_recordings d). dr_id r \<notin> set (protegidas g) \<and> ge_path g (dr_filePath r) = Some f)) \<and>
    freed = bytes_on d - bytes_on d' \<and> (ge_holds g = None \<longrightarrow> protegidas g = [])"
proof (cases "faltam cfg freeBytes \<le> 0 \<or> \<not> ge_query g")
  case True
  then show ?thesis using assms(3) by (auto simp: rotacionarParaLiberarEspaco_def protegidas_def)
next
  case False
  let ?plan = "aApagar (planejarRotacao ck (candidatasDoDisco g d) \<lceil>faltam cfg freeBytes\<rceil> ativas)"
  have run: "apagarPlano g ?plan (d, 0) = (d', freed)" using False assms(3) by (simp add: rotacionarParaLiberarEspaco_def)
  have none: "ge_holds g = None \<longrightarrow> protegidas g = []" by (simp add: protegidas_def)
  have "\<forall>x\<in>set ?plan. \<exists>r\<in>set (dk_recordings d). dr_id r = rc_id x \<and> may_go g r"
  proof
    fix x assume "x \<in> set ?plan"
    then have "x \<in> set (candidatasDoDisco g d)" "\<not> rc_protegida x" using plan_sub by blast+
    then show "\<exists>r\<in>set (dk_recordings d). dr_id r = rc_id x \<and> may_go g r"
      by (auto simp: candidatasDoDisco_def may_go_def dest!: in_set_takeD)
  qed
  from apagar_effect [OF run only_deletes_refl assms(1,2) this] show ?thesis
    unfolding only_deletes_def may_go_def using none by auto
qed

text \<open>Two old recordings, the older one held: the other goes, and its thousand bytes are counted.\<close>

theorem rotation_spares_holds_witness:
  "let d = \<lparr>dk_recordings = [sample_recording, sample_recording\<lparr>dr_id := ''held'', dr_filePath := ''held.mp4''\<rparr>],
        dk_files = [(''old.mp4'', 1000), (''held.mp4'', 5000)]\<rparr>;
       (d', freed) = rotacionarParaLiberarEspaco length sample_config (sample_guard\<lparr>ge_holds := Some [''held'']\<rparr>) [] 0 d
   in sample_recording\<lparr>dr_id := ''held'', dr_filePath := ''held.mp4''\<rparr> \<in> set (dk_recordings d') \<and> freed = bytes_on d - bytes_on d'"
proof -
  let ?h = "sample_recording\<lparr>dr_id := ''held'', dr_filePath := ''held.mp4''\<rparr>"
  let ?d = "\<lparr>dk_recordings = [sample_recording, ?h], dk_files = [(''old.mp4'', 1000), (''held.mp4'', 5000)]\<rparr>"
  let ?g = "sample_guard\<lparr>ge_holds := Some [''held'']\<rparr>"
  obtain d' freed where run: "rotacionarParaLiberarEspaco length sample_config ?g [] 0 ?d = (d', freed)" by fastforce
  have "distinct (map dr_id (dk_recordings ?d))" "distinct (map fst (dk_files ?d))" by (simp_all add: sample_recording_def)
  note safe = rotation_spares_holds [OF this run]
  have "?h \<in> set (dk_recordings ?d)" "dr_id ?h \<in> set (protegidas ?g)" by (simp_all add: protegidas_def)
  then have "?h \<in> set (dk_recordings d')" using safe by blast
  then show ?thesis using run safe by (simp add: Let_def)
qed

end
