(* ===== verification/Recording_Status.thy ===== *)
theory Recording_Status
  imports Recording_Supervisor
begin

text \<open>
  What \<open>recordings/recording-process-manager.service.ts\<close> reports of a recording: whether its process
  has stopped writing, judged by the files it writes, and the status shown to the operator. Files
  are listed by an argument (\<open>None\<close> when the listing throws); times are whole milliseconds and
  seconds fractions of them.
\<close>

section \<open>Thresholds\<close>

record watch_env =
  we_writeStall :: "string option"
  we_writeGrace :: "string option"
  we_staleThreshold :: "string option"
  we_segmentSeconds :: rat

definition plain_number :: "string option \<Rightarrow> rat \<Rightarrow> rat" where
  "plain_number raw fallback = fst (envNumber raw fallback \<lparr>opt_min = None, opt_max = None, opt_integer = False\<rparr>)"

definition getWriteStallSeconds :: "watch_env \<Rightarrow> rat" where
  "getWriteStallSeconds env = max 20 (plain_number (we_writeStall env) 45)"

definition getWriteStallGraceSeconds :: "watch_env \<Rightarrow> rat \<Rightarrow> rat" where
  "getWriteStallGraceSeconds env stallThresholdSeconds = max 30 (max stallThresholdSeconds (plain_number (we_writeGrace env) 90))"

definition getRecordingStaleThresholdSeconds :: "watch_env \<Rightarrow> rat option \<Rightarrow> rat" where
  "getRecordingStaleThresholdSeconds env segmentSeconds =
     (let effective = (case segmentSeconds of Some s \<Rightarrow> if s > 0 then s else we_segmentSeconds env | None \<Rightarrow> we_segmentSeconds env);
          grace = max 60 (of_int \<lfloor>effective * (1 / 4) + 1 / 2\<rfloor>)
      in max (plain_number (we_staleThreshold env) 180) (effective + grace))"

section \<open>Progress of the file\<close>

datatype progress_reason = NoActiveProcess | StartupGrace | NoSegmentFile | ProbeFailed | Growing | Writing | Stalled

record write_progress =
  wp_applicable :: bool
  wp_filePath :: "string option"
  wp_sizeBytes :: "int option"
  wp_secondsSinceLastWrite :: "int option"
  wp_stallThresholdSeconds :: rat
  wp_graceSeconds :: rat
  wp_stalled :: bool
  wp_reason :: progress_reason

record candidate =
  ca_filePath :: string
  ca_sizeBytes :: int
  ca_mtimeMs :: int

definition newest :: "candidate \<Rightarrow> candidate list \<Rightarrow> candidate" where
  "newest c cs = fold (\<lambda>item best. if ca_mtimeMs item > ca_mtimeMs best then item else best) cs c"

text \<open>The answer, and the state with the new observation.\<close>

definition getRecordingWriteProgress ::
  "watch_env \<Rightarrow> (string \<Rightarrow> candidate list option) \<Rightarrow> process_state option \<Rightarrow> int \<Rightarrow> process_state option \<times> write_progress" where
  "getRecordingWriteProgress env listing state nowMs =
     (let stall = getWriteStallSeconds env;
          grace = getWriteStallGraceSeconds env stall;
          base = (\<lambda>applicable reason. \<lparr>wp_applicable = applicable, wp_filePath = None, wp_sizeBytes = None, wp_secondsSinceLastWrite = None,
             wp_stallThresholdSeconds = stall, wp_graceSeconds = grace, wp_stalled = False, wp_reason = reason\<rparr>)
      in case state of None \<Rightarrow> (None, base False NoActiveProcess)
         | Some p \<Rightarrow>
             if \<not> of_int (nowMs - ps_startedAt p) / 1000 \<ge> grace then (state, base True StartupGrace)
             else (case listing (ps_outputDir p) of
                 None \<Rightarrow> (state, base True ProbeFailed)
               | Some [] \<Rightarrow> (state, base True NoSegmentFile)
               | Some (c # cs) \<Rightarrow>
                   let current = newest c cs;
                       seconds = max 0 (of_int (nowMs - ca_mtimeMs current) / 1000 :: rat);
                       grew = (case ps_writeSample p of None \<Rightarrow> False
                         | Some s \<Rightarrow> ws_filePath s = ca_filePath current \<and> ca_sizeBytes current > ws_sizeBytes s);
                       p' = p\<lparr>ps_writeSample := Some \<lparr>ws_filePath = ca_filePath current, ws_sizeBytes = ca_sizeBytes current,
                         ws_mtimeMs = ca_mtimeMs current, ws_observedAtMs = nowMs\<rparr>\<rparr>;
                       observed = (\<lambda>stalled reason. \<lparr>wp_applicable = True, wp_filePath = Some (ca_filePath current),
                         wp_sizeBytes = Some (ca_sizeBytes current), wp_secondsSinceLastWrite = Some \<lfloor>seconds + 1 / 2\<rfloor>,
                         wp_stallThresholdSeconds = stall, wp_graceSeconds = grace, wp_stalled = stalled, wp_reason = reason\<rparr>)
                   in (Some p', if grew then observed False Growing
                       else if seconds \<ge> stall then observed True Stalled else observed False Writing)))"

section \<open>Status\<close>

datatype reconnect_event = ReconnectRequested | ReconnectSuccess | ReconnectFailed

record status_context =
  sx_recordingEnabled :: "bool option"
  sx_lastStartedAt :: "int option"
  sx_lastEndedAt :: "int option"
  sx_reconnect :: "(reconnect_event \<times> int) option"

datatype status_detail = Disabled | AutoReconnecting | RecordingOk | WorkerEnabledButNoRecentSegment | EnabledButIdle |
  RecordingOkLocalProcess | LocalProcessDead

record recording_status =
  rs_isRecording :: bool
  rs_intendedRecording :: bool
  rs_startedAt :: "int option"
  rs_lastSegmentAt :: "int option"
  rs_lastSegmentAgeSeconds :: "int option"
  rs_hasRecentSegment :: bool
  rs_staleThresholdSeconds :: rat
  rs_stale :: bool
  rs_statusDetail :: status_detail
  rs_writeStalled :: bool

text \<open>\<open>alive\<close> tells whether the process of the state still exists (\<open>isPidAlive\<close>).\<close>

definition montarStatus :: "watch_env \<Rightarrow> bool \<Rightarrow> bool \<Rightarrow> process_state option \<Rightarrow> write_progress \<Rightarrow> status_context \<Rightarrow> int \<Rightarrow> recording_status" where
  "montarStatus env isLocal alive state progress x nowMs =
     (let lastSegmentAt = (case sx_lastStartedAt x of None \<Rightarrow> None
            | Some s \<Rightarrow> Some (case sx_lastEndedAt x of Some e \<Rightarrow> e | None \<Rightarrow> s));
          age = map_option (\<lambda>t. max 0 ((nowMs - t) div 1000)) lastSegmentAt;
          recent = (case age of None \<Rightarrow> False | Some a \<Rightarrow> a < 15 * 60);
          threshold = getRecordingStaleThresholdSeconds env None;
          graceAt = of_int nowMs - max threshold 180 * 1000;
          intended = (sx_recordingEnabled x = Some True);
          isRecording = (intended \<and> recent);
          staleCandidate = (intended \<and> (case age of None \<Rightarrow> True | Some a \<Rightarrow> of_int a > threshold));
          autoRecovering = (staleCandidate \<and> (case sx_reconnect x of None \<Rightarrow> False
            | Some (kind, occurredAt) \<Rightarrow> of_int occurredAt \<ge> graceAt \<and> kind \<noteq> ReconnectFailed));
          inferred = (\<lambda>idle. \<lparr>rs_isRecording = isRecording, rs_intendedRecording = intended, rs_startedAt = sx_lastStartedAt x,
            rs_lastSegmentAt = lastSegmentAt, rs_lastSegmentAgeSeconds = age, rs_hasRecentSegment = recent,
            rs_staleThresholdSeconds = threshold, rs_stale = (staleCandidate \<and> \<not> autoRecovering),
            rs_statusDetail = (if \<not> intended then Disabled else if autoRecovering then AutoReconnecting
              else if isRecording then RecordingOk else idle),
            rs_writeStalled = wp_stalled progress\<rparr>)
      in if \<not> isLocal then inferred WorkerEnabledButNoRecentSegment
         else (case state of None \<Rightarrow> inferred EnabledButIdle
           | Some p \<Rightarrow> \<lparr>rs_isRecording = alive, rs_intendedRecording = True, rs_startedAt = Some (ps_startedAt p),
               rs_lastSegmentAt = lastSegmentAt, rs_lastSegmentAgeSeconds = age, rs_hasRecentSegment = recent,
               rs_staleThresholdSeconds = threshold, rs_stale = (\<not> alive),
               rs_statusDetail = (if alive then RecordingOkLocalProcess else LocalProcessDead),
               rs_writeStalled = wp_stalled progress\<rparr>))"

section \<open>Properties\<close>

lemma newest_max:
  "newest c cs \<in> set (c # cs) \<and> (\<forall>x\<in>set (c # cs). ca_mtimeMs x \<le> ca_mtimeMs (newest c cs))"
proof (induction cs arbitrary: c)
  case (Cons x cs)
  have "newest c (x # cs) = newest (if ca_mtimeMs x > ca_mtimeMs c then x else c) cs" by (simp add: newest_def)
  then show ?case using Cons [of x] Cons [of c] by (auto split: if_splits)
qed (simp add: newest_def)

text \<open>(when a recording is accused of having stopped). It is exactly when it has a process that has
  run for the grace time, its directory can be listed and holds a file, every file has been without
  a write for the threshold, and the newest has not grown since it was last looked at. The threshold
  is at least twenty seconds and the grace time at least thirty and not shorter than the threshold.\<close>

theorem write_stall_exact:
  "wp_stalled (snd (getRecordingWriteProgress env listing state nowMs)) \<longleftrightarrow>
    (\<exists>p c cs. state = Some p \<and> of_int (nowMs - ps_startedAt p) / 1000 \<ge> getWriteStallGraceSeconds env (getWriteStallSeconds env) \<and>
       listing (ps_outputDir p) = Some (c # cs) \<and>
       (\<forall>x\<in>set (c # cs). of_int (nowMs - ca_mtimeMs x) / 1000 \<ge> getWriteStallSeconds env) \<and>
       (\<forall>s. ps_writeSample p = Some s \<longrightarrow> ws_filePath s = ca_filePath (newest c cs) \<longrightarrow> ca_sizeBytes (newest c cs) \<le> ws_sizeBytes s)) \<and>
    20 \<le> getWriteStallSeconds env \<and> 30 \<le> getWriteStallGraceSeconds env (getWriteStallSeconds env) \<and>
    getWriteStallSeconds env \<le> getWriteStallGraceSeconds env (getWriteStallSeconds env)"
proof -
  let ?T = "getWriteStallSeconds env"
  have bounds: "20 \<le> ?T" "30 \<le> getWriteStallGraceSeconds env ?T" "?T \<le> getWriteStallGraceSeconds env ?T"
    unfolding getWriteStallSeconds_def getWriteStallGraceSeconds_def by (simp_all add: le_max_iff_disj)
  have old: "max 0 (of_int (nowMs - ca_mtimeMs (newest c cs)) / 1000 :: rat) \<ge> ?T \<longleftrightarrow>
      (\<forall>x\<in>set (c # cs). of_int (nowMs - ca_mtimeMs x) / 1000 \<ge> ?T)" for c cs
  proof
    assume le: "max 0 (of_int (nowMs - ca_mtimeMs (newest c cs)) / 1000 :: rat) \<ge> ?T"
    then have n: "of_int (nowMs - ca_mtimeMs (newest c cs)) / 1000 \<ge> ?T" using bounds(1) by (simp add: max_def split: if_splits)
    show "\<forall>x\<in>set (c # cs). of_int (nowMs - ca_mtimeMs x) / 1000 \<ge> ?T"
    proof
      fix x assume "x \<in> set (c # cs)"
      then have "ca_mtimeMs x \<le> ca_mtimeMs (newest c cs)" using newest_max [of c cs] by blast
      then have "(of_int (nowMs - ca_mtimeMs (newest c cs)) :: rat) \<le> of_int (nowMs - ca_mtimeMs x)" by (simp only: of_int_le_iff)
      then show "of_int (nowMs - ca_mtimeMs x) / 1000 \<ge> ?T" using n by simp
    qed
  next
    assume "\<forall>x\<in>set (c # cs). of_int (nowMs - ca_mtimeMs x) / 1000 \<ge> ?T"
    then show "max 0 (of_int (nowMs - ca_mtimeMs (newest c cs)) / 1000 :: rat) \<ge> ?T"
      using newest_max [of c cs] by (metis max.coboundedI2)
  qed
  show ?thesis
  proof (cases state)
    case None
    then show ?thesis using bounds by (simp add: getRecordingWriteProgress_def Let_def)
  next
    case (Some p)
    show ?thesis
    proof (cases "listing (ps_outputDir p)")
      case None
      then show ?thesis using bounds Some by (simp add: getRecordingWriteProgress_def Let_def)
    next
      case (Some l)
      show ?thesis
      proof (cases l)
        case Nil
        then show ?thesis using bounds Some \<open>state = _\<close> by (simp add: getRecordingWriteProgress_def Let_def)
      next
        case (Cons c cs)
        have "wp_stalled (snd (getRecordingWriteProgress env listing state nowMs)) \<longleftrightarrow>
            of_int (nowMs - ps_startedAt p) / 1000 \<ge> getWriteStallGraceSeconds env ?T \<and>
            max 0 (of_int (nowMs - ca_mtimeMs (newest c cs)) / 1000 :: rat) \<ge> ?T \<and>
            \<not> (case ps_writeSample p of None \<Rightarrow> False
                | Some s \<Rightarrow> ws_filePath s = ca_filePath (newest c cs) \<and> ca_sizeBytes (newest c cs) > ws_sizeBytes s)"
          using Some Cons \<open>state = _\<close> by (simp add: getRecordingWriteProgress_def Let_def)
        then show ?thesis using bounds Some Cons \<open>state = _\<close> unfolding old by (auto split: option.splits)
      qed
    qed
  qed
qed

definition sample_watch :: watch_env where
  "sample_watch = \<lparr>we_writeStall = None, we_writeGrace = None, we_staleThreshold = None, we_segmentSeconds = 300\<rparr>"

definition watched_process :: process_state where
  "watched_process = \<lparr>ps_cameraId = ''c'', ps_segmentSeconds = 300, ps_startedAt = 0, ps_outputDir = ''out'', ps_stopRequested = False,
     ps_phase = Running, ps_writeSample = Some \<lparr>ws_filePath = ''a.ts'', ws_sizeBytes = 10, ws_mtimeMs = 100000, ws_observedAtMs = 140000\<rparr>\<rparr>"

text \<open>A file that was last written a hundred seconds ago and has the size it had is an accusation.\<close>

theorem write_stall_exact_witness:
  "wp_stalled (snd (getRecordingWriteProgress sample_watch (\<lambda>_. Some [\<lparr>ca_filePath = ''a.ts'', ca_sizeBytes = 10, ca_mtimeMs = 100000\<rparr>])
     (Some watched_process) 200000))"
proof -
  have "getWriteStallSeconds sample_watch = 45" "getWriteStallGraceSeconds sample_watch 45 = 90"
    by (simp_all add: getWriteStallSeconds_def getWriteStallGraceSeconds_def sample_watch_def plain_number_def envNumber_def
        clamp_min_def clamp_max_def)
  then show ?thesis
    unfolding write_stall_exact by (simp add: watched_process_def newest_def)
qed

text \<open>(a status that contradicts itself). Without a process on this node, a wanted camera whose last
  segment is older than the stale threshold but younger than fifteen minutes, and which is not being
  reconnected, is reported as recording, with the detail that the recording is fine, and as stale;
  no other camera without a process is.\<close>

theorem status_fine_and_stale:
  "let status = montarStatus env True alive None progress x nowMs in
    rs_isRecording status \<and> rs_stale status \<and> rs_statusDetail status = RecordingOk \<longleftrightarrow>
    sx_recordingEnabled x = Some True \<and>
    (\<exists>a. rs_lastSegmentAgeSeconds status = Some a \<and> rs_staleThresholdSeconds status < of_int a \<and> a < 900) \<and>
    \<not> (\<exists>kind t. sx_reconnect x = Some (kind, t) \<and> kind \<noteq> ReconnectFailed \<and>
         of_int nowMs - max (rs_staleThresholdSeconds status) 180 * 1000 \<le> of_int t)"
  by (auto simp: montarStatus_def Let_def split: option.splits)

end
