(* ===== verification/S3_Client.thy ===== *)
theory S3_Client
  imports Prelude "HOL-Library.Sublist"
begin

text \<open>
  \<open>cloud-storage/s3-client.ts\<close> and \<open>helpers/upload-verification.helper.ts\<close>: the keys of the objects
  under a storage's prefix, the answer of a \<open>HEAD\<close>, what confirms an upload, the exact reading of a
  part and the upload in parts by a pool of workers. Signing, the network and the XML of the
  protocol are outside; a byte is a value of any type, with a zero.
\<close>

section \<open>Keys\<close>

definition strip_slashes :: "string \<Rightarrow> string" where
  "strip_slashes s = rev (dropWhile (\<lambda>c. c = CHR ''/'') (rev (dropWhile (\<lambda>c. c = CHR ''/'') s)))"

definition joinS3Key :: "string \<Rightarrow> string \<Rightarrow> string" where
  "joinS3Key pre key =
     (let p = strip_slashes pre; k = strip_slashes key in if p \<noteq> [] then p @ ''/'' @ k else k)"

definition fullKey :: "string \<Rightarrow> string \<Rightarrow> string" where
  "fullKey pre key = joinS3Key pre key"

text \<open>\<open>listObjectsPage\<close>: the keys of a page without the prefix of the storage.\<close>

definition relativeKey :: "string \<Rightarrow> string \<Rightarrow> string" where
  "relativeKey pre key =
     (let base = fullKey pre [] in if base \<noteq> [] \<and> prefix base key then drop (length base) key else key)"

definition plain_key :: "string \<Rightarrow> bool" where
  "plain_key k \<longleftrightarrow> k \<noteq> [] \<and> hd k \<noteq> CHR ''/'' \<and> last k \<noteq> CHR ''/''"

lemma strip_plain: "plain_key k \<Longrightarrow> strip_slashes k = k"
proof -
  assume k: "plain_key k"
  then have "dropWhile (\<lambda>c. c = CHR ''/'') k = k" by (cases k) (auto simp: plain_key_def)
  moreover from k have "dropWhile (\<lambda>c. c = CHR ''/'') (rev k) = rev k"
    by (cases k rule: rev_cases) (auto simp: plain_key_def)
  ultimately show ?thesis by (simp add: strip_slashes_def)
qed

lemma strip_Nil [simp]: "strip_slashes [] = []"
  by (simp add: strip_slashes_def)

lemma relative_full: "plain_key k \<Longrightarrow> relativeKey pre (fullKey pre k) = k"
  by (simp add: relativeKey_def fullKey_def joinS3Key_def strip_plain Let_def)

lemma fullKey_inj: "plain_key k \<Longrightarrow> plain_key l \<Longrightarrow> fullKey pre k = fullKey pre l \<Longrightarrow> k = l"
  by (metis relative_full)

section \<open>The answer of a HEAD\<close>

text \<open>A number in a header: the text is absent, or the digits of a number, or something else.\<close>

datatype header = NoHeader | Digits nat | OtherText

text \<open>\<open>Number(headers.get('content-length'))\<close>: \<open>Number(null)\<close> is zero.\<close>

definition contentLengthOf :: "header \<Rightarrow> nat option" where
  "contentLengthOf h = (case h of NoHeader \<Rightarrow> Some 0 | Digits n \<Rightarrow> Some n | OtherText \<Rightarrow> None)"

datatype http_answer = HttpOk header | HttpError nat string

record confirmacao =
  cf_exists :: bool
  contentLength :: "nat option"
  verificavel :: bool

definition headObject :: "http_answer \<Rightarrow> (nat \<times> string) + confirmacao" where
  "headObject answer =
     (case answer of
        HttpOk h \<Rightarrow> Inr \<lparr>cf_exists = True, contentLength = contentLengthOf h, verificavel = True\<rparr>
      | HttpError status code \<Rightarrow>
          if status = 404 \<or> code = ''NoSuchKey'' then Inr \<lparr>cf_exists = False, contentLength = None, verificavel = True\<rparr>
          else if status = 403 then Inr \<lparr>cf_exists = False, contentLength = None, verificavel = False\<rparr>
          else Inl (status, code))"

section \<open>What confirms an upload\<close>

datatype recusa = ObjetoAusente | TamanhoDivergente | Inverificavel

definition avaliarConfirmacao :: "confirmacao \<Rightarrow> nat \<Rightarrow> recusa option" where
  "avaliarConfirmacao c tamanhoEnviado =
     (if \<not> verificavel c then Some Inverificavel
      else if \<not> cf_exists c then Some ObjetoAusente
      else case contentLength c of
        Some n \<Rightarrow> if n \<noteq> tamanhoEnviado then Some TamanhoDivergente else None
      | None \<Rightarrow> None)"

section \<open>Reading a part\<close>

text \<open>
  \<open>lerTrechoExato\<close>: \<open>read k n\<close> are the bytes that \<open>handle.read\<close> puts at position \<open>k\<close> of the buffer
  when asked for \<open>n\<close> from \<open>offset + k\<close>, at most \<open>n\<close> of them; the buffer past them is zeros. The
  failure is the count that was read.
\<close>

function lerTrechoExato :: "(nat \<Rightarrow> nat \<Rightarrow> 'b list) \<Rightarrow> nat \<Rightarrow> nat \<Rightarrow> 'b list \<Rightarrow> nat + 'b list" where
  "lerTrechoExato read offset len buf =
     (let lido = length buf in
      if lido < len
      then (let got = read (offset + lido) (len - lido)
            in if got = [] then Inl lido else lerTrechoExato read offset len (buf @ got))
      else Inr buf)"
  by pat_completeness auto
termination
  by (relation "measure (\<lambda>(read, offset, len, buf). len - length buf)") (auto simp: neq_Nil_conv)

declare lerTrechoExato.simps [simp del]

text \<open>What the runtime promises of a read of an unchanged file: some of the bytes asked for, and
  nothing only at the end.\<close>

definition reads_file :: "'b list \<Rightarrow> (nat \<Rightarrow> nat \<Rightarrow> 'b list) \<Rightarrow> bool" where
  "reads_file content read \<longleftrightarrow>
     (\<forall>k n. prefix (read k n) (take n (drop k content)) \<and> (n > 0 \<and> k < length content \<longrightarrow> read k n \<noteq> []))"

lemma lerTrechoExato_from:
  assumes "reads_file content read" "buf = take (length buf) (drop offset content)" "length buf \<le> len"
  shows "lerTrechoExato read offset len buf =
    (if offset + len \<le> length content \<or> length buf = len then Inr (take len (drop offset content))
     else Inl (length content - offset))"
  using assms(2,3)
proof (induction "len - length buf" arbitrary: buf rule: less_induct)
  case less
  let ?got = "read (offset + length buf) (len - length buf)"
  show ?case
  proof (cases "length buf < len")
    case False
    then show ?thesis using less.prems by (subst lerTrechoExato.simps) auto
  next
    case lt: True
    have pre: "prefix ?got (take (len - length buf) (drop (offset + length buf) content))"
      using assms(1) by (simp add: reads_file_def)
    show ?thesis
    proof (cases "?got = []")
      case True
      then have "length content \<le> offset + length buf"
        using assms(1) lt unfolding reads_file_def by (meson not_le zero_less_diff)
      moreover have "length buf \<le> length content - offset"
        using less.prems(1) by (metis length_drop length_take min.cobounded1 min.absorb_iff2 min.commute)
      ultimately show ?thesis using lt True by (subst lerTrechoExato.simps) auto
    next
      case False
      obtain rest where rest: "take (len - length buf) (drop (offset + length buf) content) = ?got @ rest"
        using pre by (auto simp: prefix_def)
      have le: "length (buf @ ?got) \<le> len"
        using prefix_length_le [OF pre] lt unfolding length_append length_take length_drop by linarith
      have "take (length buf + length ?got) (drop offset content) =
          take (length buf) (drop offset content) @ take (length ?got) (drop (offset + length buf) content)"
        by (simp add: take_add add.commute)
      also have "take (length ?got) (drop (offset + length buf) content) = ?got"
      proof -
        have "length ?got \<le> len - length buf" using prefix_length_le [OF pre] by simp
        then have "take (length ?got) (drop (offset + length buf) content) =
            take (length ?got) (take (len - length buf) (drop (offset + length buf) content))" by (simp add: min_def)
        then show ?thesis by (simp add: rest)
      qed
      finally have whole: "buf @ ?got = take (length (buf @ ?got)) (drop offset content)" using less.prems(1) by simp
      have short: "len - length (buf @ ?got) < len - length buf" using False lt by (cases ?got) auto
      have "lerTrechoExato read offset len buf = lerTrechoExato read offset len (buf @ ?got)"
        using lt False by (subst lerTrechoExato.simps) (simp add: Let_def)
      also have "\<dots> = (if offset + len \<le> length content \<or> length (buf @ ?got) = len
          then Inr (take len (drop offset content)) else Inl (length content - offset))"
        by (rule less.hyps [OF short whole le])
      also have "\<dots> = (if offset + len \<le> length content \<or> length buf = len
          then Inr (take len (drop offset content)) else Inl (length content - offset))"
      proof -
        have "length (buf @ ?got) = len \<Longrightarrow> offset + len \<le> length content"
        proof -
          assume "length (buf @ ?got) = len"
          then have "len \<le> length content - offset" using arg_cong [OF whole, of length] by simp
          then show ?thesis using lt by linarith
        qed
        then show ?thesis using lt by auto
      qed
      finally show ?thesis .
    qed
  qed
qed

lemma lerTrechoExato_exact:
  "reads_file content read \<Longrightarrow> len > 0 \<Longrightarrow> lerTrechoExato read offset len [] =
    (if offset + len \<le> length content then Inr (take len (drop offset content)) else Inl (length content - offset))"
  using lerTrechoExato_from [of content read "[]" offset len] by simp


section \<open>Upload in parts\<close>

definition MIN_MULTIPART_PART_BYTES :: nat where "MIN_MULTIPART_PART_BYTES = 5 * 1024 * 1024"
definition DEFAULT_PART_BYTES :: nat where "DEFAULT_PART_BYTES = 16 * 1024 * 1024"
definition MAX_PART_CONCURRENCY :: int where "MAX_PART_CONCURRENCY = 16"

record part =
  pt_offset :: nat
  pt_length :: nat

definition partSize :: "nat option \<Rightarrow> nat" where
  "partSize wanted = max MIN_MULTIPART_PART_BYTES (case wanted of Some n \<Rightarrow> n | None \<Rightarrow> DEFAULT_PART_BYTES)"

text \<open>The parts from \<open>offset\<close> on. The size is positive (\<open>partSize\<close>).\<close>

function planParts :: "nat \<Rightarrow> nat \<Rightarrow> nat \<Rightarrow> part list" where
  "planParts psize totalBytes offset =
     (if offset < totalBytes \<and> psize > 0
      then let l = min psize (totalBytes - offset)
           in \<lparr>pt_offset = offset, pt_length = l\<rparr> # planParts psize totalBytes (offset + l)
      else [])"
  by pat_completeness auto
termination by (relation "measure (\<lambda>(psize, totalBytes, offset). totalBytes - offset)") auto

declare planParts.simps [simp del]

definition concurrencyOf :: "int \<Rightarrow> int" where
  "concurrencyOf partConcurrency = max 1 (min partConcurrency MAX_PART_CONCURRENCY)"

text \<open>
  The pool: the next part to take, the parts in flight (one per worker) and what was stored under
  each part number. Parts end in any order.
\<close>

record 'b pool =
  po_next :: nat
  po_flight :: "nat list"
  po_stored :: "'b list option list"

definition initial_pool :: "part list \<Rightarrow> 'b pool" where
  "initial_pool parts = \<lparr>po_next = 0, po_flight = [], po_stored = replicate (length parts) None\<rparr>"

inductive pool_step :: "nat \<Rightarrow> (nat \<Rightarrow> nat \<Rightarrow> 'b list) \<Rightarrow> part list \<Rightarrow> 'b pool \<Rightarrow> 'b pool \<Rightarrow> bool"
  for workers read parts where
  pull: "length (po_flight p) < workers \<Longrightarrow> po_next p < length parts \<Longrightarrow>
    pool_step workers read parts p (p\<lparr>po_next := Suc (po_next p), po_flight := po_flight p @ [po_next p]\<rparr>)"
| stored: "i \<in> set (po_flight p) \<Longrightarrow>
    lerTrechoExato read (pt_offset (parts ! i)) (pt_length (parts ! i)) [] = Inr chunk \<Longrightarrow>
    pool_step workers read parts p
      (p\<lparr>po_flight := remove1 i (po_flight p), po_stored := (po_stored p)[i := Some chunk]\<rparr>)"

inductive pool_reach :: "nat \<Rightarrow> (nat \<Rightarrow> nat \<Rightarrow> 'b list) \<Rightarrow> part list \<Rightarrow> 'b pool \<Rightarrow> bool"
  for workers read parts where
  pool_init: "pool_reach workers read parts (initial_pool parts)"
| pool_next: "pool_reach workers read parts p \<Longrightarrow> pool_step workers read parts p p' \<Longrightarrow> pool_reach workers read parts p'"

text \<open>Every part was taken and has ended; the object the store assembles from the parts in order.\<close>

definition pool_done :: "part list \<Rightarrow> 'b pool \<Rightarrow> bool" where
  "pool_done parts p \<longleftrightarrow> po_next p = length parts \<and> po_flight p = []"

definition assembled :: "'b pool \<Rightarrow> 'b list" where
  "assembled p = concat (map the (po_stored p))"

subsection \<open>The plan covers the file\<close>

lemma planParts_in: "pt \<in> set (planParts psize total_bytes offset) \<Longrightarrow>
   pt_length pt > 0 \<and> pt_offset pt + pt_length pt \<le> total_bytes \<and> pt_length pt \<le> psize"
proof (induction psize total_bytes offset rule: planParts.induct)
  case (1 psize total_bytes offset)
  show ?case
  proof (cases "offset < total_bytes \<and> psize > 0")
    case True
    with "1.prems" have "pt = \<lparr>pt_offset = offset, pt_length = min psize (total_bytes - offset)\<rparr> \<or>
        pt \<in> set (planParts psize total_bytes (offset + min psize (total_bytes - offset)))"
      by (subst (asm) planParts.simps) (simp add: Let_def)
    then show ?thesis using "1.IH" [OF True refl] True by auto
  next
    case False
    with "1.prems" show ?thesis by (subst (asm) planParts.simps) auto
  qed
qed

lemma planParts_cover:
  "psize > 0 \<Longrightarrow> length content = total_bytes \<Longrightarrow>
   concat (map (\<lambda>pt. take (pt_length pt) (drop (pt_offset pt) content)) (planParts psize total_bytes offset)) = drop offset content"
proof (induction psize total_bytes offset rule: planParts.induct)
  case (1 psize total_bytes offset)
  show ?case
  proof (cases "offset < total_bytes")
    case True
    let ?l = "min psize (total_bytes - offset)"
    have "take ?l (drop offset content) @ drop (offset + ?l) content = drop offset content"
      by (metis append_take_drop_id drop_drop add.commute)
    then show ?thesis using "1.IH" [OF _ refl] "1.prems" True by (subst planParts.simps) (simp add: Let_def)
  next
    case False
    then show ?thesis using "1.prems" by (subst planParts.simps) simp
  qed
qed

subsection \<open>The pool\<close>

text \<open>What the pool keeps: a part is in flight, or waits, or is stored with its bytes.\<close>

definition pool_ok :: "nat \<Rightarrow> 'b list \<Rightarrow> part list \<Rightarrow> 'b pool \<Rightarrow> bool" where
  "pool_ok workers content parts p \<longleftrightarrow>
     po_next p \<le> length parts \<and> length (po_stored p) = length parts \<and> distinct (po_flight p) \<and>
     set (po_flight p) \<subseteq> {..<po_next p} \<and> length (po_flight p) \<le> workers \<and>
     (\<forall>i < length parts. po_stored p ! i =
        (if i < po_next p \<and> i \<notin> set (po_flight p)
         then Some (take (pt_length (parts ! i)) (drop (pt_offset (parts ! i)) content)) else None))"

lemma pool_reach_ok:
  assumes "pool_reach workers read parts p" "reads_file content read"
    "\<forall>pt\<in>set parts. pt_length pt > 0 \<and> pt_offset pt + pt_length pt \<le> length content"
  shows "pool_ok workers content parts p"
  using assms(1)
proof induction
  case pool_init
  show ?case by (simp add: pool_ok_def initial_pool_def)
next
  case (pool_next p p')
  from pool_next.hyps(2) pool_next.IH show ?case
  proof cases
    case pull
    then show ?thesis using pool_next.IH by (auto simp: pool_ok_def less_Suc_eq)
  next
    case (stored i chunk)
    then have "i < length parts" using pool_next.IH by (auto simp: pool_ok_def)
    then have "chunk = take (pt_length (parts ! i)) (drop (pt_offset (parts ! i)) content)"
      using stored(3) assms(3) lerTrechoExato_exact [OF assms(2)] by (metis Inr_inject nth_mem)
    then show ?thesis using stored pool_next.IH \<open>i < length parts\<close>
      by (auto simp: pool_ok_def nth_list_update length_remove1 intro: notin_set_remove1)
  qed
qed

lemma pool_done_assembled:
  assumes "pool_ok workers content parts p" "pool_done parts p"
  shows "assembled p = concat (map (\<lambda>pt. take (pt_length pt) (drop (pt_offset pt) content)) parts)"
proof -
  have "map the (po_stored p) = map (\<lambda>pt. take (pt_length pt) (drop (pt_offset pt) content)) parts"
    using assms by (intro nth_equalityI) (auto simp: pool_ok_def pool_done_def)
  then show ?thesis by (simp add: assembled_def)
qed

lemma pool_not_stuck:
  assumes "pool_ok workers content parts p" "reads_file content read" "workers > 0" "\<not> pool_done parts p"
    "\<forall>pt\<in>set parts. pt_length pt > 0 \<and> pt_offset pt + pt_length pt \<le> length content"
  shows "\<exists>p'. pool_step workers read parts p p'"
proof (cases "po_flight p")
  case Nil
  then have "po_next p < length parts" using assms(1,4) by (auto simp: pool_ok_def pool_done_def)
  then have "pool_step workers read parts p (p\<lparr>po_next := Suc (po_next p), po_flight := po_flight p @ [po_next p]\<rparr>)"
    using Nil assms(3) by (intro pull) simp_all
  then show ?thesis by blast
next
  case (Cons i rest)
  then have "i < length parts" using assms(1) by (auto simp: pool_ok_def)
  then have "lerTrechoExato read (pt_offset (parts ! i)) (pt_length (parts ! i)) [] =
      Inr (take (pt_length (parts ! i)) (drop (pt_offset (parts ! i)) content))"
    using assms(5) lerTrechoExato_exact [OF assms(2)] by simp
  then have "pool_step workers read parts p (p\<lparr>po_flight := remove1 i (po_flight p),
      po_stored := (po_stored p)[i := Some (take (pt_length (parts ! i)) (drop (pt_offset (parts ! i)) content))]\<rparr>)"
    using Cons by (intro stored) simp_all
  then show ?thesis by blast
qed

text \<open>Each step takes a part or ends one: twice as many steps as parts.\<close>

definition pool_left :: "part list \<Rightarrow> 'b pool \<Rightarrow> nat" where
  "pool_left parts p = 2 * (length parts - po_next p) + length (po_flight p)"

lemma pool_step_less: "pool_step workers read parts p p' \<Longrightarrow> pool_left parts p' < pool_left parts p"
proof (induction rule: pool_step.induct)
  case (stored i p chunk)
  then have "length (po_flight p) > 0" by auto
  then show ?case using stored by (simp add: pool_left_def length_remove1)
qed (simp add: pool_left_def)

section \<open>Properties\<close>

text \<open>C28 (multipart_reassembles). An upload in parts of an unchanged file, whatever the order in
  which the workers' parts end and however few bytes a read returns: when every part has ended the
  object is the file, byte by byte; before that some worker can go on; no more parts are in memory
  than there are workers; and a step always brings the end nearer.\<close>

theorem multipart_reassembles:
  assumes "reads_file content read" "pool_reach workers read (planParts (partSize wanted) (length content) 0) p"
    "workers > 0"
  shows "(pool_done (planParts (partSize wanted) (length content) 0) p \<longrightarrow> assembled p = content) \<and>
    (\<not> pool_done (planParts (partSize wanted) (length content) 0) p \<longrightarrow>
       (\<exists>p'. pool_step workers read (planParts (partSize wanted) (length content) 0) p p')) \<and>
    length (po_flight p) \<le> workers \<and>
    (\<forall>p'. pool_step workers read (planParts (partSize wanted) (length content) 0) p p' \<longrightarrow>
       pool_left (planParts (partSize wanted) (length content) 0) p' < pool_left (planParts (partSize wanted) (length content) 0) p)"
proof -
  let ?parts = "planParts (partSize wanted) (length content) 0"
  have psize: "partSize wanted > 0" by (simp add: partSize_def MIN_MULTIPART_PART_BYTES_def max_def)
  have parts: "\<forall>pt\<in>set ?parts. pt_length pt > 0 \<and> pt_offset pt + pt_length pt \<le> length content"
    using planParts_in by blast
  have ok: "pool_ok workers content ?parts p" by (rule pool_reach_ok [OF assms(2,1) parts])
  have "length (po_flight p) \<le> workers" using ok by (simp add: pool_ok_def)
  then show ?thesis
    using pool_done_assembled [OF ok] planParts_cover [OF psize refl, of content 0] pool_step_less
      pool_not_stuck [OF ok assms(1,3) _ parts] by fastforce
qed

definition short_read :: "'b list \<Rightarrow> nat \<Rightarrow> nat \<Rightarrow> 'b list" where
  "short_read content k n = take (min n 2) (drop k content)"

theorem multipart_reassembles_witness:
  "\<exists>p. pool_reach 1 (short_read ''abc'') (planParts (partSize None) (length ''abc'') 0) p \<and>
     pool_done (planParts (partSize None) (length ''abc'') 0) p \<and> assembled p = ''abc''"
proof -
  let ?read = "short_read ''abc''"
  define ps where "ps = planParts (partSize None) (length ''abc'') 0"
  have reads: "reads_file ''abc'' ?read"
  proof -
    have "prefix (short_read xs k n) (take n (drop k xs))" for xs :: string and k n
      using take_is_prefix [of 2 "take n (drop k xs)"] by (simp add: short_read_def min.commute)
    then show ?thesis by (auto simp: reads_file_def short_read_def)
  qed
  have parts: "ps = [\<lparr>pt_offset = 0, pt_length = 3\<rparr>]"
    by (simp add: ps_def planParts.simps partSize_def MIN_MULTIPART_PART_BYTES_def DEFAULT_PART_BYTES_def)
  have chunk: "lerTrechoExato ?read 0 3 [] = Inr ''abc''"
    using lerTrechoExato_exact [OF reads, of 3 0] by simp
  let ?p0 = "\<lparr>po_next = 0, po_flight = [], po_stored = [None]\<rparr> :: char pool"
  let ?p1 = "\<lparr>po_next = 1, po_flight = [0], po_stored = [None]\<rparr> :: char pool"
  let ?p2 = "\<lparr>po_next = 1, po_flight = [], po_stored = [Some ''abc'']\<rparr> :: char pool"
  have "initial_pool ps = ?p0" by (simp add: initial_pool_def parts)
  moreover have "pool_step 1 ?read ps ?p0 ?p1" using pull [of ?p0 1 ps ?read] by (simp add: parts)
  moreover have "pool_step 1 ?read ps ?p1 ?p2" using stored [of 0 ?p1 ?read ps "''abc''" 1] chunk by (simp add: parts)
  ultimately have reach: "pool_reach 1 ?read ps ?p2" by (metis pool_reach.intros)
  have fin: "pool_done ps ?p2" by (simp add: pool_done_def parts)
  have "assembled ?p2 = ''abc''"
    using multipart_reassembles [OF reads reach [unfolded ps_def]] fin [unfolded ps_def] by simp
  with reach fin show ?thesis unfolding ps_def by blast
qed

end
