(* ===== verification/Storage_Policy.thy ===== *)
theory Storage_Policy
  imports Prelude Complex_Main
begin

text \<open>
  \<open>cloud-storage/storage-policy.ts\<close>: what an installation sends to the cloud, read from a setting
  whose fields may be missing or of any type, and the key under which
  \<open>cloud-offload.service.ts\<close> stores a recording.
\<close>

section \<open>Values of JSON\<close>

datatype json = JNull | JBool bool | JNum rat | JStr string | JArr "json list" | JObj "(string \<times> json) list"

text \<open>A field of \<open>value\<close> when it is an object that is not an array; \<open>None\<close> is \<open>undefined\<close>.\<close>

fun field :: "json \<Rightarrow> string \<Rightarrow> json option" where
  "field (JObj kvs) k = map_of kvs k"
| "field _ k = None"

section \<open>The policy\<close>

datatype trigger_mode = Continuous | Motion | Manual

definition TRIGGER_MODES :: "trigger_mode list" where "TRIGGER_MODES = [Continuous, Motion, Manual]"

fun mode_name :: "trigger_mode \<Rightarrow> string" where
  "mode_name Continuous = ''continuous''"
| "mode_name Motion = ''motion''"
| "mode_name Manual = ''manual''"

record storage_policy =
  sp_enabled :: bool
  triggerModes :: "trigger_mode \<Rightarrow> bool"
  keepLocalCopy :: bool

definition DEFAULT_STORAGE_POLICY :: storage_policy where
  "DEFAULT_STORAGE_POLICY = \<lparr>sp_enabled = False, triggerModes = (\<lambda>m. m \<noteq> Continuous), keepLocalCopy = False\<rparr>"

definition readBool :: "json option \<Rightarrow> bool \<Rightarrow> bool" where
  "readBool value fallback =
     (case value of
        Some (JBool b) \<Rightarrow> b
      | Some (JStr s) \<Rightarrow>
          (let v = js_lower (js_trim s)
           in if v = ''true'' \<or> v = ''1'' then True else if v = ''false'' \<or> v = ''0'' then False else fallback)
      | _ \<Rightarrow> fallback)"

definition normalizeStoragePolicy :: "json \<Rightarrow> storage_policy" where
  "normalizeStoragePolicy input =
     (let modes = (case field input ''triggerModes'' of Some m \<Rightarrow> m | None \<Rightarrow> JObj [])
      in \<lparr>sp_enabled = readBool (field input ''enabled'') (sp_enabled DEFAULT_STORAGE_POLICY),
          triggerModes = (\<lambda>m. readBool (field modes (mode_name m)) (triggerModes DEFAULT_STORAGE_POLICY m)),
          keepLocalCopy = readBool (field input ''keepLocalCopy'') (keepLocalCopy DEFAULT_STORAGE_POLICY)\<rparr>)"

datatype upload_refusal = CloudOff | Unclassified string | ModeNotMarked string

text \<open>\<open>Inr\<close> is \<open>deleteLocalAfterWindow\<close>.\<close>

definition modeOf :: "string \<Rightarrow> trigger_mode option" where
  "modeOf s = find (\<lambda>m. mode_name m = s) TRIGGER_MODES"

definition decideUpload :: "storage_policy \<Rightarrow> string option \<Rightarrow> upload_refusal + bool" where
  "decideUpload policy triggerMode =
     (if \<not> sp_enabled policy then Inl CloudOff
      else let mode = js_lower (js_trim (or_empty triggerMode))
           in case modeOf mode of
                None \<Rightarrow> Inl (Unclassified mode)
              | Some m \<Rightarrow> if \<not> triggerModes policy m then Inl (ModeNotMarked mode)
                          else Inr (\<not> keepLocalCopy policy))"

definition enabledTriggerModes :: "storage_policy \<Rightarrow> trigger_mode list" where
  "enabledTriggerModes policy = filter (triggerModes policy) TRIGGER_MODES"

section \<open>The setting\<close>

text \<open>The text \<open>JSON.stringify(policy)\<close> is kept as the value it is the text of.\<close>

definition policy_json :: "storage_policy \<Rightarrow> json" where
  "policy_json p = JObj [(''enabled'', JBool (sp_enabled p)),
     (''triggerModes'', JObj (map (\<lambda>m. (mode_name m, JBool (triggerModes p m))) TRIGGER_MODES)),
     (''keepLocalCopy'', JBool (keepLocalCopy p))]"

text \<open>The setting is absent or empty, or a text that \<open>JSON.parse\<close> refuses, or a value.\<close>

datatype setting = NoSetting | Corrupt | Value json

fun getPolicy :: "setting \<Rightarrow> storage_policy" where
  "getPolicy (Value v) = normalizeStoragePolicy v"
| "getPolicy _ = DEFAULT_STORAGE_POLICY"

definition setPolicy :: "json \<Rightarrow> setting \<times> storage_policy" where
  "setPolicy input = (let policy = normalizeStoragePolicy input in (Value (policy_json policy), policy))"

section \<open>Keys of the recordings\<close>

text \<open>\<open>nome.slice(nome.lastIndexOf('.'))\<close>.\<close>

definition from_last_dot :: "string \<Rightarrow> string" where
  "from_last_dot nome = CHR ''.'' # rev (takeWhile (\<lambda>c. c \<noteq> CHR ''.'') (rev nome))"

definition buildCloudKey :: "string \<Rightarrow> string \<Rightarrow> string \<Rightarrow> string" where
  "buildCloudKey recId cameraId filePath =
     (let nome = last (split_on (CHR ''/'') filePath);
          extensao = (if CHR ''.'' \<in> set nome then from_last_dot nome else ''.mp4'')
      in ''recordings/'' @ cameraId @ ''/'' @ recId @ extensao)"

section \<open>Facts\<close>

lemma from_last_dot_no_dot: "CHR ''.'' \<notin> set (tl (from_last_dot nome))"
  by (auto simp: from_last_dot_def dest: set_takeWhileD)

lemma key_extension:
  "\<exists>e. buildCloudKey i c f = ''recordings/'' @ c @ ''/'' @ i @ ''.'' @ e \<and> CHR ''/'' \<notin> set e"
proof -
  let ?nome = "last (split_on (CHR ''/'') f)"
  have mem: "?nome \<in> set (split_on (CHR ''/'') f)" by simp
  have no: "CHR ''/'' \<notin> set x" if "x \<in> set (split_on (CHR ''/'') s)" for x s
    using that
  proof (induction s arbitrary: x)
    case (Cons d s)
    obtain l ls where ls: "split_on (CHR ''/'') s = l # ls" by (metis list.exhaust split_on_nonempty)
    then have "CHR ''/'' \<notin> set l" using Cons.IH by simp
    then show ?case using Cons ls by (auto split: if_splits)
  qed simp
  have "CHR ''/'' \<notin> set (rev (takeWhile (\<lambda>c. c \<noteq> CHR ''.'') (rev ?nome)))"
    using no [OF mem] by (auto dest: set_takeWhileD)
  then show ?thesis by (auto simp: buildCloudKey_def from_last_dot_def Let_def)
qed

lemma append_first: "a @ d # x = b @ d # y \<Longrightarrow> d \<notin> set a \<Longrightarrow> d \<notin> set b \<Longrightarrow> a = b \<and> x = y"
proof (induction a arbitrary: b)
  case Nil
  then show ?case by (cases b) auto
next
  case (Cons c a)
  then show ?case by (cases b) auto
qed

text \<open>The key tells the camera and the recording apart.\<close>

lemma buildCloudKey_inj:
  assumes "buildCloudKey i c f = buildCloudKey j d g"
    "CHR ''/'' \<notin> set c" "CHR ''/'' \<notin> set d" "CHR ''.'' \<notin> set i" "CHR ''.'' \<notin> set j"
  shows "i = j \<and> c = d"
proof -
  obtain e e' where "buildCloudKey i c f = ''recordings/'' @ c @ ''/'' @ i @ ''.'' @ e"
    "buildCloudKey j d g = ''recordings/'' @ d @ ''/'' @ j @ ''.'' @ e'" using key_extension by meson
  with assms(1) have eq: "c @ CHR ''/'' # i @ CHR ''.'' # e = d @ CHR ''/'' # j @ CHR ''.'' # e'" by simp
  from append_first [OF eq assms(2,3)] have "c = d" "i @ CHR ''.'' # e = j @ CHR ''.'' # e'" by simp_all
  with append_first [OF _ assms(4,5)] show ?thesis by blast
qed

section \<open>Properties\<close>

text \<open>(policy_survives_storage). What \<open>setPolicy\<close> answers is what \<open>getPolicy\<close> reads back, for
  any input; reading what was stored once more changes nothing; and the cloud is only on when the
  stored value has an \<open>enabled\<close> that is \<open>true\<close> or a text for it: a missing or corrupt setting, a
  number, an array or a text such as \<open>"yes"\<close> leave it off.\<close>

theorem policy_survives_storage:
  "getPolicy (fst (setPolicy input)) = snd (setPolicy input) \<and>
   setPolicy (policy_json (snd (setPolicy input))) = setPolicy input \<and>
   (sp_enabled (getPolicy s) \<longleftrightarrow> (\<exists>v. s = Value v \<and> (field v ''enabled'' = Some (JBool True) \<or>
      (\<exists>t. field v ''enabled'' = Some (JStr t) \<and> js_lower (js_trim t) \<in> {''true'', ''1''}))))"
proof -
  have again: "normalizeStoragePolicy (policy_json p) = p" for p
  proof -
    have "readBool (field (JObj (map (\<lambda>m. (mode_name m, JBool (triggerModes p m))) TRIGGER_MODES)) (mode_name m)) b =
        triggerModes p m" for m b by (cases m) (simp_all add: TRIGGER_MODES_def readBool_def)
    then show ?thesis by (cases p) (simp add: normalizeStoragePolicy_def policy_json_def readBool_def)
  qed
  have "sp_enabled (getPolicy s) \<longleftrightarrow> (\<exists>v. s = Value v \<and> (field v ''enabled'' = Some (JBool True) \<or>
      (\<exists>t. field v ''enabled'' = Some (JStr t) \<and> js_lower (js_trim t) \<in> {''true'', ''1''})))"
    by (cases s) (auto simp: normalizeStoragePolicy_def DEFAULT_STORAGE_POLICY_def readBool_def Let_def
        split: option.splits json.splits)
  then show ?thesis by (simp add: setPolicy_def again Let_def)
qed

text \<open>(object_recordings_never_sent). Whatever the policy, a recording whose mode is \<open>object\<close>, which
  is one of the modes a camera can record in, is not sent: \<open>decideUpload\<close> calls it unclassified and
  the modes of the query never contain it. For the three modes the policy knows, the decision is
  that of the query.\<close>

theorem object_recordings_never_sent:
  "\<not> ok (decideUpload policy (Some ''object'')) \<and> ''object'' \<notin> mode_name ` set (enabledTriggerModes policy) \<and>
   (ok (decideUpload policy (Some (mode_name m))) \<longleftrightarrow>
      sp_enabled policy \<and> mode_name m \<in> mode_name ` set (enabledTriggerModes policy))"
proof -
  have obj: "modeOf (js_lower (js_trim ''object'')) = None" by code_simp
  have "modeOf (js_lower (js_trim (mode_name Continuous))) = Some Continuous"
    "modeOf (js_lower (js_trim (mode_name Motion))) = Some Motion"
    "modeOf (js_lower (js_trim (mode_name Manual))) = Some Manual" by code_simp+
  then have "modeOf (js_lower (js_trim (mode_name n))) = Some n" for n by (cases n) (simp_all only:)
  moreover have "inj mode_name"
  proof (rule injI)
    fix x y assume "mode_name x = mode_name y" then show "x = y" by (cases x; cases y) simp_all
  qed
  then have "mode_name m \<in> mode_name ` set (enabledTriggerModes policy) \<longleftrightarrow> triggerModes policy m"
    by (cases m) (auto simp: inj_image_mem_iff enabledTriggerModes_def TRIGGER_MODES_def)
  moreover have "''object'' \<notin> range mode_name"
  proof
    assume "''object'' \<in> range mode_name"
    then obtain n where "''object'' = mode_name n" by blast
    then show False by (cases n) simp_all
  qed
  ultimately show ?thesis using obj by (auto simp: decideUpload_def or_empty_def Let_def)
qed

end
