(* ===== verification/Archive.thy ===== *)
theory Archive
  imports File_Deletion_Recovery S3_Client Storage_Policy
begin

text \<open>
  The archive that \<open>recordings/retention.service.ts\<close> and \<open>cloud-storage/cloud-offload.service.ts\<close>
  share: the rows of \<open>Recording\<close>, \<open>ExportedClip\<close> and \<open>CloudStorage\<close>, the files under the recordings
  root (the map of \<open>File_Deletion\<close>) and the objects of the buckets; the resolution of a recording's
  storage (\<open>cloud-storage-resolver.service.ts\<close>), the paths derived from a recording's, and the
  deletion of a row together with its files.
\<close>

section \<open>State\<close>

record archive_row =
  re_id :: string
  re_cameraId :: string
  re_filePath :: string
  re_startedAt :: int
  re_endedAt :: "int option"
  re_sizeBytes :: "int option"
  re_motionScore :: "int option"
  re_triggerMode :: string
  re_cloudKey :: "string option"
  re_cloudStorageId :: "string option"
  re_cloudUploadedAt :: "int option"
  re_cloudVerifiedAt :: "int option"
  re_cloudMissingSince :: "int option"
  re_localDeletedAt :: "int option"

record clip_row =
  cl_id :: string
  cl_sourceRecordingId :: string
  cl_filePath :: string
  cl_startedAt :: int

record storage_row =
  sg_id :: string
  sg_name :: string
  sg_provider :: string
  sg_endpoint :: string
  sg_region :: string
  sg_bucket :: string
  sg_prefix :: string
  sg_accessKeyId :: string
  sg_secretEncrypted :: string
  sg_forcePathStyle :: bool
  sg_isActive :: bool
  sg_createdAt :: int

text \<open>A storage whose credential is open (\<open>StorageResolvido\<close>); \<open>sr_id\<close> is \<open>None\<close> for the configuration
  provisioned by the Central; \<open>sr_mount\<close> is the mode \<open>mount\<close>.\<close>

record storage =
  sr_id :: "string option"
  sr_name :: string
  sr_provider :: string
  sr_endpoint :: string
  sr_region :: string
  sr_bucket :: string
  sr_prefix :: string
  sr_accessKeyId :: string
  sr_secret :: string
  sr_forcePathStyle :: bool
  sr_mount :: bool
  sr_localWindowHours :: int
  sr_uploadConcurrency :: int

type_synonym bucket_id = "string \<times> string"
type_synonym objects = "bucket_id \<Rightarrow> string \<Rightarrow> string option"

record archive =
  ar_rows :: "archive_row list"
  ar_clips :: "clip_row list"
  ar_storages :: "storage_row list"
  ar_files :: files
  ar_objects :: objects
  ar_ops :: nat

text \<open>
  What the operations depend on and the archive does not hold: the root, the canonical form of a
  path (\<open>resolveThroughExistingParent\<close>), the random identifiers of the deletions, which renames,
  removals, locks and transactions fail, the configuration of the Central and the cipher, whether the
  table of storages can be read, and which requests to a bucket fail.
\<close>

record archive_env =
  ae_root :: "string list"
  ae_canonical :: "string list \<Rightarrow> string list"
  ae_op :: "nat \<Rightarrow> string"
  ae_renameFails :: "string \<Rightarrow> bool"
  ae_rmFails :: "string \<Rightarrow> bool"
  ae_lockFails :: "nat \<Rightarrow> bool"
  ae_dbFails :: "nat \<Rightarrow> bool"
  ae_legado :: "storage option"
  ae_decrypt :: "string \<Rightarrow> string option"
  ae_findStorageFails :: bool
  ae_listStoragesFails :: bool
  ae_deleteFails :: "bucket_id \<Rightarrow> string \<Rightarrow> bool"

section \<open>Storages\<close>

definition materializar :: "(string \<Rightarrow> string option) \<Rightarrow> storage_row \<Rightarrow> storage option" where
  "materializar decrypt g =
     (case decrypt (sg_secretEncrypted g) of
        None \<Rightarrow> None
      | Some secret \<Rightarrow> Some \<lparr>sr_id = Some (sg_id g), sr_name = sg_name g, sr_provider = sg_provider g,
          sr_endpoint = sg_endpoint g, sr_region = sg_region g, sr_bucket = sg_bucket g, sr_prefix = sg_prefix g, sr_accessKeyId = sg_accessKeyId g, sr_secret = secret,
          sr_forcePathStyle = sg_forcePathStyle g,
          sr_mount = False, sr_localWindowHours = 24, sr_uploadConcurrency = 6\<rparr>)"

definition storageDaGravacao :: "archive_env \<Rightarrow> string option \<Rightarrow> archive \<Rightarrow> storage option" where
  "storageDaGravacao env cloudStorageId ar =
     (if \<not> truthy cloudStorageId then ae_legado env
      else if ae_findStorageFails env then None
      else case find (\<lambda>g. Some (sg_id g) = cloudStorageId) (ar_storages ar) of
        None \<Rightarrow> None
      | Some g \<Rightarrow> materializar (ae_decrypt env) g)"

definition todosOsStorages :: "archive_env \<Rightarrow> archive \<Rightarrow> storage list" where
  "todosOsStorages env ar =
     (let registros = (if ae_listStoragesFails env then [] else ar_storages ar);
          resolvidos = List.map_filter (materializar (ae_decrypt env)) registros
      in if resolvidos \<noteq> [] then resolvidos else (case ae_legado env of Some l \<Rightarrow> [l] | None \<Rightarrow> []))"

definition bucketOf :: "storage \<Rightarrow> bucket_id" where
  "bucketOf s = (sr_endpoint s, sr_bucket s)"

definition objectOf :: "storage \<Rightarrow> string \<Rightarrow> archive \<Rightarrow> string option" where
  "objectOf s key ar = ar_objects ar (bucketOf s) (fullKey (sr_prefix s) key)"

text \<open>\<open>client.deleteObject(key)\<close>, and the one of the retention, which never throws.\<close>

definition removeObject :: "storage \<Rightarrow> string \<Rightarrow> archive \<Rightarrow> archive" where
  "removeObject s key ar =
     ar\<lparr>ar_objects := (ar_objects ar)(bucketOf s := (ar_objects ar (bucketOf s))(fullKey (sr_prefix s) key := None))\<rparr>"

definition deleteCloudObject :: "archive_env \<Rightarrow> string option \<Rightarrow> string option \<Rightarrow> archive \<Rightarrow> archive" where
  "deleteCloudObject env cloudKey cloudStorageId ar =
     (case cloudKey of
        None \<Rightarrow> ar
      | Some key \<Rightarrow>
          if key = [] then ar
          else case storageDaGravacao env cloudStorageId ar of
            None \<Rightarrow> ar
          | Some s \<Rightarrow> if ae_deleteFails env (bucketOf s) (fullKey (sr_prefix s) key) then ar else removeObject s key ar)"

section \<open>Paths\<close>

definition abs_path :: "string list \<Rightarrow> string" where
  "abs_path segs = ''/'' @ js_join ''/'' segs"

definition isWithin :: "string list \<Rightarrow> string list \<Rightarrow> bool" where
  "isWithin base candidate =
     (let p = relative base candidate
      in p = [] \<or> (p \<noteq> ''..'' \<and> \<not> starts_with ''../'' p \<and> \<not> isAbsolute p))"

definition ensureFileUnderRoot :: "archive_env \<Rightarrow> string \<Rightarrow> string option" where
  "ensureFileUnderRoot env filePath =
     (let resolvedFile = resolve (ae_root env) filePath
      in if \<not> isWithin (ae_root env) resolvedFile then None
         else let canonicalRoot = ae_canonical env (ae_root env); canonicalFile = ae_canonical env resolvedFile
              in if \<not> isWithin canonicalRoot canonicalFile then None else Some (abs_path canonicalFile))"

text \<open>\<open>extname\<close> of \<open>node:path\<close> for a path that does not end in a slash.\<close>

definition extname :: "string \<Rightarrow> string" where
  "extname p =
     (let nome = last (split_on (CHR ''/'') p)
      in if CHR ''.'' \<notin> set nome \<or> nome = ''..'' \<or> from_last_dot nome = nome then [] else from_last_dot nome)"

definition withoutExtension :: "string \<Rightarrow> string" where
  "withoutExtension p = take (length p - length (extname p)) p"

definition derivedThumbnailPath :: "string \<Rightarrow> string" where
  "derivedThumbnailPath p = withoutExtension p @ ''.thumb.jpg''"

definition buildTimelinePreviewPath :: "string \<Rightarrow> string" where
  "buildTimelinePreviewPath p = withoutExtension p @ ''.preview.jpg''"

definition compatiblePath :: "archive_env \<Rightarrow> string \<Rightarrow> string \<Rightarrow> string" where
  "compatiblePath env cameraId recId =
     abs_path (normalize [] (ae_root env @ segments (''.playback-compatible/'' @ cameraId @ ''/'' @ recId @ ''.mp4'')))"

section \<open>Rows with their files\<close>

datatype delete_failure =
    FileOutsideRoot | LockFailed | NotStaged deletion_error | RowsNotDeleted | RowsNotDeletedNorFilesRestored

text \<open>
  \<open>deleteRowsWithFiles\<close>: the files are staged inside the transaction; when the rows cannot be
  deleted they are put back, when they are the staged files are removed for good. \<open>deleteRows\<close> is
  \<open>None\<close> when the callback throws.
\<close>

definition deleteRowsWithFiles ::
  "archive_env \<Rightarrow> string list \<Rightarrow> deletion_guard list \<Rightarrow> (archive \<Rightarrow> archive option) \<Rightarrow> archive \<Rightarrow>
   archive \<times> (delete_failure + unit)" where
  "deleteRowsWithFiles env paths guards deleteRows ar =
     (let n = ar_ops ar; op = ae_op env n; ar0 = ar\<lparr>ar_ops := Suc n\<rparr>
      in if ae_lockFails env n then (ar0, Inl LockFailed)
         else case stageFileDeletion (ae_renameFails env) (ae_root env) op paths guards (ar_files ar0) of
           (fs, Inl err) \<Rightarrow> (ar0\<lparr>ar_files := fs\<rparr>, Inl (NotStaged err))
         | (fs, Inr staged) \<Rightarrow>
             (case (if ae_dbFails env n then None else deleteRows (ar0\<lparr>ar_files := fs\<rparr>)) of
                None \<Rightarrow>
                  (case rollbackDeletion (ae_renameFails env) staged fs of
                     (fs', Inl _) \<Rightarrow> (ar0\<lparr>ar_files := fs'\<rparr>, Inl RowsNotDeletedNorFilesRestored)
                   | (fs', Inr _) \<Rightarrow> (ar0\<lparr>ar_files := fs'\<rparr>, Inl RowsNotDeleted))
              | Some ar1 \<Rightarrow> (ar1\<lparr>ar_files := fst (commitDeletion (ae_rmFails env op) staged (ar_files ar1))\<rparr>, Inr ())))"

definition deleteClip :: "archive_env \<Rightarrow> clip_row \<Rightarrow> archive \<Rightarrow> archive \<times> (delete_failure + unit)" where
  "deleteClip env clip ar =
     (case ensureFileUnderRoot env (cl_filePath clip) of
        None \<Rightarrow> (ar, Inl FileOutsideRoot)
      | Some fullPath \<Rightarrow> deleteRowsWithFiles env [fullPath] [\<lparr>g_model = exportedClip, g_id = cl_id clip\<rparr>]
          (\<lambda>a. if list_ex (\<lambda>c. cl_id c = cl_id clip) (ar_clips a)
               then Some (a\<lparr>ar_clips := filter (\<lambda>c. cl_id c \<noteq> cl_id clip) (ar_clips a)\<rparr>) else None) ar)"

record protection =
  pr_recordingIds :: "string list"
  pr_clipIds :: "string list"
  pr_eventIds :: "string list"

fun sequence_paths :: "string option list \<Rightarrow> string list option" where
  "sequence_paths [] = Some []"
| "sequence_paths (p # ps) = (case (p, sequence_paths ps) of (Some x, Some xs) \<Rightarrow> Some (x # xs) | _ \<Rightarrow> None)"

definition derivedPaths :: "archive_env \<Rightarrow> archive_row \<Rightarrow> string \<Rightarrow> string list" where
  "derivedPaths env r fullPath =
     [fullPath, derivedThumbnailPath fullPath, buildTimelinePreviewPath fullPath,
      fullPath @ ''.invalid.json'', fullPath @ ''.orphan-quarantine.json'',
      compatiblePath env (re_cameraId r) (re_id r)]"

text \<open>The callback: the clips of the recording, then its row, which must be there; the database
  deletes the clips that still point to it.\<close>

definition deleteRecordingRows :: "string \<Rightarrow> clip_row list \<Rightarrow> archive \<Rightarrow> archive option" where
  "deleteRecordingRows recId clips a =
     (let a1 = a\<lparr>ar_clips := filter (\<lambda>c. cl_id c \<notin> cl_id ` set clips) (ar_clips a)\<rparr>
      in if list_ex (\<lambda>x. re_id x = recId) (ar_rows a1)
         then Some (a1\<lparr>ar_rows := filter (\<lambda>x. re_id x \<noteq> recId) (ar_rows a1),
                       ar_clips := filter (\<lambda>c. cl_sourceRecordingId c \<noteq> recId) (ar_clips a1)\<rparr>)
         else None)"

text \<open>\<open>Inr False\<close> when a protection keeps the recording.\<close>

definition deleteRecording ::
  "archive_env \<Rightarrow> protection \<Rightarrow> archive_row \<Rightarrow> archive \<Rightarrow> archive \<times> (delete_failure + bool)" where
  "deleteRecording env prot r ar =
     (if re_id r \<in> set (pr_recordingIds prot) then (ar, Inr False)
      else let clips = filter (\<lambda>c. cl_sourceRecordingId c = re_id r) (ar_clips ar)
        in if list_ex (\<lambda>c. cl_id c \<in> set (pr_clipIds prot)) clips then (ar, Inr False)
           else case (ensureFileUnderRoot env (re_filePath r),
                      sequence_paths (map (\<lambda>c. ensureFileUnderRoot env (cl_filePath c)) clips)) of
             (Some fullPath, Some clipPaths) \<Rightarrow>
               (case deleteRowsWithFiles env (clipPaths @ derivedPaths env r fullPath)
                       (\<lparr>g_model = recording, g_id = re_id r\<rparr> # map (\<lambda>c. \<lparr>g_model = exportedClip, g_id = cl_id c\<rparr>) clips)
                       (deleteRecordingRows (re_id r) clips) ar of
                  (ar', Inl e) \<Rightarrow> (ar', Inl e)
                | (ar', Inr _) \<Rightarrow> (deleteCloudObject env (re_cloudKey r) (re_cloudStorageId r) ar', Inr True))
           | _ \<Rightarrow> (ar, Inl FileOutsideRoot))"

end
