(* ===== verification/Archive_Facts.thy ===== *)
theory Archive_Facts
  imports Archive
begin

text \<open>
  What the deletions of \<open>Archive\<close> do to the rows, to the objects and to the files outside the
  journal's directory.
\<close>

section \<open>Rows\<close>

lemma deleteRowsWithFiles_shape:
  assumes "deleteRowsWithFiles env paths guards deleteRows ar = (ar', res)"
  shows "(\<exists>fs e. ar' = ar\<lparr>ar_ops := Suc (ar_ops ar), ar_files := fs\<rparr> \<and> res = Inl e) \<or>
    (\<exists>fs b fs'. deleteRows (ar\<lparr>ar_ops := Suc (ar_ops ar), ar_files := fs\<rparr>) = Some b \<and> ar' = b\<lparr>ar_files := fs'\<rparr> \<and> res = Inr ())"
proof (cases "ae_lockFails env (ar_ops ar)")
  case True
  then have "ar' = ar\<lparr>ar_ops := Suc (ar_ops ar), ar_files := ar_files ar\<rparr> \<and> res = Inl LockFailed"
    using assms by (cases ar) (auto simp: deleteRowsWithFiles_def Let_def)
  then show ?thesis by blast
next
  case False
  obtain fs st where stage: "stageFileDeletion (ae_renameFails env) (ae_root env) (ae_op env (ar_ops ar)) paths guards (ar_files ar) = (fs, st)"
    by fastforce
  let ?a = "ar\<lparr>ar_ops := Suc (ar_ops ar), ar_files := fs\<rparr>"
  show ?thesis
  proof (cases st)
    case (Inl e)
    then show ?thesis using assms False stage by (auto simp: deleteRowsWithFiles_def Let_def)
  next
    case (Inr s)
    let ?r = "if ae_dbFails env (ar_ops ar) then None else deleteRows ?a"
    show ?thesis
    proof (cases ?r)
      case None
      obtain fs' r where "rollbackDeletion (ae_renameFails env) s fs = (fs', r)" by fastforce
      then have "ar' = ar\<lparr>ar_ops := Suc (ar_ops ar), ar_files := fs'\<rparr> \<and> res \<noteq> Inr ()"
        using assms False stage Inr None by (auto simp: deleteRowsWithFiles_def Let_def split: sum.splits)
      then show ?thesis by (cases res) auto
    next
      case (Some b)
      then have "deleteRows ?a = Some b" by (simp split: if_splits)
      then show ?thesis using assms False stage Inr Some by (auto simp: deleteRowsWithFiles_def Let_def split: if_splits)
    qed
  qed
qed

lemma deleteRowsWithFiles_rows:
  assumes "deleteRowsWithFiles env paths guards deleteRows ar = (ar', res)"
    "\<And>a b. deleteRows a = Some b \<Longrightarrow> ar_files b = ar_files a \<and> ar_storages b = ar_storages a \<and> ar_objects b = ar_objects a \<and> ar_ops b = ar_ops a"
  shows "ar_storages ar' = ar_storages ar" "ar_objects ar' = ar_objects ar" "ar_ops ar' = Suc (ar_ops ar)"
    "res = Inr () \<Longrightarrow> \<exists>fs b. deleteRows (ar\<lparr>ar_ops := Suc (ar_ops ar), ar_files := fs\<rparr>) = Some b \<and> ar_rows ar' = ar_rows b \<and> ar_clips ar' = ar_clips b"
    "res \<noteq> Inr () \<Longrightarrow> ar_rows ar' = ar_rows ar \<and> ar_clips ar' = ar_clips ar"
proof -
  consider fs e where "ar' = ar\<lparr>ar_ops := Suc (ar_ops ar), ar_files := fs\<rparr>" "res = Inl e"
    | fs b fs' where "deleteRows (ar\<lparr>ar_ops := Suc (ar_ops ar), ar_files := fs\<rparr>) = Some b" "ar' = b\<lparr>ar_files := fs'\<rparr>" "res = Inr ()"
    using deleteRowsWithFiles_shape [OF assms(1)] by blast
  then show "ar_storages ar' = ar_storages ar" "ar_objects ar' = ar_objects ar" "ar_ops ar' = Suc (ar_ops ar)"
    "res = Inr () \<Longrightarrow> \<exists>fs b. deleteRows (ar\<lparr>ar_ops := Suc (ar_ops ar), ar_files := fs\<rparr>) = Some b \<and> ar_rows ar' = ar_rows b \<and> ar_clips ar' = ar_clips b"
    "res \<noteq> Inr () \<Longrightarrow> ar_rows ar' = ar_rows ar \<and> ar_clips ar' = ar_clips ar"
    by (cases; force dest: assms(2))+
qed

lemma deleteRecordingRows_Some:
  "deleteRecordingRows recId clips a = Some b \<Longrightarrow>
   ar_files b = ar_files a \<and> ar_storages b = ar_storages a \<and> ar_objects b = ar_objects a \<and> ar_ops b = ar_ops a \<and>
   ar_rows b = filter (\<lambda>x. re_id x \<noteq> recId) (ar_rows a) \<and> recId \<in> re_id ` set (ar_rows a) \<and>
   ar_clips b = filter (\<lambda>c. cl_id c \<notin> cl_id ` set clips \<and> cl_sourceRecordingId c \<noteq> recId) (ar_clips a)"
  by (auto simp: deleteRecordingRows_def Let_def list_ex_iff conj_commute split: if_splits)

text \<open>The identifiers of the clips are unique in the database.\<close>

definition ids_distinct :: "archive \<Rightarrow> bool" where
  "ids_distinct ar \<longleftrightarrow> distinct (map re_id (ar_rows ar)) \<and> distinct (map cl_id (ar_clips ar))"

lemma own_clips:
  assumes "distinct (map cl_id cs)"
  shows "filter (\<lambda>c. cl_id c \<notin> cl_id ` set (filter (\<lambda>c. cl_sourceRecordingId c = i) cs) \<and> cl_sourceRecordingId c \<noteq> i) cs =
    filter (\<lambda>c. cl_sourceRecordingId c \<noteq> i) cs"
proof (rule filter_cong [OF refl])
  fix c assume c: "c \<in> set cs"
  have "cl_sourceRecordingId d = i \<Longrightarrow> cl_id c = cl_id d \<Longrightarrow> d \<in> set cs \<Longrightarrow> cl_sourceRecordingId c = i" for d
    using inj_key [OF assms c] by metis
  then show "(cl_id c \<notin> cl_id ` set (filter (\<lambda>c. cl_sourceRecordingId c = i) cs) \<and> cl_sourceRecordingId c \<noteq> i) =
      (cl_sourceRecordingId c \<noteq> i)" by auto
qed

text \<open>What a protection lets go.\<close>

definition protectedRow :: "protection \<Rightarrow> archive \<Rightarrow> string \<Rightarrow> bool" where
  "protectedRow prot ar i \<longleftrightarrow> i \<in> set (pr_recordingIds prot) \<or>
     (\<exists>c\<in>set (ar_clips ar). cl_sourceRecordingId c = i \<and> cl_id c \<in> set (pr_clipIds prot))"

lemma deleteCloudObject_keeps:
  "ar_rows (deleteCloudObject env k s ar) = ar_rows ar" "ar_clips (deleteCloudObject env k s ar) = ar_clips ar"
  "ar_storages (deleteCloudObject env k s ar) = ar_storages ar" "ar_files (deleteCloudObject env k s ar) = ar_files ar"
  "ar_ops (deleteCloudObject env k s ar) = ar_ops ar"
  by (auto simp: deleteCloudObject_def removeObject_def split: option.splits)

lemma deleteRecording_rows:
  assumes "deleteRecording env prot r ar = (ar', res)" "ids_distinct ar"
  shows "ar_storages ar' = ar_storages ar" "ids_distinct ar'" "ar_ops ar \<le> ar_ops ar'"
    "res = Inr True \<Longrightarrow> \<not> protectedRow prot ar (re_id r) \<and> re_id r \<in> re_id ` set (ar_rows ar) \<and>
       ar_rows ar' = filter (\<lambda>x. re_id x \<noteq> re_id r) (ar_rows ar) \<and>
       ar_clips ar' = filter (\<lambda>c. cl_sourceRecordingId c \<noteq> re_id r) (ar_clips ar) \<and>
       ar_objects ar' = ar_objects (deleteCloudObject env (re_cloudKey r) (re_cloudStorageId r) ar)"
    "res \<noteq> Inr True \<Longrightarrow> ar_rows ar' = ar_rows ar \<and> ar_clips ar' = ar_clips ar \<and> ar_objects ar' = ar_objects ar"
    "res = Inr False \<Longrightarrow> ar' = ar \<and> protectedRow prot ar (re_id r)"
proof -
  let ?clips = "filter (\<lambda>c. cl_sourceRecordingId c = re_id r) (ar_clips ar)"
  have "ar_storages ar' = ar_storages ar \<and> ar_ops ar \<le> ar_ops ar' \<and>
    (res = Inr True \<longrightarrow> \<not> protectedRow prot ar (re_id r) \<and> re_id r \<in> re_id ` set (ar_rows ar) \<and>
       ar_rows ar' = filter (\<lambda>x. re_id x \<noteq> re_id r) (ar_rows ar) \<and>
       ar_clips ar' = filter (\<lambda>c. cl_sourceRecordingId c \<noteq> re_id r) (ar_clips ar) \<and>
       ar_objects ar' = ar_objects (deleteCloudObject env (re_cloudKey r) (re_cloudStorageId r) ar)) \<and>
    (res \<noteq> Inr True \<longrightarrow> ar_rows ar' = ar_rows ar \<and> ar_clips ar' = ar_clips ar \<and> ar_objects ar' = ar_objects ar) \<and>
    (res = Inr False \<longrightarrow> ar' = ar \<and> protectedRow prot ar (re_id r))"
  proof (cases "protectedRow prot ar (re_id r)")
    case True
    then have "deleteRecording env prot r ar = (ar, Inr False)"
      by (auto simp: deleteRecording_def protectedRow_def list_ex_iff Let_def)
    with assms(1) True show ?thesis by auto
  next
    case False
    then have free: "re_id r \<notin> set (pr_recordingIds prot)" "\<not> list_ex (\<lambda>c. cl_id c \<in> set (pr_clipIds prot)) ?clips"
      by (auto simp: protectedRow_def list_ex_iff)
    show ?thesis
    proof (cases "(ensureFileUnderRoot env (re_filePath r), sequence_paths (map (\<lambda>c. ensureFileUnderRoot env (cl_filePath c)) ?clips))")
      case (Pair a b)
      show ?thesis
      proof (cases "a = None \<or> b = None")
        case True
        then have "deleteRecording env prot r ar = (ar, Inl FileOutsideRoot)"
          using free Pair by (auto simp: deleteRecording_def Let_def split: option.splits)
        with assms(1) show ?thesis by auto
      next
        case False
        then obtain full paths where ab: "a = Some full" "b = Some paths" by auto
        let ?gs = "\<lparr>g_model = recording, g_id = re_id r\<rparr> # map (\<lambda>c. \<lparr>g_model = exportedClip, g_id = cl_id c\<rparr>) ?clips"
        obtain a1 r1 where del: "deleteRowsWithFiles env (paths @ derivedPaths env r full) ?gs (deleteRecordingRows (re_id r) ?clips) ar = (a1, r1)"
          by fastforce
        note rows = deleteRowsWithFiles_rows [OF del, of]
        have keep: "ar_files b = ar_files a \<and> ar_storages b = ar_storages a \<and> ar_objects b = ar_objects a \<and> ar_ops b = ar_ops a"
          if "deleteRecordingRows (re_id r) ?clips a = Some b" for a b using deleteRecordingRows_Some [OF that] by blast
        have body: "(ar', res) = (case r1 of Inl e \<Rightarrow> (a1, Inl e)
            | Inr _ \<Rightarrow> (deleteCloudObject env (re_cloudKey r) (re_cloudStorageId r) a1, Inr True))"
          using assms(1) free Pair ab del by (simp add: deleteRecording_def Let_def)
        show ?thesis
        proof (cases r1)
          case (Inl e)
          then show ?thesis using body rows(1,2,3,5) [OF keep] by simp
        next
          case (Inr u)
          then obtain fs b where b: "deleteRecordingRows (re_id r) ?clips (ar\<lparr>ar_ops := Suc (ar_ops ar), ar_files := fs\<rparr>) = Some b"
            "ar_rows a1 = ar_rows b" "ar_clips a1 = ar_clips b" using rows(4) [OF keep] by auto
          have obj: "ar_objects (deleteCloudObject env k s a1) = ar_objects (deleteCloudObject env k s ar)" for k s
            using rows(1,2) [OF keep]
            by (auto simp: deleteCloudObject_def storageDaGravacao_def removeObject_def split: option.splits)
          show ?thesis
            using body Inr deleteRecordingRows_Some [OF b(1)] b(2,3) \<open>\<not> protectedRow prot ar (re_id r)\<close> own_clips [of "ar_clips ar" "re_id r"]
              assms(2) rows(1,3) [OF keep] obj
            by (auto simp: deleteCloudObject_keeps ids_distinct_def)
        qed
      qed
    qed
  qed
  note all = this
  show "ar_storages ar' = ar_storages ar" "ar_ops ar \<le> ar_ops ar'" using all by blast+
  show "ids_distinct ar'" using all assms(2) by (cases "res = Inr True") (auto simp: ids_distinct_def distinct_map_filter)
  show "res = Inr True \<Longrightarrow> \<not> protectedRow prot ar (re_id r) \<and> re_id r \<in> re_id ` set (ar_rows ar) \<and>
       ar_rows ar' = filter (\<lambda>x. re_id x \<noteq> re_id r) (ar_rows ar) \<and>
       ar_clips ar' = filter (\<lambda>c. cl_sourceRecordingId c \<noteq> re_id r) (ar_clips ar) \<and>
       ar_objects ar' = ar_objects (deleteCloudObject env (re_cloudKey r) (re_cloudStorageId r) ar)"
    "res \<noteq> Inr True \<Longrightarrow> ar_rows ar' = ar_rows ar \<and> ar_clips ar' = ar_clips ar \<and> ar_objects ar' = ar_objects ar"
    "res = Inr False \<Longrightarrow> ar' = ar \<and> protectedRow prot ar (re_id r)" using all by blast+
qed

end
