(* ===== verification/Batches.thy ===== *)
theory Batches
  imports Prelude
begin

text \<open>
  The loop of \<open>RetentionService\<close> that deletes the rows of a query page by page
  (\<open>expireClipsInBatches\<close>, \<open>expireRecordingsInBatches\<close>). A row that is deleted leaves the query by
  itself; \<open>skip\<close> counts the rows left behind, so that the next page starts after them. The query
  and the body of the loop are parameters; the loop is partial, and \<open>batch_handler\<close> states what
  the body has to do for it to end.
\<close>

section \<open>The loop\<close>

datatype handled = Removed | Kept | Counted

text \<open>The body over the rows of a page, with \<open>skip\<close> and \<open>budget\<close>.\<close>

fun handlePage :: "('r \<Rightarrow> 's \<Rightarrow> 's \<times> handled) \<Rightarrow> 'r list \<Rightarrow> 's \<times> nat \<times> nat \<Rightarrow> 's \<times> nat \<times> nat" where
  "handlePage h [] x = x"
| "handlePage h (r # rs) (s, skip, budget) =
     (case h r s of
        (s', Removed) \<Rightarrow> handlePage h rs (s', skip, budget - 1)
      | (s', Kept) \<Rightarrow> handlePage h rs (s', Suc skip, budget)
      | (s', Counted) \<Rightarrow> handlePage h rs (s', Suc skip, budget - 1))"

partial_function (option) drain ::
  "('s \<Rightarrow> 'r list) \<Rightarrow> ('r \<Rightarrow> 's \<Rightarrow> 's \<times> handled) \<Rightarrow> nat \<Rightarrow> 's \<times> nat \<times> nat \<Rightarrow> ('s \<times> nat) option" where
  "drain query h batchSize x = (case x of (s, skip, budget) \<Rightarrow>
     if budget = 0 then Some (s, budget)
     else
       let taken = min batchSize budget; page = take taken (drop skip (query s))
       in if page = [] then Some (s, budget)
          else case handlePage h page (s, skip, budget) of (s', skip', budget') \<Rightarrow>
            if length page < taken then Some (s', budget')
            else drain query h batchSize (s', skip', budget'))"

section \<open>One pass over the rows\<close>

text \<open>What the loop comes to: the rows of the first query, once each, while there is budget.\<close>

fun onePass :: "('r \<Rightarrow> 's \<Rightarrow> 's \<times> handled) \<Rightarrow> 'r list \<Rightarrow> 's \<times> nat \<Rightarrow> 's \<times> nat" where
  "onePass h [] (s, budget) = (s, budget)"
| "onePass h (r # rs) (s, budget) =
     (if budget = 0 then (s, budget)
      else case h r s of
        (s', Kept) \<Rightarrow> onePass h rs (s', budget)
      | (s', _) \<Rightarrow> onePass h rs (s', budget - 1))"

lemma onePass_0 [simp]: "onePass h rs (s, 0) = (s, 0)"
  by (cases rs) simp_all

text \<open>An invariant of the body holds after the pass.\<close>

lemma onePass_inv:
  assumes "P s" and "\<And>r s s' d. r \<in> set rs \<Longrightarrow> P s \<Longrightarrow> h r s = (s', d) \<Longrightarrow> P s'"
  shows "P (fst (onePass h rs (s, budget)))"
  using assms
proof (induction rs arbitrary: s budget)
  case (Cons r rs)
  obtain s' d where hr: "h r s = (s', d)" by fastforce
  with Cons.prems have "P s'" by auto
  then have "P (fst (onePass h rs (s', b)))" for b using Cons.prems(2) by (intro Cons.IH) auto
  then show ?case using Cons.prems(1) hr by (cases d) auto
qed simp

lemma onePass_budget_le: "snd (onePass h rs (s, budget)) \<le> budget"
proof (induction rs arbitrary: s budget)
  case (Cons r rs)
  obtain s' d where hr: "h r s = (s', d)" by fastforce
  show ?case using Cons.IH [of s' budget] Cons.IH [of s' "budget - 1"] hr by (cases d) auto
qed simp

section \<open>Bodies the loop ends with\<close>

text \<open>
  The contract: in states that satisfy \<open>inv\<close> the rows of the query are different; a row that is
  removed is the only one to leave it; a row that stays leaves the query as it is.
\<close>

locale batch_handler =
  fixes query :: "'s \<Rightarrow> 'r list" and h :: "'r \<Rightarrow> 's \<Rightarrow> 's \<times> handled" and inv :: "'s \<Rightarrow> bool"
  assumes rows_distinct: "inv s \<Longrightarrow> distinct (query s)"
    and keeps_inv: "inv s \<Longrightarrow> r \<in> set (query s) \<Longrightarrow> h r s = (s', d) \<Longrightarrow> inv s'"
    and removes: "inv s \<Longrightarrow> r \<in> set (query s) \<Longrightarrow> h r s = (s', Removed) \<Longrightarrow> query s' = filter (\<lambda>x. x \<noteq> r) (query s)"
    and leaves: "inv s \<Longrightarrow> r \<in> set (query s) \<Longrightarrow> h r s = (s', d) \<Longrightarrow> d \<noteq> Removed \<Longrightarrow> query s' = query s"
begin

text \<open>A page: the rows before it were left behind, and \<open>rest\<close> comes after it.\<close>

lemma handled_page:
  assumes "inv s" "query s = kept @ page @ rest" "length page \<le> budget"
  shows "\<exists>s' kept' budget'. handlePage h page (s, length kept, budget) = (s', length kept', budget') \<and>
    inv s' \<and> query s' = kept' @ rest \<and>
    onePass h (page @ rest) (s, budget) = onePass h rest (s', budget')"
  using assms
proof (induction page arbitrary: s kept budget)
  case (Cons r page)
  obtain s1 d where hr: "h r s = (s1, d)" by fastforce
  have mem: "r \<in> set (query s)" and b: "budget \<noteq> 0" using Cons.prems by auto
  have inv1: "inv s1" using keeps_inv Cons.prems(1) mem hr by blast
  have nk: "r \<notin> set kept" "r \<notin> set page" "r \<notin> set rest"
    using rows_distinct [OF Cons.prems(1)] Cons.prems(2) by auto
  show ?case
  proof (cases "d = Removed")
    case True
    then have "query s1 = filter (\<lambda>x. x \<noteq> r) (query s)" using removes [OF Cons.prems(1) mem] hr by simp
    also have "\<dots> = kept @ page @ rest"
    proof -
      have "filter (\<lambda>x. x \<noteq> r) xs = xs" if "r \<notin> set xs" for xs using that by (induction xs) auto
      then show ?thesis using nk Cons.prems(2) by simp
    qed
    finally have q1: "query s1 = kept @ page @ rest" .
    have "length page \<le> budget - 1" using Cons.prems(3) by simp
    from Cons.IH [OF inv1 q1 this] show ?thesis using hr True b by simp
  next
    case False
    then have q1: "query s1 = (kept @ [r]) @ page @ rest"
      using leaves [OF Cons.prems(1) mem hr] Cons.prems(2) by simp
    let ?b = "if d = Kept then budget else budget - 1"
    have le: "length page \<le> ?b" using Cons.prems(3) by auto
    have lk: "length (kept @ [r]) = Suc (length kept)" by simp
    from Cons.IH [OF inv1 q1 le, unfolded lk] show ?thesis using hr False b by (cases d) simp_all
  qed
qed (use assms in auto)

text \<open>The loop ends, and what it does depends neither on the pages nor on their size.\<close>

lemma drain_from:
  assumes "inv s" "query s = kept @ rest" "batchSize > 0"
  shows "drain query h batchSize (s, length kept, budget) = Some (onePass h rest (s, budget))"
  using assms
proof (induction "length rest" arbitrary: s kept rest budget rule: less_induct)
  case less
  let ?t = "min batchSize budget"
  let ?page = "take ?t rest" and ?rest = "drop ?t rest"
  show ?case
  proof (cases "budget = 0 \<or> rest = []")
    case True
    then show ?thesis using less.prems by (subst drain.simps) (auto simp: Let_def)
  next
    case False
    then have page: "?page \<noteq> []" "take ?t (drop (length kept) (query s)) = ?page" using less.prems by auto
    have "query s = kept @ ?page @ ?rest" "length ?page \<le> budget" using less.prems(2) by simp_all
    then obtain s' kept' budget' where step: "handlePage h ?page (s, length kept, budget) = (s', length kept', budget')"
      "inv s'" "query s' = kept' @ ?rest" "onePass h (?page @ ?rest) (s, budget) = onePass h ?rest (s', budget')"
      using handled_page [OF less.prems(1)] by blast
    have pass: "onePass h rest (s, budget) = onePass h ?rest (s', budget')" using step(4) by simp
    have unf: "drain query h batchSize (s, length kept, budget) =
        (if length ?page < ?t then Some (s', budget') else drain query h batchSize (s', length kept', budget'))"
      using False page step(1) by (subst drain.simps) (simp only: prod.case Let_def if_False page(2), simp add: step(1))
    show ?thesis
    proof (cases "length ?page < ?t")
      case True
      then have "length rest \<le> ?t" unfolding length_take by arith
      then have "?rest = []" by simp
      then show ?thesis using True unf pass by simp
    next
      case nonlast: False
      have "length ?rest < length rest" using page(1) by auto
      from less.hyps [OF this step(2,3) less.prems(3), of budget']
      have "drain query h batchSize (s', length kept', budget') = Some (onePass h ?rest (s', budget'))" .
      then show ?thesis unfolding unf pass if_not_P [OF nonlast] .
    qed
  qed
qed

lemma drain_one_pass: "inv s \<Longrightarrow> batchSize > 0 \<Longrightarrow>
   drain query h batchSize (s, 0, budget) = Some (onePass h (query s) (s, budget))"
  using drain_from [of s "[]" "query s" batchSize budget] by simp

lemma onePass_rows:
  assumes "inv s" "set rs \<subseteq> set (query s)" "distinct rs"
  shows "inv (fst (onePass h rs (s, budget))) \<and>
    (\<exists>gone \<subseteq> set rs. query (fst (onePass h rs (s, budget))) = filter (\<lambda>x. x \<notin> gone) (query s))"
  using assms
proof (induction rs arbitrary: s budget)
  case Nil
  then show ?case by (auto intro!: exI [of _ "{}"])
next
  case (Cons r rs)
  obtain s1 d where hr: "h r s = (s1, d)" by fastforce
  have mem: "r \<in> set (query s)" using Cons.prems by auto
  have inv1: "inv s1" using keeps_inv Cons.prems(1) mem hr by blast
  let ?g = "if d = Removed then {r} else {}"
  have q1: "query s1 = filter (\<lambda>x. x \<notin> ?g) (query s)"
    using removes [OF Cons.prems(1) mem] leaves [OF Cons.prems(1) mem hr] hr by auto
  have sub: "set rs \<subseteq> set (query s1)" using Cons.prems q1 by auto
  show ?case
  proof (cases "budget = 0")
    case True
    then show ?thesis using Cons.prems by (auto intro!: exI [of _ "{}"])
  next
    case False
    let ?b = "if d = Kept then budget else budget - 1"
    have pass: "onePass h (r # rs) (s, budget) = onePass h rs (s1, ?b)" using hr False by (cases d) simp_all
    obtain gone where "gone \<subseteq> set rs" "inv (fst (onePass h rs (s1, ?b)))"
      "query (fst (onePass h rs (s1, ?b))) = filter (\<lambda>x. x \<notin> gone) (query s1)"
      using Cons.IH [OF inv1 sub, of ?b] Cons.prems(3) by auto
    then show ?thesis unfolding pass using q1
      by (intro conjI exI [of _ "gone \<union> ?g"]) (auto intro!: filter_cong)
  qed
qed

end

end
