(* ===== verification/Retention.thy ===== *)
theory Retention
  imports Archive_Facts Batches Env_Settings Rotation
begin

text \<open>
  \<open>recordings/retention.service.ts\<close>: which recordings expire and in which order they are deleted,
  the deletions asked by hand, the guard of the disk and the sweep of the buckets. The conditions
  sent to the database are predicates on the rows of \<open>Archive\<close>; an instant is a whole number of
  milliseconds; a variable of the environment is a text or absent. \<open>None\<close> as the result of a loop is
  a loop that does not end.
\<close>

section \<open>Protections\<close>

record investigation_item =
  ii_investigationId :: string
  ii_legalHold :: bool
  ii_createdAt :: int
  ii_recordingId :: "string option"
  ii_eventId :: "string option"
  ii_metadata :: json

text \<open>\<open>Array.isArray(v) ? the strings of v : nothing\<close>, and a text.\<close>

definition stringsOf :: "json option \<Rightarrow> string list" where
  "stringsOf v = (case v of Some (JArr xs) \<Rightarrow> List.map_filter (\<lambda>x. case x of JStr s \<Rightarrow> Some s | _ \<Rightarrow> None) xs | _ \<Rightarrow> [])"

definition textOf :: "json option \<Rightarrow> string list" where
  "textOf v = (case v of Some (JStr s) \<Rightarrow> [s] | _ \<Rightarrow> [])"

definition holdEnabled :: "json \<Rightarrow> bool" where
  "holdEnabled m \<longleftrightarrow> field m ''enabled'' \<in> {Some (JBool True), Some (JNum 1), Some (JStr ''true'')}"

text \<open>The latest hold of each investigation: rows ordered by \<open>createdAt\<close> from the newest, the first one wins.\<close>

definition latestHolds :: "investigation_item list \<Rightarrow> investigation_item list" where
  "latestHolds items =
     (let rows = sort_key (\<lambda>i. - ii_createdAt i) (filter ii_legalHold items)
      in List.map_filter (\<lambda>inv. find (\<lambda>i. ii_investigationId i = inv) rows) (uniq (map ii_investigationId rows)))"

definition holdSets :: "investigation_item list \<Rightarrow> protection" where
  "holdSets items =
     (let holds = filter (\<lambda>i. holdEnabled (ii_metadata i)) (latestHolds items);
          ids = (\<lambda>k. concat (map (\<lambda>i. stringsOf (field (ii_metadata i) k)) holds))
      in \<lparr>pr_recordingIds = ids ''recordingIds'', pr_clipIds = ids ''clipIds'', pr_eventIds = ids ''eventIds''\<rparr>)"

definition evidenceSets :: "investigation_item list \<Rightarrow> protection" where
  "evidenceSets items =
     (let ev = filter (\<lambda>i. \<not> ii_legalHold i) items;
          of_field = (\<lambda>f. concat (map (\<lambda>i. f (ii_metadata i)) ev))
      in \<lparr>pr_recordingIds = truthy_ids (map ii_recordingId ev) @
            of_field (\<lambda>m. textOf (field m ''recordingId'')) @ of_field (\<lambda>m. stringsOf (field m ''recordingIds'')),
          pr_clipIds = of_field (\<lambda>m. textOf (field m ''clipId'')) @ of_field (\<lambda>m. stringsOf (field m ''clipIds'')),
          pr_eventIds = truthy_ids (map ii_eventId ev) @ of_field (\<lambda>m. textOf (field m ''eventId''))\<rparr>)"

definition getProtectionSets :: "investigation_item list \<Rightarrow> clip_row list \<Rightarrow> protection" where
  "getProtectionSets items clips =
     (let h = holdSets items; e = evidenceSets items; clipIds = pr_clipIds h @ pr_clipIds e
      in \<lparr>pr_recordingIds = pr_recordingIds h @ pr_recordingIds e @
            map cl_sourceRecordingId (filter (\<lambda>c. cl_id c \<in> set clipIds) clips),
          pr_clipIds = clipIds, pr_eventIds = pr_eventIds h @ pr_eventIds e\<rparr>)"

section \<open>Settings\<close>

definition DAY_MS :: int where "DAY_MS = 86400000"
definition MOTION_SCORE_UNKNOWN :: int where "MOTION_SCORE_UNKNOWN = -1"

record two_tier =
  tt_enabled :: bool
  tt_dryRun :: bool
  tt_allDays :: int
  tt_motionDays :: int

record retention_window =
  rw_allDays :: int
  rw_motionDays :: int

record batch_limits =
  bl_batchSize :: nat
  bl_maxPerCycle :: nat

type_synonym variables = "string \<Rightarrow> string option"

definition env_whole :: "variables \<Rightarrow> string \<Rightarrow> int \<Rightarrow> int \<Rightarrow> int \<Rightarrow> int" where
  "env_whole vars name fallback lo hi =
     \<lfloor>fst (envNumber (vars name) (of_int fallback) \<lparr>opt_min = Some (of_int lo), opt_max = Some (of_int hi), opt_integer = True\<rparr>)\<rfloor>"

definition readTwoTierPolicy :: "variables \<Rightarrow> two_tier" where
  "readTwoTierPolicy vars =
     \<lparr>tt_enabled = fst (envBool (vars ''RETENTION_TWO_TIER_ENABLED'') False),
      tt_dryRun = fst (envBool (vars ''RETENTION_TWO_TIER_DRY_RUN'') True),
      tt_allDays = env_whole vars ''RETENTION_ALL_DAYS'' 0 0 3650,
      tt_motionDays = env_whole vars ''RETENTION_MOTION_DAYS'' 0 0 3650\<rparr>"

definition readBatchLimits :: "variables \<Rightarrow> batch_limits" where
  "readBatchLimits vars =
     \<lparr>bl_batchSize = nat (env_whole vars ''RETENTION_EXPIRY_BATCH_SIZE'' 500 1 5000),
      bl_maxPerCycle = nat (env_whole vars ''RETENTION_MAX_DELETIONS_PER_CYCLE'' 20000 1 1000000)\<rparr>"

section \<open>Cuts of the cameras\<close>

datatype camera_filter = AnyCamera | InCameras "string list" | NotInCameras "string list"

fun filter_matches :: "camera_filter \<Rightarrow> string \<Rightarrow> bool" where
  "filter_matches AnyCamera c = True"
| "filter_matches (InCameras cs) c = (c \<in> set cs)"
| "filter_matches (NotInCameras cs) c = (c \<notin> set cs)"

record retention_group =
  rg_days :: int
  rg_filter :: camera_filter

fun byDays :: "rat \<Rightarrow> (string \<times> entrada_retencao) list \<Rightarrow> (int \<times> string list) list \<Rightarrow> (int \<times> string list) list" where
  "byDays globalDays [] m = m"
| "byDays globalDays ((c, e) # cameras) m =
     (let days = retencaoEfetiva e globalDays;
          bucket = (case map_of m days of Some b \<Rightarrow> b | None \<Rightarrow> [])
      in byDays globalDays cameras (AList.update days (bucket @ [c]) m))"

definition loadRetentionGroups :: "(string \<times> entrada_retencao) list \<Rightarrow> int \<Rightarrow> retention_group list" where
  "loadRetentionGroups cameras globalDays =
     map (\<lambda>(days, ids). \<lparr>rg_days = days, rg_filter = InCameras ids\<rparr>) (byDays (of_int globalDays) cameras []) @
     [\<lparr>rg_days = globalDays, rg_filter = if cameras \<noteq> [] then NotInCameras (map fst cameras) else AnyCamera\<rparr>]"

definition resolveRetentionWindow :: "int \<Rightarrow> two_tier \<Rightarrow> retention_window" where
  "resolveRetentionWindow baseDays policy =
     (if \<not> tt_enabled policy then \<lparr>rw_allDays = baseDays, rw_motionDays = baseDays\<rparr>
      else let allDays = (if tt_allDays policy > 0 then tt_allDays policy else baseDays);
               motionDays = (if tt_motionDays policy > 0 then tt_motionDays policy else baseDays)
           in \<lparr>rw_allDays = allDays, rw_motionDays = max allDays motionDays\<rparr>)"

section \<open>What expires\<close>

text \<open>The condition \<open>buildExpiryWhere\<close> sends: the filter, \<open>startedAt < ew_before\<close>, and when present
  \<open>OR: [startedAt < c, motionScore = 0]\<close>. \<open>hasColumn\<close> is \<open>hasMotionScoreColumn()\<close>.\<close>

record expiry_where =
  ew_filter :: camera_filter
  ew_before :: int
  ew_or :: "int option"

definition buildExpiryWhere :: "bool \<Rightarrow> retention_group \<Rightarrow> retention_window \<Rightarrow> int \<Rightarrow> expiry_where" where
  "buildExpiryWhere hasColumn g w now =
     (if rw_motionDays w > rw_allDays w
      then if \<not> hasColumn
           then \<lparr>ew_filter = rg_filter g, ew_before = now - rw_motionDays w * DAY_MS, ew_or = None\<rparr>
           else \<lparr>ew_filter = rg_filter g, ew_before = now - rw_allDays w * DAY_MS, ew_or = Some (now - rw_motionDays w * DAY_MS)\<rparr>
      else \<lparr>ew_filter = rg_filter g, ew_before = now - rw_allDays w * DAY_MS, ew_or = None\<rparr>)"

text \<open>The database's reading of it: a comparison with a column that is null is false.\<close>

definition where_matches :: "expiry_where \<Rightarrow> archive_row \<Rightarrow> bool" where
  "where_matches w r \<longleftrightarrow> filter_matches (ew_filter w) (re_cameraId r) \<and> re_startedAt r < ew_before w \<and>
     (case ew_or w of None \<Rightarrow> True | Some c \<Rightarrow> re_startedAt r < c \<or> re_motionScore r = Some 0)"

definition readMotionScore :: "bool \<Rightarrow> archive_row \<Rightarrow> int" where
  "readMotionScore hasColumn r =
     (case (if hasColumn then re_motionScore r else None) of
        None \<Rightarrow> MOTION_SCORE_UNKNOWN
      | Some raw \<Rightarrow> if raw < 0 then MOTION_SCORE_UNKNOWN else raw)"

definition isExpiredByAge :: "int \<Rightarrow> int \<Rightarrow> int \<Rightarrow> retention_window \<Rightarrow> bool" where
  "isExpiredByAge startedAt motionScore now w =
     (let ageMs = now - startedAt
      in if ageMs > rw_motionDays w * DAY_MS then True
         else if ageMs \<le> rw_allDays w * DAY_MS then False
         else motionScore = 0)"

section \<open>Expiry in batches\<close>

text \<open>The counts of a pass. \<open>cu_failed\<close> are the rows the log names as not deleted.\<close>

record cleanup =
  cu_recordingsDeleted :: nat
  cu_clipsDeleted :: nat
  cu_recordingsWouldDelete :: nat
  cu_wouldFreeBytes :: int
  cu_motionRetained :: nat
  cu_failed :: "string list"

definition no_cleanup :: cleanup where
  "no_cleanup = \<lparr>cu_recordingsDeleted = 0, cu_clipsDeleted = 0, cu_recordingsWouldDelete = 0,
     cu_wouldFreeBytes = 0, cu_motionRetained = 0, cu_failed = []\<rparr>"

record retention_env =
  rt_archive :: archive_env
  rt_protection :: protection
  rt_policy :: two_tier
  rt_hasColumn :: bool
  rt_now :: int

text \<open>The body of the loop over recordings.\<close>

definition expireRecording :: "retention_env \<Rightarrow> retention_window \<Rightarrow> archive_row \<Rightarrow> archive \<times> cleanup \<Rightarrow> (archive \<times> cleanup) \<times> handled" where
  "expireRecording env w r st =
     (let (ar, res) = st in
      if \<not> isExpiredByAge (re_startedAt r) (readMotionScore (rt_hasColumn env) r) (rt_now env) w then ((ar, res), Kept)
      else if tt_enabled (rt_policy env) \<and> tt_dryRun (rt_policy env)
      then if re_id r \<in> set (pr_recordingIds (rt_protection env)) then ((ar, res), Kept)
           else ((ar, res\<lparr>cu_recordingsWouldDelete := Suc (cu_recordingsWouldDelete res),
                          cu_wouldFreeBytes := cu_wouldFreeBytes res + (case re_sizeBytes r of Some n \<Rightarrow> n | None \<Rightarrow> 0)\<rparr>), Counted)
      else case deleteRecording (rt_archive env) (rt_protection env) r ar of
             (ar', Inr True) \<Rightarrow> ((ar', res\<lparr>cu_recordingsDeleted := Suc (cu_recordingsDeleted res)\<rparr>), Removed)
           | (ar', Inr False) \<Rightarrow> ((ar', res), Kept)
           | (ar', Inl _) \<Rightarrow> ((ar', res\<lparr>cu_failed := cu_failed res @ [re_id r]\<rparr>), Kept))"

definition expiryQuery :: "expiry_where \<Rightarrow> archive \<times> cleanup \<Rightarrow> archive_row list" where
  "expiryQuery w st = sort_key (\<lambda>r. (re_startedAt r, re_id r)) (filter (where_matches w) (ar_rows (fst st)))"

text \<open>How many rows between the two cuts stay because they have, or may have, movement.\<close>

definition motionRetained :: "retention_env \<Rightarrow> retention_group \<Rightarrow> retention_window \<Rightarrow> archive \<Rightarrow> nat" where
  "motionRetained env g w ar =
     length (filter (\<lambda>r. filter_matches (rg_filter g) (re_cameraId r) \<and>
        re_startedAt r < rt_now env - rw_allDays w * DAY_MS \<and> re_startedAt r \<ge> rt_now env - rw_motionDays w * DAY_MS \<and>
        (rt_hasColumn env \<longrightarrow> \<not> re_motionScore r = Some 0)) (ar_rows ar))"

definition expireGroup :: "retention_env \<Rightarrow> nat \<Rightarrow> retention_group \<Rightarrow> archive \<times> cleanup \<Rightarrow> nat \<Rightarrow> ((archive \<times> cleanup) \<times> nat) option" where
  "expireGroup env batchSize g st budget =
     (let w = resolveRetentionWindow (rg_days g) (rt_policy env);
          st' = (if tt_enabled (rt_policy env)
                 then (fst st, (snd st)\<lparr>cu_motionRetained := cu_motionRetained (snd st) + motionRetained env g w (fst st)\<rparr>)
                 else st)
      in drain (expiryQuery (buildExpiryWhere (rt_hasColumn env) g w (rt_now env))) (expireRecording env w) batchSize (st', 0, budget))"

fun expireRecordingsInBatches :: "retention_env \<Rightarrow> nat \<Rightarrow> retention_group list \<Rightarrow> archive \<times> cleanup \<Rightarrow> nat \<Rightarrow> ((archive \<times> cleanup) \<times> nat) option" where
  "expireRecordingsInBatches env batchSize [] st budget = Some (st, budget)"
| "expireRecordingsInBatches env batchSize (g # gs) st budget =
     (if budget = 0 then Some (st, budget)
      else case expireGroup env batchSize g st budget of
        None \<Rightarrow> None
      | Some (st', budget') \<Rightarrow> expireRecordingsInBatches env batchSize gs st' budget')"

text \<open>The clips: they go by the cut of the camera of their recording.\<close>

definition expireClip :: "retention_env \<Rightarrow> clip_row \<Rightarrow> archive \<times> cleanup \<Rightarrow> (archive \<times> cleanup) \<times> handled" where
  "expireClip env c st =
     (let (ar, res) = st in
      if cl_id c \<in> set (pr_clipIds (rt_protection env)) then ((ar, res), Kept)
      else case deleteClip (rt_archive env) c ar of
             (ar', Inr _) \<Rightarrow> ((ar', res\<lparr>cu_clipsDeleted := Suc (cu_clipsDeleted res)\<rparr>), Removed)
           | (ar', Inl _) \<Rightarrow> ((ar', res\<lparr>cu_failed := cu_failed res @ [cl_id c]\<rparr>), Kept))"

definition clip_matches :: "retention_group \<Rightarrow> int \<Rightarrow> archive \<Rightarrow> clip_row \<Rightarrow> bool" where
  "clip_matches g cutoff ar c \<longleftrightarrow> cl_startedAt c < cutoff \<and>
     (rg_filter g = AnyCamera \<or>
      list_ex (\<lambda>r. re_id r = cl_sourceRecordingId c \<and> filter_matches (rg_filter g) (re_cameraId r)) (ar_rows ar))"

definition clipQuery :: "retention_group \<Rightarrow> int \<Rightarrow> archive \<times> cleanup \<Rightarrow> clip_row list" where
  "clipQuery g cutoff st = sort_key (\<lambda>c. (cl_startedAt c, cl_id c)) (filter (clip_matches g cutoff (fst st)) (ar_clips (fst st)))"

fun expireClipsInBatches :: "retention_env \<Rightarrow> nat \<Rightarrow> retention_group list \<Rightarrow> archive \<times> cleanup \<Rightarrow> nat \<Rightarrow> ((archive \<times> cleanup) \<times> nat) option" where
  "expireClipsInBatches env batchSize [] st budget = Some (st, budget)"
| "expireClipsInBatches env batchSize (g # gs) st budget =
     (case drain (clipQuery g (rt_now env - rg_days g * DAY_MS)) (expireClip env) batchSize (st, 0, budget) of
        None \<Rightarrow> None
      | Some (st', budget') \<Rightarrow> expireClipsInBatches env batchSize gs st' budget')"

section \<open>Deletions asked by hand\<close>

record manual_result =
  mr_solicitadas :: nat
  mr_excluidas :: nat
  mr_protegidas :: nat
  mr_emAndamento :: nat
  mr_naoEncontradas :: nat
  mr_bytes :: int

text \<open>The loop over the rows that were found: a failure of \<open>deleteRecording\<close> leaves it.\<close>

fun excluirLinhas :: "archive_env \<Rightarrow> protection \<Rightarrow> archive_row list \<Rightarrow> manual_result \<Rightarrow> archive \<Rightarrow> archive \<times> (delete_failure + manual_result)" where
  "excluirLinhas env prot [] m ar = (ar, Inr m)"
| "excluirLinhas env prot (r # rs) m ar =
     (if re_endedAt r = None then excluirLinhas env prot rs (m\<lparr>mr_emAndamento := Suc (mr_emAndamento m)\<rparr>) ar
      else if re_id r \<in> set (pr_recordingIds prot)
      then excluirLinhas env prot rs (m\<lparr>mr_protegidas := Suc (mr_protegidas m)\<rparr>) ar
      else case deleteRecording env prot r ar of
        (ar', Inl e) \<Rightarrow> (ar', Inl e)
      | (ar', Inr True) \<Rightarrow> excluirLinhas env prot rs
          (m\<lparr>mr_excluidas := Suc (mr_excluidas m), mr_bytes := mr_bytes m + (case re_sizeBytes r of Some n \<Rightarrow> n | None \<Rightarrow> 0)\<rparr>) ar'
      | (ar', Inr False) \<Rightarrow> excluirLinhas env prot rs (m\<lparr>mr_protegidas := Suc (mr_protegidas m)\<rparr>) ar')"

definition excluirGravacoesEscolhidas ::
  "archive_env \<Rightarrow> investigation_item list \<Rightarrow> string list \<Rightarrow> archive \<Rightarrow> archive \<times> (delete_failure + manual_result)" where
  "excluirGravacoesEscolhidas env items ids ar =
     (let unicos = uniq ids; prot = getProtectionSets items (ar_clips ar);
          linhas = filter (\<lambda>r. re_id r \<in> set unicos) (ar_rows ar)
      in excluirLinhas env prot linhas
           \<lparr>mr_solicitadas = length unicos, mr_excluidas = 0, mr_protegidas = 0, mr_emAndamento = 0,
            mr_naoEncontradas = length unicos - length linhas, mr_bytes = 0\<rparr> ar)"

record camera_result =
  cm_excluidas :: nat
  cm_protegidas :: nat
  cm_emAndamento :: nat
  cm_restantes :: nat
  cm_bytes :: int

text \<open>Pages of 100 identifiers, in the order of the identifiers.\<close>

fun excluirPaginas :: "archive_env \<Rightarrow> investigation_item list \<Rightarrow> string list list \<Rightarrow> camera_result \<Rightarrow> archive \<Rightarrow> archive \<times> (delete_failure + camera_result)" where
  "excluirPaginas env items [] m ar = (ar, Inr m)"
| "excluirPaginas env items (p # ps) m ar =
     (case excluirGravacoesEscolhidas env items p ar of
        (ar', Inl e) \<Rightarrow> (ar', Inl e)
      | (ar', Inr x) \<Rightarrow> excluirPaginas env items ps
          (m\<lparr>cm_excluidas := cm_excluidas m + mr_excluidas x, cm_protegidas := cm_protegidas m + mr_protegidas x,
             cm_emAndamento := cm_emAndamento m + mr_emAndamento x, cm_bytes := cm_bytes m + mr_bytes x\<rparr>) ar')"

function chunked :: "nat \<Rightarrow> 'a list \<Rightarrow> 'a list list" where
  "chunked n xs = (if xs = [] \<or> n = 0 then [] else take n xs # chunked n (drop n xs))"
  by pat_completeness auto
termination by (relation "measure (\<lambda>(n, xs). length xs)") auto

declare chunked.simps [simp del]

definition excluirAcervoDaCamera ::
  "archive_env \<Rightarrow> investigation_item list \<Rightarrow> string \<Rightarrow> archive \<Rightarrow> archive \<times> (delete_failure + camera_result)" where
  "excluirAcervoDaCamera env items cameraId ar =
     (let ids = sort (map re_id (filter (\<lambda>r. re_cameraId r = cameraId) (ar_rows ar)))
      in case excluirPaginas env items (chunked 100 ids)
                \<lparr>cm_excluidas = 0, cm_protegidas = 0, cm_emAndamento = 0, cm_restantes = 0, cm_bytes = 0\<rparr> ar of
           (ar', Inl e) \<Rightarrow> (ar', Inl e)
         | (ar', Inr m) \<Rightarrow> (ar', Inr (m\<lparr>cm_restantes := length (filter (\<lambda>r. re_cameraId r = cameraId) (ar_rows ar'))\<rparr>)))"

end
