(* ===== verification/Retention_Guard.thy ===== *)
theory Retention_Guard
  imports Retention
begin

text \<open>
  The rest of \<open>recordings/retention.service.ts\<close> that deletes: the guard of the disk
  (\<open>checkDiskUsage\<close>), the sweep of objects without a row (\<open>cleanupOrphanCloudObjects\<close>), the cap of
  the cache of compatible copies, and what makes a derived file an orphan
  (with \<open>helpers/segmento-orfao.helper.ts\<close>). The disk is measured by a function of the archive; the
  pages a listing leads through are given by the client.
\<close>

section \<open>Freeing local space\<close>

record guardian_env =
  gn_archive :: archive_env
  gn_now :: int
  gn_rmFails :: "string \<Rightarrow> bool"
  gn_updateFails :: "string \<Rightarrow> bool"
  gn_df :: "archive \<Rightarrow> (int \<times> int) option"

text \<open>The place of an absolute path in the map of the files.\<close>

definition relOf :: "archive_env \<Rightarrow> string \<Rightarrow> string" where
  "relOf env p = relative (ae_root env) (resolve (ae_root env) p)"

fun removeTargets :: "(string \<Rightarrow> bool) \<Rightarrow> string list \<Rightarrow> files \<times> bool \<Rightarrow> files \<times> bool" where
  "removeTargets rmFails [] st = st"
| "removeTargets rmFails (p # ps) (fs, liberou) =
     (if fs p \<noteq> None \<and> \<not> rmFails p then removeTargets rmFails ps (fs(p := None), True)
      else removeTargets rmFails ps (fs, liberou))"

definition updateRow :: "string \<Rightarrow> (archive_row \<Rightarrow> archive_row) \<Rightarrow> archive \<Rightarrow> archive" where
  "updateRow i f ar = ar\<lparr>ar_rows := map (\<lambda>x. if re_id x = i then f x else x) (ar_rows ar)\<rparr>"

definition liberarEspacoLocal :: "guardian_env \<Rightarrow> archive_row \<Rightarrow> archive \<Rightarrow> archive \<times> (delete_failure + bool)" where
  "liberarEspacoLocal env r ar =
     (case ensureFileUnderRoot (gn_archive env) (re_filePath r) of
        None \<Rightarrow> (ar, Inl FileOutsideRoot)
      | Some fullPath \<Rightarrow>
          (let alvos = [fullPath, derivedThumbnailPath fullPath, buildTimelinePreviewPath fullPath,
                        compatiblePath (gn_archive env) (re_cameraId r) (re_id r)];
               (fs, liberou) = removeTargets (gn_rmFails env) (map (relOf (gn_archive env)) alvos) (ar_files ar, False);
               ar' = ar\<lparr>ar_files := fs\<rparr>
           in (if gn_updateFails env (re_id r) then ar' else updateRow (re_id r) (\<lambda>x. x\<lparr>re_localDeletedAt := Some (gn_now env)\<rparr>) ar',
               Inr liberou)))"

section \<open>The guard of the disk\<close>

definition round_js :: "rat \<Rightarrow> int" where
  "round_js r = \<lfloor>r + 1 / 2\<rfloor>"

definition diskUsagePercent :: "int \<times> int \<Rightarrow> int" where
  "diskUsagePercent d =
     (let (totalBytes, free) = d in if totalBytes > 0 then round_js (of_int (totalBytes - free) / of_int totalBytes * 100) else 0)"

definition selecionar :: "protection \<Rightarrow> (archive_row \<Rightarrow> bool) \<Rightarrow> archive \<Rightarrow> archive_row list" where
  "selecionar prot cond ar =
     take 20 (sort_key re_startedAt (filter (\<lambda>r. re_id r \<notin> set (pr_recordingIds prot) \<and> cond r) (ar_rows ar)))"

datatype modo = Liberar | Apagar

definition escolher :: "protection \<Rightarrow> bool \<Rightarrow> archive \<Rightarrow> modo \<times> archive_row list" where
  "escolher prot nuvemAtiva ar =
     (let oldest = (if nuvemAtiva
        then selecionar prot (\<lambda>r. re_cloudUploadedAt r \<noteq> None \<and> re_localDeletedAt r = None \<and> re_cloudMissingSince r = None) ar
        else [])
      in if oldest \<noteq> [] then (Liberar, oldest)
         else (Apagar, selecionar prot (\<lambda>r. nuvemAtiva \<longrightarrow> re_cloudUploadedAt r = None) ar))"

text \<open>The rows of a batch; an error is logged and does not count.\<close>

fun guardBatch :: "guardian_env \<Rightarrow> protection \<Rightarrow> modo \<Rightarrow> archive_row list \<Rightarrow> archive \<times> nat \<Rightarrow> archive \<times> nat" where
  "guardBatch env prot modo [] st = st"
| "guardBatch env prot modo (r # rs) (ar, n) =
     (case (if modo = Liberar then liberarEspacoLocal env r ar else deleteRecording (gn_archive env) prot r ar) of
        (ar', Inr True) \<Rightarrow> guardBatch env prot modo rs (ar', Suc n)
      | (ar', _) \<Rightarrow> guardBatch env prot modo rs (ar', n))"

datatype guard_end = TargetReached | NothingToDelete | NothingDeleted | NoProgress | Iterations | DiskUnreadable

fun guardLoop :: "guardian_env \<Rightarrow> protection \<Rightarrow> bool \<Rightarrow> int \<Rightarrow> nat \<Rightarrow> nat \<Rightarrow> int \<Rightarrow> int \<Rightarrow> nat \<Rightarrow> archive \<times> nat \<Rightarrow> (archive \<times> nat) \<times> guard_end" where
  "guardLoop env prot nuvemAtiva target maxNoProgress 0 current freeAntes noProgress st = (st, Iterations)"
| "guardLoop env prot nuvemAtiva target maxNoProgress (Suc iterations) current freeAntes noProgress st =
     (if current \<le> target then (st, TargetReached)
      else let (modo, oldest) = escolher prot nuvemAtiva (fst st)
        in if oldest = [] then (st, NothingToDelete)
           else let st' = guardBatch env prot modo oldest st
             in if snd st' = snd st then (st', NothingDeleted)
                else case gn_df env (fst st') of
                  None \<Rightarrow> (st', DiskUnreadable)
                | Some (totalBytes, freeDepois) \<Rightarrow>
                    if freeDepois > freeAntes
                    then guardLoop env prot nuvemAtiva target maxNoProgress iterations (diskUsagePercent (totalBytes, freeDepois)) freeDepois 0 st'
                    else if Suc noProgress \<ge> maxNoProgress then (st', NoProgress)
                    else guardLoop env prot nuvemAtiva target maxNoProgress iterations
                           (diskUsagePercent (totalBytes, freeDepois)) freeDepois (Suc noProgress) st')"

text \<open>\<open>nuvemAtiva\<close> is the answer of the count of active storages, \<open>False\<close> when it fails.\<close>

definition nuvemAtiva :: "bool \<Rightarrow> archive \<Rightarrow> bool" where
  "nuvemAtiva countFails ar \<longleftrightarrow> \<not> countFails \<and> list_ex sg_isActive (ar_storages ar)"

definition triggerPercent :: "variables \<Rightarrow> int" where
  "triggerPercent vars = env_whole vars ''RETENTION_DISK_TRIGGER_PERCENT'' 90 50 99"

definition targetPercent :: "variables \<Rightarrow> int" where
  "targetPercent vars = env_whole vars ''RETENTION_DISK_TARGET_PERCENT'' 85 40 (max 40 (triggerPercent vars - 1))"

definition maxNoProgressBatches :: "variables \<Rightarrow> nat" where
  "maxNoProgressBatches vars = nat (env_whole vars ''RETENTION_DISK_MAX_NOPROGRESS_BATCHES'' 3 1 20)"

definition checkDiskUsage :: "guardian_env \<Rightarrow> variables \<Rightarrow> protection \<Rightarrow> bool \<Rightarrow> bool \<Rightarrow> archive \<Rightarrow> archive \<times> nat" where
  "checkDiskUsage env vars prot autoCleanup countFails ar =
     (case gn_df env ar of
        None \<Rightarrow> (ar, 0)
      | Some (totalBytes, free) \<Rightarrow>
          let current = diskUsagePercent (totalBytes, free) in
          if current \<le> triggerPercent vars \<or> \<not> autoCleanup then (ar, 0)
          else fst (guardLoop env prot (nuvemAtiva countFails ar) (targetPercent vars) (maxNoProgressBatches vars)
                      100 current free 0 (ar, 0)))"

section \<open>Objects without a row\<close>

text \<open>The keys of a page: the archive and the count of objects removed.\<close>

fun sweepKeys :: "archive_env \<Rightarrow> storage \<Rightarrow> nat \<Rightarrow> string list \<Rightarrow> string list \<Rightarrow> archive \<times> nat \<Rightarrow> archive \<times> nat" where
  "sweepKeys env s teto protegidas [] st = st"
| "sweepKeys env s teto protegidas (chave # chaves) (ar, removidos) =
     (if removidos \<ge> teto then (ar, removidos)
      else if chave \<in> set protegidas then sweepKeys env s teto protegidas chaves (ar, removidos)
      else if ae_deleteFails env (bucketOf s) (fullKey (sr_prefix s) chave)
      then sweepKeys env s teto protegidas chaves (ar, removidos)
      else sweepKeys env s teto protegidas chaves (removeObject s chave ar, Suc removidos))"

definition comDono :: "storage \<Rightarrow> string list \<Rightarrow> archive \<Rightarrow> string list" where
  "comDono s chaves ar =
     filter (\<lambda>k. k \<noteq> []) (List.map_filter re_cloudKey
       (filter (\<lambda>r. re_cloudStorageId r = sr_id s \<and> (\<exists>k\<in>set chaves. re_cloudKey r = Some k)) (ar_rows ar)))"

definition donosNoBanco :: "storage \<Rightarrow> archive \<Rightarrow> nat" where
  "donosNoBanco s ar = length (filter (\<lambda>r. re_cloudStorageId r = sr_id s \<and> re_cloudKey r \<noteq> None) (ar_rows ar))"

text \<open>The pages of one storage, \<open>None\<close> for a listing that fails: nothing is removed before a key was
  recognised, when the database has rows in the storage.\<close>

fun sweepPages :: "archive_env \<Rightarrow> storage \<Rightarrow> nat \<Rightarrow> string list option list \<Rightarrow> bool \<Rightarrow> archive \<times> nat \<Rightarrow> archive \<times> nat" where
  "sweepPages env s teto [] formatoProvado st = st"
| "sweepPages env s teto (None # pages) formatoProvado st = st"
| "sweepPages env s teto (Some page # pages) formatoProvado (ar, removidos) =
     (let chaves = filter (\<lambda>k. k \<noteq> []) page
      in if chaves = []
         then if removidos < teto then sweepPages env s teto pages formatoProvado (ar, removidos) else (ar, removidos)
         else let protegidas = comDono s chaves ar; provado = (formatoProvado \<or> protegidas \<noteq> [])
           in if \<not> provado \<and> donosNoBanco s ar > 0 then (ar, removidos)
              else let (ar', removidos') = sweepKeys env s teto protegidas chaves (ar, removidos)
                in if removidos' < teto then sweepPages env s teto pages provado (ar', removidos') else (ar', removidos'))"

fun sweepStorages :: "archive_env \<Rightarrow> nat \<Rightarrow> (storage \<Rightarrow> string list option list) \<Rightarrow> storage list \<Rightarrow> archive \<times> nat \<Rightarrow> archive \<times> nat" where
  "sweepStorages env teto pages [] st = st"
| "sweepStorages env teto pages (s # ss) (ar, removidos) =
     (if removidos \<ge> teto then (ar, removidos)
      else sweepStorages env teto pages ss (sweepPages env s teto (pages s) False (ar, removidos)))"

definition cleanupOrphanCloudObjects :: "archive_env \<Rightarrow> variables \<Rightarrow> (storage \<Rightarrow> string list option list) \<Rightarrow> archive \<Rightarrow> archive \<times> nat" where
  "cleanupOrphanCloudObjects env vars pages ar =
     (let teto = nat (env_whole vars ''RETENTION_CLOUD_ORPHAN_MAX_PER_CYCLE'' 5000 0 100000)
      in if \<not> fst (envBool (vars ''RETENTION_CLOUD_ORPHAN_SWEEP'') True) \<or> teto = 0 then (ar, 0)
         else sweepStorages env teto pages (todosOsStorages env ar) (ar, 0))"

section \<open>Derived files\<close>

definition IDADE_SEGMENTO_ORFAO_MS_PADRAO :: rat where "IDADE_SEGMENTO_ORFAO_MS_PADRAO = 6 * 60 * 60 * 1000"

definition ends_in :: "string \<Rightarrow> string \<Rightarrow> bool" where
  "ends_in suf s \<longleftrightarrow> length suf \<le> length s \<and> drop (length s - length suf) s = suf"

text \<open>\<open>None\<close> is an instant that is not a finite number; the age the files may have, too.\<close>

definition segmentoOrfaoObsoleto :: "string \<Rightarrow> rat option \<Rightarrow> rat option \<Rightarrow> rat option \<Rightarrow> bool" where
  "segmentoOrfaoObsoleto nome mtimeMs agoraMs maxIdadeMs =
     (if \<not> ends_in ''.ts'' (js_lower nome) then False
      else case (mtimeMs, agoraMs) of
        (Some m, Some a) \<Rightarrow>
          let idade = a - m in if idade < 0 then False else (case maxIdadeMs of Some x \<Rightarrow> idade \<ge> x | None \<Rightarrow> False)
      | _ \<Rightarrow> False)"

record expected_files =
  ex_thumbnails :: "string list"
  ex_previews :: "string list"
  ex_compatible :: "string list"

datatype derived_kind = OrphanThumbnail | OrphanCompatible | OrphanSegment

text \<open>What \<open>walk\<close> removes a file as, in the directory of a camera or in the cache of copies.\<close>

definition derivedOrphan :: "expected_files \<Rightarrow> bool \<Rightarrow> string \<Rightarrow> string \<Rightarrow> rat option \<Rightarrow> rat option \<Rightarrow> rat option \<Rightarrow> derived_kind option" where
  "derivedOrphan expected compatible nome fullPath mtimeMs agoraMs maxIdadeMs =
     (if ends_in ''.thumb.jpg'' nome \<and> fullPath \<notin> set (ex_thumbnails expected) then Some OrphanThumbnail
      else if ends_in ''.preview.jpg'' nome \<and> fullPath \<notin> set (ex_previews expected) then Some OrphanThumbnail
      else if compatible \<and> ends_in ''.mp4'' nome \<and> fullPath \<notin> set (ex_compatible expected) then Some OrphanCompatible
      else if \<not> compatible \<and> ends_in ''.ts'' (js_lower nome) \<and> segmentoOrfaoObsoleto nome mtimeMs agoraMs maxIdadeMs
      then Some OrphanSegment else None)"

record cached_copy =
  cc_path :: string
  cc_size :: int
  cc_mtimeMs :: rat

fun removeOldest :: "(string \<Rightarrow> bool) \<Rightarrow> int \<Rightarrow> cached_copy list \<Rightarrow> int \<Rightarrow> string list" where
  "removeOldest rmFails maxBytes [] totalBytes = []"
| "removeOldest rmFails maxBytes (f # fs) totalBytes =
     (if totalBytes \<le> maxBytes then []
      else if rmFails (cc_path f) then removeOldest rmFails maxBytes fs totalBytes
      else cc_path f # removeOldest rmFails maxBytes fs (totalBytes - cc_size f))"

definition limitarCacheCompativel :: "(string \<Rightarrow> bool) \<Rightarrow> int \<Rightarrow> cached_copy list \<Rightarrow> string list" where
  "limitarCacheCompativel rmFails maxBytes arquivos =
     (let totalBytes = sum_list (map cc_size arquivos)
      in if totalBytes \<le> maxBytes then [] else removeOldest rmFails maxBytes (sort_key cc_mtimeMs arquivos) totalBytes)"

end
