(* ===== verification/Cloud_Offload.thy ===== *)
theory Cloud_Offload
  imports Retention_Guard
begin

text \<open>
  \<open>cloud-storage/cloud-offload.service.ts\<close>: the cycle that sends the recordings to the active storage,
  confirms each object, removes the local files past the window and checks that the objects sent are
  still there. The workers of the pool take a recording each and change only its row and its object;
  the model runs them in the order of the queue.
\<close>

section \<open>State and surroundings\<close>

text \<open>
  \<open>of_arrives k c\<close> is what the bucket holds after the bytes \<open>c\<close> were sent under \<open>k\<close>; a \<open>HEAD\<close> fails
  with a status and a code, or tells the length when the store reports it.
\<close>

record offload_env =
  of_archive :: archive_env
  of_now :: int
  of_vars :: variables
  of_setting :: setting
  of_listFails :: "storage \<Rightarrow> bool"
  of_putFails :: "string \<Rightarrow> bool"
  of_arrives :: "string \<Rightarrow> string \<Rightarrow> string"
  of_headFails :: "string \<Rightarrow> (nat \<times> string) option"
  of_reportsLength :: bool
  of_unlinkFails :: "string \<Rightarrow> bool"
  of_updateFails :: "string \<Rightarrow> bool"
  of_countFails :: bool

record offload_state =
  os_archive :: archive
  os_running :: bool
  os_inverificaveis :: "string list"
  os_ultimaVerificacao :: "int option"

definition head :: "offload_env \<Rightarrow> storage \<Rightarrow> string \<Rightarrow> archive \<Rightarrow> http_answer" where
  "head env s key ar =
     (case of_headFails env key of
        Some (status, code) \<Rightarrow> HttpError status code
      | None \<Rightarrow> (case objectOf s key ar of
          Some c \<Rightarrow> HttpOk (if of_reportsLength env then Digits (length c) else NoHeader)
        | None \<Rightarrow> HttpError 404 ''NoSuchKey''))"

definition putObject :: "offload_env \<Rightarrow> storage \<Rightarrow> string \<Rightarrow> string \<Rightarrow> archive \<Rightarrow> archive" where
  "putObject env s key content ar =
     ar\<lparr>ar_objects := (ar_objects ar)(bucketOf s := (ar_objects ar (bucketOf s))(fullKey (sr_prefix s) key \<mapsto> of_arrives env key content))\<rparr>"

section \<open>Sending one recording\<close>

text \<open>The file of a recording: its place in the map and its bytes.\<close>

definition localFile :: "archive_env \<Rightarrow> archive_row \<Rightarrow> archive \<Rightarrow> (string \<times> string) option" where
  "localFile env r ar =
     (case ensureFileUnderRoot env (re_filePath r) of
        None \<Rightarrow> None
      | Some caminho \<Rightarrow> (case ar_files ar (relOf env caminho) of
          Some (Bytes c) \<Rightarrow> Some (relOf env caminho, c) | _ \<Rightarrow> None))"

datatype sent = NotSent | Unverifiable | Confirmed nat

text \<open>Up to the confirmation: the bytes are sent and the object is asked for.\<close>

definition subirEConfirmar :: "offload_env \<Rightarrow> storage \<Rightarrow> archive_row \<Rightarrow> archive \<Rightarrow> archive \<times> sent" where
  "subirEConfirmar env s rec ar =
     (case localFile (of_archive env) rec ar of
        None \<Rightarrow> (ar, NotSent)
      | Some (_, conteudo) \<Rightarrow>
          if conteudo = [] then (ar, NotSent)
          else let key = buildCloudKey (re_id rec) (re_cameraId rec) (re_filePath rec) in
            if of_putFails env key then (ar, NotSent)
            else let ar1 = putObject env s key conteudo ar in
              (case headObject (head env s key ar1) of
                 Inl _ \<Rightarrow> (ar1, NotSent)
               | Inr confirmado \<Rightarrow>
                   (case avaliarConfirmacao confirmado (length conteudo) of
                      None \<Rightarrow> (ar1, Confirmed (length conteudo))
                    | Some Inverificavel \<Rightarrow> (ar1, Unverifiable)
                    | Some _ \<Rightarrow> (ar1, NotSent))))"

text \<open>The stamp: it fails when the row is no longer there.\<close>

definition carimbar :: "offload_env \<Rightarrow> storage \<Rightarrow> archive_row \<Rightarrow> archive \<Rightarrow> archive option" where
  "carimbar env s rec ar =
     (if of_updateFails env (re_id rec) \<or> re_id rec \<notin> re_id ` set (ar_rows ar) then None
      else Some (updateRow (re_id rec) (\<lambda>x. x\<lparr>re_cloudKey := Some (buildCloudKey (re_id rec) (re_cameraId rec) (re_filePath rec)),
             re_cloudUploadedAt := Some (of_now env), re_cloudStorageId := sr_id s\<rparr>) ar))"

definition subirUma :: "offload_env \<Rightarrow> storage \<Rightarrow> archive_row \<Rightarrow> archive \<times> string list \<Rightarrow> (archive \<times> string list) \<times> nat option" where
  "subirUma env s rec st =
     (let (ar, inv) = st in
      case subirEConfirmar env s rec ar of
        (ar1, NotSent) \<Rightarrow> ((ar1, inv), None)
      | (ar1, Unverifiable) \<Rightarrow> ((ar1, inv @ [re_id rec]), None)
      | (ar1, Confirmed n) \<Rightarrow> (case carimbar env s rec ar1 of
          None \<Rightarrow> ((ar1, inv), None) | Some ar2 \<Rightarrow> ((ar2, inv), Some n)))"

fun subirFila :: "offload_env \<Rightarrow> storage \<Rightarrow> archive_row list \<Rightarrow> (archive \<times> string list) \<times> nat \<times> nat \<times> nat \<Rightarrow> (archive \<times> string list) \<times> nat \<times> nat \<times> nat" where
  "subirFila env s [] acc = acc"
| "subirFila env s (rec # recs) (st, uploaded, failed, bytes) =
     (case subirUma env s rec st of
        (st', Some n) \<Rightarrow> subirFila env s recs (st', Suc uploaded, failed, bytes + n)
      | (st', None) \<Rightarrow> subirFila env s recs (st', uploaded, Suc failed, bytes))"

section \<open>The queue\<close>

definition pendente :: "storage_policy \<Rightarrow> archive_row \<Rightarrow> bool" where
  "pendente policy r \<longleftrightarrow> re_cloudKey r = None \<and> re_triggerMode r \<in> mode_name ` set (enabledTriggerModes policy)"

definition lote :: "variables \<Rightarrow> nat \<Rightarrow> nat" where
  "lote vars pendentesTotal =
     (let batch = nat (env_whole vars ''CLOUD_OFFLOAD_BATCH'' 25 1 500);
          loteMaximo = nat (env_whole vars ''CLOUD_OFFLOAD_BATCH_MAX'' 200 1 2000)
      in if pendentesTotal > batch * 2 then min loteMaximo (max batch ((pendentesTotal + 3) div 4)) else batch)"

definition uploadPending :: "offload_env \<Rightarrow> storage \<Rightarrow> archive \<times> string list \<Rightarrow> (archive \<times> string list) \<times> nat \<times> nat \<times> nat" where
  "uploadPending env s st =
     (let policy = getPolicy (of_setting env); (ar, inv) = st in
      if \<not> sp_enabled policy \<or> enabledTriggerModes policy = [] then (st, 0, 0, 0)
      else let pendentes = filter (pendente policy) (ar_rows ar);
               escolhidas = take (lote (of_vars env) (if of_countFails env then 0 else length pendentes)) (sort_key re_startedAt pendentes);
               fila = filter (\<lambda>r. re_id r \<notin> set inv) escolhidas
           in subirFila env s fila (st, 0, 0, 0))"

section \<open>Removing the local files\<close>

definition podavel :: "int \<Rightarrow> archive_row \<Rightarrow> bool" where
  "podavel corte r \<longleftrightarrow> re_cloudKey r \<noteq> None \<and> (case re_cloudUploadedAt r of Some t \<Rightarrow> t < corte | None \<Rightarrow> False) \<and>
     re_localDeletedAt r = None \<and> re_cloudMissingSince r = None"

text \<open>A file that is already gone is stamped too; a failure of the stamp leaves the loop (\<open>None\<close>).\<close>

fun podarFila :: "offload_env \<Rightarrow> archive_row list \<Rightarrow> archive \<times> nat \<Rightarrow> (archive \<times> nat) \<times> bool" where
  "podarFila env [] st = (st, True)"
| "podarFila env (rec # recs) (ar, apagadas) =
     (case ensureFileUnderRoot (of_archive env) (re_filePath rec) of
        None \<Rightarrow> podarFila env recs (ar, apagadas)
      | Some caminho \<Rightarrow>
          (let p = relOf (of_archive env) caminho in
           if ar_files ar p \<noteq> None \<and> of_unlinkFails env p then podarFila env recs (ar, apagadas)
           else let ar1 = ar\<lparr>ar_files := (ar_files ar)(p := None)\<rparr> in
             if of_updateFails env (re_id rec) \<or> re_id rec \<notin> re_id ` set (ar_rows ar1) then ((ar1, apagadas), False)
             else podarFila env recs
               (updateRow (re_id rec) (\<lambda>x. x\<lparr>re_localDeletedAt := Some (of_now env)\<rparr>) ar1, Suc apagadas)))"

definition pruneUploaded :: "offload_env \<Rightarrow> storage \<Rightarrow> archive \<Rightarrow> (archive \<times> nat) \<times> bool" where
  "pruneUploaded env cfg ar =
     (let policy = getPolicy (of_setting env); direto = sr_mount cfg in
      if keepLocalCopy policy \<and> \<not> direto then ((ar, 0), True)
      else let janelaHoras = (if direto then 0 else sr_localWindowHours cfg);
               corte = of_now env - janelaHoras * 3600000
           in podarFila env (take 200 (sort_key re_startedAt (filter (podavel corte) (ar_rows ar)))) (ar, 0))"

section \<open>Checking what was sent\<close>

record watch_counts =
  wc_conferidas :: nat
  wc_sumidas :: nat
  wc_recuperadas :: nat

definition stampVerified :: "offload_env \<Rightarrow> string \<Rightarrow> int option \<Rightarrow> archive \<Rightarrow> archive" where
  "stampVerified env i missing ar =
     (if of_updateFails env i then ar
      else updateRow i (\<lambda>x. x\<lparr>re_cloudVerifiedAt := Some (of_now env), re_cloudMissingSince := missing\<rparr>) ar)"

fun verificarGrupo :: "offload_env \<Rightarrow> storage \<Rightarrow> archive_row list \<Rightarrow> archive \<times> watch_counts \<Rightarrow> archive \<times> watch_counts" where
  "verificarGrupo env s [] st = st"
| "verificarGrupo env s (rec # recs) (ar, w) =
     (case headObject (head env s (or_empty (re_cloudKey rec)) ar) of
        Inl _ \<Rightarrow> verificarGrupo env s recs (ar, w)
      | Inr c \<Rightarrow>
          if \<not> verificavel c then verificarGrupo env s recs (ar, w)
          else if cf_exists c
          then verificarGrupo env s recs (stampVerified env (re_id rec) None ar,
                 w\<lparr>wc_conferidas := Suc (wc_conferidas w),
                   wc_recuperadas := wc_recuperadas w + (if re_cloudMissingSince rec \<noteq> None then 1 else 0)\<rparr>)
          else verificarGrupo env s recs
                 (stampVerified env (re_id rec) (case re_cloudMissingSince rec of Some t \<Rightarrow> Some t | None \<Rightarrow> Some (of_now env)) ar,
                  w\<lparr>wc_conferidas := Suc (wc_conferidas w),
                    wc_sumidas := wc_sumidas w + (if re_cloudMissingSince rec \<noteq> None then 0 else 1)\<rparr>))"

text \<open>A storage that cannot be resolved, or whose listing fails, is passed over.\<close>

fun verificarStorages :: "offload_env \<Rightarrow> string option list \<Rightarrow> archive_row list \<Rightarrow> archive \<times> watch_counts \<Rightarrow> archive \<times> watch_counts" where
  "verificarStorages env [] candidatas st = st"
| "verificarStorages env (i # is) candidatas (ar, w) =
     (case storageDaGravacao (of_archive env) i ar of
        None \<Rightarrow> verificarStorages env is candidatas (ar, w)
      | Some s \<Rightarrow>
          if of_listFails env s then verificarStorages env is candidatas (ar, w)
          else verificarStorages env is candidatas
                 (verificarGrupo env s (filter (\<lambda>r. re_cloudStorageId r = i) candidatas) (ar, w)))"

definition candidatasDaVigilancia :: "offload_env \<Rightarrow> archive \<Rightarrow> archive_row list" where
  "candidatasDaVigilancia env ar =
     take (nat (env_whole (of_vars env) ''CLOUD_VERIFY_BATCH'' 200 10 2000))
       (sort_key (\<lambda>r. (case re_cloudVerifiedAt r of None \<Rightarrow> (0 :: nat, 0) | Some t \<Rightarrow> (1, t), re_startedAt r))
         (filter (\<lambda>r. re_cloudKey r \<noteq> None \<and> re_cloudUploadedAt r \<noteq> None) (ar_rows ar)))"

definition verificarAcervoNaNuvem :: "offload_env \<Rightarrow> archive \<times> int option \<Rightarrow> (archive \<times> int option) \<times> watch_counts option" where
  "verificarAcervoNaNuvem env st =
     (let (ar, ultima) = st; intervaloMs = env_whole (of_vars env) ''CLOUD_VERIFY_INTERVAL_MINUTES'' 60 5 1440 * 60000 in
      if (case ultima of Some t \<Rightarrow> t \<noteq> 0 \<and> of_now env - t < intervaloMs | None \<Rightarrow> False) then (st, None)
      else let candidatas = candidatasDaVigilancia env ar;
               (ar', w) = verificarStorages env (uniq (map re_cloudStorageId candidatas)) candidatas
                 (ar, \<lparr>wc_conferidas = 0, wc_sumidas = 0, wc_recuperadas = 0\<rparr>)
           in ((ar', Some (of_now env)), Some w))"

section \<open>A cycle\<close>

datatype offload_result =
    Running | NoStorage | PreflightFailed
  | Done nat nat nat nat
  | PruneFailed

text \<open>\<open>runOnce\<close> with the storage for writing the resolver answered: uploaded, removed, failed, bytes.\<close>

definition runOnce :: "offload_env \<Rightarrow> storage option \<Rightarrow> offload_state \<Rightarrow> offload_state \<times> offload_result" where
  "runOnce env destino st =
     (if os_running st then (st, Running)
      else case destino of
        None \<Rightarrow> (st, NoStorage)
      | Some s \<Rightarrow>
          if of_listFails env s then (st, PreflightFailed)
          else let ((ar1, inv), uploaded, failed, bytes) = uploadPending env s (os_archive st, os_inverificaveis st);
                   ((ar2, apagadas), completa) = pruneUploaded env s ar1
               in if \<not> completa then (st\<lparr>os_archive := ar2, os_inverificaveis := inv\<rparr>, PruneFailed)
                  else let ((ar3, ultima), _) = verificarAcervoNaNuvem env (ar2, os_ultimaVerificacao st)
                       in (st\<lparr>os_archive := ar3, os_inverificaveis := inv, os_ultimaVerificacao := ultima\<rparr>,
                           Done uploaded apagadas failed bytes))"

end
