(* ===== verification/Archive_Frame.thy ===== *)
theory Archive_Frame
  imports Cloud_Offload
begin

text \<open>
  The operations of the retention that delete are made of four: \<open>deleteRecording\<close>, \<open>deleteClip\<close>,
  \<open>liberarEspacoLocal\<close> and, for the sweep, the removal of an object. \<open>archive_relation\<close> is the contract
  of a relation between the archive before and after that those four respect; what is proved inside
  it is that the passes, the guard and the deletions asked by hand respect it as a whole.
\<close>

text \<open>\<open>ok\<close> is what the relation needs of the rows the operations are given, \<open>fine\<close> of the archive they
  are read from and \<open>allowed\<close> of the protection they obey.\<close>

locale archive_relation =
  fixes rel :: "archive \<Rightarrow> archive \<Rightarrow> bool" and ok :: "archive_row \<Rightarrow> bool" and fine :: "archive \<Rightarrow> bool"
    and allowed :: "protection \<Rightarrow> bool"
  assumes stays: "rel ar ar"
    and follows: "rel ar a \<Longrightarrow> rel a b \<Longrightarrow> rel ar b"
    and keeps_fine: "rel ar a \<Longrightarrow> fine ar \<Longrightarrow> fine a"
    and rows: "fine ar \<Longrightarrow> r \<in> set (ar_rows ar) \<Longrightarrow> ok r"
    and recording: "ok r \<Longrightarrow> allowed prot \<Longrightarrow> deleteRecording env prot r ar = (ar', res) \<Longrightarrow> rel ar ar'"
    and clip: "allowed prot \<Longrightarrow> cl_id c \<notin> set (pr_clipIds prot) \<Longrightarrow> deleteClip env c ar = (ar', res') \<Longrightarrow> rel ar ar'"
    and local_space: "liberarEspacoLocal genv r ar = (ar', res'') \<Longrightarrow> rel ar ar'"
begin

lemma page:
  assumes "\<And>r s s' d. good r \<Longrightarrow> h r s = (s', d) \<Longrightarrow> rel (fst s) (fst s')" "\<forall>r\<in>set rs. good r"
  shows "rel (fst s) (fst (fst (handlePage h rs (s, skip, budget))))"
  using assms(2)
proof (induction rs arbitrary: s skip budget)
  case (Cons r rs)
  obtain s' d where hr: "h r s = (s', d)" by fastforce
  have "rel (fst s') (fst (fst (handlePage h rs (s', x, y))))" for x y by (rule Cons.IH) (use Cons.prems in simp)
  moreover have "rel (fst s) (fst s')" by (rule assms(1) [OF _ hr]) (use Cons.prems in simp)
  ultimately have "rel (fst s) (fst (fst (handlePage h rs (s', x, y))))" for x y using follows by blast
  then show ?case using hr by (cases d) simp_all
qed (simp add: stays)

lemma drained:
  assumes body: "\<And>r s s' d. good r \<Longrightarrow> h r s = (s', d) \<Longrightarrow> rel (fst s) (fst s')"
    and asked: "\<And>s. fine (fst s) \<Longrightarrow> \<forall>r\<in>set (query s). good r"
    and "drain query h batchSize (s, skip, budget) = Some (s', left)" "fine (fst s)"
  shows "rel (fst s) (fst s')"
proof -
  let ?P = "\<lambda>q g (b :: nat) x y. q = query \<longrightarrow> g = h \<longrightarrow> (fine (fst (fst x))) \<longrightarrow> rel (fst (fst x)) (fst (fst y))"
  have "?P q g b x y"
    if ih: "\<And>q g b x y. dr q g b x = Some y \<Longrightarrow> ?P q g b x y" and run: "(case x of (s, skip, budget) \<Rightarrow>
         if budget = 0 then Some (s, budget)
         else let taken = min b budget; page = take taken (drop skip (q s))
           in if page = [] then Some (s, budget)
              else case handlePage g page (s, skip, budget) of (s', skip', budget') \<Rightarrow>
                if length page < taken then Some (s', budget') else dr q g b (s', skip', budget')) = Some y" for dr q g b x y
  proof (intro impI)
    assume qh: "q = query" "g = h" and start: "fine (fst (fst x))"
    obtain s skip budget where x: "x = (s, skip, budget)" by (cases x)
    let ?page = "take (min b budget) (drop skip (query s))"
    have "\<forall>r\<in>set ?page. good r" using asked [of s] start x by (auto dest!: in_set_takeD in_set_dropD)
    note one = page [where h = h and s = s and rs = ?page and skip = skip and budget = budget, OF body this]
    obtain s1 k1 b1 where p: "handlePage h ?page (s, skip, budget) = (s1, k1, b1)" by (metis prod_cases3)
    have step: "rel (fst s) (fst s1)" using one p by simp
    have ok1: "fine (fst s1)" using keeps_fine [OF step] start x by simp
    consider "y = (s, budget)" | "y = (s1, b1)" | "dr query h b (s1, k1, b1) = Some y"
      using run unfolding x prod.case Let_def qh p by (metis option.inject)
    then show "rel (fst (fst x)) (fst (fst y))"
    proof cases
      case 3
      then show ?thesis using ih [OF 3] follows [OF step] x ok1 by simp
    qed (use x step stays in auto)
  qed
  note step = this
  have "?P query h batchSize (s, skip, budget) (s', left)"
    by (rule drain.raw_induct [where xa = "(((query, h), batchSize), (s, skip, budget))" and P = ?P, unfolded prod.case])
      (rule step, assumption, assumption, rule assms(3))
  then show ?thesis using assms(4) by simp
qed

lemma expiry_of_row: "ok r \<Longrightarrow> allowed (rt_protection env) \<Longrightarrow> expireRecording env w r s = (s', d) \<Longrightarrow> rel (fst s) (fst s')"
proof (cases s)
  case (Pair ar res)
  obtain ar' d' where del: "deleteRecording (rt_archive env) (rt_protection env) r ar = (ar', d')" by fastforce
  assume ok: "ok r" "allowed (rt_protection env)" and "expireRecording env w r s = (s', d)"
  then have "fst s' = ar \<or> fst s' = ar'" using Pair del
    by (auto simp: expireRecording_def split: if_splits sum.splits bool.splits)
  then show ?thesis using Pair stays recording [OF ok del] by auto
qed

lemma expiry_of_clip: "allowed (rt_protection env) \<Longrightarrow> expireClip env c s = (s', d) \<Longrightarrow> rel (fst s) (fst s')"
proof (cases s)
  case (Pair ar res)
  obtain ar' d' where del: "deleteClip (rt_archive env) c ar = (ar', d')" by fastforce
  assume ok: "allowed (rt_protection env)" and "expireClip env c s = (s', d)"
  then have "fst s' = ar \<or> (cl_id c \<notin> set (pr_clipIds (rt_protection env)) \<and> fst s' = ar')" using Pair del
    by (auto simp: expireClip_def split: if_splits sum.splits)
  then show ?thesis using Pair stays clip [OF ok _ del] by auto
qed

lemma asked_rows: "fine (fst s) \<Longrightarrow> \<forall>r\<in>set (expiryQuery w s). ok r"
  by (simp add: expiryQuery_def rows)

lemma expiry:
  assumes "expireRecordingsInBatches env b gs st budget = Some (st', left)" "fine (fst st)" "allowed (rt_protection env)"
  shows "rel (fst st) (fst st')"
  using assms
proof (induction gs arbitrary: st budget)
  case (Cons g gs)
  show ?case
  proof (cases "budget = 0")
    case False
    then obtain s1 b1 where g: "expireGroup env b g st budget = Some (s1, b1)"
      and rest: "expireRecordingsInBatches env b gs s1 b1 = Some (st', left)"
      using Cons.prems by (auto split: option.splits)
    note run = g [unfolded expireGroup_def Let_def]
    have "rel (fst (if tt_enabled (rt_policy env) then (fst st, x) else st)) (fst s1)"
      if "drain (expiryQuery w) (expireRecording env v) b (if tt_enabled (rt_policy env) then (fst st, x) else st, 0, budget) = Some (s1, b1)" for v w x
      by (rule drained [where good = ok, OF expiry_of_row asked_rows that]) (use Cons.prems(2,3) in auto)
    from this [OF run] have one: "rel (fst st) (fst s1)" by (simp split: if_splits)
    show ?thesis using follows [OF one Cons.IH [OF rest keeps_fine [OF one Cons.prems(2)] Cons.prems(3)]] .
  qed (use Cons.prems stays in auto)
qed (auto simp: stays)

lemma clips_expiry:
  assumes "expireClipsInBatches env b gs st budget = Some (st', left)" "fine (fst st)" "allowed (rt_protection env)"
  shows "rel (fst st) (fst st')"
  using assms
proof (induction gs arbitrary: st budget)
  case (Cons g gs)
  then obtain s1 b1 where g: "drain (clipQuery g (rt_now env - rg_days g * DAY_MS)) (expireClip env) b (st, 0, budget) = Some (s1, b1)"
    and rest: "expireClipsInBatches env b gs s1 b1 = Some (st', left)" by (auto split: option.splits)
  have one: "rel (fst st) (fst s1)"
    by (rule drained [where good = "\<lambda>_. True", OF _ _ g Cons.prems(2)]) (auto intro: expiry_of_clip Cons.prems(3))
  show ?case using follows [OF one Cons.IH [OF rest keeps_fine [OF one Cons.prems(2)] Cons.prems(3)]] .
qed (auto simp: stays)

lemma by_hand:
  assumes "excluirLinhas env prot rs m ar = (ar', res)" "\<forall>r\<in>set rs. ok r" "allowed prot"
  shows "rel ar ar'"
  using assms
proof (induction rs arbitrary: m ar)
  case (Cons r rs)
  obtain a1 d where del: "deleteRecording env prot r ar = (a1, d)" by fastforce
  have one: "rel ar a1" using recording [OF _ Cons.prems(3) del] Cons.prems(2) by simp
  consider "ar' = a1" | m' where "excluirLinhas env prot rs m' ar = (ar', res)" | m' where "excluirLinhas env prot rs m' a1 = (ar', res)"
    using Cons.prems(1) del by (auto split: if_splits sum.splits bool.splits)
  then show ?case
  proof cases
    case 3
    then show ?thesis using follows [OF one] Cons.IH Cons.prems(2,3) by simp
  qed (use Cons.IH Cons.prems(2,3) one in auto)
qed (auto simp: stays)

lemma chosen: "excluirGravacoesEscolhidas env items ids ar = (ar', res) \<Longrightarrow> fine ar \<Longrightarrow> (\<And>cs. allowed (getProtectionSets items cs)) \<Longrightarrow> rel ar ar'"
  by (auto simp: excluirGravacoesEscolhidas_def Let_def intro!: by_hand dest: rows)

lemma pages_by_hand:
  assumes "excluirPaginas env items ps m ar = (ar', res)" "fine ar" "\<And>cs. allowed (getProtectionSets items cs)"
  shows "rel ar ar'"
  using assms(1,2)
proof (induction ps arbitrary: m ar)
  case (Cons p ps)
  obtain a1 d where del: "excluirGravacoesEscolhidas env items p ar = (a1, d)" by fastforce
  note one = chosen [OF del Cons.prems(2) assms(3)]
  consider "ar' = a1" | m' where "excluirPaginas env items ps m' a1 = (ar', res)"
    using Cons.prems(1) del by (auto split: sum.splits)
  then show ?case using follows [OF one] Cons.IH keeps_fine [OF one Cons.prems(2)] one by cases auto
qed (auto simp: stays)

lemma of_camera:
  assumes "excluirAcervoDaCamera env items cam ar = (ar', res)" "fine ar" "\<And>cs. allowed (getProtectionSets items cs)"
  shows "rel ar ar'"
proof -
  obtain ps m a1 d where p: "excluirPaginas env items ps m ar = (a1, d)" "ar' = a1"
    using assms(1) by (fastforce simp: excluirAcervoDaCamera_def Let_def split: prod.splits sum.splits)
  then show ?thesis using pages_by_hand assms(2,3) by blast
qed

lemma batch: "\<forall>r\<in>set rs. ok r \<Longrightarrow> allowed prot \<Longrightarrow> rel (fst st) (fst (guardBatch env prot modo rs st))"
proof (induction rs arbitrary: st)
  case (Cons r rs)
  obtain ar n where st: "st = (ar, n)" by (cases st)
  obtain a1 d where one: "(if modo = Liberar then liberarEspacoLocal env r ar else deleteRecording (gn_archive env) prot r ar) = (a1, d)"
    by fastforce
  have "rel ar a1" using one recording [of r] local_space Cons.prems by (cases "modo = Liberar") auto
  moreover have "rel a1 (fst (guardBatch env prot modo rs (a1, n')))" for n' using Cons.IH [of "(a1, n')"] Cons.prems by simp
  ultimately have "rel ar (fst (guardBatch env prot modo rs (a1, n')))" for n' using follows by blast
  then show ?case using st one by (auto split: sum.splits bool.splits)
qed (simp add: stays)

lemma chosen_by_guard: "fine ar \<Longrightarrow> escolher prot nuvem ar = (modo, rs) \<Longrightarrow> \<forall>r\<in>set rs. ok r"
  by (auto simp: escolher_def selecionar_def Let_def split: if_splits dest!: in_set_takeD intro: rows)

lemma guard_loop:
  assumes "fine (fst st)" "allowed prot"
  shows "rel (fst st) (fst (fst (guardLoop env prot nuvem target maxNo its current free no st)))"
  using assms
proof (induction its arbitrary: current free no st)
  case (Suc its)
  obtain modo oldest where e: "escolher prot nuvem (fst st) = (modo, oldest)" by fastforce
  let ?st' = "guardBatch env prot modo oldest st"
  have one: "rel (fst st) (fst ?st')" by (rule batch) (rule chosen_by_guard [OF Suc.prems(1) e], rule Suc.prems(2))
  have "rel (fst st) (fst (fst (guardLoop env prot nuvem target maxNo its c f k ?st')))" for c f k
    using follows [OF one Suc.IH [OF keeps_fine [OF one Suc.prems(1)] Suc.prems(2)]] .
  then show ?case using e one stays by (auto simp: Let_def split: option.splits)
qed (simp add: stays)

lemma disk_guard:
  assumes "checkDiskUsage env vars prot auto countFails ar = (ar', n)" "fine ar" "allowed prot"
  shows "rel ar ar'"
proof -
  consider "ar' = ar" | nuvem target maxNo its current free where
    "ar' = fst (fst (guardLoop env prot nuvem target maxNo its current free 0 (ar, 0)))"
    using assms(1) by (auto simp: checkDiskUsage_def Let_def split: option.splits if_splits) (metis fst_conv)
  then show ?thesis using guard_loop [of "(ar, 0)"] assms(2,3) stays by cases auto
qed

end

end
