(* ===== verification/Retention_Properties.thy ===== *)
theory Retention_Properties
  imports Retention
begin

text \<open>
  What the retention deletes: the condition sent to the database is the rule applied in memory; a
  pass over the groups ends, whatever the size of its pages, and deletes exactly the recordings
  whose camera's cut has passed, except the protected ones and the ones it reports as failed;
  deletions asked by hand account for every recording.
\<close>

section \<open>The rule and the filter\<close>

lemma DAY_MS_pos [simp]: "DAY_MS > 0"
  by (simp add: DAY_MS_def)

lemma window_ordered: "rw_allDays (resolveRetentionWindow days policy) \<le> rw_motionDays (resolveRetentionWindow days policy)"
  by (simp add: resolveRetentionWindow_def Let_def)

lemma readMotionScore_0: "readMotionScore hasColumn r = 0 \<longleftrightarrow> hasColumn \<and> re_motionScore r = Some 0"
  by (auto simp: readMotionScore_def MOTION_SCORE_UNKNOWN_def split: option.splits if_splits)

lemma filter_is_rule:
  assumes "rw_allDays w \<le> rw_motionDays w"
  shows "where_matches (buildExpiryWhere hasColumn g w now) r \<longleftrightarrow>
    filter_matches (rg_filter g) (re_cameraId r) \<and>
    isExpiredByAge (re_startedAt r) (readMotionScore hasColumn r) now w"
proof -
  have shift: "now - x * DAY_MS > s \<longleftrightarrow> now - s > x * DAY_MS" for x s by linarith
  show ?thesis
  proof (cases "rw_allDays w = rw_motionDays w")
    case True
    then show ?thesis
      by (auto simp: where_matches_def buildExpiryWhere_def isExpiredByAge_def shift)
  next
    case False
    with assms have less: "rw_allDays w < rw_motionDays w" by simp
    define a m where "a = rw_allDays w * DAY_MS" and "m = rw_motionDays w * DAY_MS"
    then have am: "a < m" using less mult_strict_right_mono DAY_MS_pos by blast
    show ?thesis unfolding where_matches_def buildExpiryWhere_def isExpiredByAge_def Let_def readMotionScore_0
        if_P [OF less] a_def [symmetric] m_def [symmetric]
      using am by (cases hasColumn) auto
  qed
qed

section \<open>Every camera has one cut\<close>

definition ownDays :: "(string \<times> entrada_retencao) list \<Rightarrow> int \<Rightarrow> string \<Rightarrow> int" where
  "ownDays cameras globalDays c =
     (case map_of cameras c of Some e \<Rightarrow> retencaoEfetiva e (of_int globalDays) | None \<Rightarrow> globalDays)"

lemma byDays_mem:
  "distinct (map fst m) \<Longrightarrow> distinct (map fst (byDays gd cameras m)) \<and>
   ((\<exists>ids. (d, ids) \<in> set (byDays gd cameras m) \<and> c \<in> set ids) \<longleftrightarrow>
     (\<exists>ids. (d, ids) \<in> set m \<and> c \<in> set ids) \<or> (\<exists>e. (c, e) \<in> set cameras \<and> retencaoEfetiva e gd = d))"
proof (induction gd cameras m rule: byDays.induct)
  case (2 gd c' e cameras m)
  let ?d = "retencaoEfetiva e gd"
  let ?b = "case map_of m ?d of Some b \<Rightarrow> b | None \<Rightarrow> []"
  let ?m = "AList.update ?d (?b @ [c']) m"
  have dm: "distinct (map fst ?m)" using "2.prems" by (rule AList.distinct_update)
  have mem: "(d, ids) \<in> set ms \<longleftrightarrow> map_of ms d = Some ids" if "distinct (map fst ms)" for ms :: "(int \<times> string list) list" and ids
    using that by simp
  have upd: "(\<exists>ids. (d, ids) \<in> set ?m \<and> c \<in> set ids) \<longleftrightarrow>
      (\<exists>ids. (d, ids) \<in> set m \<and> c \<in> set ids) \<or> (d = ?d \<and> c = c')"
    unfolding mem [OF dm] mem [OF "2.prems"] update_conv'
    by (cases "map_of m ?d") (auto split: if_splits)
  show ?case using "2.IH" [OF refl refl, OF dm] upd by (auto simp: Let_def)
qed simp

lemma group_of_camera:
  assumes "distinct (map fst cameras)"
  shows "(\<exists>g\<in>set (loadRetentionGroups cameras globalDays). rg_days g = d \<and> filter_matches (rg_filter g) c) \<longleftrightarrow>
    d = ownDays cameras globalDays c"
proof -
  have in_groups: "(\<exists>ids. (d, ids) \<in> set (byDays (of_int globalDays) cameras []) \<and> c \<in> set ids) \<longleftrightarrow>
      (\<exists>e. map_of cameras c = Some e \<and> retencaoEfetiva e (of_int globalDays) = d)"
    using byDays_mem [of "[]" "of_int globalDays" cameras d c] assms by (simp add: map_of_eq_Some_iff)
  have "(\<exists>g\<in>set (loadRetentionGroups cameras globalDays). rg_days g = d \<and> filter_matches (rg_filter g) c) \<longleftrightarrow>
      (\<exists>ids. (d, ids) \<in> set (byDays (of_int globalDays) cameras []) \<and> c \<in> set ids) \<or>
      (globalDays = d \<and> map_of cameras c = None)"
    by (auto simp: loadRetentionGroups_def map_of_eq_None_iff) force+
  then show ?thesis unfolding in_groups by (auto simp: ownDays_def split: option.splits)
qed

section \<open>The loop over the pages\<close>

lemma query_remove:
  assumes "distinct (map re_id rows)" "r \<in> set (sort_key k (filter P rows))"
  shows "sort_key k (filter P (filter (\<lambda>x. re_id x \<noteq> re_id r) rows)) =
    filter (\<lambda>x. x \<noteq> r) (sort_key k (filter P rows))"
proof -
  have "filter P (filter (\<lambda>x. re_id x \<noteq> re_id r) rows) = filter (\<lambda>x. x \<noteq> r) (filter P rows)"
    using inj_key [OF assms(1)] assms(2) by (auto simp: conj_commute intro!: filter_cong)
  then show ?thesis by (simp add: filter_sort)
qed

lemma expireRecording_cases:
  assumes "expireRecording env w r (ar, res) = ((ar', res'), d)"
  shows "(d = Removed \<and> deleteRecording (rt_archive env) (rt_protection env) r ar = (ar', Inr True) \<and>
      res' = res\<lparr>cu_recordingsDeleted := Suc (cu_recordingsDeleted res)\<rparr> \<and>
      isExpiredByAge (re_startedAt r) (readMotionScore (rt_hasColumn env) r) (rt_now env) w \<and>
      \<not> (tt_enabled (rt_policy env) \<and> tt_dryRun (rt_policy env))) \<or>
    (d \<noteq> Removed \<and> cu_recordingsDeleted res' = cu_recordingsDeleted res \<and> set (cu_failed res) \<subseteq> set (cu_failed res') \<and>
      (ar' = ar \<or> (\<exists>x. x \<noteq> Inr True \<and> deleteRecording (rt_archive env) (rt_protection env) r ar = (ar', x))) \<and>
      (isExpiredByAge (re_startedAt r) (readMotionScore (rt_hasColumn env) r) (rt_now env) w \<and>
        \<not> (tt_enabled (rt_policy env) \<and> tt_dryRun (rt_policy env)) \<longrightarrow>
        re_id r \<in> set (cu_failed res') \<or> deleteRecording (rt_archive env) (rt_protection env) r ar = (ar', Inr False)))"
  using assms
  by (auto simp: expireRecording_def Let_def split: if_splits prod.splits sum.splits bool.splits)

interpretation recordings: batch_handler "expiryQuery c" "expireRecording env w" "\<lambda>st. ids_distinct (fst st)"
proof
  fix s :: "archive \<times> cleanup"
  assume "ids_distinct (fst s)"
  then have "distinct (ar_rows (fst s))" by (simp add: ids_distinct_def distinct_map)
  then show "distinct (expiryQuery c s)" by (simp add: expiryQuery_def)
next
  fix s r s' d
  assume inv: "ids_distinct (fst s)" and r: "expireRecording env w r s = (s', d)"
  obtain ar res ar' res' where s: "s = (ar, res)" "s' = (ar', res')" by fastforce
  have "ar' = ar \<or> (\<exists>x. deleteRecording (rt_archive env) (rt_protection env) r ar = (ar', x))"
    using expireRecording_cases [OF r [unfolded s]] by blast
  then show "ids_distinct (fst s')" using inv s deleteRecording_rows(2) by auto
next
  fix s r s'
  assume inv: "ids_distinct (fst s)" and mem: "r \<in> set (expiryQuery c s)" and r: "expireRecording env w r s = (s', Removed)"
  obtain ar res ar' res' where s: "s = (ar, res)" "s' = (ar', res')" by fastforce
  have "deleteRecording (rt_archive env) (rt_protection env) r ar = (ar', Inr True)"
    using expireRecording_cases [OF r [unfolded s]] by blast
  then have rows: "ar_rows ar' = filter (\<lambda>x. re_id x \<noteq> re_id r) (ar_rows ar)"
    using deleteRecording_rows(4) inv s by auto
  have "distinct (map re_id (ar_rows ar))" "r \<in> set (sort_key (\<lambda>r. (re_startedAt r, re_id r)) (filter (where_matches c) (ar_rows ar)))"
    using inv mem s by (simp_all add: expiryQuery_def ids_distinct_def)
  then show "expiryQuery c s' = filter (\<lambda>x. x \<noteq> r) (expiryQuery c s)"
    unfolding expiryQuery_def s fst_conv rows by (rule query_remove)
next
  fix s r s' d
  assume inv: "ids_distinct (fst s)" and r: "expireRecording env w r s = (s', d)" and d: "d \<noteq> Removed"
  obtain ar res ar' res' where s: "s = (ar, res)" "s' = (ar', res')" by fastforce
  have "ar' = ar \<or> (\<exists>x. x \<noteq> Inr True \<and> deleteRecording (rt_archive env) (rt_protection env) r ar = (ar', x))"
    using expireRecording_cases [OF r [unfolded s]] d by blast
  then have "ar_rows ar' = ar_rows ar" using deleteRecording_rows(5) inv s by auto
  then show "expiryQuery c s' = expiryQuery c s" by (simp add: expiryQuery_def s)
qed


section \<open>What a pass deletes\<close>

lemma length_without_key:
  "distinct (map k xs) \<Longrightarrow> x \<in> set xs \<Longrightarrow> length (filter (\<lambda>y. k y \<noteq> k x) xs) + 1 = length xs"
proof (induction xs)
  case (Cons y ys)
  show ?case
  proof (cases "y = x")
    case True
    then have "filter (\<lambda>z. k z \<noteq> k x) ys = ys" using Cons.prems by (auto simp: filter_id_conv image_iff)
    then show ?thesis using True by simp
  qed (use Cons in \<open>auto simp: image_iff\<close>)
qed simp

text \<open>The cut of the camera of a row has passed.\<close>

definition ownExpired :: "retention_env \<Rightarrow> (string \<times> entrada_retencao) list \<Rightarrow> int \<Rightarrow> archive_row \<Rightarrow> bool" where
  "ownExpired env cameras globalDays r \<longleftrightarrow>
     isExpiredByAge (re_startedAt r) (readMotionScore (rt_hasColumn env) r) (rt_now env)
       (resolveRetentionWindow (ownDays cameras globalDays (re_cameraId r)) (rt_policy env))"

definition simulated :: "retention_env \<Rightarrow> bool" where
  "simulated env \<longleftrightarrow> tt_enabled (rt_policy env) \<and> tt_dryRun (rt_policy env)"

text \<open>The state of a pass that began at \<open>ar0\<close>: the recordings in \<open>gone\<close> are out, with their clips;
  each had expired and was not protected.\<close>

definition pass_ok :: "retention_env \<Rightarrow> (archive_row \<Rightarrow> bool) \<Rightarrow> archive \<Rightarrow> archive \<times> cleanup \<Rightarrow> bool" where
  "pass_ok env due ar0 st \<longleftrightarrow> ids_distinct (fst st) \<and>
     (\<exists>gone. ar_rows (fst st) = filter (\<lambda>r. re_id r \<notin> gone) (ar_rows ar0) \<and>
        ar_clips (fst st) = filter (\<lambda>c. cl_sourceRecordingId c \<notin> gone) (ar_clips ar0) \<and>
        (\<forall>r\<in>set (ar_rows ar0). re_id r \<in> gone \<longrightarrow> due r \<and> \<not> protectedRow (rt_protection env) ar0 (re_id r) \<and> \<not> simulated env)) \<and>
     length (ar_rows (fst st)) + cu_recordingsDeleted (snd st) = length (ar_rows ar0)"

text \<open>A row that stays has a reason to.\<close>

definition excused :: "retention_env \<Rightarrow> archive \<Rightarrow> archive \<times> cleanup \<Rightarrow> archive_row \<Rightarrow> bool" where
  "excused env ar0 st r \<longleftrightarrow> r \<notin> set (ar_rows (fst st)) \<or> simulated env \<or>
     re_id r \<in> set (cu_failed (snd st)) \<or> protectedRow (rt_protection env) ar0 (re_id r)"

lemma pass_step:
  assumes "pass_ok env due ar0 st" "r \<in> set (ar_rows ar0)" "due r" "distinct (map re_id (ar_rows ar0))"
    "isExpiredByAge (re_startedAt r) (readMotionScore (rt_hasColumn env) r) (rt_now env) w"
    "expireRecording env w r st = (st', d)"
  shows "pass_ok env due ar0 st'" "excused env ar0 st' r"
    "excused env ar0 st x \<Longrightarrow> excused env ar0 st' x"
    "cu_recordingsDeleted (snd st') = cu_recordingsDeleted (snd st) + (if d = Removed then 1 else 0)"
proof -
  obtain ar res ar' res' where s: "st = (ar, res)" "st' = (ar', res')" by fastforce
  have ids: "ids_distinct ar" using assms(1) s by (simp add: pass_ok_def)
  obtain gone where gone: "ar_rows ar = filter (\<lambda>r. re_id r \<notin> gone) (ar_rows ar0)"
    "ar_clips ar = filter (\<lambda>c. cl_sourceRecordingId c \<notin> gone) (ar_clips ar0)"
    "\<forall>r\<in>set (ar_rows ar0). re_id r \<in> gone \<longrightarrow> due r \<and> \<not> protectedRow (rt_protection env) ar0 (re_id r) \<and> \<not> simulated env"
    "length (ar_rows ar) + cu_recordingsDeleted res = length (ar_rows ar0)"
    using assms(1) s by (auto simp: pass_ok_def)
  have prot: "protectedRow (rt_protection env) ar i \<longleftrightarrow> protectedRow (rt_protection env) ar0 i" if "i \<notin> gone" for i
    using that gone(2) by (auto simp: protectedRow_def)
  note cases = expireRecording_cases [OF assms(6) [unfolded s]]
  show deleted: "cu_recordingsDeleted (snd st') = cu_recordingsDeleted (snd st) + (if d = Removed then 1 else 0)"
    using cases s by auto
  show "pass_ok env due ar0 st'"
  proof (cases "d = Removed")
    case True
    then have del: "deleteRecording (rt_archive env) (rt_protection env) r ar = (ar', Inr True)" and live: "\<not> simulated env"
      using cases by (auto simp: simulated_def)
    note rows = deleteRecording_rows [OF del ids]
    have out: "re_id r \<notin> gone" using rows(4) gone(1) by auto
    have "filter (\<lambda>x. re_id x \<noteq> re_id r) (ar_rows ar) = filter (\<lambda>x. re_id x \<notin> insert (re_id r) gone) (ar_rows ar0)"
      "filter (\<lambda>c. cl_sourceRecordingId c \<noteq> re_id r) (ar_clips ar) = filter (\<lambda>c. cl_sourceRecordingId c \<notin> insert (re_id r) gone) (ar_clips ar0)"
      unfolding gone(1,2) filter_filter by (auto intro!: filter_cong)
    moreover have "x = r" if "x \<in> set (ar_rows ar0)" "re_id x = re_id r" for x
      using inj_key [OF assms(4)] that assms(2) by metis
    moreover have "length (filter (\<lambda>x. re_id x \<noteq> re_id r) (ar_rows ar)) + 1 = length (ar_rows ar)"
      using length_without_key [of re_id "ar_rows ar" r] ids assms(2) out gone(1) by (simp add: ids_distinct_def)
    ultimately show ?thesis using rows(2,4) prot [OF out] gone(3,4) assms(3) live True deleted s
      by (auto simp: pass_ok_def intro!: exI [of _ "insert (re_id r) gone"])
  next
    case False
    then consider "ar' = ar" | x where "x \<noteq> Inr True" "deleteRecording (rt_archive env) (rt_protection env) r ar = (ar', x)"
      using cases by blast
    then have "ar_rows ar' = ar_rows ar \<and> ar_clips ar' = ar_clips ar \<and> ids_distinct ar'"
      by cases (use ids deleteRecording_rows(2,5) in \<open>fastforce+\<close>)
    then show ?thesis using gone False deleted s by (auto simp: pass_ok_def)
  qed
  have sub: "set (ar_rows ar') \<subseteq> set (ar_rows ar)"
  proof -
    consider "ar' = ar" | x where "deleteRecording (rt_archive env) (rt_protection env) r ar = (ar', x)" using cases by blast
    then show ?thesis
    proof cases
      case 2
      then show ?thesis using deleteRecording_rows(4,5) [OF 2 ids] by (cases "x = Inr True") auto
    qed simp
  qed
  have more: "set (cu_failed res) \<subseteq> set (cu_failed res')" using cases by auto
  show "excused env ar0 st x \<Longrightarrow> excused env ar0 st' x" using sub more s by (auto simp: excused_def)
  show "excused env ar0 st' r"
  proof (cases "d = Removed")
    case True
    then have "deleteRecording (rt_archive env) (rt_protection env) r ar = (ar', Inr True)" using cases by auto
    from deleteRecording_rows(4) [OF this ids refl] show ?thesis using s by (auto simp: excused_def)
  next
    case False
    then have "simulated env \<or> re_id r \<in> set (cu_failed res') \<or> deleteRecording (rt_archive env) (rt_protection env) r ar = (ar', Inr False)"
      using cases assms(5) by (auto simp: simulated_def)
    moreover have "re_id r \<notin> gone \<or> r \<notin> set (ar_rows ar')" using gone(1) sub by auto
    moreover have "protectedRow (rt_protection env) ar (re_id r)"
      if "deleteRecording (rt_archive env) (rt_protection env) r ar = (ar', Inr False)"
      using deleteRecording_rows(6) [OF that ids refl] by blast
    ultimately show ?thesis using prot [of "re_id r"] s by (auto simp: excused_def)
  qed
qed

lemma onePass_pass:
  assumes "pass_ok env due ar0 st" "distinct (map re_id (ar_rows ar0))"
    "\<And>r. r \<in> set rs \<Longrightarrow> r \<in> set (ar_rows ar0) \<and> due r \<and>
       isExpiredByAge (re_startedAt r) (readMotionScore (rt_hasColumn env) r) (rt_now env) w"
    "onePass (expireRecording env w) rs (st, budget) = (st', left)"
  shows "pass_ok env due ar0 st' \<and> (\<forall>x. excused env ar0 st x \<longrightarrow> excused env ar0 st' x) \<and>
    (left > 0 \<longrightarrow> (\<forall>r\<in>set rs. excused env ar0 st' r)) \<and>
    cu_recordingsDeleted (snd st') + left \<le> cu_recordingsDeleted (snd st) + budget"
  using assms
proof (induction rs arbitrary: st budget)
  case (Cons r rs)
  obtain st1 d where step: "expireRecording env w r st = (st1, d)" by fastforce
  note one = pass_step [OF Cons.prems(1) _ _ Cons.prems(2) _ step]
  have r: "r \<in> set (ar_rows ar0)" "due r"
    "isExpiredByAge (re_startedAt r) (readMotionScore (rt_hasColumn env) r) (rt_now env) w" using Cons.prems(3) by auto
  show ?case
  proof (cases "budget = 0")
    case True
    then show ?thesis using Cons.prems(1,4) by auto
  next
    case False
    let ?b = "if d = Kept then budget else budget - 1"
    have pass: "onePass (expireRecording env w) rs (st1, ?b) = (st', left)"
      using Cons.prems(4) step False by (cases d) simp_all
    have "pass_ok env due ar0 st' \<and> (\<forall>x. excused env ar0 st1 x \<longrightarrow> excused env ar0 st' x) \<and>
      (left > 0 \<longrightarrow> (\<forall>r\<in>set rs. excused env ar0 st' r)) \<and>
      cu_recordingsDeleted (snd st') + left \<le> cu_recordingsDeleted (snd st1) + ?b"
      using Cons.prems(3) by (intro Cons.IH [OF one(1) [OF r] Cons.prems(2) _ pass]) simp
    then show ?thesis using one(2,3,4) [OF r] False by (auto split: if_splits)
  qed
qed auto

lemma expireGroup_pass:
  assumes "pass_ok env due ar0 st" "ids_distinct ar0" "batchSize > 0"
    "\<And>r. filter_matches (rg_filter g) (re_cameraId r) \<Longrightarrow>
      due r \<longleftrightarrow> isExpiredByAge (re_startedAt r) (readMotionScore (rt_hasColumn env) r) (rt_now env)
        (resolveRetentionWindow (rg_days g) (rt_policy env))"
  shows "\<exists>st' left. expireGroup env batchSize g st budget = Some (st', left) \<and> pass_ok env due ar0 st' \<and>
    (\<forall>x. excused env ar0 st x \<longrightarrow> excused env ar0 st' x) \<and>
    (left > 0 \<longrightarrow> (\<forall>r\<in>set (ar_rows ar0). filter_matches (rg_filter g) (re_cameraId r) \<and> due r \<longrightarrow> excused env ar0 st' r)) \<and>
    cu_recordingsDeleted (snd st') + left \<le> cu_recordingsDeleted (snd st) + budget \<and> left \<le> budget"
proof -
  let ?w = "resolveRetentionWindow (rg_days g) (rt_policy env)"
  let ?c = "buildExpiryWhere (rt_hasColumn env) g ?w (rt_now env)"
  obtain ar res where st: "st = (ar, res)" by fastforce
  define res1 where "res1 = (if tt_enabled (rt_policy env)
     then res\<lparr>cu_motionRetained := cu_motionRetained res + motionRetained env g ?w ar\<rparr> else res)"
  have same: "pass_ok env due ar0 (ar, res1)" "excused env ar0 (ar, res1) x = excused env ar0 st x"
    "cu_recordingsDeleted res1 = cu_recordingsDeleted res" for x
    using assms(1) st by (auto simp: pass_ok_def excused_def res1_def)
  have ids: "ids_distinct ar" using assms(1) st by (simp add: pass_ok_def)
  obtain st' left where run: "onePass (expireRecording env ?w) (expiryQuery ?c (ar, res1)) ((ar, res1), budget) = (st', left)"
    by fastforce
  have group: "expireGroup env batchSize g st budget = Some (st', left)"
    using recordings.drain_one_pass [of "(ar, res1)" batchSize ?c env ?w budget] ids assms(3) run st
    by (auto simp: expireGroup_def Let_def res1_def)
  have sub: "set (ar_rows ar) \<subseteq> set (ar_rows ar0)" using assms(1) st by (auto simp: pass_ok_def)
  have rule: "where_matches ?c r \<longleftrightarrow> filter_matches (rg_filter g) (re_cameraId r) \<and> due r" for r
    using filter_is_rule [OF window_ordered] assms(4) by blast
  have mem: "r \<in> set (ar_rows ar0) \<and> due r \<and>
      isExpiredByAge (re_startedAt r) (readMotionScore (rt_hasColumn env) r) (rt_now env) ?w"
    if "r \<in> set (expiryQuery ?c (ar, res1))" for r
    using that sub assms(4) rule by (auto simp: expiryQuery_def)
  have "distinct (map re_id (ar_rows ar0))" using assms(2) by (simp add: ids_distinct_def)
  note pass = onePass_pass [OF same(1) this mem run]
  have "excused env ar0 st' r" if "left > 0" "r \<in> set (ar_rows ar0)" "filter_matches (rg_filter g) (re_cameraId r)" "due r" for r
  proof (cases "r \<in> set (ar_rows ar)")
    case True
    then have "r \<in> set (expiryQuery ?c (ar, res1))" using that rule by (simp add: expiryQuery_def)
    then show ?thesis using pass that(1) by blast
  next
    case False
    then have "excused env ar0 (ar, res1) r" by (simp add: excused_def)
    then show ?thesis using pass by blast
  qed
  moreover have "left \<le> budget" using onePass_budget_le [of "expireRecording env ?w" _ "(ar, res1)" budget] run by (metis snd_conv)
  ultimately show ?thesis using group pass same st by auto
qed

lemma expire_pass:
  assumes "pass_ok env due ar0 st" "ids_distinct ar0" "batchSize > 0"
    "\<And>g r. g \<in> set gs \<Longrightarrow> filter_matches (rg_filter g) (re_cameraId r) \<Longrightarrow>
      due r \<longleftrightarrow> isExpiredByAge (re_startedAt r) (readMotionScore (rt_hasColumn env) r) (rt_now env)
        (resolveRetentionWindow (rg_days g) (rt_policy env))"
  shows "\<exists>st' left. expireRecordingsInBatches env batchSize gs st budget = Some (st', left) \<and> pass_ok env due ar0 st' \<and>
    (\<forall>x. excused env ar0 st x \<longrightarrow> excused env ar0 st' x) \<and>
    (left > 0 \<longrightarrow> (\<forall>r\<in>set (ar_rows ar0). \<forall>g\<in>set gs. filter_matches (rg_filter g) (re_cameraId r) \<and> due r \<longrightarrow> excused env ar0 st' r)) \<and>
    cu_recordingsDeleted (snd st') + left \<le> cu_recordingsDeleted (snd st) + budget \<and> left \<le> budget"
  using assms(1,4)
proof (induction gs arbitrary: st budget)
  case (Cons g gs)
  show ?case
  proof (cases "budget = 0")
    case True
    then show ?thesis using Cons.prems(1) by auto
  next
    case False
    obtain st1 b1 where one: "expireGroup env batchSize g st budget = Some (st1, b1)" "pass_ok env due ar0 st1"
      "\<forall>x. excused env ar0 st x \<longrightarrow> excused env ar0 st1 x"
      "b1 > 0 \<longrightarrow> (\<forall>r\<in>set (ar_rows ar0). filter_matches (rg_filter g) (re_cameraId r) \<and> due r \<longrightarrow> excused env ar0 st1 r)"
      "cu_recordingsDeleted (snd st1) + b1 \<le> cu_recordingsDeleted (snd st) + budget" "b1 \<le> budget"
      using expireGroup_pass [OF Cons.prems(1) assms(2,3), of g budget] Cons.prems(2) by auto
    obtain st' left where rest: "expireRecordingsInBatches env batchSize gs st1 b1 = Some (st', left)" "pass_ok env due ar0 st'"
      "\<forall>x. excused env ar0 st1 x \<longrightarrow> excused env ar0 st' x"
      "left > 0 \<longrightarrow> (\<forall>r\<in>set (ar_rows ar0). \<forall>g\<in>set gs. filter_matches (rg_filter g) (re_cameraId r) \<and> due r \<longrightarrow> excused env ar0 st' r)"
      "cu_recordingsDeleted (snd st') + left \<le> cu_recordingsDeleted (snd st1) + b1" "left \<le> b1"
      using Cons.IH [OF one(2), of b1] Cons.prems(2) by auto
    then show ?thesis using False one rest by (auto intro!: exI [of _ st'] exI [of _ left])
  qed
qed auto

section \<open>The limits of a pass\<close>

lemma env_whole_bounds: "lo \<le> hi \<Longrightarrow> lo \<le> env_whole vars name fallback lo hi \<and> env_whole vars name fallback lo hi \<le> hi"
proof -
  assume le: "lo \<le> hi"
  let ?v = "fst (envNumber (vars name) (of_int fallback) \<lparr>opt_min = Some (of_int lo), opt_max = Some (of_int hi), opt_integer = True\<rparr>)"
  have "of_int lo \<le> ?v \<and> ?v \<le> of_int hi"
    using le by (auto simp: envNumber_def clamp_max_def clamp_min_def Let_def)
  then show ?thesis unfolding env_whole_def by (simp add: le_floor_iff floor_le_iff)
qed

lemma readBatchLimits_positive: "bl_batchSize (readBatchLimits vars) > 0 \<and> bl_maxPerCycle (readBatchLimits vars) \<le> 1000000"
  using env_whole_bounds [of 1 5000 vars "''RETENTION_EXPIRY_BATCH_SIZE''" 500]
    env_whole_bounds [of 1 1000000 vars "''RETENTION_MAX_DELETIONS_PER_CYCLE''" 20000]
  by (simp add: readBatchLimits_def nat_le_iff)

section \<open>Properties\<close>

text \<open>C34 (expiry_filter_is_rule). For the window of any number of days and any two-level policy, the
  rows the condition sent to the database selects are those of the group for which the rule applied
  in memory says that they have expired, also when the column of the movement is missing or null.\<close>

theorem expiry_filter_is_rule:
  "where_matches (buildExpiryWhere hasColumn g (resolveRetentionWindow days policy) now) r \<longleftrightarrow>
   filter_matches (rg_filter g) (re_cameraId r) \<and>
   isExpiredByAge (re_startedAt r) (readMotionScore hasColumn r) now (resolveRetentionWindow days policy)"
  by (rule filter_is_rule [OF window_ordered])

text \<open>C15 (retention_pass_exact). A pass of the expiry over the groups of the registered cameras, with
  the limits read from any environment, ends, whatever deletions fail. The recordings that are gone,
  and their clips, are those of a set: each had passed the cut of its own camera (the global one
  when it is not registered), none was protected nor had a protected clip, and in a simulation none
  is gone. The count is the number of rows that left, at most the limit of a cycle; and when the
  limit was not reached every expired recording that remains is protected or is named in the log as
  failed.\<close>

theorem retention_pass_exact:
  assumes "ids_distinct ar" "distinct (map fst cameras)"
  shows "\<exists>ar' res left. expireRecordingsInBatches env (bl_batchSize (readBatchLimits vars))
      (loadRetentionGroups cameras globalDays) (ar, no_cleanup) (bl_maxPerCycle (readBatchLimits vars)) = Some ((ar', res), left) \<and>
    (\<exists>gone. ar_rows ar' = filter (\<lambda>r. re_id r \<notin> gone) (ar_rows ar) \<and>
       ar_clips ar' = filter (\<lambda>c. cl_sourceRecordingId c \<notin> gone) (ar_clips ar) \<and>
       (\<forall>r\<in>set (ar_rows ar). re_id r \<in> gone \<longrightarrow>
          ownExpired env cameras globalDays r \<and> \<not> protectedRow (rt_protection env) ar (re_id r) \<and> \<not> simulated env)) \<and>
    length (ar_rows ar') + cu_recordingsDeleted res = length (ar_rows ar) \<and>
    cu_recordingsDeleted res + left \<le> bl_maxPerCycle (readBatchLimits vars) \<and>
    (left > 0 \<longrightarrow> (\<forall>r\<in>set (ar_rows ar'). ownExpired env cameras globalDays r \<longrightarrow>
       simulated env \<or> re_id r \<in> set (cu_failed res) \<or> protectedRow (rt_protection env) ar (re_id r)))"
proof -
  let ?due = "ownExpired env cameras globalDays" and ?gs = "loadRetentionGroups cameras globalDays"
  let ?budget = "bl_maxPerCycle (readBatchLimits vars)"
  have start: "pass_ok env ?due ar (ar, no_cleanup)"
    using assms(1) by (auto simp: pass_ok_def no_cleanup_def intro!: exI [of _ "{}"])
  have group: "?due r \<longleftrightarrow> isExpiredByAge (re_startedAt r) (readMotionScore (rt_hasColumn env) r) (rt_now env)
      (resolveRetentionWindow (rg_days g) (rt_policy env))"
    if "g \<in> set ?gs" "filter_matches (rg_filter g) (re_cameraId r)" for g r
    using that group_of_camera [OF assms(2), of globalDays "rg_days g" "re_cameraId r"] by (auto simp: ownExpired_def)
  have some_group: "\<exists>g\<in>set ?gs. filter_matches (rg_filter g) (re_cameraId r)" for r
    using group_of_camera [OF assms(2), of globalDays _ "re_cameraId r"] by blast
  note pass = expire_pass [OF start assms(1) conjunct1 [OF readBatchLimits_positive [of vars]] group, of ?gs ?budget]
  obtain st' left where st': "expireRecordingsInBatches env (bl_batchSize (readBatchLimits vars)) ?gs (ar, no_cleanup) ?budget =
      Some (st', left)" "pass_ok env ?due ar st'"
    "left > 0 \<longrightarrow> (\<forall>r\<in>set (ar_rows ar). \<forall>g\<in>set ?gs. filter_matches (rg_filter g) (re_cameraId r) \<and> ?due r \<longrightarrow> excused env ar st' r)"
    "cu_recordingsDeleted (snd st') + left \<le> cu_recordingsDeleted (snd (ar, no_cleanup)) + ?budget"
    using pass by blast
  obtain ar' res where split: "st' = (ar', res)" by fastforce
  note run = st' [unfolded split snd_conv]
  have cap: "cu_recordingsDeleted res + left \<le> ?budget" using run(4) by (simp add: no_cleanup_def)
  obtain gone where gone: "ar_rows ar' = filter (\<lambda>r. re_id r \<notin> gone) (ar_rows ar)"
    "ar_clips ar' = filter (\<lambda>c. cl_sourceRecordingId c \<notin> gone) (ar_clips ar)"
    "\<forall>r\<in>set (ar_rows ar). re_id r \<in> gone \<longrightarrow> ?due r \<and> \<not> protectedRow (rt_protection env) ar (re_id r) \<and> \<not> simulated env"
    "length (ar_rows ar') + cu_recordingsDeleted res = length (ar_rows ar)"
    using run(2) by (auto simp: pass_ok_def)
  have "simulated env \<or> re_id r \<in> set (cu_failed res) \<or> protectedRow (rt_protection env) ar (re_id r)"
    if "left > 0" "r \<in> set (ar_rows ar')" "?due r" for r
  proof -
    have "r \<in> set (ar_rows ar)" using that(2) gone(1) by simp
    moreover obtain g where "g \<in> set ?gs" "filter_matches (rg_filter g) (re_cameraId r)" using some_group by blast
    ultimately have "excused env ar (ar', res) r" using run(3) that by blast
    then show ?thesis using that(2) by (auto simp: excused_def)
  qed
  then show ?thesis using run(1) cap gone by blast
qed

lemma expireGroup_pages:
  assumes "ids_distinct (fst st)" "b > 0" "c > 0"
  shows "expireGroup env b g st budget = expireGroup env c g st budget \<and>
    (\<exists>st' left. expireGroup env b g st budget = Some (st', left) \<and> ids_distinct (fst st'))"
proof -
  let ?w = "resolveRetentionWindow (rg_days g) (rt_policy env)"
  let ?c = "buildExpiryWhere (rt_hasColumn env) g ?w (rt_now env)"
  define st1 where "st1 = (if tt_enabled (rt_policy env)
     then (fst st, (snd st)\<lparr>cu_motionRetained := cu_motionRetained (snd st) + motionRetained env g ?w (fst st)\<rparr>) else st)"
  have st1: "ids_distinct (fst st1)"
    "\<And>b. expireGroup env b g st budget = drain (expiryQuery ?c) (expireRecording env ?w) b (st1, 0, budget)"
    using assms(1) by (simp_all add: expireGroup_def Let_def st1_def)
  have "distinct (expiryQuery ?c st1)" by (rule recordings.rows_distinct [OF st1(1)])
  then have "ids_distinct (fst (fst (onePass (expireRecording env ?w) (expiryQuery ?c st1) (st1, budget))))"
    using recordings.onePass_rows [OF st1(1) subset_refl] by blast
  then show ?thesis
    using recordings.drain_one_pass [OF st1(1) assms(2)] recordings.drain_one_pass [OF st1(1) assms(3)] st1(2)
    by (metis prod.collapse)
qed

lemma expiry_any_page:
  assumes "ids_distinct (fst st)" "b > 0" "c > 0"
  shows "expireRecordingsInBatches env b gs st budget = expireRecordingsInBatches env c gs st budget \<and>
    expireRecordingsInBatches env b gs st budget \<noteq> None"
  using assms(1)
proof (induction gs arbitrary: st budget)
  case (Cons g gs)
  obtain st' left where "expireGroup env b g st budget = Some (st', left)" "ids_distinct (fst st')"
    "expireGroup env c g st budget = Some (st', left)" using expireGroup_pages [OF Cons.prems assms(2,3)] by metis
  moreover obtain x where "expireRecordingsInBatches env b gs st' left = Some x" "expireRecordingsInBatches env c gs st' left = Some x"
    using Cons.IH calculation(2) by (metis not_None_eq)
  ultimately show ?case by (cases x) auto
qed simp

text \<open>(expiry_pages_irrelevant). The expiry of the recordings ends for every size of page, and what
  it deletes, counts and leaves of the budget does not depend on it.\<close>

theorem expiry_pages_irrelevant:
  assumes "ids_distinct (fst st)" "b > 0" "c > 0"
  shows "expireRecordingsInBatches env b gs st budget = expireRecordingsInBatches env c gs st budget \<and>
    expireRecordingsInBatches env b gs st budget \<noteq> None"
  by (rule expiry_any_page [OF assms])

section \<open>Deletions asked by hand\<close>

text \<open>The identifiers of the rows that may go.\<close>

definition to_go :: "protection \<Rightarrow> archive \<Rightarrow> archive_row list \<Rightarrow> string set" where
  "to_go prot ar rs = re_id ` {r \<in> set rs. re_endedAt r \<noteq> None \<and> \<not> protectedRow prot ar (re_id r)}"

lemma to_go_Cons:
  "to_go prot ar (r # rs) = (if re_endedAt r = None \<or> protectedRow prot ar (re_id r) then to_go prot ar rs
     else insert (re_id r) (to_go prot ar rs))"
  by (auto simp: to_go_def)

lemma to_go_facts: "finite (to_go prot ar rs)" "to_go prot ar rs \<subseteq> re_id ` set rs"
  by (auto simp: to_go_def)

lemma excluirLinhas_counts:
  assumes "excluirLinhas env prot rs m ar = (ar', Inr m')" "ids_distinct ar" "distinct (map re_id rs)"
  shows "ids_distinct ar' \<and>
    mr_excluidas m' + mr_protegidas m' + mr_emAndamento m' = mr_excluidas m + mr_protegidas m + mr_emAndamento m + length rs \<and>
    mr_solicitadas m' = mr_solicitadas m \<and> mr_naoEncontradas m' = mr_naoEncontradas m \<and>
    ar_rows ar' = filter (\<lambda>r. re_id r \<notin> to_go prot ar rs) (ar_rows ar) \<and>
    ar_clips ar' = filter (\<lambda>c. cl_sourceRecordingId c \<notin> to_go prot ar rs) (ar_clips ar) \<and>
    mr_excluidas m' = mr_excluidas m + card (to_go prot ar rs)"
  using assms
proof (induction rs arbitrary: m ar)
  case Nil
  then show ?case by (simp add: to_go_def)
next
  case (Cons r rs)
  have d: "distinct (map re_id rs)" "re_id r \<notin> re_id ` set rs" using Cons.prems(3) by auto
  show ?case
  proof (cases "re_endedAt r = None \<or> re_id r \<in> set (pr_recordingIds prot)")
    case True
    then have skip: "to_go prot ar (r # rs) = to_go prot ar rs" by (auto simp: to_go_Cons protectedRow_def)
    show ?thesis
    proof (cases "re_endedAt r = None")
      case True
      then have run: "excluirLinhas env prot rs (m\<lparr>mr_emAndamento := Suc (mr_emAndamento m)\<rparr>) ar = (ar', Inr m')"
        using Cons.prems(1) by simp
      show ?thesis using Cons.IH [OF run Cons.prems(2) d(1)] unfolding skip by simp
    next
      case False
      then have run: "excluirLinhas env prot rs (m\<lparr>mr_protegidas := Suc (mr_protegidas m)\<rparr>) ar = (ar', Inr m')"
        using Cons.prems(1) True by (auto split: if_splits)
      show ?thesis using Cons.IH [OF run Cons.prems(2) d(1)] unfolding skip by simp
    qed
  next
    case False
    then have open_row: "re_endedAt r \<noteq> None" "re_id r \<notin> set (pr_recordingIds prot)" by auto
    obtain ar1 x where del: "deleteRecording env prot r ar = (ar1, x)" by fastforce
    note rows = deleteRecording_rows [OF del Cons.prems(2)]
    consider e where "x = Inl e" | "x = Inr False" | "x = Inr True" by (cases x) auto
    then show ?thesis
    proof cases
      case 1
      then show ?thesis using Cons.prems(1) open_row del by simp
    next
      case 2
      then have same: "ar1 = ar" "protectedRow prot ar (re_id r)" using rows(6) by auto
      then have skip: "to_go prot ar (r # rs) = to_go prot ar rs" by (simp add: to_go_Cons)
      have run: "excluirLinhas env prot rs (m\<lparr>mr_protegidas := Suc (mr_protegidas m)\<rparr>) ar = (ar', Inr m')"
        using Cons.prems(1) open_row del 2 same(1) by simp
      show ?thesis using Cons.IH [OF run Cons.prems(2) d(1)] unfolding skip by simp
    next
      case 3
      let ?m = "m\<lparr>mr_excluidas := Suc (mr_excluidas m), mr_bytes := mr_bytes m + (case re_sizeBytes r of Some n \<Rightarrow> n | None \<Rightarrow> 0)\<rparr>"
      have run: "excluirLinhas env prot rs ?m ar1 = (ar', Inr m')" using Cons.prems(1) open_row del 3 by simp
      have gone: "\<not> protectedRow prot ar (re_id r)" "ar_rows ar1 = filter (\<lambda>x. re_id x \<noteq> re_id r) (ar_rows ar)"
        "ar_clips ar1 = filter (\<lambda>c. cl_sourceRecordingId c \<noteq> re_id r) (ar_clips ar)" using rows(4) 3 by auto
      have "protectedRow prot ar1 (re_id y) = protectedRow prot ar (re_id y)" if "y \<in> set rs" for y
        using that d(2) gone(3) by (auto simp: protectedRow_def)
      then have "to_go prot ar1 rs = to_go prot ar rs" by (auto simp: to_go_def)
      then have g: "to_go prot ar (r # rs) = insert (re_id r) (to_go prot ar1 rs)"
        using open_row gone(1) by (simp add: to_go_Cons del: not_None_eq)
      have fresh: "re_id r \<notin> to_go prot ar1 rs" using to_go_facts(2) d(2) by blast
      show ?thesis unfolding g
        using Cons.IH [OF run rows(2) d(1)] gone(2,3) fresh to_go_facts(1)
        by (simp add: filter_filter conj_commute) 
    qed
  qed
qed

text \<open>C30 (manual_deletion_accounts). When a deletion asked by hand answers, the five counts add up to
  the different identifiers asked for, and the recordings that are gone are exactly those asked for
  that were closed and that no protection, of the recording or of one of its clips, kept.\<close>

theorem manual_deletion_accounts:
  assumes "ids_distinct ar" "excluirGravacoesEscolhidas env items ids ar = (ar', Inr m)"
  shows "mr_excluidas m + mr_protegidas m + mr_emAndamento m + mr_naoEncontradas m = mr_solicitadas m \<and>
    mr_solicitadas m = card (set ids) \<and>
    ar_rows ar' = filter (\<lambda>r. \<not> (re_id r \<in> set ids \<and> re_endedAt r \<noteq> None \<and>
      \<not> protectedRow (getProtectionSets items (ar_clips ar)) ar (re_id r))) (ar_rows ar) \<and>
    length (ar_rows ar') + mr_excluidas m = length (ar_rows ar)"
proof -
  let ?prot = "getProtectionSets items (ar_clips ar)"
  let ?rows = "filter (\<lambda>r. re_id r \<in> set (uniq ids)) (ar_rows ar)"
  let ?m0 = "\<lparr>mr_solicitadas = length (uniq ids), mr_excluidas = 0, mr_protegidas = 0, mr_emAndamento = 0,
            mr_naoEncontradas = length (uniq ids) - length ?rows, mr_bytes = 0\<rparr>"
  have d: "distinct (map re_id (ar_rows ar))" using assms(1) by (simp add: ids_distinct_def)
  have run: "excluirLinhas env ?prot ?rows ?m0 ar = (ar', Inr m)"
    using assms(2) by (simp add: excluirGravacoesEscolhidas_def Let_def)
  have dr: "distinct (map re_id ?rows)" using d by (simp add: distinct_map_filter)
  define gone where "gone = to_go ?prot ar ?rows"
  note counts = excluirLinhas_counts [OF run assms(1) dr, folded gone_def]
  have len: "length (uniq ids) = card (set ids)" using distinct_card [OF distinct_uniq, of ids] by simp
  have "length ?rows = card (set (map re_id ?rows))" using distinct_card [OF dr] by simp
  also have "\<dots> \<le> card (set ids)" by (rule card_mono) auto
  finally have le: "length ?rows \<le> length (uniq ids)" using len by simp
  have rows: "ar_rows ar' = filter (\<lambda>r. re_id r \<notin> gone) (ar_rows ar)" "mr_excluidas m = card gone" using counts by auto
  have iff: "(re_id r \<notin> gone) = (\<not> (re_id r \<in> set ids \<and> re_endedAt r \<noteq> None \<and> \<not> protectedRow ?prot ar (re_id r)))"
    if "r \<in> set (ar_rows ar)" for r
  proof -
    have "x = r" if "x \<in> set (ar_rows ar)" "re_id x = re_id r" for x using inj_key [OF d] that \<open>r \<in> set (ar_rows ar)\<close> by metis
    then show ?thesis using that by (auto simp: gone_def to_go_def)
  qed
  have "length (ar_rows ar') + card gone = length (ar_rows ar)"
  proof -
    have "gone \<subseteq> re_id ` set (ar_rows ar)" by (auto simp: gone_def to_go_def)
    then have "gone = set (map re_id (filter (\<lambda>r. re_id r \<in> gone) (ar_rows ar)))" by auto
    then have "card gone = card (set (map re_id (filter (\<lambda>r. re_id r \<in> gone) (ar_rows ar))))" by (rule arg_cong)
    also have "\<dots> = length (filter (\<lambda>r. re_id r \<in> gone) (ar_rows ar))"
      using distinct_card [of "map re_id (filter (\<lambda>r. re_id r \<in> gone) (ar_rows ar))"] d by (simp add: distinct_map_filter)
    finally show ?thesis unfolding rows(1) using sum_length_filter_compl [of "\<lambda>r. re_id r \<in> gone" "ar_rows ar"] by simp
  qed
  moreover have "ar_rows ar' = filter (\<lambda>r. \<not> (re_id r \<in> set ids \<and> re_endedAt r \<noteq> None \<and> \<not> protectedRow ?prot ar (re_id r))) (ar_rows ar)"
    unfolding rows(1) by (rule filter_cong [OF refl iff])
  ultimately show ?thesis using counts le len rows(2) by simp
qed

section \<open>Concrete instances\<close>

definition sample_archive_env :: archive_env where
  "sample_archive_env = \<lparr>ae_root = [''rec''], ae_canonical = (\<lambda>p. p), ae_op = (\<lambda>_. sample_op), ae_renameFails = (\<lambda>_. False),
     ae_rmFails = (\<lambda>_. False), ae_lockFails = (\<lambda>_. False), ae_dbFails = (\<lambda>_. False), ae_legado = None,
     ae_decrypt = Some, ae_findStorageFails = False, ae_listStoragesFails = False, ae_deleteFails = (\<lambda>_ _. False)\<rparr>"

definition sample_archive_row :: archive_row where
  "sample_archive_row = \<lparr>re_id = ''r1'', re_cameraId = ''c'', re_filePath = ''c/a.mp4'', re_startedAt = 0, re_endedAt = Some 60,
     re_sizeBytes = Some 7, re_motionScore = Some 0, re_triggerMode = ''continuous'', re_cloudKey = None, re_cloudStorageId = None,
     re_cloudUploadedAt = None, re_cloudVerifiedAt = None, re_cloudMissingSince = None, re_localDeletedAt = None\<rparr>"

definition sample_archive :: archive where
  "sample_archive = \<lparr>ar_rows = [sample_archive_row, sample_archive_row\<lparr>re_id := ''r2'', re_filePath := ''c/b.mp4''\<rparr>],
     ar_clips = [], ar_storages = [], ar_files = [''c/a.mp4'' \<mapsto> Bytes ''1234567'', ''c/b.mp4'' \<mapsto> Bytes ''7654321''],
     ar_objects = (\<lambda>_ _. None), ar_ops = 0\<rparr>"

definition sample_hold :: "investigation_item list" where
  "sample_hold = [\<lparr>ii_investigationId = ''i'', ii_legalHold = True, ii_createdAt = 5, ii_recordingId = None, ii_eventId = None,
     ii_metadata = JObj [(''enabled'', JBool True), (''recordingIds'', JArr [JStr ''r2''])]\<rparr>]"

definition sample_retention :: retention_env where
  "sample_retention = \<lparr>rt_archive = sample_archive_env, rt_protection = getProtectionSets sample_hold [],
     rt_policy = readTwoTierPolicy (\<lambda>_. None), rt_hasColumn = True, rt_now = 10 * DAY_MS\<rparr>"

lemma sample_archive_ids: "ids_distinct sample_archive"
  by (simp add: ids_distinct_def sample_archive_def sample_archive_row_def)

lemma sample_protected: "protectedRow (rt_protection sample_retention) sample_archive ''r2''"
proof -
  have "''r2'' \<in> set (pr_recordingIds (getProtectionSets sample_hold []))" by code_simp
  then show ?thesis by (simp add: protectedRow_def sample_retention_def)
qed

text \<open>The recording under the hold stays; the pass ends with its budget left.\<close>

theorem retention_pass_exact_witness:
  "\<exists>ar' res left. expireRecordingsInBatches sample_retention 500 (loadRetentionGroups [] 3) (sample_archive, no_cleanup) 20000 =
     Some ((ar', res), left) \<and> ''r2'' \<in> re_id ` set (ar_rows ar') \<and> length (ar_rows ar') + cu_recordingsDeleted res = 2"
proof -
  have limits: "bl_batchSize (readBatchLimits (\<lambda>_. None)) = 500" "bl_maxPerCycle (readBatchLimits (\<lambda>_. None)) = 20000"
    by (simp_all add: readBatchLimits_def env_whole_def envNumber_def clamp_max_def clamp_min_def truncate_rat_def Let_def)
  have "distinct (map fst ([] :: (string \<times> entrada_retencao) list))" by simp
  from retention_pass_exact [OF sample_archive_ids this, of sample_retention "\<lambda>_. None" 3, unfolded limits]
  obtain ar' res left gone where run: "expireRecordingsInBatches sample_retention 500 (loadRetentionGroups [] 3) (sample_archive, no_cleanup) 20000 =
      Some ((ar', res), left)" "ar_rows ar' = filter (\<lambda>r. re_id r \<notin> gone) (ar_rows sample_archive)"
    "\<forall>r\<in>set (ar_rows sample_archive). re_id r \<in> gone \<longrightarrow> \<not> protectedRow (rt_protection sample_retention) sample_archive (re_id r)"
    "length (ar_rows ar') + cu_recordingsDeleted res = length (ar_rows sample_archive)" by blast
  have "''r2'' \<notin> gone" using run(3) sample_protected by (auto simp: sample_archive_def)
  then have "''r2'' \<in> re_id ` set (ar_rows ar')" unfolding run(2) by (auto simp: sample_archive_def)
  moreover have "length (ar_rows sample_archive) = 2" by (simp add: sample_archive_def)
  ultimately show ?thesis using run(1,4) by auto
qed

theorem expiry_pages_irrelevant_witness:
  "expireRecordingsInBatches sample_retention 1 (loadRetentionGroups [] 3) (sample_archive, no_cleanup) 20000 =
   expireRecordingsInBatches sample_retention 500 (loadRetentionGroups [] 3) (sample_archive, no_cleanup) 20000"
  using expiry_pages_irrelevant [of "(sample_archive, no_cleanup)" 1 500] sample_archive_ids by simp

theorem manual_deletion_accounts_witness:
  "\<exists>ar' m. excluirGravacoesEscolhidas sample_archive_env sample_hold [''r1'', ''r2'', ''r9'', ''r1''] sample_archive = (ar', Inr m) \<and>
     mr_solicitadas m = 3 \<and> mr_excluidas m + mr_protegidas m + mr_emAndamento m + mr_naoEncontradas m = 3 \<and>
     map re_id (ar_rows ar') = [''r2'']"
proof -
  let ?ids = "[''r1'', ''r2'', ''r9'', ''r1'']"
  have answers: "ok (snd (excluirGravacoesEscolhidas sample_archive_env sample_hold ?ids sample_archive))" by code_simp
  obtain ar' x where run: "excluirGravacoesEscolhidas sample_archive_env sample_hold ?ids sample_archive = (ar', x)" by fastforce
  with answers obtain m where m: "x = Inr m" by (auto simp: ok_iff)
  note told = manual_deletion_accounts [OF sample_archive_ids run [unfolded m]]
  have p: "protectedRow (getProtectionSets sample_hold (ar_clips sample_archive)) sample_archive ''r2''"
    "\<not> protectedRow (getProtectionSets sample_hold (ar_clips sample_archive)) sample_archive ''r1''"
    using sample_protected by (simp_all add: sample_retention_def sample_archive_def protectedRow_def) code_simp
  have "map re_id (ar_rows ar') = [''r2'']"
    using told p by (simp add: sample_archive_def sample_archive_row_def)
  moreover have "card (set ?ids) = 3" by (simp add: card_insert_if)
  ultimately show ?thesis using run m told by metis
qed

end
