(* ===== verification/Retention_Guard_Properties.thy ===== *)
theory Retention_Guard_Properties
  imports Retention_Guard Retention_Properties
begin

text \<open>
  What the guard of the disk and the sweep of the buckets leave alone, and two cases in which they do
  not: a remote copy without an active storage, and storages whose prefixes are nested.
\<close>

section \<open>The guard of the disk\<close>

text \<open>What holds between the archive the guard began with and the one it has reached.\<close>

definition guarded :: "protection \<Rightarrow> bool \<Rightarrow> archive \<Rightarrow> archive \<Rightarrow> bool" where
  "guarded prot nuvem ar0 ar \<longleftrightarrow> ids_distinct ar \<and> ar_storages ar = ar_storages ar0 \<and>
     (\<forall>x\<in>set (ar_rows ar). \<exists>r\<in>set (ar_rows ar0). \<exists>l. x = r\<lparr>re_localDeletedAt := l\<rparr>) \<and>
     (\<forall>r\<in>set (ar_rows ar0). re_id r \<in> set (pr_recordingIds prot) \<longrightarrow> r \<in> set (ar_rows ar)) \<and>
     (nuvem \<longrightarrow> (\<forall>r\<in>set (ar_rows ar0). re_cloudUploadedAt r \<noteq> None \<longrightarrow>
        r \<in> set (ar_rows ar) \<or> (re_localDeletedAt r = None \<and> re_cloudMissingSince r = None \<and>
          (\<exists>l. r\<lparr>re_localDeletedAt := l\<rparr> \<in> set (ar_rows ar))))) \<and>
     (nuvem \<and> (\<forall>r\<in>set (ar_rows ar0). re_cloudUploadedAt r = None \<longrightarrow> re_cloudKey r = None) \<longrightarrow> ar_objects ar = ar_objects ar0)"

lemma guarded_refl: "ids_distinct ar \<Longrightarrow> guarded prot nuvem ar ar"
proof -
  have "\<exists>r\<in>set rs. \<exists>l. x = r\<lparr>re_localDeletedAt := l\<rparr>" if "x \<in> set rs" for x rs
    by (rule bexI [OF _ that], rule exI [of _ "re_localDeletedAt x"]) simp
  then show "ids_distinct ar \<Longrightarrow> guarded prot nuvem ar ar" unfolding guarded_def by blast
qed

lemma liberar_shape:
  assumes "liberarEspacoLocal env r ar = (ar', res)"
  shows "ar' = ar \<or> (\<exists>fs. ar' = ar\<lparr>ar_files := fs\<rparr>) \<or>
    (\<exists>fs. ar' = updateRow (re_id r) (\<lambda>x. x\<lparr>re_localDeletedAt := Some (gn_now env)\<rparr>) (ar\<lparr>ar_files := fs\<rparr>))"
proof (cases "ensureFileUnderRoot (gn_archive env) (re_filePath r)")
  case None
  then show ?thesis using assms by (simp add: liberarEspacoLocal_def)
next
  case (Some p)
  obtain fs b where "removeTargets (gn_rmFails env) (map (relOf (gn_archive env)) [p, derivedThumbnailPath p, buildTimelinePreviewPath p,
      compatiblePath (gn_archive env) (re_cameraId r) (re_id r)]) (ar_files ar, False) = (fs, b)" by fastforce
  then have "ar' = (if gn_updateFails env (re_id r) then ar\<lparr>ar_files := fs\<rparr>
      else updateRow (re_id r) (\<lambda>x. x\<lparr>re_localDeletedAt := Some (gn_now env)\<rparr>) (ar\<lparr>ar_files := fs\<rparr>))"
    using assms Some by (simp add: liberarEspacoLocal_def Let_def)
  then show ?thesis by (metis (no_types))
qed

lemma ids_update:
  assumes "\<And>x. re_id (f x) = re_id x"
  shows "map re_id (ar_rows (updateRow i f ar)) = map re_id (ar_rows ar)"
  using assms by (simp add: updateRow_def)

lemma guarded_liberar:
  assumes "guarded prot nuvem ar0 ar" "r \<in> set (ar_rows ar)" "re_id r \<notin> set (pr_recordingIds prot)"
    "re_localDeletedAt r = None" "re_cloudMissingSince r = None" "distinct (map re_id (ar_rows ar0))"
    "liberarEspacoLocal env r ar = (ar', res)"
  shows "guarded prot nuvem ar0 ar' \<and> (\<forall>x\<in>set (ar_rows ar). re_id x \<noteq> re_id r \<longrightarrow> x \<in> set (ar_rows ar')) \<and>
    length (ar_rows ar') = length (ar_rows ar)"
proof -
  let ?f = "\<lambda>x. x\<lparr>re_localDeletedAt := Some (gn_now env)\<rparr>"
  have cong: "guarded prot nuvem ar0 (ar\<lparr>ar_files := fs\<rparr>)" for fs using assms(1) by (simp add: guarded_def ids_distinct_def)
  have "guarded prot nuvem ar0 b \<and> (\<forall>x\<in>set (ar_rows ar). re_id x \<noteq> re_id r \<longrightarrow> x \<in> set (ar_rows b)) \<and> length (ar_rows b) = length (ar_rows ar)"
    if b: "b = updateRow (re_id r) ?f (ar\<lparr>ar_files := fs\<rparr>)" for fs b
  proof -
    have ids: "map re_id (ar_rows b) = map re_id (ar_rows ar)" using ids_update [of ?f] b by simp
    have keep: "x \<in> set (ar_rows b)" if "x \<in> set (ar_rows ar)" "re_id x \<noteq> re_id r" for x
      using that b by (force simp: updateRow_def)
    have set_r: "?f x \<in> set (ar_rows b)" if "x \<in> set (ar_rows ar)" "re_id x = re_id r" for x
      using that b by (force simp: updateRow_def)
    have r_only: "x = r" if "x \<in> set (ar_rows ar)" "re_id x = re_id r" for x
      using inj_key [of re_id "ar_rows ar" x r] that assms(1,2) by (simp add: guarded_def ids_distinct_def)
    have g: "ids_distinct ar" "ar_storages ar = ar_storages ar0"
      "\<forall>x\<in>set (ar_rows ar). \<exists>r\<in>set (ar_rows ar0). \<exists>l. x = r\<lparr>re_localDeletedAt := l\<rparr>"
      "\<forall>r\<in>set (ar_rows ar0). re_id r \<in> set (pr_recordingIds prot) \<longrightarrow> r \<in> set (ar_rows ar)"
      "nuvem \<longrightarrow> (\<forall>r\<in>set (ar_rows ar0). re_cloudUploadedAt r \<noteq> None \<longrightarrow>
        r \<in> set (ar_rows ar) \<or> (re_localDeletedAt r = None \<and> re_cloudMissingSince r = None \<and>
          (\<exists>l. r\<lparr>re_localDeletedAt := l\<rparr> \<in> set (ar_rows ar))))"
      "nuvem \<and> (\<forall>r\<in>set (ar_rows ar0). re_cloudUploadedAt r = None \<longrightarrow> re_cloudKey r = None) \<longrightarrow> ar_objects ar = ar_objects ar0"
      using assms(1) by (simp_all add: guarded_def)
    have from0: "\<exists>q\<in>set (ar_rows ar0). \<exists>l. x = q\<lparr>re_localDeletedAt := l\<rparr>" if x: "x \<in> set (ar_rows b)" for x
    proof -
      obtain y where y: "y \<in> set (ar_rows ar)" "x = (if re_id y = re_id r then ?f y else y)" using x b by (auto simp: updateRow_def)
      obtain q l where "q \<in> set (ar_rows ar0)" "y = q\<lparr>re_localDeletedAt := l\<rparr>" using g(3) y(1) by blast
      then show ?thesis using y(2) by (auto intro!: bexI [of _ q])
    qed
    have prot: "q \<in> set (ar_rows b)" if "q \<in> set (ar_rows ar0)" "re_id q \<in> set (pr_recordingIds prot)" for q
      using keep g(4) that assms(3) by metis
    have up: "q \<in> set (ar_rows b) \<or> (re_localDeletedAt q = None \<and> re_cloudMissingSince q = None \<and>
          (\<exists>l. q\<lparr>re_localDeletedAt := l\<rparr> \<in> set (ar_rows b)))"
      if q: "nuvem" "q \<in> set (ar_rows ar0)" "re_cloudUploadedAt q \<noteq> None" for q
    proof (cases "re_id q = re_id r")
      case False
      then have "x \<in> set (ar_rows b)" if "x \<in> set (ar_rows ar)" "re_id x = re_id q" for x using keep that by metis
      then have "q \<in> set (ar_rows ar) \<Longrightarrow> q \<in> set (ar_rows b)"
        "q\<lparr>re_localDeletedAt := l\<rparr> \<in> set (ar_rows ar) \<Longrightarrow> q\<lparr>re_localDeletedAt := l\<rparr> \<in> set (ar_rows b)" for l by simp_all
      then show ?thesis using g(5) q by blast
    next
      case True
      consider "q \<in> set (ar_rows ar)" | l where "re_localDeletedAt q = None" "re_cloudMissingSince q = None" "q\<lparr>re_localDeletedAt := l\<rparr> \<in> set (ar_rows ar)"
        using g(5) q by blast
      then show ?thesis
      proof cases
        case 1
        then have "q = r" using r_only True by blast
        then show ?thesis using set_r [OF 1 True] assms(4,5) by blast
      next
        case (2 l)
        have "?f (q\<lparr>re_localDeletedAt := l\<rparr>) \<in> set (ar_rows b)" using set_r [OF 2(3)] True by simp
        then show ?thesis using 2(1,2) by auto
      qed
    qed
    have "ar_objects b = ar_objects ar" "ar_storages b = ar_storages ar" "ar_clips b = ar_clips ar" using b by (simp_all add: updateRow_def)
    then have "guarded prot nuvem ar0 b"
      unfolding guarded_def ids_distinct_def ids using g(1,2,6) from0 prot up by (simp add: ids_distinct_def)
    moreover have "length (ar_rows b) = length (ar_rows ar)" using arg_cong [OF ids, of length] by simp
    ultimately show ?thesis using keep by blast
  qed
  then show ?thesis using liberar_shape [OF assms(7)] cong assms(1) by auto
qed

lemma guarded_apagar:
  assumes "guarded prot nuvem ar0 ar" "r \<in> set (ar_rows ar)" "nuvem \<longrightarrow> re_cloudUploadedAt r = None"
    "deleteRecording env prot r ar = (ar', res)"
  shows "guarded prot nuvem ar0 ar' \<and> (\<forall>x\<in>set (ar_rows ar). re_id x \<noteq> re_id r \<longrightarrow> x \<in> set (ar_rows ar')) \<and>
    length (ar_rows ar) \<le> length (ar_rows ar') + (if res = Inr True then 1 else 0)"
proof -
  have ids: "ids_distinct ar" using assms(1) by (simp add: guarded_def)
  note rows = deleteRecording_rows [OF assms(4) ids]
  show ?thesis
  proof (cases "res = Inr True")
    case False
    then show ?thesis using rows(1,2,5) assms(1) by (simp add: guarded_def)
  next
    case True
    note del = rows(4) [OF True]
    have r_only: "x = r" if "x \<in> set (ar_rows ar)" "re_id x = re_id r" for x
      using inj_key [of re_id "ar_rows ar" x r] that ids assms(2) by (simp add: ids_distinct_def)
    have keep: "x \<in> set (ar_rows ar')" if "x \<in> set (ar_rows ar)" "x \<noteq> r" for x using del r_only that by auto
    have unprot: "re_id r \<notin> set (pr_recordingIds prot)" using del by (auto simp: protectedRow_def)
    have objects: "ar_objects ar' = ar_objects ar0"
      if "nuvem" "\<forall>r\<in>set (ar_rows ar0). re_cloudUploadedAt r = None \<longrightarrow> re_cloudKey r = None"
    proof -
      obtain q l where q: "q \<in> set (ar_rows ar0)" "r = q\<lparr>re_localDeletedAt := l\<rparr>" using assms(1,2) unfolding guarded_def by blast
      then have "re_cloudUploadedAt q = None" using that(1) assms(3) by simp
      then have "re_cloudKey r = None" using q that(2) by simp
      then show ?thesis using del that assms(1) by (simp add: deleteCloudObject_def guarded_def)
    qed
    have up: "q \<in> set (ar_rows ar') \<or> (re_localDeletedAt q = None \<and> re_cloudMissingSince q = None \<and>
          (\<exists>l. q\<lparr>re_localDeletedAt := l\<rparr> \<in> set (ar_rows ar')))"
      if q: "nuvem" "q \<in> set (ar_rows ar0)" "re_cloudUploadedAt q \<noteq> None" for q
    proof -
      have "x \<in> set (ar_rows ar')" if "x \<in> set (ar_rows ar)" "re_cloudUploadedAt x = re_cloudUploadedAt q" for x
      proof (rule keep [OF that(1)])
        show "x \<noteq> r" using that(2) assms(3) q by auto
      qed
      then have "q \<in> set (ar_rows ar) \<Longrightarrow> q \<in> set (ar_rows ar')"
        "q\<lparr>re_localDeletedAt := l\<rparr> \<in> set (ar_rows ar) \<Longrightarrow> q\<lparr>re_localDeletedAt := l\<rparr> \<in> set (ar_rows ar')" for l by simp_all
      then show ?thesis using assms(1) q unfolding guarded_def by blast
    qed
    have sub: "set (ar_rows ar') \<subseteq> set (ar_rows ar)" using del by auto
    have prot: "q \<in> set (ar_rows ar')" if "q \<in> set (ar_rows ar0)" "re_id q \<in> set (pr_recordingIds prot)" for q
      using assms(1) keep [of q] that unprot unfolding guarded_def by blast
    have from0: "\<forall>x\<in>set (ar_rows ar'). \<exists>r\<in>set (ar_rows ar0). \<exists>l. x = r\<lparr>re_localDeletedAt := l\<rparr>"
      using assms(1) sub unfolding guarded_def by blast
    have "ar_storages ar' = ar_storages ar0" using rows(1) assms(1) by (simp add: guarded_def)
    then have "guarded prot nuvem ar0 ar'" unfolding guarded_def using rows(2) objects up prot from0 by blast
    moreover have "length (ar_rows ar) = length (ar_rows ar') + 1"
      using length_without_key [of re_id "ar_rows ar" r] ids assms(2) del by (simp add: ids_distinct_def)
    ultimately show ?thesis using keep True by auto
  qed
qed

lemma guarded_batch:
  assumes "guarded prot nuvem ar0 ar" "set rs \<subseteq> set (ar_rows ar)" "distinct (map re_id rs)" "distinct (map re_id (ar_rows ar0))"
    "\<forall>r\<in>set rs. re_id r \<notin> set (pr_recordingIds prot) \<and>
      (if modo = Liberar then re_localDeletedAt r = None \<and> re_cloudMissingSince r = None else nuvem \<longrightarrow> re_cloudUploadedAt r = None)"
    "guardBatch env prot modo rs (ar, n) = (ar', n')"
  shows "guarded prot nuvem ar0 ar' \<and> n' \<le> n + length rs \<and> length (ar_rows ar) + n \<le> length (ar_rows ar') + n'"
  using assms(1-3,5,6)
proof (induction rs arbitrary: ar n)
  case (Cons r rs)
  obtain ar1 res where step: "(if modo = Liberar then liberarEspacoLocal env r ar else deleteRecording (gn_archive env) prot r ar) = (ar1, res)"
    by fastforce
  let ?n = "if res = Inr True then Suc n else n"
  have run: "guardBatch env prot modo rs (ar1, ?n) = (ar', n')"
    using Cons.prems(5) step by (auto split: sum.splits bool.splits if_splits)
  have one: "guarded prot nuvem ar0 ar1 \<and> (\<forall>x\<in>set (ar_rows ar). re_id x \<noteq> re_id r \<longrightarrow> x \<in> set (ar_rows ar1)) \<and>
      length (ar_rows ar) \<le> length (ar_rows ar1) + (if res = Inr True then 1 else 0)"
  proof (cases "modo = Liberar")
    case True
    have "guarded prot nuvem ar0 ar1 \<and> (\<forall>x\<in>set (ar_rows ar). re_id x \<noteq> re_id r \<longrightarrow> x \<in> set (ar_rows ar1)) \<and>
        length (ar_rows ar1) = length (ar_rows ar)"
      using guarded_liberar [OF Cons.prems(1) _ _ _ _ assms(4), of r env ar1 res] Cons.prems(2,4) step True by auto
    then show ?thesis by auto
  next
    case False
    then show ?thesis using guarded_apagar [OF Cons.prems(1), of r "gn_archive env" ar1 res] Cons.prems(2,4) step by auto
  qed
  have sub: "set rs \<subseteq> set (ar_rows ar1)"
  proof
    fix x assume "x \<in> set rs"
    then show "x \<in> set (ar_rows ar1)" using one Cons.prems(2,3) by (metis (no_types, lifting) distinct.simps(2) image_eqI list.set_map list.simps(9) set_subset_Cons subsetD)
  qed
  have "guarded prot nuvem ar0 ar' \<and> n' \<le> ?n + length rs \<and> length (ar_rows ar1) + ?n \<le> length (ar_rows ar') + n'"
    using Cons.IH [OF conjunct1 [OF one] sub _ _ run] Cons.prems(3,4) by simp
  then show ?case using one by (auto split: if_splits)
qed simp

lemma sorted_take_facts:
  assumes "set rs \<subseteq> {r \<in> set rows. P r}" "distinct (map re_id rows)" "distinct rs"
  shows "distinct (map re_id rs)"
  using assms by (auto simp: distinct_map intro: inj_on_subset)

lemma selecionar_facts:
  assumes "distinct (map re_id (ar_rows ar))"
  shows "set (selecionar prot cond ar) \<subseteq> {r \<in> set (ar_rows ar). re_id r \<notin> set (pr_recordingIds prot) \<and> cond r}"
    "distinct (map re_id (selecionar prot cond ar))" "length (selecionar prot cond ar) \<le> 20"
proof -
  show sub: "set (selecionar prot cond ar) \<subseteq> {r \<in> set (ar_rows ar). re_id r \<notin> set (pr_recordingIds prot) \<and> cond r}"
    using set_take_subset by (fastforce simp: selecionar_def)
  have "distinct (selecionar prot cond ar)" using assms by (simp add: selecionar_def distinct_map)
  then show "distinct (map re_id (selecionar prot cond ar))" using sorted_take_facts [OF _ assms] sub by blast
  show "length (selecionar prot cond ar) \<le> 20" by (simp add: selecionar_def)
qed

lemma choice_cases:
  "(let oldest = (if nuvem then as else []) in if oldest \<noteq> [] then (Liberar, oldest) else (Apagar, bs)) = (modo, rs) \<Longrightarrow>
   (nuvem \<and> modo = Liberar \<and> rs = as) \<or> (modo = Apagar \<and> rs = bs)"
  by (auto simp: Let_def split: if_splits)

lemma escolher_facts:
  assumes "escolher prot nuvem ar = (modo, rs)" "distinct (map re_id (ar_rows ar))"
  shows "set rs \<subseteq> set (ar_rows ar)" "distinct (map re_id rs)" "length rs \<le> 20"
    "\<forall>r\<in>set rs. re_id r \<notin> set (pr_recordingIds prot) \<and>
      (if modo = Liberar then re_localDeletedAt r = None \<and> re_cloudMissingSince r = None else nuvem \<longrightarrow> re_cloudUploadedAt r = None)"
proof -
  obtain cond where cond: "rs = selecionar prot cond ar"
    "\<And>r. cond r \<Longrightarrow> if modo = Liberar then re_localDeletedAt r = None \<and> re_cloudMissingSince r = None else nuvem \<longrightarrow> re_cloudUploadedAt r = None"
  proof -
    let ?c = "\<lambda>r. re_cloudUploadedAt r \<noteq> None \<and> re_localDeletedAt r = None \<and> re_cloudMissingSince r = None"
    let ?d = "\<lambda>r. nuvem \<longrightarrow> re_cloudUploadedAt r = None"
    consider "nuvem" "modo = Liberar" "rs = selecionar prot ?c ar" | "modo = Apagar" "rs = selecionar prot ?d ar"
      using choice_cases [OF assms(1) [unfolded escolher_def]] by blast
    then show ?thesis
    proof cases
      case 1
      then show ?thesis by (intro that [of ?c]) auto
    next
      case 2
      then show ?thesis by (intro that [of ?d]) auto
    qed
  qed
  note facts = selecionar_facts [OF assms(2), of prot cond, folded cond(1)]
  show "set rs \<subseteq> set (ar_rows ar)" "distinct (map re_id rs)" "length rs \<le> 20"
    "\<forall>r\<in>set rs. re_id r \<notin> set (pr_recordingIds prot) \<and>
      (if modo = Liberar then re_localDeletedAt r = None \<and> re_cloudMissingSince r = None else nuvem \<longrightarrow> re_cloudUploadedAt r = None)"
    using facts cond(2) by blast+
qed

lemma guarded_loop:
  assumes "guarded prot nuvem ar0 (fst st)" "distinct (map re_id (ar_rows ar0))"
    "guardLoop env prot nuvem target mx iterations current freeAntes noProgress st = (st', e)"
  shows "guarded prot nuvem ar0 (fst st') \<and> snd st' \<le> snd st + 20 * iterations \<and>
    length (ar_rows (fst st)) + snd st \<le> length (ar_rows (fst st')) + snd st'"
  using assms(1,3)
proof (induction env prot nuvem target mx iterations current freeAntes noProgress st rule: guardLoop.induct)
  case (2 env prot nuvem target mx iterations current freeAntes noProgress st)
  obtain modo rs where pick: "escolher prot nuvem (fst st) = (modo, rs)" by fastforce
  obtain st1 where batch: "guardBatch env prot modo rs st = st1" by simp
  have "distinct (map re_id (ar_rows (fst st)))" using "2.prems"(1) by (simp add: guarded_def ids_distinct_def)
  note facts = escolher_facts [OF pick this]
  have one: "guarded prot nuvem ar0 (fst st1) \<and> snd st1 \<le> snd st + 20 \<and>
      length (ar_rows (fst st)) + snd st \<le> length (ar_rows (fst st1)) + snd st1"
    using guarded_batch [OF "2.prems"(1) facts(1,2) assms(2) facts(4), of env "snd st" "fst st1" "snd st1"] batch facts(3)
    by (simp add: prod.collapse)
  show ?case
  proof (cases "current \<le> target \<or> rs = []")
    case True
    then have "st' = st" using "2.prems"(2) pick by (auto simp: Let_def split: if_splits)
    then show ?thesis using "2.prems"(1) by simp
  next
    case go: False
    show ?thesis
    proof (cases "snd st1 = snd st \<or> gn_df env (fst st1) = None")
      case True
      then have "st' = st1" using "2.prems"(2) pick batch go by (auto split: option.splits if_splits)
      then show ?thesis using one by simp
    next
      case False
      then obtain t f where df: "gn_df env (fst st1) = Some (t, f)" by fastforce
      note IH = "2.IH" [OF _ pick [symmetric] refl]
      consider "f > freeAntes" | "\<not> f > freeAntes" "Suc noProgress \<ge> mx" | "\<not> f > freeAntes" "\<not> Suc noProgress \<ge> mx" by blast
      then show ?thesis
      proof cases
        case 1
        then have run: "guardLoop env prot nuvem target mx iterations (diskUsagePercent (t, f)) f 0 st1 = (st', e)"
          using "2.prems"(2) pick batch go False df by simp
        from "2.IH"(1) [OF _ _ pick [symmetric]] show ?thesis using go batch False df 1 run one by fastforce
      next
        case 2
        then have "st' = st1" using "2.prems"(2) pick batch go False df by simp
        then show ?thesis using one by simp
      next
        case 3
        then have run: "guardLoop env prot nuvem target mx iterations (diskUsagePercent (t, f)) f (Suc noProgress) st1 = (st', e)"
          using "2.prems"(2) pick batch go False df by simp
        from "2.IH"(2) [OF _ _ pick [symmetric]] show ?thesis using go batch False df 3 run one by fastforce
      qed
    qed
  qed
qed auto

text \<open>C20 (guardian_spares). Whatever the disk measures, whatever fails and however many rounds it takes,
  the guard of the disk leaves every recording under a hold as it was. While a storage is active the
  row of every recording that was sent stays: at most its \<open>localDeletedAt\<close> is set, and only when it
  had a local copy and its remote one was not known to be missing; and no object of a bucket is
  removed. It takes at most 2000 recordings in all.\<close>

theorem guardian_spares:
  assumes "ids_distinct ar" "checkDiskUsage env vars prot autoCleanup countFails ar = (ar', n)"
  shows "(\<forall>r\<in>set (ar_rows ar). re_id r \<in> set (pr_recordingIds prot) \<longrightarrow> r \<in> set (ar_rows ar')) \<and>
    (nuvemAtiva countFails ar \<longrightarrow> (\<forall>r\<in>set (ar_rows ar). re_cloudUploadedAt r \<noteq> None \<longrightarrow>
       r \<in> set (ar_rows ar') \<or> (re_localDeletedAt r = None \<and> re_cloudMissingSince r = None \<and>
         (\<exists>l. r\<lparr>re_localDeletedAt := l\<rparr> \<in> set (ar_rows ar'))))) \<and>
    (nuvemAtiva countFails ar \<and> (\<forall>r\<in>set (ar_rows ar). re_cloudUploadedAt r = None \<longrightarrow> re_cloudKey r = None) \<longrightarrow>
       ar_objects ar' = ar_objects ar) \<and>
    n \<le> 2000 \<and> length (ar_rows ar) \<le> length (ar_rows ar') + n"
proof -
  have d: "distinct (map re_id (ar_rows ar))" using assms(1) by (simp add: ids_distinct_def)
  have "guarded prot (nuvemAtiva countFails ar) ar ar' \<and> n \<le> 2000 \<and> length (ar_rows ar) \<le> length (ar_rows ar') + n"
  proof (cases "ar' = ar \<and> n = 0")
    case True
    then show ?thesis using guarded_refl [OF assms(1)] by simp
  next
    case False
    then obtain t f where df: "gn_df env ar = Some (t, f)" using assms(2) by (auto simp: checkDiskUsage_def split: option.splits)
    obtain st e where loop: "guardLoop env prot (nuvemAtiva countFails ar) (targetPercent vars) (maxNoProgressBatches vars) 100
        (diskUsagePercent (t, f)) f 0 (ar, 0) = (st, e)" by fastforce
    have "st = (ar', n)" using assms(2) False df loop by (auto simp: checkDiskUsage_def Let_def split: if_splits)
    then show ?thesis using guarded_loop [of prot "nuvemAtiva countFails ar" ar "(ar, 0)", OF _ d loop] guarded_refl [OF assms(1)] by simp
  qed
  then show ?thesis unfolding guarded_def by blast
qed

text \<open>A recording that is only in the bucket, whose storage is registered but not active.\<close>

definition remote_only :: archive where
  "remote_only = \<lparr>ar_rows = [sample_archive_row\<lparr>re_cloudKey := Some ''recordings/c/r1.mp4'', re_cloudStorageId := Some ''s'',
       re_cloudUploadedAt := Some 100, re_localDeletedAt := Some 200\<rparr>],
     ar_clips = [], ar_storages = [\<lparr>sg_id = ''s'', sg_name = ''n'', sg_provider = ''s3'', sg_endpoint = ''e'', sg_region = ''r'', sg_bucket = ''b'', sg_prefix = ''p'',
       sg_accessKeyId = ''k'', sg_secretEncrypted = ''x'', sg_forcePathStyle = True, sg_isActive = False, sg_createdAt = 0\<rparr>],
     ar_files = Map.empty, ar_objects = (\<lambda>b k. if b = (''e'', ''b'') \<and> k = ''p/recordings/c/r1.mp4'' then Some ''1234567'' else None), ar_ops = 0\<rparr>"

definition full_guardian :: guardian_env where
  "full_guardian = \<lparr>gn_archive = sample_archive_env, gn_now = 500, gn_rmFails = (\<lambda>_. False), gn_updateFails = (\<lambda>_. False),
     gn_df = (\<lambda>_. Some (100, 5))\<rparr>"

theorem guardian_spares_witness:
  "nuvemAtiva False (remote_only\<lparr>ar_storages := map (\<lambda>g. g\<lparr>sg_isActive := True\<rparr>) (ar_storages remote_only)\<rparr>) \<and>
   re_id ` set (ar_rows (fst (checkDiskUsage full_guardian (\<lambda>_. None) \<lparr>pr_recordingIds = [], pr_clipIds = [], pr_eventIds = []\<rparr> True False
     (remote_only\<lparr>ar_storages := map (\<lambda>g. g\<lparr>sg_isActive := True\<rparr>) (ar_storages remote_only)\<rparr>)))) \<supseteq> {''r1''}"
proof -
  let ?ar = "remote_only\<lparr>ar_storages := map (\<lambda>g. g\<lparr>sg_isActive := True\<rparr>) (ar_storages remote_only)\<rparr>"
  let ?p = "\<lparr>pr_recordingIds = [], pr_clipIds = [], pr_eventIds = []\<rparr>"
  have ids: "ids_distinct ?ar" by (simp add: ids_distinct_def remote_only_def)
  have active: "nuvemAtiva False ?ar" by (simp add: nuvemAtiva_def remote_only_def)
  obtain ar' n where run: "checkDiskUsage full_guardian (\<lambda>_. None) ?p True False ?ar = (ar', n)" by fastforce
  have there: "re_id r \<in> re_id ` S" if "r\<lparr>re_localDeletedAt := l\<rparr> \<in> S" for r :: archive_row and l S
    by (rule image_eqI [OF _ that]) simp
  obtain r where r: "r \<in> set (ar_rows ?ar)" "re_id r = ''r1''" "re_cloudUploadedAt r \<noteq> None"
    by (simp add: remote_only_def sample_archive_row_def)
  then have "r \<in> set (ar_rows ar') \<or> (\<exists>l. r\<lparr>re_localDeletedAt := l\<rparr> \<in> set (ar_rows ar'))"
    using guardian_spares [OF ids run] active by blast
  then have "''r1'' \<in> re_id ` set (ar_rows ar')" using there r(2) by force
  then show ?thesis using active run by simp
qed

text \<open>(guardian_destroys_remote_only). Without an active storage, or when the count of active storages
  fails, the guard does not ask whether a recording still has a local file: it deletes one that
  exists only in the bucket of a registered storage, with its object, although that frees no space.\<close>

theorem guardian_destroys_remote_only:
  "(case checkDiskUsage full_guardian (\<lambda>_. None) \<lparr>pr_recordingIds = [], pr_clipIds = [], pr_eventIds = []\<rparr> True countFails remote_only of
      (ar', n) \<Rightarrow> ar_rows ar' = [] \<and> ar_objects ar' (''e'', ''b'') ''p/recordings/c/r1.mp4'' = None \<and> n = 1) \<and>
   ar_objects remote_only (''e'', ''b'') ''p/recordings/c/r1.mp4'' = Some ''1234567'' \<and>
   (\<forall>p. ar_files remote_only p = None)"
proof -
  have n: "nuvemAtiva c remote_only = False" for c by (simp add: nuvemAtiva_def remote_only_def)
  have "case checkDiskUsage full_guardian (\<lambda>_. None) \<lparr>pr_recordingIds = [], pr_clipIds = [], pr_eventIds = []\<rparr> True True remote_only of
      (ar', n) \<Rightarrow> ar_rows ar' = [] \<and> ar_objects ar' (''e'', ''b'') ''p/recordings/c/r1.mp4'' = None \<and> n = 1"
    by code_simp
  moreover have "checkDiskUsage full_guardian vars prot True countFails remote_only = checkDiskUsage full_guardian vars prot True True remote_only"
    for vars prot by (simp only: checkDiskUsage_def n)
  ultimately show ?thesis by (simp add: remote_only_def)
qed

section \<open>The sweep of the buckets\<close>

text \<open>The keys a storage lists begin with its prefix and a slash; two storages are apart when no
  object can have both beginnings.\<close>

definition apart :: "storage \<Rightarrow> storage \<Rightarrow> bool" where
  "apart s t \<longleftrightarrow> bucketOf s \<noteq> bucketOf t \<or>
     (\<not> prefix (fullKey (sr_prefix s) []) (fullKey (sr_prefix t) []) \<and> \<not> prefix (fullKey (sr_prefix t) []) (fullKey (sr_prefix s) []))"

lemma fullKey_base: "plain_key k \<Longrightarrow> prefix (fullKey pre []) (fullKey pre k)"
  by (simp add: fullKey_def joinS3Key_def strip_plain Let_def)

lemma apart_keys: "apart s t \<Longrightarrow> plain_key k \<Longrightarrow> plain_key l \<Longrightarrow>
   bucketOf s \<noteq> bucketOf t \<or> fullKey (sr_prefix s) k \<noteq> fullKey (sr_prefix t) l"
  unfolding apart_def using fullKey_base prefix_same_cases by metis

text \<open>What the sweep does to the archive: nothing but remove objects.\<close>

definition only_objects :: "archive \<Rightarrow> archive \<Rightarrow> bool" where
  "only_objects ar ar' \<longleftrightarrow> ar' = ar\<lparr>ar_objects := ar_objects ar'\<rparr>"

lemma only_objects_simps: "only_objects ar ar" "only_objects ar a \<Longrightarrow> only_objects a b \<Longrightarrow> only_objects ar b"
  "only_objects ar (removeObject s k ar)" "only_objects ar b \<Longrightarrow> ar_rows b = ar_rows ar"
  by (cases ar; cases a; cases b; auto simp: only_objects_def removeObject_def)+

lemma sweepKeys_keeps:
  assumes "sweepKeys env s teto prot chaves (ar, n) = (ar', n')"
    "\<forall>c\<in>set chaves. c \<notin> set prot \<longrightarrow> \<not> (b = bucketOf s \<and> full = fullKey (sr_prefix s) c)"
  shows "only_objects ar ar' \<and> ar_objects ar' b full = ar_objects ar b full"
  using assms
proof (induction chaves arbitrary: ar n)
  case (Cons c cs)
  have tail: "\<forall>c\<in>set cs. c \<notin> set prot \<longrightarrow> \<not> (b = bucketOf s \<and> full = fullKey (sr_prefix s) c)" using Cons.prems(2) by simp
  consider "ar' = ar" | "sweepKeys env s teto prot cs (ar, n) = (ar', n')"
    | "c \<notin> set prot" "sweepKeys env s teto prot cs (removeObject s c ar, Suc n) = (ar', n')"
    using Cons.prems(1) by (auto split: if_splits)
  then show ?case
  proof cases
    case 3
    have "ar_objects (removeObject s c ar) b full = ar_objects ar b full"
      using Cons.prems(2) 3(1) by (auto simp: removeObject_def)
    then show ?thesis using Cons.IH [OF 3(2) tail] only_objects_simps(2) [OF only_objects_simps(3)] by metis
  qed (use Cons.IH tail only_objects_simps(1) in auto)
qed (simp add: only_objects_simps)

lemma comDono_mem: "k \<in> set chaves \<Longrightarrow> k \<noteq> [] \<Longrightarrow> r \<in> set (ar_rows ar) \<Longrightarrow> re_cloudStorageId r = sr_id s \<Longrightarrow>
   re_cloudKey r = Some k \<Longrightarrow> k \<in> set (comDono s chaves ar)"
  by (force simp: comDono_def map_filter_def)

lemma sweepPages_keeps:
  assumes "sweepPages env s teto pages provado (ar, n) = (ar', n')"
    "\<And>a chaves c. only_objects ar a \<Longrightarrow> Some chaves \<in> set pages \<Longrightarrow> c \<in> set chaves \<Longrightarrow> c \<noteq> [] \<Longrightarrow>
       c \<notin> set (comDono s (filter (\<lambda>k. k \<noteq> []) chaves) a) \<Longrightarrow> \<not> (b = bucketOf s \<and> full = fullKey (sr_prefix s) c)"
  shows "only_objects ar ar' \<and> ar_objects ar' b full = ar_objects ar b full"
  using assms
proof (induction env s teto pages provado "(ar, n)" arbitrary: ar n rule: sweepPages.induct)
  case (3 env s teto page pages provado ar n)
  let ?c = "filter (\<lambda>k. k \<noteq> []) page"
  have rest: "\<not> (b = bucketOf s \<and> full = fullKey (sr_prefix s) c)"
    if "only_objects ar a" "Some chaves \<in> set pages" "c \<in> set chaves" "c \<noteq> []" "c \<notin> set (comDono s (filter (\<lambda>k. k \<noteq> []) chaves) a)" for a chaves c
    using "3.prems"(2) [OF that(1) _ that(3-5)] that(2) by simp
  show ?case
  proof (cases "?c = []")
    case True
    then show ?thesis using "3.prems"(1) "3.hyps"(1) [OF refl True _ _ rest] by (auto simp: Let_def only_objects_simps split: if_splits)
  next
    case False
    let ?prot = "comDono s ?c ar"
    show ?thesis
    proof (cases "\<not> (provado \<or> ?prot \<noteq> []) \<and> donosNoBanco s ar > 0")
      case True
      then have "ar' = ar" using "3.prems"(1) False by (auto simp: Let_def)
      then show ?thesis by (simp add: only_objects_simps)
    next
      case go: False
      obtain a1 n1 where keys: "sweepKeys env s teto ?prot ?c (ar, n) = (a1, n1)" by fastforce
      have "\<forall>c\<in>set ?c. c \<notin> set ?prot \<longrightarrow> \<not> (b = bucketOf s \<and> full = fullKey (sr_prefix s) c)"
        using "3.prems"(2) [OF only_objects_simps(1), of page] by auto
      note one = sweepKeys_keeps [OF keys this]
      have run: "(if n1 < teto then sweepPages env s teto pages (provado \<or> ?prot \<noteq> []) (a1, n1) else (a1, n1)) = (ar', n')"
        using "3.prems"(1) unfolding sweepPages.simps Let_def if_not_P [OF False] if_not_P [OF go] keys by simp
      show ?thesis
      proof (cases "n1 < teto")
        case True
        have "only_objects a1 ar' \<and> ar_objects ar' b full = ar_objects a1 b full"
        proof (rule "3.hyps"(2) [OF refl False refl refl go refl keys [symmetric] True])
          show "sweepPages env s teto pages (provado \<or> ?prot \<noteq> []) (a1, n1) = (ar', n')" using run True by simp
        qed (use rest only_objects_simps(2) conjunct1 [OF one] in blast)
        then show ?thesis using one only_objects_simps(2) by metis
      next
        case False
        then show ?thesis using one run by simp
      qed
    qed
  qed
qed (auto simp: only_objects_simps)

lemma sweepStorages_keeps:
  assumes "sweepStorages env teto pages ss (ar, n) = (ar', n')"
    "\<And>a s chaves c. only_objects ar a \<Longrightarrow> s \<in> set ss \<Longrightarrow> Some chaves \<in> set (pages s) \<Longrightarrow> c \<in> set chaves \<Longrightarrow> c \<noteq> [] \<Longrightarrow>
       c \<notin> set (comDono s (filter (\<lambda>k. k \<noteq> []) chaves) a) \<Longrightarrow> \<not> (b = bucketOf s \<and> full = fullKey (sr_prefix s) c)"
  shows "only_objects ar ar' \<and> ar_objects ar' b full = ar_objects ar b full"
  using assms
proof (induction ss arbitrary: ar n)
  case (Cons s ss)
  show ?case
  proof (cases "n \<ge> teto")
    case True
    then show ?thesis using Cons.prems(1) by (auto simp: only_objects_simps)
  next
    case False
    obtain a1 n1 where one: "sweepPages env s teto (pages s) False (ar, n) = (a1, n1)" by fastforce
    have first: "only_objects ar a1 \<and> ar_objects a1 b full = ar_objects ar b full"
      by (rule sweepPages_keeps [OF one]) (use Cons.prems(2) in auto)
    have "only_objects a1 ar' \<and> ar_objects ar' b full = ar_objects a1 b full"
      by (rule Cons.IH) (use Cons.prems first one False only_objects_simps(2) in \<open>auto, blast\<close>)
    then show ?thesis using first only_objects_simps(2) by metis
  qed
qed (simp add: only_objects_simps)

text \<open>A place, a bucket and a full key, that no listed key without a row leads to is left alone.\<close>

lemma sweep_leaves:
  assumes "cleanupOrphanCloudObjects env vars pages ar = (ar', n)"
    "\<And>a t chaves c. only_objects ar a \<Longrightarrow> t \<in> set (todosOsStorages env ar) \<Longrightarrow> Some chaves \<in> set (pages t) \<Longrightarrow> c \<in> set chaves \<Longrightarrow> c \<noteq> [] \<Longrightarrow>
       c \<notin> set (comDono t (filter (\<lambda>k. k \<noteq> []) chaves) a) \<Longrightarrow> \<not> (b = bucketOf t \<and> full = fullKey (sr_prefix t) c)"
  shows "only_objects ar ar' \<and> ar_objects ar' b full = ar_objects ar b full"
proof (cases "ar' = ar")
  case False
  then have "sweepStorages env (nat (env_whole vars ''RETENTION_CLOUD_ORPHAN_MAX_PER_CYCLE'' 5000 0 100000)) pages
      (todosOsStorages env ar) (ar, 0) = (ar', n)"
    using assms(1) by (auto simp: cleanupOrphanCloudObjects_def Let_def split: if_splits)
  then show ?thesis by (rule sweepStorages_keeps) (rule assms(2))
qed (simp add: only_objects_simps)

text \<open>C16 (sweep_keeps_owned). The sweep only removes objects, and whatever the listings say and whichever
  requests fail it keeps the object of every row of a registered storage, when no other storage
  shares its bucket under a prefix that contains the other's, and the keys are plain (no slash at
  either end).\<close>

theorem sweep_keeps_owned:
  assumes "cleanupOrphanCloudObjects env vars pages ar = (ar', n)"
    "s \<in> set (todosOsStorages env ar)" "r \<in> set (ar_rows ar)" "re_cloudStorageId r = sr_id s" "re_cloudKey r = Some k" "plain_key k"
    "\<forall>t\<in>set (todosOsStorages env ar). t = s \<or> apart t s"
    "\<forall>t\<in>set (todosOsStorages env ar). \<forall>chaves. Some chaves \<in> set (pages t) \<longrightarrow> (\<forall>c\<in>set chaves. c = [] \<or> plain_key c)"
  shows "objectOf s k ar' = objectOf s k ar \<and> ar' = ar\<lparr>ar_objects := ar_objects ar'\<rparr>"
proof -
  have safe: "\<not> (bucketOf s = bucketOf t \<and> fullKey (sr_prefix s) k = fullKey (sr_prefix t) c)"
    if t: "only_objects ar a" "t \<in> set (todosOsStorages env ar)" "Some chaves \<in> set (pages t)" "c \<in> set chaves" "c \<noteq> []"
      "c \<notin> set (comDono t (filter (\<lambda>k. k \<noteq> []) chaves) a)" for a t chaves c
  proof (cases "t = s")
    case False
    then have "apart t s" "plain_key c" using assms(7,8) t by blast+
    then show ?thesis using apart_keys assms(6) by metis
  next
    case True
    have c: "plain_key c" using assms(8) t by blast
    show ?thesis
    proof
      assume "bucketOf s = bucketOf t \<and> fullKey (sr_prefix s) k = fullKey (sr_prefix t) c"
      then have "k = c" using True by (intro fullKey_inj [OF assms(6) c, of "sr_prefix s"]) simp
      moreover have "r \<in> set (ar_rows a)" using only_objects_simps(4) [OF t(1)] assms(3) by simp
      ultimately have "c \<in> set (comDono t (filter (\<lambda>k. k \<noteq> []) chaves) a)"
        using comDono_mem assms(4,5) t(4,5) True by simp
      then show False using t(6) by simp
    qed
  qed
  have "only_objects ar ar' \<and> ar_objects ar' (bucketOf s) (fullKey (sr_prefix s) k) = ar_objects ar (bucketOf s) (fullKey (sr_prefix s) k)"
    by (rule sweep_leaves [OF assms(1)]) (rule safe)
  then show ?thesis by (simp add: objectOf_def only_objects_def)
qed

text \<open>Two storages of the same bucket, one with the prefix \<open>x\<close> and one without.\<close>

definition nested_storage :: "string \<Rightarrow> string \<Rightarrow> storage_row" where
  "nested_storage i pre = \<lparr>sg_id = i, sg_name = i, sg_provider = ''s3'', sg_endpoint = ''e'', sg_region = ''r'', sg_bucket = ''b'', sg_prefix = pre,
     sg_accessKeyId = ''k'', sg_secretEncrypted = ''x'', sg_forcePathStyle = True, sg_isActive = False, sg_createdAt = 0\<rparr>"

definition nested_archive :: "string \<Rightarrow> archive" where
  "nested_archive other = \<lparr>ar_rows =
       [sample_archive_row\<lparr>re_cloudKey := Some ''k1'', re_cloudStorageId := Some ''A'', re_cloudUploadedAt := Some 1, re_localDeletedAt := Some 2\<rparr>,
        sample_archive_row\<lparr>re_id := ''r2'', re_filePath := ''c/b.mp4'', re_cloudKey := Some ''k2'', re_cloudStorageId := Some ''B'',
          re_cloudUploadedAt := Some 1, re_localDeletedAt := Some 2\<rparr>],
     ar_clips = [], ar_storages = [nested_storage ''A'' other, nested_storage ''B'' ''x''], ar_files = Map.empty,
     ar_objects = (\<lambda>b k. if b = (''e'', ''b'') \<and> k \<in> {fullKey other ''k1'', ''x/k2''} then Some ''bytes'' else None), ar_ops = 0\<rparr>"

definition nested_pages :: "storage \<Rightarrow> string list option list" where
  "nested_pages s = (if sr_id s = Some ''A'' then if sr_prefix s = [] then [Some [''k1'', ''x/k2'']] else [Some [''k1'']] else [Some [''k2'']])"

theorem sweep_keeps_owned_witness:
  "ar_objects (fst (cleanupOrphanCloudObjects sample_archive_env (\<lambda>_. None) nested_pages (nested_archive ''y''))) (''e'', ''b'') ''x/k2'' = Some ''bytes''"
proof -
  let ?ar = "nested_archive ''y''"
  obtain ar' n where run: "cleanupOrphanCloudObjects sample_archive_env (\<lambda>_. None) nested_pages ?ar = (ar', n)" by fastforce
  let ?st = "\<lambda>i p. \<lparr>sr_id = Some i, sr_name = i, sr_provider = ''s3'', sr_endpoint = ''e'', sr_region = ''r'', sr_bucket = ''b'', sr_prefix = p, sr_accessKeyId = ''k'',
      sr_secret = ''x'', sr_forcePathStyle = True, sr_mount = False, sr_localWindowHours = 24, sr_uploadConcurrency = 6\<rparr>"
  have all: "todosOsStorages sample_archive_env ?ar = [?st ''A'' ''y'', ?st ''B'' ''x'']"
    by (simp add: todosOsStorages_def materializar_def nested_archive_def nested_storage_def sample_archive_env_def map_filter_def)
  let ?r = "sample_archive_row\<lparr>re_id := ''r2'', re_filePath := ''c/b.mp4'', re_cloudKey := Some ''k2'', re_cloudStorageId := Some ''B'',
      re_cloudUploadedAt := Some 1, re_localDeletedAt := Some 2\<rparr>"
  have "fullKey ''y'' [] = ''y/''" "fullKey ''x'' [] = ''x/''" "fullKey ''x'' ''k2'' = ''x/k2''" by code_simp+
  note keys = this
  have "objectOf (?st ''B'' ''x'') ''k2'' ar' = objectOf (?st ''B'' ''x'') ''k2'' ?ar \<and> ar' = ?ar\<lparr>ar_objects := ar_objects ar'\<rparr>"
  proof (rule sweep_keeps_owned [OF run, of _ ?r])
    show "\<forall>t\<in>set (todosOsStorages sample_archive_env ?ar). t = ?st ''B'' ''x'' \<or> apart t (?st ''B'' ''x'')"
      using keys unfolding all by (simp add: apart_def bucketOf_def)
    show "\<forall>t\<in>set (todosOsStorages sample_archive_env ?ar). \<forall>chaves. Some chaves \<in> set (nested_pages t) \<longrightarrow> (\<forall>c\<in>set chaves. c = [] \<or> plain_key c)"
      unfolding all by (simp add: nested_pages_def plain_key_def)
    show "?st ''B'' ''x'' \<in> set (todosOsStorages sample_archive_env ?ar)" unfolding all by simp
  qed (simp_all add: nested_archive_def plain_key_def)
  then show ?thesis using run keys by (simp add: objectOf_def bucketOf_def nested_archive_def)
qed

text \<open>(nested_sweep_deletes_owned). When the prefix of one storage is inside the other's, as when an
  installation without a prefix is given one, the sweep of the outer storage removes the objects of
  the recordings of the inner one: they are listed under it and it has no row for them.\<close>

theorem nested_sweep_deletes_owned:
  "ar_objects (nested_archive []) (''e'', ''b'') ''x/k2'' = Some ''bytes'' \<and>
   ar_objects (fst (cleanupOrphanCloudObjects sample_archive_env (\<lambda>_. None) nested_pages (nested_archive []))) (''e'', ''b'') ''x/k2'' = None \<and>
   map re_cloudKey (ar_rows (fst (cleanupOrphanCloudObjects sample_archive_env (\<lambda>_. None) nested_pages (nested_archive [])))) = [Some ''k1'', Some ''k2'']"
  by code_simp

end
