(* ===== verification/Storage_Resolver.thy ===== *)
theory Storage_Resolver
  imports Archive_Facts
begin

text \<open>
  \<open>cloud-storage/cloud-storage-resolver.service.ts\<close>: the storage that receives what is new
  (\<open>storageParaEscrita\<close>), the reconciliation of the configuration the Central provisions with the
  table of storages, what happens when there is none, and the purge of the storages the Central
  removed. The reading side (\<open>storageDaGravacao\<close>, \<open>todosOsStorages\<close>, \<open>materializar\<close>) is in \<open>Archive\<close>.
\<close>

section \<open>Surroundings\<close>

datatype storage_state = configured | disabled | absent

record removal =
  rmv_endpoint :: string
  rmv_bucket :: string
  rmv_prefix :: string

text \<open>
  The configuration provisioned is \<open>ae_legado\<close> of the archive's surroundings. The answers of the
  connector are \<open>None\<close> when it throws; the database operations that may fail are named one by one;
  a purge may fail at the deletion of the rows, at the update of the others or at the deletion of
  the storage.
\<close>

datatype purge_failure = DeleteManyFails | UpdateManyFails | DeleteStorageFails

record resolver_env =
  rv_archive :: archive_env
  rv_encrypt :: "string \<Rightarrow> string"
  rv_newId :: string
  rv_now :: int
  rv_state :: "storage_state option"
  rv_removals :: "removal list option"
  rv_findFails :: bool
  rv_updateFails :: bool
  rv_countFails :: bool
  rv_txFails :: bool
  rv_rereadFails :: bool
  rv_activeFails :: bool
  rv_deactivateFails :: bool
  rv_listFails :: bool
  rv_purgeFails :: "removal \<Rightarrow> purge_failure option"

section \<open>Reconciling\<close>

definition sameAddress :: "string \<Rightarrow> string \<Rightarrow> string \<Rightarrow> storage_row \<Rightarrow> bool" where
  "sameAddress endpoint bucket pre g \<longleftrightarrow> sg_endpoint g = endpoint \<and> sg_bucket g = bucket \<and> sg_prefix g = pre"

definition comOperacao :: "storage option \<Rightarrow> storage \<Rightarrow> storage option" where
  "comOperacao linha config =
     (case linha of
        None \<Rightarrow> None
      | Some l \<Rightarrow> Some (l\<lparr>sr_mount := sr_mount config, sr_localWindowHours := sr_localWindowHours config,
          sr_uploadConcurrency := sr_uploadConcurrency config\<rparr>))"

definition putStorage :: "storage_row \<Rightarrow> archive \<Rightarrow> archive" where
  "putStorage g ar = ar\<lparr>ar_storages := map (\<lambda>x. if sg_id x = sg_id g then g else x) (ar_storages ar)\<rparr>"

text \<open>The hot path: the secret is compared in the clear, the name with the one wanted.\<close>

definition renovar :: "resolver_env \<Rightarrow> storage \<Rightarrow> storage_row \<Rightarrow> storage_row" where
  "renovar env config g =
     (let nomeDesejado = (if sr_name config \<noteq> [] then sr_name config else sr_bucket config);
          precisaTrocarSegredo = (ae_decrypt (rv_archive env) (sg_secretEncrypted g) \<noteq> Some (sr_secret config));
          precisaTrocarNome = (sg_name g \<noteq> nomeDesejado);
          g1 = (if precisaTrocarNome then g\<lparr>sg_name := nomeDesejado\<rparr> else g)
      in if precisaTrocarSegredo then g1\<lparr>sg_secretEncrypted := rv_encrypt env (sr_secret config)\<rparr> else g1)"

definition dados :: "resolver_env \<Rightarrow> storage \<Rightarrow> storage_row \<Rightarrow> storage_row" where
  "dados env config g =
     g\<lparr>sg_endpoint := sr_endpoint config, sg_bucket := sr_bucket config, sg_prefix := sr_prefix config,
       sg_name := (if sr_name config \<noteq> [] then sr_name config else sr_bucket config),
       sg_provider := (if sr_provider config \<noteq> [] then sr_provider config else ''s3''),
       sg_region := (if sr_region config \<noteq> [] then sr_region config else ''us-east-1''),
       sg_accessKeyId := sr_accessKeyId config, sg_secretEncrypted := rv_encrypt env (sr_secret config),
       sg_forcePathStyle := sr_forcePathStyle config, sg_isActive := True\<rparr>"

definition blank_storage :: "resolver_env \<Rightarrow> storage_row" where
  "blank_storage env = \<lparr>sg_id = rv_newId env, sg_name = [], sg_provider = [], sg_endpoint = [], sg_region = [], sg_bucket = [],
     sg_prefix = [], sg_accessKeyId = [], sg_secretEncrypted = [], sg_forcePathStyle = True, sg_isActive = False, sg_createdAt = rv_now env\<rparr>"

definition desativar :: "archive \<Rightarrow> archive" where
  "desativar ar = ar\<lparr>ar_storages := map (\<lambda>g. g\<lparr>sg_isActive := False\<rparr>) (ar_storages ar)\<rparr>"

text \<open>The rows sent before there was a table are anchored to the first storage registered.\<close>

definition ancorar :: "string \<Rightarrow> archive \<Rightarrow> archive" where
  "ancorar alvo ar = ar\<lparr>ar_rows := map (\<lambda>r. if re_cloudStorageId r = None \<and> re_cloudKey r \<noteq> None
     then r\<lparr>re_cloudStorageId := Some alvo\<rparr> else r) (ar_rows ar)\<rparr>"

definition cadastrarStorage :: "resolver_env \<Rightarrow> storage \<Rightarrow> storage_row option \<Rightarrow> archive \<Rightarrow> archive \<times> string" where
  "cadastrarStorage env config existente ar =
     (let primeiroCadastro = (ar_storages ar = []); ar1 = desativar ar;
          (ar2, alvo) = (case existente of
             Some g \<Rightarrow> (putStorage (dados env config g) ar1, sg_id g)
           | None \<Rightarrow> (ar1\<lparr>ar_storages := ar_storages ar1 @ [dados env config (blank_storage env)]\<rparr>, rv_newId env))
      in (if primeiroCadastro then ancorar alvo ar2 else ar2, alvo))"

text \<open>A database error leaves \<open>None\<close>: the sending waits for the next cycle.\<close>

definition reconciliar :: "resolver_env \<Rightarrow> storage \<Rightarrow> archive \<Rightarrow> archive \<times> storage option" where
  "reconciliar env config ar =
     (if rv_findFails env then (ar, None)
      else let existente = find (sameAddress (sr_endpoint config) (sr_bucket config) (sr_prefix config)) (ar_storages ar) in
        case (case existente of Some g \<Rightarrow> if sg_isActive g \<and> sg_accessKeyId g = sr_accessKeyId config then Some g else None | None \<Rightarrow> None) of
          Some g \<Rightarrow>
            (let g' = renovar env config g
             in (if g' = g \<or> rv_updateFails env then ar else putStorage g' ar,
                 comOperacao (materializar (ae_decrypt (rv_archive env)) g') config))
        | None \<Rightarrow>
            if rv_countFails env \<or> rv_txFails env then (ar, None)
            else let (ar', alvo) = cadastrarStorage env config existente ar in
              (ar', if rv_rereadFails env then None
                    else case find (\<lambda>g. sg_id g = alvo) (ar_storages ar') of
                      None \<Rightarrow> None
                    | Some linha \<Rightarrow> comOperacao (materializar (ae_decrypt (rv_archive env)) linha) config))"

section \<open>Without a provisioned storage\<close>

definition address_text :: "string \<Rightarrow> string \<Rightarrow> string \<Rightarrow> string" where
  "address_text endpoint bucket pre = endpoint @ ''|'' @ bucket @ ''|'' @ pre"

definition lapides :: "resolver_env \<Rightarrow> string list" where
  "lapides env =
     (case rv_removals env of
        None \<Rightarrow> []
      | Some remocoes \<Rightarrow> map (\<lambda>r. address_text (js_trim (rmv_endpoint r)) (js_trim (rmv_bucket r)) (js_trim (rmv_prefix r))) remocoes)"

definition sobreviventes :: "resolver_env \<Rightarrow> archive \<Rightarrow> storage_row list" where
  "sobreviventes env ar = (if rv_listFails env then [] else take 20 (sort_key (\<lambda>g. - sg_createdAt g) (ar_storages ar)))"

definition semStorageProvisionado :: "resolver_env \<Rightarrow> archive \<Rightarrow> archive \<times> storage option" where
  "semStorageProvisionado env ar =
     (let estado = (case rv_state env of Some e \<Rightarrow> e | None \<Rightarrow> disabled);
          ativo = (if rv_activeFails env then None else find sg_isActive (ar_storages ar));
          parado = (if ativo \<noteq> None \<and> \<not> rv_deactivateFails env then desativar ar else ar)
      in if estado \<noteq> absent then (parado, None)
         else case find (\<lambda>c. address_text (sg_endpoint c) (sg_bucket c) (sg_prefix c) \<notin> set (lapides env)) (sobreviventes env ar) of
           None \<Rightarrow> (parado, None)
         | Some candidato \<Rightarrow>
             (case materializar (ae_decrypt (rv_archive env)) candidato of
                None \<Rightarrow> (ar, None)
              | Some resolvido \<Rightarrow>
                  (if sg_isActive candidato \<or> rv_txFails env then ar
                   else putStorage (candidato\<lparr>sg_isActive := True\<rparr>) (desativar ar), Some resolvido)))"

definition storageParaEscrita :: "resolver_env \<Rightarrow> archive \<Rightarrow> archive \<times> storage option" where
  "storageParaEscrita env ar =
     (case ae_legado (rv_archive env) of
        Some provisionado \<Rightarrow> reconciliar env provisionado ar
      | None \<Rightarrow> semStorageProvisionado env ar)"

section \<open>Purge\<close>

text \<open>\<open>deleteMany\<close> (the database deletes the clips of the rows), \<open>updateMany\<close>, and the deletion of the
  storage, which clears the reference of any row that still has it.\<close>

definition semLastro :: "string \<Rightarrow> archive_row \<Rightarrow> bool" where
  "semLastro i r \<longleftrightarrow> re_cloudStorageId r = Some i \<and> re_localDeletedAt r \<noteq> None"

definition deleteUnbacked :: "string \<Rightarrow> archive \<Rightarrow> archive" where
  "deleteUnbacked i ar =
     (let gone = re_id ` set (filter (semLastro i) (ar_rows ar))
      in ar\<lparr>ar_rows := filter (\<lambda>r. \<not> semLastro i r) (ar_rows ar), ar_clips := filter (\<lambda>c. cl_sourceRecordingId c \<notin> gone) (ar_clips ar)\<rparr>)"

definition clearCloud :: "string \<Rightarrow> archive \<Rightarrow> archive" where
  "clearCloud i ar = ar\<lparr>ar_rows := map (\<lambda>r. if re_cloudStorageId r = Some i
     then r\<lparr>re_cloudKey := None, re_cloudUploadedAt := None, re_cloudStorageId := None, re_cloudMissingSince := None, re_cloudVerifiedAt := None\<rparr>
     else r) (ar_rows ar)\<rparr>"

definition deleteStorage :: "string \<Rightarrow> archive \<Rightarrow> archive" where
  "deleteStorage i ar = ar\<lparr>ar_storages := filter (\<lambda>g. sg_id g \<noteq> i) (ar_storages ar),
     ar_rows := map (\<lambda>r. if re_cloudStorageId r = Some i then r\<lparr>re_cloudStorageId := None\<rparr> else r) (ar_rows ar)\<rparr>"

record purged =
  pg_bucket :: string
  pg_linhasRemovidas :: nat
  pg_linhasLocais :: nat

definition expurgarUm :: "resolver_env \<Rightarrow> removal \<Rightarrow> archive \<Rightarrow> archive \<times> purged option" where
  "expurgarUm env alvo ar =
     (let endpoint = js_trim (rmv_endpoint alvo); bucket = js_trim (rmv_bucket alvo); pre = js_trim (rmv_prefix alvo) in
      if endpoint = [] \<or> bucket = [] \<or> rv_findFails env then (ar, None)
      else case find (sameAddress endpoint bucket pre) (ar_storages ar) of
        None \<Rightarrow> (ar, None)
      | Some linha \<Rightarrow>
          if (case ae_legado (rv_archive env) of
                Some p \<Rightarrow> sr_endpoint p = endpoint \<and> sr_bucket p = bucket \<and> sr_prefix p = pre | None \<Rightarrow> False)
          then (ar, None)
          else let i = sg_id linha; ar1 = deleteUnbacked i ar; ar2 = clearCloud i ar1 in
            (case rv_purgeFails env alvo of
               Some DeleteManyFails \<Rightarrow> (ar, None)
             | Some UpdateManyFails \<Rightarrow> (ar1, None)
             | Some DeleteStorageFails \<Rightarrow> (ar2, None)
             | None \<Rightarrow> (deleteStorage i ar2,
                 Some \<lparr>pg_bucket = sg_bucket linha, pg_linhasRemovidas = length (filter (semLastro i) (ar_rows ar)),
                       pg_linhasLocais = length (filter (\<lambda>r. re_cloudStorageId r = Some i) (ar_rows ar1))\<rparr>)))"

fun expurgar :: "resolver_env \<Rightarrow> removal list \<Rightarrow> archive \<times> purged list \<Rightarrow> archive \<times> purged list" where
  "expurgar env [] st = st"
| "expurgar env (alvo # alvos) (ar, feitos) =
     (case expurgarUm env alvo ar of
        (ar', Some f) \<Rightarrow> expurgar env alvos (ar', feitos @ [f])
      | (ar', None) \<Rightarrow> expurgar env alvos (ar', feitos))"

definition expurgarStoragesRemovidos :: "resolver_env \<Rightarrow> archive \<Rightarrow> archive \<times> purged list" where
  "expurgarStoragesRemovidos env ar =
     (case rv_removals env of None \<Rightarrow> (ar, []) | Some remocoes \<Rightarrow> expurgar env remocoes (ar, []))"

end
