(* ===== verification/Archive_Safety.thy ===== *)
theory Archive_Safety
  imports Archive_Frame Retention_Guard_Properties Storage_Resolver
begin

text \<open>
  The archive as a whole: what its tables keep to (\<open>well_formed\<close>), what the rows say of the buckets
  (\<open>truthful\<close>), and that no deletion of the retention, guard, purge, sweep, resolver or cycle of the
  offload breaks either.
\<close>

section \<open>Keys\<close>

definition clean_id :: "string \<Rightarrow> bool" where
  "clean_id i \<longleftrightarrow> CHR ''/'' \<notin> set i \<and> CHR ''.'' \<notin> set i"

lemma built_key_plain: "plain_key (buildCloudKey i c f)"
proof -
  obtain e where e: "buildCloudKey i c f = ''recordings/'' @ c @ ''/'' @ i @ ''.'' @ e" "CHR ''/'' \<notin> set e"
    using key_extension by meson
  have "last (buildCloudKey i c f) \<noteq> CHR ''/''" using e by (cases e rule: rev_cases) auto
  then show ?thesis using e(1) by (simp add: plain_key_def)
qed

lemma fullKey_tail: "plain_key k \<Longrightarrow> \<exists>p. fullKey pre k = p @ k \<and> (p = [] \<or> last p = CHR ''/'')"
proof (cases "strip_slashes pre = []")
  case False
  assume "plain_key k"
  then show ?thesis using False by (intro exI [of _ "strip_slashes pre @ ''/''"]) (simp add: fullKey_def joinS3Key_def strip_plain Let_def)
qed (simp add: fullKey_def joinS3Key_def strip_plain)

lemma last_part_eq:
  "x @ CHR ''/'' # a = y @ CHR ''/'' # b \<Longrightarrow> CHR ''/'' \<notin> set a \<Longrightarrow> CHR ''/'' \<notin> set b \<Longrightarrow> a = b"
proof -
  assume "x @ CHR ''/'' # a = y @ CHR ''/'' # b" and n: "CHR ''/'' \<notin> set a" "CHR ''/'' \<notin> set b"
  then have "rev a @ CHR ''/'' # rev x = rev b @ CHR ''/'' # rev y" by (metis append.assoc append_Cons append_Nil rev.simps(2) rev_append)
  from append_first [OF this] n have "rev a = rev b" by simp
  then show "a = b" by simp
qed

text \<open>Whatever the prefixes, a place in a bucket belongs to one recording.\<close>

lemma places_apart:
  assumes "fullKey p (buildCloudKey i c f) = fullKey q (buildCloudKey j d g)" "clean_id i" "clean_id j"
  shows "i = j"
proof -
  obtain e e' where k: "buildCloudKey i c f = ''recordings/'' @ c @ ''/'' @ i @ ''.'' @ e" "CHR ''/'' \<notin> set e"
    "buildCloudKey j d g = ''recordings/'' @ d @ ''/'' @ j @ ''.'' @ e'" "CHR ''/'' \<notin> set e'" using key_extension by meson
  obtain u v where "fullKey p (buildCloudKey i c f) = u @ buildCloudKey i c f" "fullKey q (buildCloudKey j d g) = v @ buildCloudKey j d g"
    using fullKey_tail [OF built_key_plain] by metis
  then have "(u @ ''recordings/'' @ c) @ CHR ''/'' # (i @ CHR ''.'' # e) = (v @ ''recordings/'' @ d) @ CHR ''/'' # (j @ CHR ''.'' # e')"
    using assms(1) k(1,3) by simp
  then have "i @ CHR ''.'' # e = j @ CHR ''.'' # e'"
    by (rule last_part_eq) (use k(2,4) assms(2,3) in \<open>auto simp: clean_id_def\<close>)
  then show ?thesis using append_first [of i "CHR ''.''" e j e'] assms(2,3) by (simp add: clean_id_def)
qed

section \<open>The tables\<close>

definition address :: "storage_row \<Rightarrow> string \<times> string \<times> string" where
  "address g = (sg_endpoint g, sg_bucket g, sg_prefix g)"

text \<open>A row with a key names a registered storage, and one that was sent has a key.\<close>

definition refers :: "storage_row list \<Rightarrow> archive_row \<Rightarrow> bool" where
  "refers gs r \<longleftrightarrow> (\<forall>i. re_cloudStorageId r = Some i \<longrightarrow> i \<in> sg_id ` set gs) \<and> (re_cloudStorageId r = None \<longrightarrow> re_cloudKey r = None) \<and>
     (re_cloudUploadedAt r \<noteq> None \<longrightarrow> re_cloudKey r \<noteq> None)"

definition storages_ok :: "storage_row list \<Rightarrow> bool" where
  "storages_ok gs \<longleftrightarrow> distinct (map sg_id gs) \<and> distinct (map address gs) \<and> [] \<notin> sg_id ` set gs \<and>
     (\<forall>g\<in>set gs. \<forall>h\<in>set gs. sg_isActive g \<longrightarrow> sg_isActive h \<longrightarrow> g = h)"

definition well_formed :: "archive \<Rightarrow> bool" where
  "well_formed ar \<longleftrightarrow> ids_distinct ar \<and> storages_ok (ar_storages ar) \<and>
     (\<forall>r\<in>set (ar_rows ar). refers (ar_storages ar) r) \<and>
     (\<forall>c\<in>set (ar_clips ar). cl_sourceRecordingId c \<in> re_id ` set (ar_rows ar))"

text \<open>A row that says its recording is in the cloud, and the object that makes it true.\<close>

definition claims :: "archive_row \<Rightarrow> bool" where
  "claims r \<longleftrightarrow> re_cloudUploadedAt r \<noteq> None \<and> re_cloudMissingSince r = None"

definition backed :: "archive \<Rightarrow> archive_row \<Rightarrow> bool" where
  "backed ar r \<longleftrightarrow> (\<exists>g\<in>set (ar_storages ar). \<exists>k. re_cloudStorageId r = Some (sg_id g) \<and> re_cloudKey r = Some k \<and>
     ar_objects ar (sg_endpoint g, sg_bucket g) (fullKey (sg_prefix g) k) \<noteq> None)"

definition keyed :: "archive_row \<Rightarrow> bool" where
  "keyed r \<longleftrightarrow> clean_id (re_id r) \<and> (\<forall>k. re_cloudKey r = Some k \<longrightarrow> (\<exists>c f. k = buildCloudKey (re_id r) c f))"

definition truthful :: "archive \<Rightarrow> bool" where
  "truthful ar \<longleftrightarrow> well_formed ar \<and> (\<forall>r\<in>set (ar_rows ar). keyed r \<and> (claims r \<longrightarrow> backed ar r))"

section \<open>Deletions\<close>

text \<open>What the deletions do to the tables: rows go or get a mark that the local file is gone, clips go
  with their recording, and an object goes only with the row whose key it is.\<close>

definition row_of :: "archive \<Rightarrow> archive_row \<Rightarrow> bool" where
  "row_of ar x \<longleftrightarrow> (\<exists>r\<in>set (ar_rows ar). \<exists>l. x = r\<lparr>re_localDeletedAt := l\<rparr>)"

definition row_ids :: "archive \<Rightarrow> string set" where
  "row_ids ar = re_id ` set (ar_rows ar)"

definition shrinks :: "archive \<Rightarrow> archive \<Rightarrow> bool" where
  "shrinks ar ar' \<longleftrightarrow> (ids_distinct ar \<longrightarrow>
     ids_distinct ar' \<and> ar_storages ar' = ar_storages ar \<and> (\<forall>x\<in>set (ar_rows ar'). row_of ar x) \<and>
     (\<forall>c\<in>set (ar_clips ar'). c \<in> set (ar_clips ar) \<and> (cl_sourceRecordingId c \<in> row_ids ar \<longrightarrow> cl_sourceRecordingId c \<in> row_ids ar')) \<and>
     (\<forall>b full. ar_objects ar b full \<noteq> None \<longrightarrow> ar_objects ar' b full = None \<longrightarrow>
        (\<exists>i c f pre. i \<notin> row_ids ar' \<and> clean_id i \<and> full = fullKey pre (buildCloudKey i c f))))"

lemma row_of_self: "x \<in> set (ar_rows ar) \<Longrightarrow> row_of ar x"
  unfolding row_of_def by (rule bexI [of _ x], rule exI [of _ "re_localDeletedAt x"]) simp_all

lemma row_of_trans: "\<forall>x\<in>set (ar_rows a). row_of ar x \<Longrightarrow> row_of a x \<Longrightarrow> row_of ar x"
  unfolding row_of_def by fastforce

lemma row_of_ids: "\<forall>x\<in>set (ar_rows a). row_of ar x \<Longrightarrow> row_ids a \<subseteq> row_ids ar"
  unfolding row_of_def row_ids_def by fastforce

lemma shrinksD:
  assumes "shrinks ar ar'" "ids_distinct ar"
  shows "ids_distinct ar'" "ar_storages ar' = ar_storages ar" "\<forall>x\<in>set (ar_rows ar'). row_of ar x"
    "\<And>c. c \<in> set (ar_clips ar') \<Longrightarrow> c \<in> set (ar_clips ar)"
    "\<And>c. c \<in> set (ar_clips ar') \<Longrightarrow> cl_sourceRecordingId c \<in> row_ids ar \<Longrightarrow> cl_sourceRecordingId c \<in> row_ids ar'"
    "\<And>b full. ar_objects ar b full \<noteq> None \<Longrightarrow> ar_objects ar' b full = None \<Longrightarrow>
       \<exists>i c f pre. i \<notin> row_ids ar' \<and> clean_id i \<and> full = fullKey pre (buildCloudKey i c f)"
  using assms unfolding shrinks_def by blast+

lemma shrinksI:
  assumes "ids_distinct ar \<Longrightarrow> ids_distinct ar'" "ids_distinct ar \<Longrightarrow> ar_storages ar' = ar_storages ar" "ids_distinct ar \<Longrightarrow> \<forall>x\<in>set (ar_rows ar'). row_of ar x"
    "\<And>c. ids_distinct ar \<Longrightarrow> c \<in> set (ar_clips ar') \<Longrightarrow> c \<in> set (ar_clips ar)"
    "\<And>c. ids_distinct ar \<Longrightarrow> c \<in> set (ar_clips ar') \<Longrightarrow> cl_sourceRecordingId c \<in> row_ids ar \<Longrightarrow> cl_sourceRecordingId c \<in> row_ids ar'"
    "\<And>b full. ids_distinct ar \<Longrightarrow> ar_objects ar b full \<noteq> None \<Longrightarrow> ar_objects ar' b full = None \<Longrightarrow>
       \<exists>i c f pre. i \<notin> row_ids ar' \<and> clean_id i \<and> full = fullKey pre (buildCloudKey i c f)"
  shows "shrinks ar ar'"
  using assms unfolding shrinks_def by blast

lemma shrinks_refl: "shrinks ar ar"
  by (rule shrinksI) (auto intro: row_of_self)

text \<open>Files and counters do not matter.\<close>

lemma shrinks_tables:
  assumes "ar_rows ar' = ar_rows ar" "set (ar_clips ar') \<subseteq> set (ar_clips ar)" "distinct (map cl_id (ar_clips ar)) \<Longrightarrow> distinct (map cl_id (ar_clips ar'))"
    "ar_storages ar' = ar_storages ar" "ar_objects ar' = ar_objects ar"
  shows "shrinks ar ar'"
  by (rule shrinksI) (use assms in \<open>auto intro: row_of_self simp: ids_distinct_def row_ids_def\<close>)

lemma shrinks_trans:
  assumes "shrinks ar a" "shrinks a b"
  shows "shrinks ar b"
proof (rule shrinksI)
  assume ids: "ids_distinct ar"
  note one = shrinksD [OF assms(1) ids] and two = shrinksD [OF assms(2) shrinksD(1) [OF assms(1) ids]]
  show "ids_distinct b" "ar_storages b = ar_storages ar" using one(1,2) two(1,2) by simp_all
  show "\<forall>x\<in>set (ar_rows b). row_of ar x" using row_of_trans [OF one(3)] two(3) by blast
  show "c \<in> set (ar_clips b) \<Longrightarrow> c \<in> set (ar_clips ar)" for c using one(4) two(4) by blast
  show "c \<in> set (ar_clips b) \<Longrightarrow> cl_sourceRecordingId c \<in> row_ids ar \<Longrightarrow> cl_sourceRecordingId c \<in> row_ids b" for c
    using one(5) two(4,5) by blast
  show "\<exists>i d f pre. i \<notin> row_ids b \<and> clean_id i \<and> full = fullKey pre (buildCloudKey i d f)"
    if "ar_objects ar c full \<noteq> None" "ar_objects b c full = None" for c full
  proof (cases "ar_objects a c full = None")
    case True
    then show ?thesis using one(6) [OF that(1)] row_of_ids [OF two(3)] by blast
  next
    case False
    then show ?thesis using two(6) that(2) by blast
  qed
qed

lemma cloud_deletion_place:
  "ar_objects ar b full \<noteq> None \<Longrightarrow> ar_objects (deleteCloudObject env k s ar) b full = None \<Longrightarrow>
   \<exists>key pre. k = Some key \<and> full = fullKey pre key"
  by (auto simp: deleteCloudObject_def removeObject_def fun_upd_def split: option.splits if_splits)

lemma shrinks_recording:
  assumes "keyed r" "deleteRecording env prot r ar = (ar', res)"
  shows "shrinks ar ar'"
proof (cases "ids_distinct ar \<and> res = Inr True")
  case False
  then have "shrinks ar ar'" if "ids_distinct ar"
    using deleteRecording_rows(1,5) [OF assms(2) that] that by (intro shrinks_tables) auto
  then show ?thesis by (simp add: shrinks_def)
next
  case True
  then have ids: "ids_distinct ar" and res: "res = Inr True" by simp_all
  note f = deleteRecording_rows [OF assms(2) ids]
  note g = f(4) [OF res]
  have gone: "re_id r \<notin> row_ids ar'" using g by (auto simp: row_ids_def)
  show ?thesis
  proof (rule shrinksI)
    show "\<exists>i c f pre. i \<notin> row_ids ar' \<and> clean_id i \<and> full = fullKey pre (buildCloudKey i c f)"
      if "ar_objects ar b full \<noteq> None" "ar_objects ar' b full = None" for b full
    proof -
      have "\<exists>key pre. re_cloudKey r = Some key \<and> full = fullKey pre key"
        by (rule cloud_deletion_place [OF that(1), of env _ "re_cloudStorageId r"]) (use g that(2) in simp)
      then show ?thesis using gone assms(1) unfolding keyed_def by blast
    qed
  qed (use f(1,2) g in \<open>auto intro: row_of_self simp: row_ids_def\<close>)
qed

lemma shrinks_clip:
  assumes "deleteClip env c ar = (ar', res)"
  shows "shrinks ar ar'"
proof (cases "ensureFileUnderRoot env (cl_filePath c)")
  case None
  then show ?thesis using assms shrinks_refl by (simp add: deleteClip_def)
next
  case (Some p)
  let ?d = "\<lambda>a. if list_ex (\<lambda>x. cl_id x = cl_id c) (ar_clips a) then Some (a\<lparr>ar_clips := filter (\<lambda>x. cl_id x \<noteq> cl_id c) (ar_clips a)\<rparr>) else None"
  have del: "deleteRowsWithFiles env [p] [\<lparr>g_model = exportedClip, g_id = cl_id c\<rparr>] ?d ar = (ar', res)"
    using assms Some by (simp add: deleteClip_def)
  have keep: "ar_files b = ar_files a \<and> ar_storages b = ar_storages a \<and> ar_objects b = ar_objects a \<and> ar_ops b = ar_ops a"
    if "?d a = Some b" for a b using that by (auto split: if_splits)
  note rows = deleteRowsWithFiles_rows [OF del keep]
  have "ar_rows ar' = ar_rows ar \<and> (ar_clips ar' = ar_clips ar \<or> ar_clips ar' = filter (\<lambda>x. cl_id x \<noteq> cl_id c) (ar_clips ar))"
    using rows(4,5) by (cases "res = Inr ()") (fastforce split: if_splits)+
  then show ?thesis using rows(1,2) by (intro shrinks_tables) (auto simp: distinct_map_filter)
qed

lemma shrinks_local_space:
  assumes "liberarEspacoLocal env r ar = (ar', res)"
  shows "shrinks ar ar'"
proof -
  have files: "shrinks ar (ar\<lparr>ar_files := fs\<rparr>)" for fs by (rule shrinks_tables) simp_all
  let ?f = "\<lambda>x. x\<lparr>re_localDeletedAt := Some (gn_now env)\<rparr>"
  have "shrinks ar (updateRow (re_id r) ?f (ar\<lparr>ar_files := fs\<rparr>))" (is "shrinks ar ?b") for fs
  proof (rule shrinksI)
    have ids: "map re_id (ar_rows ?b) = map re_id (ar_rows ar)" using ids_update [of ?f] by simp
    then have "row_ids ?b = row_ids ar" by (metis row_ids_def list.set_map)
    then show "c \<in> set (ar_clips ?b) \<Longrightarrow> cl_sourceRecordingId c \<in> row_ids ar \<Longrightarrow> cl_sourceRecordingId c \<in> row_ids ?b" for c by simp
    show "ids_distinct ar \<Longrightarrow> ids_distinct ?b" unfolding ids_distinct_def ids by (simp add: updateRow_def)
    show "\<forall>x\<in>set (ar_rows ?b). row_of ar x"
      by (auto simp: updateRow_def intro: row_of_self) (auto simp: row_of_def)
  qed (simp_all add: updateRow_def)
  then show ?thesis using liberar_shape [OF assms] files shrinks_refl by auto
qed

definition sound :: "archive \<Rightarrow> bool" where
  "sound ar \<longleftrightarrow> ids_distinct ar \<and> (\<forall>r\<in>set (ar_rows ar). keyed r)"

text \<open>So every pass does.\<close>

interpretation deletions: archive_relation shrinks keyed sound "\<lambda>_. True"
proof unfold_locales
  show "shrinks ar a \<Longrightarrow> sound ar \<Longrightarrow> sound a" for ar a
    using shrinksD(1,3) [of ar a] by (fastforce simp: sound_def row_of_def keyed_def)
  show "sound ar \<Longrightarrow> r \<in> set (ar_rows ar) \<Longrightarrow> keyed r" for ar r by (simp add: sound_def)
qed (auto intro: shrinks_refl shrinks_trans shrinks_recording shrinks_clip shrinks_local_space)

text \<open>A deletion keeps what the rows say true.\<close>

lemma truthful_sound: "truthful ar \<Longrightarrow> sound ar"
  by (simp add: truthful_def sound_def well_formed_def)

lemma truthful_shrinks:
  assumes "truthful ar" "shrinks ar ar'"
  shows "truthful ar'"
proof -
  have wf: "well_formed ar" "ids_distinct ar" using assms(1) by (simp_all add: truthful_def well_formed_def)
  note s = shrinksD [OF assms(2) wf(2)]
  have from_row: "\<exists>r\<in>set (ar_rows ar). \<exists>l. x = r\<lparr>re_localDeletedAt := l\<rparr>" if "x \<in> set (ar_rows ar')" for x
    using s(3) that by (auto simp: row_of_def)
  have "refers gs (r\<lparr>re_localDeletedAt := l\<rparr>) = refers gs r" for gs r l by (simp add: refers_def)
  then have rows: "refers (ar_storages ar) x" if "x \<in> set (ar_rows ar')" for x
    using from_row [OF that] wf(1) by (auto simp: well_formed_def)
  have clips: "cl_sourceRecordingId c \<in> row_ids ar'" if "c \<in> set (ar_clips ar')" for c
    using s(4,5) [OF that] wf(1) by (auto simp: well_formed_def row_ids_def)
  have "well_formed ar'"
    using wf(1) s(1,2) rows clips unfolding well_formed_def by (simp add: row_ids_def)
  moreover have "keyed x \<and> (claims x \<longrightarrow> backed ar' x)" if x: "x \<in> set (ar_rows ar')" for x
  proof -
    obtain r l where r: "r \<in> set (ar_rows ar)" "x = r\<lparr>re_localDeletedAt := l\<rparr>" using from_row [OF x] by blast
    have k: "keyed x" using assms(1) r by (auto simp: truthful_def keyed_def)
    have "backed ar' x" if "claims x"
    proof -
      have "backed ar r" using assms(1) r that by (auto simp: truthful_def claims_def)
      then obtain g key where g: "g \<in> set (ar_storages ar)" "re_cloudStorageId r = Some (sg_id g)" "re_cloudKey r = Some key"
        "ar_objects ar (sg_endpoint g, sg_bucket g) (fullKey (sg_prefix g) key) \<noteq> None" by (auto simp: backed_def)
      obtain c f where key: "key = buildCloudKey (re_id x) c f" using k g(3) r(2) by (auto simp: keyed_def)
      have "ar_objects ar' (sg_endpoint g, sg_bucket g) (fullKey (sg_prefix g) key) \<noteq> None"
      proof
        assume "ar_objects ar' (sg_endpoint g, sg_bucket g) (fullKey (sg_prefix g) key) = None"
        then obtain i d h pre where i: "i \<notin> row_ids ar'" "clean_id i" "fullKey (sg_prefix g) key = fullKey pre (buildCloudKey i d h)"
          using s(6) g(4) by blast
        then have "re_id x = i" using places_apart key k by (auto simp: keyed_def)
        then show False using i(1) x by (auto simp: row_ids_def)
      qed
      then show ?thesis using g r(2) s(2) by (auto simp: backed_def)
    qed
    then show ?thesis using k by blast
  qed
  ultimately show ?thesis by (simp add: truthful_def)
qed

text \<open>An operation that rewrites the rows one by one.\<close>

lemma truthful_mapped:
  assumes "truthful ar" "ar_rows ar' = map f (ar_rows ar)" "\<And>r. re_id (f r) = re_id r"
    "ar_clips ar' = ar_clips ar" "ar_storages ar' = ar_storages ar"
    "\<And>r. r \<in> set (ar_rows ar) \<Longrightarrow> refers (ar_storages ar) (f r)" "\<And>r. r \<in> set (ar_rows ar) \<Longrightarrow> keyed (f r)"
    "\<And>r. r \<in> set (ar_rows ar) \<Longrightarrow> claims (f r) \<Longrightarrow> backed ar' (f r)"
  shows "truthful ar'"
proof -
  have ids: "map re_id (ar_rows ar') = map re_id (ar_rows ar)" unfolding assms(2) using assms(3) by simp
  have set_ids: "re_id ` set (ar_rows ar') = re_id ` set (ar_rows ar)" using ids by (metis list.set_map)
  have rows: "refers (ar_storages ar') x \<and> keyed x \<and> (claims x \<longrightarrow> backed ar' x)" if x: "x \<in> set (ar_rows ar')" for x
  proof -
    obtain r where "r \<in> set (ar_rows ar)" "x = f r" using x assms(2) by auto
    then show ?thesis using assms(5-8) by auto
  qed
  have "ids_distinct ar'" using assms(1,4) ids by (simp add: truthful_def well_formed_def ids_distinct_def)
  then show ?thesis using assms(1,4,5) rows set_ids unfolding truthful_def well_formed_def by simp
qed

end
