(* ===== verification/Archive_Storages.thy ===== *)
theory Archive_Storages
  imports Archive_Safety
begin

text \<open>
  The resolver keeps the tables and what the rows say: a storage keeps its identifier and its address,
  at most one is active, and a purge clears the rows before the storage goes.
\<close>

section \<open>Storages that keep their places\<close>

lemma truthful_rehoused:
  assumes "truthful ar" "ar_rows ar' = ar_rows ar" "ar_clips ar' = ar_clips ar" "ar_objects ar' = ar_objects ar"
    "storages_ok (ar_storages ar')" "\<forall>g\<in>set (ar_storages ar). \<exists>h\<in>set (ar_storages ar'). sg_id h = sg_id g \<and> address h = address g"
  shows "truthful ar'"
proof -
  have sub: "sg_id ` set (ar_storages ar) \<subseteq> sg_id ` set (ar_storages ar')"
  proof
    fix i assume "i \<in> sg_id ` set (ar_storages ar)"
    then obtain g where "g \<in> set (ar_storages ar)" "i = sg_id g" by auto
    then show "i \<in> sg_id ` set (ar_storages ar')" using assms(6) by (metis image_eqI)
  qed
  have "refers (ar_storages ar) r \<Longrightarrow> refers (ar_storages ar') r" for r using sub unfolding refers_def by blast
  moreover have "backed ar r \<Longrightarrow> backed ar' r" for r
  proof -
    assume "backed ar r"
    then obtain g k where g: "g \<in> set (ar_storages ar)" "re_cloudStorageId r = Some (sg_id g)" "re_cloudKey r = Some k"
      "ar_objects ar (sg_endpoint g, sg_bucket g) (fullKey (sg_prefix g) k) \<noteq> None" by (auto simp: backed_def)
    obtain h where "h \<in> set (ar_storages ar')" "sg_id h = sg_id g" "address h = address g" using assms(6) g(1) by blast
    then show "backed ar' r" unfolding backed_def
      by (intro bexI [of _ h] exI [of _ k]) (use g(2-4) assms(4) in \<open>auto simp: address_def\<close>)
  qed
  ultimately show ?thesis using assms(1-5) by (simp add: truthful_def well_formed_def ids_distinct_def)
qed

definition registered :: "storage \<Rightarrow> archive \<Rightarrow> bool" where
  "registered s ar \<longleftrightarrow> (\<exists>g\<in>set (ar_storages ar). sr_id s = Some (sg_id g) \<and> bucketOf s = (sg_endpoint g, sg_bucket g) \<and> sr_prefix s = sg_prefix g)"

lemma registered_materialized:
  "g \<in> set (ar_storages ar) \<Longrightarrow> materializar d g = Some s \<Longrightarrow> registered s ar"
  by (auto simp: registered_def materializar_def bucketOf_def split: option.splits)

lemma registered_place:
  assumes "\<exists>h\<in>set (ar_storages ar). sg_id h = sg_id g \<and> address h = address g" "materializar d g = Some s"
  shows "registered s ar"
proof -
  obtain h where h: "h \<in> set (ar_storages ar)" "sg_id h = sg_id g" "address h = address g" using assms(1) by blast
  show ?thesis unfolding registered_def
    by (rule bexI [OF _ h(1)]) (use assms(2) h(2,3) in \<open>auto simp: materializar_def bucketOf_def address_def split: option.splits\<close>)
qed

lemma registered_comOperacao: "comOperacao (Some l) config = Some s \<Longrightarrow> registered s ar = registered l ar"
  by (auto simp: comOperacao_def registered_def bucketOf_def)

lemma inactive_ok: "storages_ok gs \<Longrightarrow> storages_ok (map (\<lambda>g. g\<lparr>sg_isActive := False\<rparr>) gs)"
proof -
  assume "storages_ok gs"
  moreover have ids: "map sg_id (map (\<lambda>g. g\<lparr>sg_isActive := False\<rparr>) gs) = map sg_id gs"
    and places: "map address (map (\<lambda>g. g\<lparr>sg_isActive := False\<rparr>) gs) = map address gs" by (simp_all add: address_def)
  moreover have "sg_id ` set (map (\<lambda>g. g\<lparr>sg_isActive := False\<rparr>) gs) = sg_id ` set gs" using ids by (metis list.set_map)
  moreover have "\<not> sg_isActive x" if "x \<in> set (map (\<lambda>g. g\<lparr>sg_isActive := False\<rparr>) gs)" for x using that by auto
  ultimately show ?thesis unfolding storages_ok_def by metis
qed

lemma replaced_ok:
  assumes "storages_ok gs" "g \<in> set gs" "sg_id g' = sg_id g" "address g' = address g" "sg_isActive g' \<Longrightarrow> sg_isActive g \<or> (\<forall>h\<in>set gs. \<not> sg_isActive h)"
  shows "storages_ok (map (\<lambda>x. if sg_id x = sg_id g' then g' else x) gs)" (is "storages_ok ?gs")
proof -
  have same: "x = g" if "x \<in> set gs" "sg_id x = sg_id g" for x
    using inj_key [of sg_id gs x g] assms(1,2) that by (simp add: storages_ok_def)
  have ids: "map sg_id ?gs = map sg_id gs" by simp
  have places: "map address ?gs = map address gs"
    unfolding list.map_comp by (rule map_cong [OF refl]) (use same assms(3,4) in auto)
  have "sg_id ` set ?gs = sg_id ` set gs" using ids by (metis list.set_map)
  moreover have "x = y" if x: "x \<in> set ?gs" and y: "y \<in> set ?gs" and act: "sg_isActive x" "sg_isActive y" for x y
  proof -
    have "x = g' \<or> (x \<in> set gs \<and> sg_id x \<noteq> sg_id g)" "y = g' \<or> (y \<in> set gs \<and> sg_id y \<noteq> sg_id g)"
      using x y assms(3) by (auto split: if_splits)
    then show ?thesis using assms(1,2,5) act unfolding storages_ok_def by metis
  qed
  ultimately show ?thesis using assms(1) unfolding storages_ok_def ids places by simp
qed

lemma replaced_places:
  assumes "storages_ok gs" "g \<in> set gs" "sg_id g' = sg_id g" "address g' = address g" "h \<in> set gs"
  shows "\<exists>h'\<in>set (map (\<lambda>x. if sg_id x = sg_id g' then g' else x) gs). sg_id h' = sg_id h \<and> address h' = address h"
proof (cases "sg_id h = sg_id g")
  case True
  then have "h = g" using inj_key [of sg_id gs h g] assms(1,2,5) by (simp add: storages_ok_def)
  then show ?thesis using assms by auto
qed (use assms in auto)

lemma appended_ok:
  "storages_ok gs \<Longrightarrow> \<forall>h\<in>set gs. \<not> sg_isActive h \<Longrightarrow> sg_id g \<notin> insert [] (sg_id ` set gs) \<Longrightarrow> address g \<notin> address ` set gs \<Longrightarrow> storages_ok (gs @ [g])"
  by (auto simp: storages_ok_def)

lemma desativar_facts:
  "ar_rows (desativar ar) = ar_rows ar" "ar_clips (desativar ar) = ar_clips ar" "ar_objects (desativar ar) = ar_objects ar"
  "ar_files (desativar ar) = ar_files ar"
  "\<forall>h\<in>set (ar_storages (desativar ar)). \<not> sg_isActive h"
  "storages_ok (ar_storages ar) \<Longrightarrow> storages_ok (ar_storages (desativar ar))"
  "g \<in> set (ar_storages ar) \<Longrightarrow> g\<lparr>sg_isActive := False\<rparr> \<in> set (ar_storages (desativar ar))"
  by (simp_all add: desativar_def inactive_ok)

lemma truthful_desativar: "truthful ar \<Longrightarrow> truthful (desativar ar)"
  by (rule truthful_rehoused) (auto simp: desativar_facts truthful_def well_formed_def address_def intro!: bexI [OF _ desativar_facts(7)])

lemma putStorage_facts:
  "ar_rows (putStorage g ar) = ar_rows ar" "ar_clips (putStorage g ar) = ar_clips ar" "ar_objects (putStorage g ar) = ar_objects ar"
  "ar_files (putStorage g ar) = ar_files ar"
  "h \<in> set (ar_storages ar) \<Longrightarrow> sg_id h = sg_id g \<Longrightarrow> g \<in> set (ar_storages (putStorage g ar))"
  by (auto simp: putStorage_def image_iff)

lemma truthful_putStorage:
  assumes "truthful ar" "h \<in> set (ar_storages ar)" "sg_id g = sg_id h" "address g = address h"
    "sg_isActive g \<Longrightarrow> sg_isActive h \<or> (\<forall>x\<in>set (ar_storages ar). \<not> sg_isActive x)"
  shows "truthful (putStorage g ar)"
proof -
  have ok: "storages_ok (ar_storages ar)" using assms(1) by (simp add: truthful_def well_formed_def)
  show ?thesis
    by (rule truthful_rehoused [OF assms(1)])
      (use replaced_ok [OF ok assms(2-5)] replaced_places [OF ok assms(2-4)] in \<open>simp_all add: putStorage_def\<close>)
qed

section \<open>Reconciling\<close>

lemma renovar_keeps: "sg_id (renovar env c g) = sg_id g" "address (renovar env c g) = address g" "sg_isActive (renovar env c g) = sg_isActive g"
  by (simp_all add: renovar_def Let_def address_def)

lemma dados_fields: "sg_id (dados env c g) = sg_id g" "address (dados env c g) = (sr_endpoint c, sr_bucket c, sr_prefix c)" "sg_isActive (dados env c g)"
  by (simp_all add: dados_def address_def)

lemma ancorar_nothing:
  assumes "truthful ar" "ar_rows a = ar_rows ar" "ar_storages ar = []"
  shows "ancorar i a = a"
proof -
  have "re_cloudKey r = None" if "r \<in> set (ar_rows ar)" for r
    using assms(1,3) that by (auto simp: truthful_def well_formed_def refers_def)
  then have "map (\<lambda>r. if re_cloudStorageId r = None \<and> re_cloudKey r \<noteq> None then r\<lparr>re_cloudStorageId := Some i\<rparr> else r) (ar_rows a) = ar_rows a"
    unfolding assms(2) by (intro map_idI) auto
  then show ?thesis by (simp add: ancorar_def)
qed

lemma truthful_cadastrar:
  assumes "truthful ar" "cadastrarStorage env c existente ar = (ar', alvo)" "rv_newId env \<notin> insert [] (sg_id ` set (ar_storages ar))"
    "existente = find (sameAddress (sr_endpoint c) (sr_bucket c) (sr_prefix c)) (ar_storages ar)"
  shows "truthful ar' \<and> (\<exists>g\<in>set (ar_storages ar'). sg_id g = alvo \<and> sg_isActive g \<and> address g = (sr_endpoint c, sr_bucket c, sr_prefix c) \<and>
       (\<exists>x. g = dados env c x)) \<and>
    ar_files ar' = ar_files ar"
proof -
  have ok: "storages_ok (ar_storages ar)" using assms(1) by (simp add: truthful_def well_formed_def)
  note off = truthful_desativar [OF assms(1)]
  note d = desativar_facts [where ar = ar]
  show ?thesis
  proof (cases existente)
    case (Some g)
    then have g: "g \<in> set (ar_storages ar)" "address g = (sr_endpoint c, sr_bucket c, sr_prefix c)"
      using assms(4) by (auto simp: find_Some_iff sameAddress_def address_def)
    let ?g = "g\<lparr>sg_isActive := False\<rparr>"
    have "ar_storages ar \<noteq> []" using g(1) by auto
    then have ar': "ar' = putStorage (dados env c g) (desativar ar)" "alvo = sg_id g"
      using assms(2) Some by (simp_all add: cadastrarStorage_def Let_def)
    have "truthful ar'" unfolding ar'(1)
      by (rule truthful_putStorage [OF off d(7) [OF g(1)]]) (use g(2) d(5) dados_fields [of env c g] in \<open>simp_all add: address_def\<close>)
    moreover have "dados env c g \<in> set (ar_storages ar')"
      unfolding ar'(1) by (rule putStorage_facts(5) [OF d(7) [OF g(1)]]) (simp add: dados_fields)
    ultimately show ?thesis using dados_fields [of env c g] ar'
      by (intro conjI bexI [of _ "dados env c g"]) (auto simp: putStorage_facts d)
  next
    case None
    let ?new = "dados env c (blank_storage env)"
    let ?a = "(desativar ar)\<lparr>ar_storages := ar_storages (desativar ar) @ [?new]\<rparr>"
    have ar': "ar' = ?a" "alvo = rv_newId env"
      using assms(2) None ancorar_nothing [OF assms(1), of ?a "rv_newId env"] d(1)
      by (auto simp: cadastrarStorage_def Let_def split: if_splits)
    have fields: "sg_id ?new = rv_newId env" "address ?new = (sr_endpoint c, sr_bucket c, sr_prefix c)" "sg_isActive ?new"
      using dados_fields [of env c "blank_storage env"] by (simp_all add: blank_storage_def)
    have "find (sameAddress (sr_endpoint c) (sr_bucket c) (sr_prefix c)) (ar_storages ar) = None" using assms(4) None by simp
    note none = this [unfolded find_None_iff]
    have "address h \<noteq> (sr_endpoint c, sr_bucket c, sr_prefix c)" if "h \<in> set (ar_storages ar)" for h
      using none that by (auto simp: sameAddress_def address_def)
    moreover have "address ` set (ar_storages (desativar ar)) = address ` set (ar_storages ar)"
      by (simp add: desativar_def image_image address_def)
    ultimately have fresh: "address ?new \<notin> address ` set (ar_storages (desativar ar))" unfolding fields(2) by force
    have id: "sg_id ?new \<notin> insert [] (sg_id ` set (ar_storages (desativar ar)))" unfolding fields(1) using assms(3) by (auto simp: desativar_def)
    have "truthful ar'" unfolding ar'(1)
      by (rule truthful_rehoused [OF off]) (use appended_ok [OF d(6) [OF ok] d(5) id fresh] in auto)
    moreover have "?new \<in> set (ar_storages ar')" unfolding ar'(1) by simp
    moreover have "ar_files ar' = ar_files ar" unfolding ar'(1) by (simp add: d)
    ultimately show ?thesis using fields ar'(2) by (intro conjI bexI [of _ ?new]) auto
  qed
qed

text \<open>\<open>for_writing c s\<close>: the storage is where the configuration says, with its credential and operation.\<close>

definition for_writing :: "storage \<Rightarrow> storage \<Rightarrow> bool" where
  "for_writing c s \<longleftrightarrow> bucketOf s = bucketOf c \<and> sr_prefix s = sr_prefix c \<and> sr_mount s = sr_mount c \<and>
     sr_localWindowHours s = sr_localWindowHours c \<and> sr_uploadConcurrency s = sr_uploadConcurrency c"

lemma for_writing_comOperacao:
  assumes "comOperacao (materializar d g) c = Some s" "address g = (sr_endpoint c, sr_bucket c, sr_prefix c)"
  shows "for_writing c s"
  using assms by (auto simp: comOperacao_def materializar_def for_writing_def bucketOf_def address_def split: option.splits)

lemma reconciliar_truthful:
  assumes "truthful ar" "reconciliar env c ar = (ar', res)" "rv_newId env \<notin> insert [] (sg_id ` set (ar_storages ar))"
  shows "truthful ar' \<and> ar_files ar' = ar_files ar \<and> (\<forall>s. res = Some s \<longrightarrow> registered s ar' \<and> for_writing c s)"
proof (cases "rv_findFails env")
  case True
  then show ?thesis using assms(1,2) by (simp add: reconciliar_def)
next
  case found: False
  let ?e = "find (sameAddress (sr_endpoint c) (sr_bucket c) (sr_prefix c)) (ar_storages ar)"
  let ?hot = "case ?e of Some g \<Rightarrow> if sg_isActive g \<and> sg_accessKeyId g = sr_accessKeyId c then Some g else None | None \<Rightarrow> None"
  show ?thesis
  proof (cases ?hot)
    case (Some g)
    then have g: "g \<in> set (ar_storages ar)" "address g = (sr_endpoint c, sr_bucket c, sr_prefix c)" "sg_isActive g"
      by (auto simp: find_Some_iff sameAddress_def address_def split: option.splits if_splits)
    let ?g = "renovar env c g"
    have run: "ar' = (if ?g = g \<or> rv_updateFails env then ar else putStorage ?g ar)" "res = comOperacao (materializar (ae_decrypt (rv_archive env)) ?g) c"
      using assms(2) found Some by (simp_all add: reconciliar_def Let_def)
    have put: "truthful (putStorage ?g ar)"
      by (rule truthful_putStorage [OF assms(1) g(1)]) (use g(3) in \<open>simp_all add: renovar_keeps\<close>)
    have place: "\<exists>h\<in>set (ar_storages ar'). sg_id h = sg_id ?g \<and> address h = address ?g"
      using run(1) g(1) putStorage_facts(5) [OF g(1), of ?g] renovar_keeps [of env c g] by (cases "?g = g \<or> rv_updateFails env") auto
    have "registered s ar' \<and> for_writing c s" if s: "res = Some s" for s
    proof -
      obtain l where l: "materializar (ae_decrypt (rv_archive env)) ?g = Some l" using s run(2) by (cases "materializar (ae_decrypt (rv_archive env)) ?g") (auto simp: comOperacao_def)
      have "registered l ar'" by (rule registered_place [OF place l])
      then have "registered s ar'" using registered_comOperacao s run(2) l by simp
      then show ?thesis using for_writing_comOperacao [of _ ?g c s] run(2) s g(2) by (simp add: renovar_keeps)
    qed
    then show ?thesis using run(1) put assms(1) by (auto simp: putStorage_facts)
  next
    case None
    obtain a alvo where cad: "cadastrarStorage env c ?e ar = (a, alvo)" by fastforce
    note new = truthful_cadastrar [OF assms(1) cad assms(3) refl]
    let ?linha = "find (\<lambda>g. sg_id g = alvo) (ar_storages a)"
    have run: "(ar', res) = (if rv_countFails env \<or> rv_txFails env then (ar, None)
        else (a, if rv_rereadFails env then None else case ?linha of None \<Rightarrow> None
           | Some linha \<Rightarrow> comOperacao (materializar (ae_decrypt (rv_archive env)) linha) c))"
      using assms(2) [symmetric] found unfolding reconciliar_def Let_def None cad prod.case option.case by simp
    show ?thesis
    proof (cases "rv_countFails env \<or> rv_txFails env")
      case True
      then show ?thesis using run assms(1) by simp
    next
      case False
      have "registered s a \<and> for_writing c s" if "res = Some s" for s
      proof -
        from that run False obtain linha where linha: "?linha = Some linha"
          "comOperacao (materializar (ae_decrypt (rv_archive env)) linha) c = Some s" by (auto split: if_splits option.splits)
        have mem: "linha \<in> set (ar_storages a)" "sg_id linha = alvo" using linha(1) by (auto simp: find_Some_iff)
        obtain g where g: "g \<in> set (ar_storages a)" "sg_id g = alvo" "address g = (sr_endpoint c, sr_bucket c, sr_prefix c)" using new by blast
        have "linha = g" using inj_key [of sg_id "ar_storages a" linha g] mem g new by (simp add: truthful_def well_formed_def storages_ok_def)
        obtain l where l: "materializar (ae_decrypt (rv_archive env)) linha = Some l"
          using linha(2) by (cases "materializar (ae_decrypt (rv_archive env)) linha") (auto simp: comOperacao_def)
        show ?thesis using registered_materialized [OF mem(1) l] registered_comOperacao linha(2) l for_writing_comOperacao [OF linha(2)] g \<open>linha = g\<close> by simp
      qed
      then show ?thesis using run False new by auto
    qed
  qed
qed

lemma semStorage_truthful:
  assumes "truthful ar" "semStorageProvisionado env ar = (ar', res)"
  shows "truthful ar' \<and> ar_files ar' = ar_files ar \<and> (\<forall>s. res = Some s \<longrightarrow> registered s ar')"
proof -
  let ?c = "find (\<lambda>c. address_text (sg_endpoint c) (sg_bucket c) (sg_prefix c) \<notin> set (lapides env)) (sobreviventes env ar)"
  obtain parado where parado: "parado = ar \<or> parado = desativar ar" and run:
    "(ar', res) = (parado, None) \<or> (ar', res) = (ar, None) \<or>
     (\<exists>candidato s. ?c = Some candidato \<and> materializar (ae_decrypt (rv_archive env)) candidato = Some s \<and> res = Some s \<and>
      ar' = (if sg_isActive candidato \<or> rv_txFails env then ar else putStorage (candidato\<lparr>sg_isActive := True\<rparr>) (desativar ar)))"
  proof (rule that [of "if (if rv_activeFails env then None else find sg_isActive (ar_storages ar)) \<noteq> None \<and> \<not> rv_deactivateFails env then desativar ar else ar"])
    let ?e = "case rv_state env of Some e \<Rightarrow> e | None \<Rightarrow> disabled"
    let ?p = "if (if rv_activeFails env then None else find sg_isActive (ar_storages ar)) \<noteq> None \<and> \<not> rv_deactivateFails env then desativar ar else ar"
    have body: "(ar', res) = (if ?e \<noteq> absent then (?p, None) else case ?c of None \<Rightarrow> (?p, None)
        | Some candidato \<Rightarrow> case materializar (ae_decrypt (rv_archive env)) candidato of None \<Rightarrow> (ar, None)
            | Some s \<Rightarrow> (if sg_isActive candidato \<or> rv_txFails env then ar else putStorage (candidato\<lparr>sg_isActive := True\<rparr>) (desativar ar), Some s))"
      using assms(2) unfolding semStorageProvisionado_def Let_def by simp
    show "(ar', res) = (?p, None) \<or> (ar', res) = (ar, None) \<or>
     (\<exists>candidato s. ?c = Some candidato \<and> materializar (ae_decrypt (rv_archive env)) candidato = Some s \<and> res = Some s \<and>
      ar' = (if sg_isActive candidato \<or> rv_txFails env then ar else putStorage (candidato\<lparr>sg_isActive := True\<rparr>) (desativar ar)))"
    proof (cases "?e = absent")
      case False
      then show ?thesis using body by simp
    next
      case absent: True
      show ?thesis
      proof (cases ?c)
        case None
        then show ?thesis using body absent by simp
      next
        case (Some x)
        then show ?thesis using body absent by (cases "materializar (ae_decrypt (rv_archive env)) x") simp_all
      qed
    qed
  qed simp
  have p: "truthful parado \<and> ar_files parado = ar_files ar" using parado truthful_desativar [OF assms(1)] assms(1) desativar_facts(4) by auto
  from run consider "ar' = parado" "res = None" | "ar' = ar" "res = None"
    | candidato s where "?c = Some candidato" "materializar (ae_decrypt (rv_archive env)) candidato = Some s" "res = Some s"
      "ar' = (if sg_isActive candidato \<or> rv_txFails env then ar else putStorage (candidato\<lparr>sg_isActive := True\<rparr>) (desativar ar))"
    by blast
  then show ?thesis
  proof cases
    case 3
    have mem: "candidato \<in> set (ar_storages ar)"
    proof -
      have "candidato \<in> set (sobreviventes env ar)" using 3(1) by (metis find_Some_iff nth_mem)
      then show ?thesis by (auto simp: sobreviventes_def split: if_splits dest!: in_set_takeD)
    qed
    let ?g = "candidato\<lparr>sg_isActive := True\<rparr>"
    have off: "candidato\<lparr>sg_isActive := False\<rparr> \<in> set (ar_storages (desativar ar))" by (rule desativar_facts(7) [OF mem])
    have "truthful (putStorage ?g (desativar ar))"
      by (rule truthful_putStorage [OF truthful_desativar [OF assms(1)] off]) (use desativar_facts(5) in \<open>auto simp: address_def\<close>)
    moreover have "?g \<in> set (ar_storages (putStorage ?g (desativar ar)))" by (rule putStorage_facts(5) [OF off]) simp
    moreover have "materializar (ae_decrypt (rv_archive env)) ?g = Some s" using 3(2) by (auto simp: materializar_def split: option.splits)
    ultimately show ?thesis using 3 assms(1) registered_materialized [OF mem 3(2)] registered_materialized
      by (auto simp: putStorage_facts desativar_facts)
  qed (use p assms(1) in auto)
qed

lemma storageParaEscrita_truthful:
  assumes "truthful ar" "storageParaEscrita env ar = (ar', res)" "rv_newId env \<notin> insert [] (sg_id ` set (ar_storages ar))"
  shows "truthful ar' \<and> ar_files ar' = ar_files ar \<and> (\<forall>s. res = Some s \<longrightarrow> registered s ar')"
  using reconciliar_truthful [OF assms(1) _ assms(3)] semStorage_truthful [OF assms(1)] assms(2)
  by (auto simp: storageParaEscrita_def split: option.splits)

section \<open>Purge\<close>

text \<open>Rows go, or lose every mark of the cloud; an object is never touched.\<close>

lemma deleteUnbacked_shrinks: "shrinks ar (deleteUnbacked i ar)"
proof (rule shrinksI)
  assume ids: "ids_distinct ar"
  show "ids_distinct (deleteUnbacked i ar)"
    using ids by (simp add: ids_distinct_def deleteUnbacked_def Let_def distinct_map_filter)
  show "\<And>c. c \<in> set (ar_clips (deleteUnbacked i ar)) \<Longrightarrow> cl_sourceRecordingId c \<in> row_ids ar \<Longrightarrow> cl_sourceRecordingId c \<in> row_ids (deleteUnbacked i ar)"
    by (auto simp: deleteUnbacked_def Let_def row_ids_def)
qed (auto simp: deleteUnbacked_def Let_def intro: row_of_self)

lemma clearCloud_truthful:
  assumes "truthful ar"
  shows "truthful (clearCloud i ar) \<and> (\<forall>r\<in>set (ar_rows (clearCloud i ar)). re_cloudStorageId r \<noteq> Some i)"
proof -
  let ?f = "\<lambda>r. if re_cloudStorageId r = Some i
     then r\<lparr>re_cloudKey := None, re_cloudUploadedAt := None, re_cloudStorageId := None, re_cloudMissingSince := None, re_cloudVerifiedAt := None\<rparr> else r"
  have row: "refers (ar_storages ar) (?f r)" "keyed (?f r)" "claims (?f r) \<longrightarrow> backed (clearCloud i ar) (?f r)" "re_cloudStorageId (?f r) \<noteq> Some i"
    if "r \<in> set (ar_rows ar)" for r
    using assms that unfolding truthful_def well_formed_def
    by (auto simp: refers_def keyed_def claims_def backed_def clearCloud_def)
  have "truthful (clearCloud i ar)"
    by (rule truthful_mapped [OF assms, of _ ?f]) (use row in \<open>simp_all add: clearCloud_def\<close>)
  then show ?thesis using row(4) by (auto simp: clearCloud_def)
qed

lemma filtered_ok: "storages_ok gs \<Longrightarrow> storages_ok (filter P gs)"
  unfolding storages_ok_def by (auto simp: distinct_map_filter)

lemma deleteStorage_truthful:
  assumes "truthful ar" "\<forall>r\<in>set (ar_rows ar). re_cloudStorageId r \<noteq> Some i"
  shows "truthful (deleteStorage i ar)"
proof -
  have same: "map (\<lambda>r. if re_cloudStorageId r = Some i then r\<lparr>re_cloudStorageId := None\<rparr> else r) (ar_rows ar) = ar_rows ar"
    using assms(2) by (intro map_idI) auto
  let ?gs = "filter (\<lambda>g. sg_id g \<noteq> i) (ar_storages ar)"
  have "refers ?gs r \<and> (claims r \<longrightarrow> backed (deleteStorage i ar) r)" if r: "r \<in> set (ar_rows ar)" for r
  proof
    have "refers (ar_storages ar) r" and far: "re_cloudStorageId r \<noteq> Some i"
      using assms r unfolding truthful_def well_formed_def by blast+
    then show "refers ?gs r" unfolding refers_def by (auto simp: image_iff)
    show "claims r \<longrightarrow> backed (deleteStorage i ar) r"
    proof
      assume "claims r"
      then obtain g k where "g \<in> set (ar_storages ar)" "re_cloudStorageId r = Some (sg_id g)" "re_cloudKey r = Some k"
        "ar_objects ar (sg_endpoint g, sg_bucket g) (fullKey (sg_prefix g) k) \<noteq> None"
        using assms(1) r unfolding truthful_def backed_def by blast
      then show "backed (deleteStorage i ar) r" using far unfolding backed_def
        by (intro bexI [of _ g] exI [of _ k]) (auto simp: deleteStorage_def)
    qed
  qed
  then show ?thesis using assms(1) filtered_ok unfolding truthful_def well_formed_def
    by (simp add: deleteStorage_def same ids_distinct_def)
qed

lemma expurgarUm_truthful:
  assumes "truthful ar" "expurgarUm env alvo ar = (ar', f)"
  shows "truthful ar'"
proof -
  have one: "truthful (deleteUnbacked i ar)" for i by (rule truthful_shrinks [OF assms(1) deleteUnbacked_shrinks])
  note two = clearCloud_truthful [OF one]
  have three: "truthful (deleteStorage i (clearCloud i (deleteUnbacked i ar)))" for i
    using deleteStorage_truthful two by blast
  show ?thesis using assms one two three
    unfolding expurgarUm_def Let_def by (auto split: if_splits option.splits purge_failure.splits)
qed

lemma expurgar_truthful: "truthful ar \<Longrightarrow> expurgar env alvos (ar, fs) = (ar', fs') \<Longrightarrow> truthful ar'"
proof (induction alvos arbitrary: ar fs)
  case (Cons alvo alvos)
  obtain a f where one: "expurgarUm env alvo ar = (a, f)" by fastforce
  have "truthful a" by (rule expurgarUm_truthful [OF Cons.prems(1) one])
  then show ?case using Cons.IH Cons.prems(2) one by (cases f) auto
qed simp

lemma purge_truthful: "truthful ar \<Longrightarrow> expurgarStoragesRemovidos env ar = (ar', fs) \<Longrightarrow> truthful ar'"
  by (auto simp: expurgarStoragesRemovidos_def split: option.splits intro: expurgar_truthful)

end
