(* ===== verification/Offload_Safety.thy ===== *)
theory Offload_Safety
  imports Archive_Storages
begin

text \<open>
  What a cycle of the offload does to the archive: the objects it sends are confirmed before a row
  says so, the files it removes are those of rows whose object is there, and the rows stay true.
\<close>

section \<open>Rows rewritten in place\<close>

text \<open>The same recording at the same place; only marks differ.\<close>

definition same_place :: "archive_row \<Rightarrow> archive_row \<Rightarrow> bool" where
  "same_place x r \<longleftrightarrow> re_id x = re_id r \<and> re_filePath x = re_filePath r \<and> re_cloudKey x = re_cloudKey r \<and>
     re_cloudStorageId x = re_cloudStorageId r \<and> re_cloudUploadedAt x = re_cloudUploadedAt r"

lemma same_place_trans: "same_place x y \<Longrightarrow> same_place y z \<Longrightarrow> same_place x z"
  by (simp add: same_place_def)

lemma same_place_facts:
  assumes "same_place x r"
  shows "refers gs x = refers gs r" "keyed x = keyed r" "backed ar x = backed ar r" "re_id x = re_id r"
  using assms by (simp_all add: same_place_def refers_def keyed_def backed_def)

definition remarked :: "archive \<Rightarrow> archive \<Rightarrow> bool" where
  "remarked ar ar' \<longleftrightarrow> ar_storages ar' = ar_storages ar \<and> ar_objects ar' = ar_objects ar \<and>
     (\<forall>r\<in>set (ar_rows ar). \<exists>x\<in>set (ar_rows ar'). same_place x r)"

lemma remarked_refl: "remarked ar ar"
  by (auto simp: remarked_def same_place_def)

lemma remarked_trans: "remarked ar a \<Longrightarrow> remarked a b \<Longrightarrow> remarked ar b"
  unfolding remarked_def using same_place_trans by metis

lemma remarked_update: "(\<And>x. same_place (f x) x) \<Longrightarrow> remarked ar (updateRow i f ar)"
  by (auto simp: remarked_def updateRow_def same_place_def)

lemma backed_cong: "ar_storages a = ar_storages ar \<Longrightarrow> ar_objects a = ar_objects ar \<Longrightarrow> backed a r = backed ar r"
  by (simp add: backed_def)

lemma backed_more:
  assumes "backed ar r" "ar_storages a = ar_storages ar" "\<And>b f. ar_objects ar b f \<noteq> None \<Longrightarrow> ar_objects a b f \<noteq> None"
  shows "backed a r"
  using assms unfolding backed_def by metis

lemma truthful_files: "truthful (ar\<lparr>ar_files := fs\<rparr>) = truthful ar"
  by (simp add: truthful_def well_formed_def ids_distinct_def backed_def)

lemma truthful_update:
  assumes "truthful ar" "\<And>x. same_place (f x) x"
    "\<And>x. x \<in> set (ar_rows ar) \<Longrightarrow> re_id x = i \<Longrightarrow> claims (f x) \<Longrightarrow> claims x \<or> backed ar x"
  shows "truthful (updateRow i f ar)"
proof (rule truthful_mapped [OF assms(1), of _ "\<lambda>x. if re_id x = i then f x else x"])
  note facts = same_place_facts [OF assms(2)]
  fix r assume r: "r \<in> set (ar_rows ar)"
  have old: "refers (ar_storages ar) r" "keyed r" "claims r \<longrightarrow> backed ar r"
    using assms(1) r unfolding truthful_def well_formed_def by blast+
  show "refers (ar_storages ar) (if re_id r = i then f r else r)" "keyed (if re_id r = i then f r else r)" using old facts by simp_all
  have "backed (updateRow i f ar) x = backed ar x" for x by (rule backed_cong) (simp_all add: updateRow_def)
  then show "claims (if re_id r = i then f r else r) \<Longrightarrow> backed (updateRow i f ar) (if re_id r = i then f r else r)"
    using old(3) facts(3) assms(3) [OF r] by (auto split: if_splits)
qed (use same_place_facts(4) [OF assms(2)] in \<open>simp_all add: updateRow_def\<close>)

section \<open>Sending\<close>

lemma putObject_truthful:
  assumes "truthful ar"
  shows "truthful (putObject env s key c ar)"
proof (rule truthful_mapped [OF assms, of _ "\<lambda>r. r"])
  fix r assume r: "r \<in> set (ar_rows ar)"
  show "refers (ar_storages ar) r" "keyed r" using assms r unfolding truthful_def well_formed_def by blast+
  assume "claims r"
  then have "backed ar r" using assms r unfolding truthful_def by blast
  then show "backed (putObject env s key c ar) r" by (rule backed_more) (auto simp: putObject_def)
qed (simp_all add: putObject_def)

text \<open>What a \<open>HEAD\<close> proves.\<close>

lemma head_exists:
  "headObject (head env s key ar) = Inr c \<Longrightarrow> cf_exists c \<Longrightarrow> \<exists>x. objectOf s key ar = Some x \<and>
     contentLength c = Some (if of_reportsLength env then length x else 0)"
  by (auto simp: head_def headObject_def contentLengthOf_def split: option.splits http_answer.splits if_splits)

lemma confirmed_object:
  assumes "subirEConfirmar env s rec ar = (ar1, Confirmed n)"
  defines "key \<equiv> buildCloudKey (re_id rec) (re_cameraId rec) (re_filePath rec)"
  shows "\<exists>p content x. localFile (of_archive env) rec ar = Some (p, content) \<and> n = length content \<and> n > 0 \<and>
    ar1 = putObject env s key content ar \<and> objectOf s key ar1 = Some x \<and> length x = n"
proof -
  obtain p content where opened: "localFile (of_archive env) rec ar = Some (p, content)"
    using assms(1) by (auto simp: subirEConfirmar_def split: option.splits)
  have ne: "content \<noteq> []" "\<not> of_putFails env key"
    using assms(1) opened by (auto simp: subirEConfirmar_def Let_def key_def split: if_splits)
  let ?ar1 = "putObject env s key content ar"
  obtain c where c: "headObject (head env s key ?ar1) = Inr c" "avaliarConfirmacao c (length content) = None" "ar1 = ?ar1" "n = length content"
    using assms(1) opened ne unfolding key_def
    by (auto simp: subirEConfirmar_def Let_def split: sum.splits option.splits recusa.splits)
  have "cf_exists c" using c(2) by (auto simp: avaliarConfirmacao_def split: if_splits)
  from head_exists [OF c(1) this] obtain x where x: "objectOf s key ?ar1 = Some x"
    "contentLength c = Some (if of_reportsLength env then length x else 0)" by blast
  have "length x = n" using c(2,4) x(2) ne(1) by (auto simp: avaliarConfirmacao_def split: if_splits)
  then show ?thesis using opened ne(1) c(3,4) x(1) by auto
qed

lemma sent_truthful:
  assumes "truthful ar" "subirEConfirmar env s rec ar = (ar1, res)"
  shows "truthful ar1 \<and> ar_storages ar1 = ar_storages ar \<and> ar_rows ar1 = ar_rows ar \<and> ar_files ar1 = ar_files ar"
proof -
  let ?k = "buildCloudKey (re_id rec) (re_cameraId rec) (re_filePath rec)"
  have "ar1 = ar \<or> (\<exists>c. ar1 = putObject env s ?k c ar)"
  proof (cases "localFile (of_archive env) rec ar")
    case None
    then show ?thesis using assms(2) by (simp add: subirEConfirmar_def)
  next
    case (Some pc)
    then obtain p c where pc: "localFile (of_archive env) rec ar = Some (p, c)" by (cases pc) auto
    have "ar1 = ar \<or> ar1 = putObject env s ?k c ar"
      using assms(2) pc by (simp add: subirEConfirmar_def Let_def split: option.splits if_splits sum.splits recusa.splits)
    then show ?thesis by blast
  qed
  then show ?thesis using assms(1) putObject_truthful by (auto simp: putObject_def)
qed

lemma stamped_truthful:
  assumes "truthful ar" "registered s ar" "carimbar env s rec ar = Some ar'"
    "objectOf s (buildCloudKey (re_id rec) (re_cameraId rec) (re_filePath rec)) ar \<noteq> None"
  shows "truthful ar' \<and> ar_storages ar' = ar_storages ar \<and> ar_files ar' = ar_files ar"
proof -
  let ?k = "buildCloudKey (re_id rec) (re_cameraId rec) (re_filePath rec)"
  let ?g = "\<lambda>x. x\<lparr>re_cloudKey := Some ?k, re_cloudUploadedAt := Some (of_now env), re_cloudStorageId := sr_id s\<rparr>"
  let ?f = "\<lambda>x. if re_id x = re_id rec then ?g x else x"
  have ar': "ar' = updateRow (re_id rec) ?g ar" using assms(3) by (auto simp: carimbar_def split: if_splits)
  obtain g where g: "g \<in> set (ar_storages ar)" "sr_id s = Some (sg_id g)" "bucketOf s = (sg_endpoint g, sg_bucket g)" "sr_prefix s = sg_prefix g"
    using assms(2) by (auto simp: registered_def)
  have "truthful ar'"
  proof (rule truthful_mapped [OF assms(1), of _ ?f])
    fix r assume r: "r \<in> set (ar_rows ar)"
    have old: "refers (ar_storages ar) r" "keyed r" "claims r \<longrightarrow> backed ar r"
      using assms(1) r unfolding truthful_def well_formed_def by blast+
    show "refers (ar_storages ar) (?f r)" using old(1) g(1,2) by (auto simp: refers_def)
    show "keyed (?f r)" using old(2) by (auto simp: keyed_def)
    have "backed ar' (?g r)" unfolding backed_def
      by (rule bexI [of _ g], rule exI [of _ ?k]) (use assms(4) g in \<open>simp_all add: ar' updateRow_def objectOf_def\<close>)
    moreover have "backed ar' r = backed ar r" by (rule backed_cong) (simp_all add: ar' updateRow_def)
    ultimately show "claims (?f r) \<Longrightarrow> backed ar' (?f r)" using old(3) by (auto split: if_splits)
  qed (simp_all add: ar' updateRow_def)
  then show ?thesis by (simp add: ar' updateRow_def)
qed

lemma registered_cong: "ar_storages a = ar_storages ar \<Longrightarrow> registered s a = registered s ar"
  by (simp add: registered_def)

lemma subirUma_truthful:
  assumes "truthful ar" "registered s ar" "subirUma env s rec (ar, iv) = ((ar', iv'), res)"
  shows "truthful ar' \<and> registered s ar' \<and> ar_files ar' = ar_files ar"
proof -
  obtain ar1 sent where one: "subirEConfirmar env s rec ar = (ar1, sent)" by fastforce
  note t1 = sent_truthful [OF assms(1) one]
  have r1: "registered s ar1" using registered_cong t1 assms(2) by blast
  show ?thesis
  proof (cases sent)
    case (Confirmed n)
    have obj: "objectOf s (buildCloudKey (re_id rec) (re_cameraId rec) (re_filePath rec)) ar1 \<noteq> None"
      using confirmed_object [OF one [unfolded Confirmed]] by auto
    show ?thesis
    proof (cases "carimbar env s rec ar1")
      case None
      then show ?thesis using assms(3) one Confirmed t1 r1 by (simp add: subirUma_def)
    next
      case (Some ar2)
      note t2 = stamped_truthful [OF conjunct1 [OF t1] r1 Some obj]
      have "registered s ar2" using registered_cong t2 r1 by blast
      then show ?thesis using assms(3) one Confirmed Some t1 t2 by (simp add: subirUma_def)
    qed
  qed (use assms(3) one t1 r1 in \<open>auto simp: subirUma_def\<close>)
qed

lemma subirFila_truthful:
  "truthful ar \<Longrightarrow> registered s ar \<Longrightarrow> subirFila env s recs ((ar, iv), x) = ((ar', iv'), y) \<Longrightarrow>
   truthful ar' \<and> registered s ar' \<and> ar_files ar' = ar_files ar"
proof (induction recs arbitrary: ar iv x)
  case (Cons rec recs)
  obtain a i res where one: "subirUma env s rec (ar, iv) = ((a, i), res)" by (metis surj_pair)
  note t = subirUma_truthful [OF Cons.prems(1,2) one]
  obtain u f b where x: "x = (u, f, b)" by (cases x)
  obtain x' where rest: "subirFila env s recs ((a, i), x') = ((ar', iv'), y)"
    using Cons.prems(3) one unfolding x by (cases res) auto
  then show ?case using Cons.IH [OF _ _ rest] t by metis
qed auto

lemma uploadPending_truthful:
  assumes "truthful ar" "registered s ar" "uploadPending env s (ar, iv) = ((ar', iv'), y)"
  shows "truthful ar' \<and> registered s ar' \<and> ar_files ar' = ar_files ar"
proof (cases "\<not> sp_enabled (getPolicy (of_setting env)) \<or> enabledTriggerModes (getPolicy (of_setting env)) = []")
  case True
  then show ?thesis using assms by (simp add: uploadPending_def)
next
  case False
  then obtain fila where "subirFila env s fila ((ar, iv), (0, 0, 0)) = ((ar', iv'), y)"
    using assms(3) by (auto simp: uploadPending_def Let_def)
  then show ?thesis using subirFila_truthful assms(1,2) by blast
qed

section \<open>Removing the local files\<close>

definition filed_at :: "archive_env \<Rightarrow> archive_row \<Rightarrow> string \<Rightarrow> bool" where
  "filed_at env r p \<longleftrightarrow> (\<exists>full. ensureFileUnderRoot env (re_filePath r) = Some full \<and> p = relOf env full)"

lemma podarFila_facts:
  assumes "truthful ar" "podarFila env recs (ar, n) = ((ar', n'), b)"
  shows "truthful ar' \<and> remarked ar ar' \<and>
    (\<forall>p. ar_files ar p \<noteq> None \<longrightarrow> ar_files ar' p = None \<longrightarrow> (\<exists>rec\<in>set recs. filed_at (of_archive env) rec p))"
  using assms
proof (induction recs arbitrary: ar n)
  case (Cons rec recs)
  show ?case
  proof (cases "ensureFileUnderRoot (of_archive env) (re_filePath rec)")
    case None
    then have "podarFila env recs (ar, n) = ((ar', n'), b)" using Cons.prems(2) by simp
    from Cons.IH [OF Cons.prems(1) this] show ?thesis by auto
  next
    case (Some full)
    let ?p = "relOf (of_archive env) full"
    have here: "filed_at (of_archive env) rec ?p" using Some by (auto simp: filed_at_def)
    let ?ar1 = "ar\<lparr>ar_files := (ar_files ar)(?p := None)\<rparr>"
    let ?f = "\<lambda>x. x\<lparr>re_localDeletedAt := Some (of_now env)\<rparr>"
    let ?ar2 = "updateRow (re_id rec) ?f ?ar1"
    have t1: "truthful ?ar1" using Cons.prems(1) truthful_files by blast
    have t2: "truthful ?ar2" by (rule truthful_update [OF t1]) (auto simp: same_place_def claims_def)
    have r1: "remarked ar ?ar1" by (auto simp: remarked_def same_place_def)
    have r2: "remarked ar ?ar2" by (rule remarked_trans [OF r1 remarked_update]) (simp add: same_place_def)
    have f2: "ar_files ?ar2 = (ar_files ar)(?p := None)" by (simp add: updateRow_def)
    consider "podarFila env recs (ar, n) = ((ar', n'), b)" | "ar' = ?ar1" | m where "podarFila env recs (?ar2, m) = ((ar', n'), b)"
      using Cons.prems(2) Some by (auto simp: Let_def split: if_splits)
    then show ?thesis
    proof cases
      case 1
      from Cons.IH [OF Cons.prems(1) this] show ?thesis by auto
    next
      case 2
      then show ?thesis using t1 r1 here by (auto split: if_splits)
    next
      case (3 m)
      note rest = Cons.IH [OF t2 3]
      have "\<exists>rec\<in>set (rec # recs). filed_at (of_archive env) rec p" if "ar_files ar p \<noteq> None" "ar_files ar' p = None" for p
      proof (cases "p = ?p")
        case False
        then have "ar_files ?ar2 p \<noteq> None" using that(1) f2 by simp
        then show ?thesis using rest that(2) by auto
      qed (use here in auto)
      then show ?thesis using rest remarked_trans [OF r2] by blast
    qed
  qed
qed (simp add: remarked_refl)

lemma pruned_facts:
  assumes "truthful ar" "pruneUploaded env cfg ar = ((ar', n), b)"
  shows "truthful ar' \<and> remarked ar ar' \<and>
    (\<forall>p. ar_files ar p \<noteq> None \<longrightarrow> ar_files ar' p = None \<longrightarrow> (\<exists>r\<in>set (ar_rows ar). claims r \<and> filed_at (of_archive env) r p))"
proof (cases "keepLocalCopy (getPolicy (of_setting env)) \<and> \<not> sr_mount cfg")
  case True
  then show ?thesis using assms remarked_refl by (auto simp: pruneUploaded_def Let_def)
next
  case False
  let ?corte = "of_now env - (if sr_mount cfg then 0 else sr_localWindowHours cfg) * 3600000"
  let ?recs = "take 200 (sort_key re_startedAt (filter (podavel ?corte) (ar_rows ar)))"
  have run: "podarFila env ?recs (ar, 0) = ((ar', n), b)"
    using assms(2) False unfolding pruneUploaded_def Let_def by (simp split: if_splits)
  have "claims r \<and> r \<in> set (ar_rows ar)" if "r \<in> set ?recs" for r
    using in_set_takeD [OF that] by (auto simp: podavel_def claims_def split: option.splits)
  then show ?thesis using podarFila_facts [OF assms(1) run] by blast
qed

section \<open>Checking what was sent\<close>

text \<open>The rows a check reads still say the same of their objects.\<close>

definition current :: "archive_row list \<Rightarrow> archive \<Rightarrow> bool" where
  "current recs ar \<longleftrightarrow> (\<forall>rec\<in>set recs. re_cloudKey rec \<noteq> None \<and> refers (ar_storages ar) rec \<and>
     (\<forall>x\<in>set (ar_rows ar). re_id x = re_id rec \<longrightarrow> re_cloudKey x = re_cloudKey rec \<and> re_cloudStorageId x = re_cloudStorageId rec))"

lemma current_update: "current recs ar \<Longrightarrow> (\<And>x. same_place (f x) x) \<Longrightarrow> current recs (updateRow i f ar)"
  by (fastforce simp: current_def updateRow_def same_place_def)

lemma resolved_storage:
  assumes "storageDaGravacao env (Some i) ar = Some s" "i \<noteq> []"
  shows "registered s ar \<and> sr_id s = Some i"
proof -
  have "truthy (Some i)" using assms(2) by (simp add: truthy_def)
  then obtain g where g: "find (\<lambda>g. Some (sg_id g) = Some i) (ar_storages ar) = Some g" "materializar (ae_decrypt env) g = Some s"
    using assms(1) by (auto simp: storageDaGravacao_def split: if_splits option.splits)
  then have "g \<in> set (ar_storages ar)" "sg_id g = i" by (auto simp: find_Some_iff)
  then show ?thesis using registered_materialized [OF _ g(2)] g(2) by (auto simp: materializar_def split: option.splits)
qed

lemma stampVerified_facts:
  assumes "truthful ar" "\<And>x. x \<in> set (ar_rows ar) \<Longrightarrow> re_id x = i \<Longrightarrow> missing = None \<Longrightarrow> backed ar x"
  shows "truthful (stampVerified env i missing ar) \<and> remarked ar (stampVerified env i missing ar) \<and> ar_files (stampVerified env i missing ar) = ar_files ar \<and>
    (current recs ar \<longrightarrow> current recs (stampVerified env i missing ar))"
proof (cases "of_updateFails env i")
  case True
  then show ?thesis using assms(1) remarked_refl by (simp add: stampVerified_def)
next
  case False
  let ?f = "\<lambda>x. x\<lparr>re_cloudVerifiedAt := Some (of_now env), re_cloudMissingSince := missing\<rparr>"
  have same: "same_place (?f x) x" for x by (simp add: same_place_def)
  have "truthful (updateRow i ?f ar)"
    by (rule truthful_update [OF assms(1) same]) (use assms(2) in \<open>auto simp: claims_def\<close>)
  then show ?thesis using False remarked_update [of ?f, OF same] current_update [of recs ar ?f, OF _ same]
    by (simp add: stampVerified_def updateRow_def)
qed

lemma verificarGrupo_facts:
  assumes "truthful ar" "registered s ar" "current recs ar" "\<forall>rec\<in>set recs. re_cloudStorageId rec = sr_id s"
    "verificarGrupo env s recs (ar, w) = (ar', w')"
  shows "truthful ar' \<and> remarked ar ar' \<and> ar_files ar' = ar_files ar \<and> (current all ar \<longrightarrow> current all ar')"
  using assms
proof (induction recs arbitrary: ar w)
  case (Cons rec recs)
  have tail: "current recs ar" "\<forall>rec\<in>set recs. re_cloudStorageId rec = sr_id s" using Cons.prems(3,4) by (auto simp: current_def)
  obtain k where k: "re_cloudKey rec = Some k" using Cons.prems(3) by (auto simp: current_def)
  consider "verificarGrupo env s recs (ar, w) = (ar', w')"
    | c w1 where "headObject (head env s k ar) = Inr c" "cf_exists c"
        "verificarGrupo env s recs (stampVerified env (re_id rec) None ar, w1) = (ar', w')"
    | t w1 where "verificarGrupo env s recs (stampVerified env (re_id rec) (Some t) ar, w1) = (ar', w')"
    using Cons.prems(5) k by (auto simp: or_empty_def split: sum.splits if_splits option.splits)
  then show ?case
  proof cases
    case 1
    then show ?thesis using Cons.IH Cons.prems(1,2) tail by blast
  next
    case (2 c w1)
    obtain y where y: "objectOf s k ar = Some y" using head_exists [OF 2(1,2)] by blast
    obtain g where g: "g \<in> set (ar_storages ar)" "sr_id s = Some (sg_id g)" "bucketOf s = (sg_endpoint g, sg_bucket g)" "sr_prefix s = sg_prefix g"
      using Cons.prems(2) by (auto simp: registered_def)
    have "backed ar x" if "x \<in> set (ar_rows ar)" "re_id x = re_id rec" for x
      unfolding backed_def
    proof (rule bexI [OF _ g(1)], rule exI [of _ k])
      show "re_cloudStorageId x = Some (sg_id g) \<and> re_cloudKey x = Some k \<and>
          ar_objects ar (sg_endpoint g, sg_bucket g) (fullKey (sg_prefix g) k) \<noteq> None"
        using Cons.prems(3,4) that k g y by (auto simp: current_def objectOf_def)
    qed
    note st = stampVerified_facts [OF Cons.prems(1) this]
    let ?a = "stampVerified env (re_id rec) None ar"
    have a: "truthful ?a" "remarked ar ?a" "ar_files ?a = ar_files ar" "current recs ?a" "current all ar \<longrightarrow> current all ?a" using st tail by blast+
    have "registered s ?a" using registered_cong a(2) Cons.prems(2) by (metis remarked_def)
    from Cons.IH [OF a(1) this a(4) tail(2) 2(3)] show ?thesis using a remarked_trans by metis
  next
    case (3 t w1)
    note st = stampVerified_facts [OF Cons.prems(1), of "re_id rec" "Some t"]
    let ?a = "stampVerified env (re_id rec) (Some t) ar"
    have a: "truthful ?a" "remarked ar ?a" "ar_files ?a = ar_files ar" "current recs ?a" "current all ar \<longrightarrow> current all ?a" using st tail by auto
    have "registered s ?a" using registered_cong a(2) Cons.prems(2) by (metis remarked_def)
    from Cons.IH [OF a(1) this a(4) tail(2) 3] show ?thesis using a remarked_trans by metis
  qed
qed (simp add: remarked_refl)

lemma verificarStorages_facts:
  assumes "truthful ar" "current recs ar" "verificarStorages env is recs (ar, w) = (ar', w')"
  shows "truthful ar' \<and> remarked ar ar' \<and> ar_files ar' = ar_files ar"
  using assms
proof (induction "is" arbitrary: ar w)
  case (Cons i "is")
  let ?group = "filter (\<lambda>r. re_cloudStorageId r = i) recs"
  consider "verificarStorages env is recs (ar, w) = (ar', w')"
    | s a w1 where "storageDaGravacao (of_archive env) i ar = Some s" "verificarGrupo env s ?group (ar, w) = (a, w1)"
        "verificarStorages env is recs (a, w1) = (ar', w')"
    using Cons.prems(3) by (auto split: option.splits if_splits prod.splits) (metis surj_pair)
  then show ?case
  proof cases
    case 1
    then show ?thesis using Cons.IH Cons.prems(1,2) by blast
  next
    case (2 s a w1)
    have cur: "current ?group ar" using Cons.prems(2) by (auto simp: current_def)
    have "truthful a \<and> remarked ar a \<and> ar_files a = ar_files ar \<and> (current recs ar \<longrightarrow> current recs a)"
    proof (cases "?group = []")
      case True
      then show ?thesis using 2(2) Cons.prems(1) remarked_refl by simp
    next
      case False
      then obtain rec where rec: "rec \<in> set recs" "re_cloudStorageId rec = i" by (auto simp: filter_empty_conv)
      have ref: "refers (ar_storages ar) rec" "re_cloudKey rec \<noteq> None" using Cons.prems(2) rec(1) by (auto simp: current_def)
      then obtain j where j: "i = Some j" "j \<in> sg_id ` set (ar_storages ar)" using rec(2) by (auto simp: refers_def)
      have "[] \<notin> sg_id ` set (ar_storages ar)" using Cons.prems(1) by (simp add: truthful_def well_formed_def storages_ok_def)
      then have "j \<noteq> []" using j(2) by metis
      then have s: "registered s ar" "sr_id s = i" using resolved_storage 2(1) j(1) by blast+
      show ?thesis by (rule verificarGrupo_facts [OF Cons.prems(1) s(1) cur _ 2(2)]) (simp add: s(2))
    qed
    then show ?thesis using Cons.IH [OF _ _ 2(3)] Cons.prems(2) remarked_trans by metis
  qed
qed (simp add: remarked_refl)

lemma watch_facts:
  assumes "truthful ar" "verificarAcervoNaNuvem env (ar, u) = ((ar', u'), w)"
  shows "truthful ar' \<and> remarked ar ar' \<and> ar_files ar' = ar_files ar"
proof -
  let ?c = "candidatasDaVigilancia env ar"
  have sub: "set ?c \<subseteq> {r \<in> set (ar_rows ar). re_cloudKey r \<noteq> None}"
    by (auto simp: candidatasDaVigilancia_def dest!: in_set_takeD)
  have "current ?c ar" unfolding current_def
  proof (intro ballI conjI impI)
    fix rec assume rec: "rec \<in> set ?c"
    then have mem: "rec \<in> set (ar_rows ar)" using sub by blast
    show "re_cloudKey rec \<noteq> None" using rec sub by blast
    show "refers (ar_storages ar) rec" using assms(1) mem by (auto simp: truthful_def well_formed_def)
    fix x assume x: "x \<in> set (ar_rows ar)" "re_id x = re_id rec"
    have "x = rec" using inj_key [of re_id "ar_rows ar" x rec] assms(1) x mem by (simp add: truthful_def well_formed_def ids_distinct_def)
    then show "re_cloudKey x = re_cloudKey rec" "re_cloudStorageId x = re_cloudStorageId rec" by simp_all
  qed
  note facts = verificarStorages_facts [OF assms(1) this]
  consider "ar' = ar" | w0 w1 where "verificarStorages env (uniq (map re_cloudStorageId ?c)) ?c (ar, w0) = (ar', w1)"
    using assms(2) unfolding verificarAcervoNaNuvem_def Let_def prod.case by (auto split: if_splits prod.splits)
  then show ?thesis using facts assms(1) remarked_refl by cases auto
qed

section \<open>A cycle\<close>

lemma runOnce_facts:
  assumes "truthful (os_archive st)" "\<And>s. destino = Some s \<Longrightarrow> registered s (os_archive st)" "runOnce env destino st = (st', res)"
  shows "truthful (os_archive st') \<and> os_running st' = os_running st \<and>
    (\<forall>p. ar_files (os_archive st) p \<noteq> None \<longrightarrow> ar_files (os_archive st') p = None \<longrightarrow>
      (\<exists>r\<in>set (ar_rows (os_archive st')). filed_at (of_archive env) r p \<and> backed (os_archive st') r))"
proof (cases "os_running st \<or> destino = None \<or> (\<exists>s. destino = Some s \<and> of_listFails env s)")
  case True
  then have "st' = st" using assms(3) by (auto simp: runOnce_def split: option.splits if_splits)
  then show ?thesis using assms(1) by auto
next
  case False
  then obtain s where s: "destino = Some s" "\<not> of_listFails env s" "\<not> os_running st" by auto
  obtain ar1 iv u f b where up: "uploadPending env s (os_archive st, os_inverificaveis st) = ((ar1, iv), u, f, b)" by (metis surj_pair)
  obtain ar2 n ok where pr: "pruneUploaded env s ar1 = ((ar2, n), ok)" by (metis surj_pair)
  obtain ar3 t w where ve: "verificarAcervoNaNuvem env (ar2, os_ultimaVerificacao st) = ((ar3, t), w)" by (metis surj_pair)
  note t1 = uploadPending_truthful [OF assms(1) assms(2) [OF s(1)] up]
  note t2 = pruned_facts [OF conjunct1 [OF t1] pr]
  note t3 = watch_facts [OF conjunct1 [OF t2] ve]
  have st': "os_archive st' = (if ok then ar3 else ar2) \<and> os_running st' = os_running st"
    using assms(3) s(2,3) unfolding runOnce_def s(1) option.case up pr ve Let_def prod.case by (cases ok) auto
  let ?a = "if ok then ar3 else ar2"
  have final: "truthful ?a" "remarked ar1 ?a" "ar_files ?a = ar_files ar2"
    using t2 t3 remarked_trans by (auto split: if_splits)
  have "\<exists>r\<in>set (ar_rows ?a). filed_at (of_archive env) r p \<and> backed ?a r"
    if gone: "ar_files (os_archive st) p \<noteq> None" "ar_files ?a p = None" for p
  proof -
    obtain r where r: "r \<in> set (ar_rows ar1)" "claims r" "filed_at (of_archive env) r p"
    proof -
      have "ar_files ar1 p \<noteq> None" "ar_files ar2 p = None" using t1 final(3) gone by simp_all
      then show ?thesis using t2 that by blast
    qed
    have "backed ar1 r" using t1 r(1,2) by (auto simp: truthful_def)
    obtain x where x: "x \<in> set (ar_rows ?a)" "same_place x r" using final(2) r(1) unfolding remarked_def by blast
    have "backed ?a x"
      using same_place_facts(3) [OF x(2), of ?a] backed_cong [of ?a ar1 r] \<open>backed ar1 r\<close> final(2) unfolding remarked_def by metis
    moreover have "filed_at (of_archive env) x p" using r(3) x(2) by (simp add: filed_at_def same_place_def)
    ultimately show ?thesis using x(1) by blast
  qed
  then show ?thesis using st' final(1) by simp
qed

end
