(* ===== verification/Archive_System.thy ===== *)
theory Archive_System
  imports Offload_Safety
begin

text \<open>
  The archive under everything that changes it, in any order: segments and clips that are registered,
  cycles of the offload with the storage the resolver chose, the retention, the guard of the disk,
  the deletions asked by hand, the purge and the sweep. Every failure the model names may occur at
  every step. Steps do not overlap; what happens when a sweep overlaps an upload is in
  \<open>Archive_Incidents\<close>.
\<close>

section \<open>Steps\<close>

text \<open>
  What the sweep relies on: it found the table of storages (the fallback on the configuration of the
  Central is not one of them), no two of them are nested, and a listing answers with plain keys.
\<close>

definition places_disjoint :: "storage_row \<Rightarrow> storage_row \<Rightarrow> bool" where
  "places_disjoint g h \<longleftrightarrow> (sg_endpoint g, sg_bucket g) \<noteq> (sg_endpoint h, sg_bucket h) \<or>
     (\<not> prefix (fullKey (sg_prefix g) []) (fullKey (sg_prefix h) []) \<and> \<not> prefix (fullKey (sg_prefix h) []) (fullKey (sg_prefix g) []))"

definition sweep_safe :: "archive_env \<Rightarrow> (storage \<Rightarrow> string list option list) \<Rightarrow> archive \<Rightarrow> bool" where
  "sweep_safe env pages ar \<longleftrightarrow>
     (\<forall>t\<in>set (todosOsStorages env ar). registered t ar \<and> (\<forall>page\<in>set (pages t). \<forall>c\<in>set (case page of Some cs \<Rightarrow> cs | None \<Rightarrow> []). c = [] \<or> plain_key c)) \<and>
     (\<forall>g\<in>set (ar_storages ar). \<forall>h\<in>set (ar_storages ar). g \<noteq> h \<longrightarrow> places_disjoint g h)"

text \<open>A segment that has just been registered was not sent; its identifier is a UUID not used before.\<close>

definition fresh_segment :: "archive_row \<Rightarrow> archive \<Rightarrow> bool" where
  "fresh_segment r ar \<longleftrightarrow> re_id r \<notin> row_ids ar \<and> clean_id (re_id r) \<and> re_cloudKey r = None \<and> re_cloudStorageId r = None \<and> re_cloudUploadedAt r = None"

inductive archive_step :: "offload_state \<Rightarrow> offload_state \<Rightarrow> bool" where
  segment: "fresh_segment r (os_archive st) \<Longrightarrow>
    archive_step st (st\<lparr>os_archive := (os_archive st)\<lparr>ar_rows := ar_rows (os_archive st) @ [r], ar_files := fs\<rparr>\<rparr>)"
| segment_again:
    "archive_step st (st\<lparr>os_archive := updateRow i (\<lambda>x. x\<lparr>re_endedAt := e, re_sizeBytes := n, re_triggerMode := m\<rparr>) (os_archive st)\<rparr>)"
| exported: "cl_id c \<notin> cl_id ` set (ar_clips (os_archive st)) \<Longrightarrow> cl_sourceRecordingId c \<in> row_ids (os_archive st) \<Longrightarrow>
    archive_step st (st\<lparr>os_archive := (os_archive st)\<lparr>ar_clips := ar_clips (os_archive st) @ [c], ar_files := fs\<rparr>\<rparr>)"
| cycle: "rv_newId renv \<notin> insert [] (sg_id ` set (ar_storages (os_archive st))) \<Longrightarrow>
    storageParaEscrita renv (os_archive st) = (ar, destino) \<Longrightarrow> runOnce env destino (st\<lparr>os_archive := ar\<rparr>) = (st', res) \<Longrightarrow>
    archive_step st st'"
| purge: "expurgarStoragesRemovidos renv (os_archive st) = (ar, feitos) \<Longrightarrow> archive_step st (st\<lparr>os_archive := ar\<rparr>)"
| expiry: "expireRecordingsInBatches tenv b gs (os_archive st, cu) n = Some ((ar, cu'), n') \<Longrightarrow> archive_step st (st\<lparr>os_archive := ar\<rparr>)"
| clip_expiry: "expireClipsInBatches tenv b gs (os_archive st, cu) n = Some ((ar, cu'), n') \<Longrightarrow> archive_step st (st\<lparr>os_archive := ar\<rparr>)"
| chosen: "excluirGravacoesEscolhidas aenv items ids (os_archive st) = (ar, res') \<Longrightarrow> archive_step st (st\<lparr>os_archive := ar\<rparr>)"
| camera: "excluirAcervoDaCamera aenv items cam (os_archive st) = (ar, res'') \<Longrightarrow> archive_step st (st\<lparr>os_archive := ar\<rparr>)"
| guard: "checkDiskUsage genv vars prot auto countFails (os_archive st) = (ar, k) \<Longrightarrow> archive_step st (st\<lparr>os_archive := ar\<rparr>)"
| sweep: "sweep_safe aenv pages (os_archive st) \<Longrightarrow> cleanupOrphanCloudObjects aenv vars pages (os_archive st) = (ar, k) \<Longrightarrow>
    archive_step st (st\<lparr>os_archive := ar\<rparr>)"

inductive archive_reach :: "offload_state \<Rightarrow> bool" where
  start: "ar_rows (os_archive st) = [] \<Longrightarrow> ar_clips (os_archive st) = [] \<Longrightarrow> ar_storages (os_archive st) = [] \<Longrightarrow>
    \<not> os_running st \<Longrightarrow> archive_reach st"
| further: "archive_reach st \<Longrightarrow> archive_step st st' \<Longrightarrow> archive_reach st'"

section \<open>The rows stay true\<close>

lemma disjoint_keys: "places_disjoint g h \<Longrightarrow> plain_key k \<Longrightarrow> plain_key l \<Longrightarrow>
   (sg_endpoint g, sg_bucket g) \<noteq> (sg_endpoint h, sg_bucket h) \<or> fullKey (sg_prefix g) k \<noteq> fullKey (sg_prefix h) l"
  unfolding places_disjoint_def using fullKey_base prefix_same_cases by metis

lemma swept_truthful:
  assumes "truthful ar" "sweep_safe env pages ar" "cleanupOrphanCloudObjects env vars pages ar = (ar', n)"
  shows "truthful ar'"
proof -
  have wf: "well_formed ar" and keyed: "\<forall>r\<in>set (ar_rows ar). keyed r" using assms(1) by (auto simp: truthful_def)
  have plain: "plain_key c" if "t \<in> set (todosOsStorages env ar)" "Some chaves \<in> set (pages t)" "c \<in> set chaves" "c \<noteq> []" for t chaves c
  proof -
    have "\<forall>c\<in>set (case Some chaves of Some cs \<Rightarrow> cs | None \<Rightarrow> []). c = [] \<or> plain_key c"
      using assms(2) that(1,2) unfolding sweep_safe_def by blast
    then have "\<forall>c\<in>set chaves. c = [] \<or> plain_key c" by simp
    from bspec [OF this that(3)] that(4) show ?thesis by blast
  qed
  have "only_objects ar ar' \<and> ar_objects ar' ([], []) [] = ar_objects ar ([], []) []"
  proof (rule sweep_leaves [OF assms(3)])
    fix a t chaves c
    assume "t \<in> set (todosOsStorages env ar)" "Some chaves \<in> set (pages t)" "c \<in> set chaves" "c \<noteq> []"
    from fullKey_tail [OF plain [OF this], of "sr_prefix t"] this(4) show "\<not> (([], []) = bucketOf t \<and> [] = fullKey (sr_prefix t) c)" by auto
  qed
  then obtain objs where ar': "ar' = ar\<lparr>ar_objects := objs\<rparr>" by (auto simp: only_objects_def)
  show ?thesis
  proof (rule truthful_mapped [OF assms(1), of _ "\<lambda>r. r"])
    fix r assume r: "r \<in> set (ar_rows ar)"
    show "refers (ar_storages ar) r" "keyed r" using wf keyed r unfolding well_formed_def by blast+
    assume "claims r"
    then obtain g k where g: "g \<in> set (ar_storages ar)" "re_cloudStorageId r = Some (sg_id g)" "re_cloudKey r = Some k"
      "ar_objects ar (sg_endpoint g, sg_bucket g) (fullKey (sg_prefix g) k) \<noteq> None"
      using assms(1) r unfolding truthful_def backed_def by blast
    have k: "plain_key k" using keyed r g(3) built_key_plain by (fastforce simp: keyed_def)
    have "ar_objects ar' (sg_endpoint g, sg_bucket g) (fullKey (sg_prefix g) k) = ar_objects ar (sg_endpoint g, sg_bucket g) (fullKey (sg_prefix g) k)"
    proof (rule conjunct2 [OF sweep_leaves [OF assms(3)]])
      fix a t chaves c
      assume t: "only_objects ar a" "t \<in> set (todosOsStorages env ar)" "Some chaves \<in> set (pages t)" "c \<in> set chaves" "c \<noteq> []"
        "c \<notin> set (comDono t (filter (\<lambda>k. k \<noteq> []) chaves) a)"
      obtain h where h: "h \<in> set (ar_storages ar)" "sr_id t = Some (sg_id h)" "bucketOf t = (sg_endpoint h, sg_bucket h)" "sr_prefix t = sg_prefix h"
        using assms(2) t(2) unfolding sweep_safe_def registered_def by blast
      note c = plain [OF t(2-5)]
      show "\<not> ((sg_endpoint g, sg_bucket g) = bucketOf t \<and> fullKey (sg_prefix g) k = fullKey (sr_prefix t) c)"
      proof (cases "g = h")
        case False
        then have "places_disjoint g h" using assms(2) g(1) h(1) unfolding sweep_safe_def by blast
        then show ?thesis using disjoint_keys [OF _ k c] h(3,4) by metis
      next
        case True
        show ?thesis
        proof
          assume "(sg_endpoint g, sg_bucket g) = bucketOf t \<and> fullKey (sg_prefix g) k = fullKey (sr_prefix t) c"
          then have "k = c" using fullKey_inj [OF k c] h(4) True by metis
          moreover have "r \<in> set (ar_rows a)" using only_objects_simps(4) [OF t(1)] r by simp
          ultimately have "c \<in> set (comDono t (filter (\<lambda>k. k \<noteq> []) chaves) a)"
            using comDono_mem [of c "filter (\<lambda>k. k \<noteq> []) chaves" r a t] t(4,5) g(2,3) h(2) True by simp
          then show False using t(6) by simp
        qed
      qed
    qed
    then show "backed ar' r" using g unfolding backed_def ar' by auto
  qed (simp_all add: ar')
qed

lemma segment_truthful:
  assumes "truthful ar" "fresh_segment r ar"
  shows "truthful (ar\<lparr>ar_rows := ar_rows ar @ [r], ar_files := fs\<rparr>)" (is "truthful ?a")
proof -
  have "refers (ar_storages ar) r" "keyed r" "\<not> claims r" using assms(2) by (auto simp: fresh_segment_def refers_def keyed_def claims_def)
  moreover have "backed ?a x = backed ar x" for x by (rule backed_cong) simp_all
  ultimately show ?thesis using assms unfolding truthful_def well_formed_def fresh_segment_def row_ids_def
    by (auto simp: ids_distinct_def)
qed

lemma exported_truthful:
  assumes "truthful ar" "cl_id c \<notin> cl_id ` set (ar_clips ar)" "cl_sourceRecordingId c \<in> row_ids ar"
  shows "truthful (ar\<lparr>ar_clips := ar_clips ar @ [c], ar_files := fs\<rparr>)" (is "truthful ?a")
proof -
  have "backed ?a x = backed ar x" for x by (rule backed_cong) simp_all
  then show ?thesis using assms unfolding truthful_def well_formed_def row_ids_def by (auto simp: ids_distinct_def)
qed

lemma step_truthful:
  assumes "archive_step st st'" "truthful (os_archive st)"
  shows "truthful (os_archive st')"
  using assms
proof (induction rule: archive_step.induct)
  case (segment r st fs)
  then show ?case using segment_truthful by simp
next
  case (segment_again st i m n e)
  have "truthful (updateRow i (\<lambda>x. x\<lparr>re_endedAt := e, re_sizeBytes := n, re_triggerMode := m\<rparr>) (os_archive st))"
    by (rule truthful_update [OF segment_again]) (auto simp: same_place_def claims_def)
  then show ?case by simp
next
  case (exported c st fs)
  then show ?case using exported_truthful by simp
next
  case (cycle renv st ar destino env st' res)
  note w = storageParaEscrita_truthful [OF cycle.prems cycle.hyps(2,1)]
  have "truthful (os_archive (st\<lparr>os_archive := ar\<rparr>))" using w by simp
  then show ?case using runOnce_facts [OF _ _ cycle.hyps(3)] w by simp
next
  case (purge renv st ar feitos)
  then show ?case using purge_truthful by simp
next
  case (expiry tenv b gs st cu n ar cu' n')
  have "shrinks (os_archive st) ar" using deletions.expiry [OF expiry.hyps] truthful_sound [OF expiry.prems] by simp
  then show ?case using truthful_shrinks [OF expiry.prems] by simp
next
  case (clip_expiry tenv b gs st cu n ar cu' n')
  have "shrinks (os_archive st) ar" using deletions.clips_expiry [OF clip_expiry.hyps] truthful_sound [OF clip_expiry.prems] by simp
  then show ?case using truthful_shrinks [OF clip_expiry.prems] by simp
next
  case (chosen aenv items ids st ar res')
  then show ?case using truthful_shrinks deletions.chosen [OF chosen.hyps] truthful_sound by simp
next
  case (camera aenv items cam st ar res'')
  then show ?case using truthful_shrinks deletions.of_camera [OF camera.hyps] truthful_sound by simp
next
  case (guard genv vars prot auto countFails st ar k)
  then show ?case using truthful_shrinks deletions.disk_guard [OF guard.hyps] truthful_sound by simp
next
  case (sweep aenv pages st vars ar k)
  then show ?case using swept_truthful by simp
qed

lemma reach_truthful: "archive_reach st \<Longrightarrow> truthful (os_archive st)"
proof (induction rule: archive_reach.induct)
  case (start st)
  then show ?case by (simp add: truthful_def well_formed_def ids_distinct_def storages_ok_def)
qed (rule step_truthful)

section \<open>Properties\<close>





section \<open>A concrete run\<close>

definition sample_config :: storage where
  "sample_config = \<lparr>sr_id = None, sr_name = ''Eveo'', sr_provider = ''s3'', sr_endpoint = ''e'', sr_region = ''r'', sr_bucket = ''b'', sr_prefix = ''p'',
     sr_accessKeyId = ''k'', sr_secret = ''x'', sr_forcePathStyle = True, sr_mount = True, sr_localWindowHours = 24, sr_uploadConcurrency = 6\<rparr>"

definition sample_resolver :: resolver_env where
  "sample_resolver = \<lparr>rv_archive = sample_archive_env\<lparr>ae_legado := Some sample_config\<rparr>, rv_encrypt = (\<lambda>s. s), rv_newId = ''s1'', rv_now = 0,
     rv_state = Some configured, rv_removals = Some [], rv_findFails = False, rv_updateFails = False, rv_countFails = False, rv_txFails = False,
     rv_rereadFails = False, rv_activeFails = False, rv_deactivateFails = False, rv_listFails = False, rv_purgeFails = (\<lambda>_. None)\<rparr>"

definition sample_offload :: "int \<Rightarrow> offload_env" where
  "sample_offload now = \<lparr>of_archive = sample_archive_env, of_now = now, of_vars = (\<lambda>_. None),
     of_setting = Value (JObj [(''enabled'', JBool True)]), of_listFails = (\<lambda>_. False), of_putFails = (\<lambda>_. False),
     of_arrives = (\<lambda>_ c. c), of_headFails = (\<lambda>_. None), of_reportsLength = True, of_unlinkFails = (\<lambda>_. False),
     of_updateFails = (\<lambda>_. False), of_countFails = False\<rparr>"

definition sample_offload_state :: offload_state where
  "sample_offload_state = \<lparr>os_archive = \<lparr>ar_rows = [], ar_clips = [], ar_storages = [], ar_files = Map.empty, ar_objects = (\<lambda>_ _. None), ar_ops = 0\<rparr>,
     os_running = False, os_inverificaveis = [], os_ultimaVerificacao = None\<rparr>"

definition after_segment :: offload_state where
  "after_segment = sample_offload_state\<lparr>os_archive := (os_archive sample_offload_state)\<lparr>ar_rows := [sample_archive_row\<lparr>re_triggerMode := ''motion''\<rparr>],
     ar_files := [''c/a.mp4'' \<mapsto> Bytes ''1234567'']\<rparr>\<rparr>"

definition cycle_of :: "int \<Rightarrow> resolver_env \<Rightarrow> offload_state \<Rightarrow> offload_state" where
  "cycle_of now renv st = (case storageParaEscrita renv (os_archive st) of (ar, destino) \<Rightarrow> fst (runOnce (sample_offload now) destino (st\<lparr>os_archive := ar\<rparr>)))"

definition after_upload :: offload_state where
  "after_upload = cycle_of 1 sample_resolver after_segment"

definition second_resolver :: resolver_env where
  "second_resolver = sample_resolver\<lparr>rv_newId := ''s2''\<rparr>"

lemma reach_cycle:
  assumes "archive_reach st" "rv_newId renv \<notin> insert [] (sg_id ` set (ar_storages (os_archive st)))"
  shows "archive_reach (cycle_of now renv st)"
proof -
  obtain ar destino where w: "storageParaEscrita renv (os_archive st) = (ar, destino)" by fastforce
  obtain st' res where r: "runOnce (sample_offload now) destino (st\<lparr>os_archive := ar\<rparr>) = (st', res)" by fastforce
  show ?thesis using archive_reach.further [OF assms(1) archive_step.cycle [OF assms(2) w r]] w r by (simp add: cycle_of_def)
qed

lemma reach_segment: "archive_reach after_segment"
proof -
  have "archive_reach sample_offload_state" by (rule archive_reach.start) (simp_all add: sample_offload_state_def)
  moreover have "archive_step sample_offload_state (sample_offload_state\<lparr>os_archive := (os_archive sample_offload_state)\<lparr>ar_rows :=
      ar_rows (os_archive sample_offload_state) @ [sample_archive_row\<lparr>re_triggerMode := ''motion''\<rparr>], ar_files := [''c/a.mp4'' \<mapsto> Bytes ''1234567'']\<rparr>\<rparr>)"
    by (rule archive_step.segment) (simp add: fresh_segment_def sample_offload_state_def row_ids_def clean_id_def sample_archive_row_def)
  ultimately have "archive_reach (sample_offload_state\<lparr>os_archive := (os_archive sample_offload_state)\<lparr>ar_rows :=
      ar_rows (os_archive sample_offload_state) @ [sample_archive_row\<lparr>re_triggerMode := ''motion''\<rparr>], ar_files := [''c/a.mp4'' \<mapsto> Bytes ''1234567'']\<rparr>\<rparr>)"
    by (rule archive_reach.further)
  then show ?thesis by (simp add: after_segment_def sample_offload_state_def)
qed

lemma reach_upload: "archive_reach after_upload"
  unfolding after_upload_def
  by (rule reach_cycle [OF reach_segment]) (simp add: after_segment_def sample_offload_state_def sample_resolver_def)




end
