(* ===== verification/History_Cleanup.thy ===== *)
theory History_Cleanup
  imports Retention
begin

text \<open>
  \<open>recordings/helpers/limpeza-do-historico.helper.ts\<close> and \<open>limparHistorico\<close> of
  \<open>recordings/retention.service.ts\<close>: which rows of the audit and which alarms are forgotten, with the
  events \<open>handleRetention\<close> deletes before. An instant is a rational number of milliseconds.
\<close>

section \<open>Noise and trail\<close>

definition ACOES_DE_RUIDO :: "string list" where
  "ACOES_DE_RUIDO = [''alarm.notification.delivery'', ''stream.token.create'', ''stream.live.failure'', ''playback.token.create'',
     ''playback.vod.playlist'', ''investigation.export.signature.retry'', ''ptz.start'', ''ptz.stop'']"

datatype classe = Ruido | Rastro

definition classificar :: "string option \<Rightarrow> classe" where
  "classificar acao = (if js_trim (or_empty acao) \<in> set ACOES_DE_RUIDO then Ruido else Rastro)"

record prazos =
  ruidoDias :: rat
  rastroDias :: rat
  alarmeDias :: rat

definition PRAZOS_PADRAO :: prazos where
  "PRAZOS_PADRAO = \<lparr>ruidoDias = 30, rastroDias = 730, alarmeDias = 90\<rparr>"

text \<open>\<open>dias\<close> after \<open>Number\<close>: absent or blank, a finite number, or something else.\<close>

datatype dias = Ausente | Numero rat | NaoFinito

definition limiteDeCorte :: "rat \<Rightarrow> dias \<Rightarrow> rat \<Rightarrow> rat" where
  "limiteDeCorte agora dias padrao =
     (let d = (case dias of Ausente \<Rightarrow> if padrao > 0 then of_int \<lfloor>padrao\<rfloor> else padrao
                | Numero cru \<Rightarrow> if cru > 0 then of_int \<lfloor>cru\<rfloor> else padrao
                | NaoFinito \<Rightarrow> padrao)
      in agora - d * 24 * 3600 * 1000)"

record plano_limpeza =
  ruidoAntesDe :: rat
  rastroAntesDe :: rat
  alarmesAntesDe :: rat
  acoesDeRuido :: "string list"

definition planejarLimpeza :: "rat \<Rightarrow> dias \<Rightarrow> dias \<Rightarrow> dias \<Rightarrow> plano_limpeza" where
  "planejarLimpeza agora ruido rastro alarme =
     \<lparr>ruidoAntesDe = limiteDeCorte agora ruido (ruidoDias PRAZOS_PADRAO),
      rastroAntesDe = limiteDeCorte agora rastro (rastroDias PRAZOS_PADRAO),
      alarmesAntesDe = limiteDeCorte agora alarme (alarmeDias PRAZOS_PADRAO),
      acoesDeRuido = ACOES_DE_RUIDO\<rparr>"

section \<open>The rows\<close>

record audit_row =
  au_action :: string
  au_createdAt :: rat

datatype alarm_status = OPEN | ACKED | RESOLVED

record alarm_row =
  al_status :: alarm_status
  al_createdAt :: rat
  al_lastOccurredAt :: rat

record event_row =
  ev_id :: string
  ev_occurredAt :: rat

record history =
  hi_audit :: "audit_row list"
  hi_alarms :: "alarm_row list"
  hi_events :: "event_row list"

text \<open>Which of the three deletions fail; each is caught by itself.\<close>

record history_env =
  he_vars :: variables
  he_ruidoFails :: bool
  he_rastroFails :: bool
  he_alarmesFails :: bool

definition env_days :: "variables \<Rightarrow> string \<Rightarrow> rat \<Rightarrow> int \<Rightarrow> rat" where
  "env_days vars name fallback lo =
     fst (envNumber (vars name) fallback \<lparr>opt_min = Some (of_int lo), opt_max = Some 3650, opt_integer = True\<rparr>)"

definition limparHistorico :: "history_env \<Rightarrow> rat \<Rightarrow> history \<Rightarrow> history" where
  "limparHistorico env now h =
     (let plano = planejarLimpeza now (Numero (env_days (he_vars env) ''AUDIT_NOISE_RETENTION_DAYS'' (ruidoDias PRAZOS_PADRAO) 1))
            (Numero (env_days (he_vars env) ''AUDIT_TRAIL_RETENTION_DAYS'' (rastroDias PRAZOS_PADRAO) 30))
            (Numero (env_days (he_vars env) ''ALARM_RETENTION_DAYS'' (alarmeDias PRAZOS_PADRAO) 1));
          a1 = (if he_ruidoFails env then hi_audit h
                else filter (\<lambda>x. \<not> (au_action x \<in> set (acoesDeRuido plano) \<and> au_createdAt x < ruidoAntesDe plano)) (hi_audit h));
          a2 = (if he_rastroFails env then a1
                else filter (\<lambda>x. \<not> (au_action x \<notin> set (acoesDeRuido plano) \<and> au_createdAt x < rastroAntesDe plano)) a1);
          al = (if he_alarmesFails env then hi_alarms h
                else filter (\<lambda>x. \<not> al_createdAt x < alarmesAntesDe plano) (hi_alarms h))
      in h\<lparr>hi_audit := a2, hi_alarms := al\<rparr>)"

definition expireEvents :: "variables \<Rightarrow> protection \<Rightarrow> rat \<Rightarrow> history \<Rightarrow> history" where
  "expireEvents vars prot now h =
     h\<lparr>hi_events := filter (\<lambda>e. \<not> (ev_occurredAt e < now - env_days vars ''CAMERA_EVENT_RETENTION_DAYS'' 30 1 * 86400000 \<and>
        ev_id e \<notin> set (pr_eventIds prot))) (hi_events h)\<rparr>"

section \<open>Bounds\<close>

lemma env_days_bounds:
  assumes "of_int lo \<le> fallback" "fallback \<le> 3650" "lo \<le> 3650"
  shows "of_int lo \<le> env_days vars name fallback lo \<and> env_days vars name fallback lo \<le> 3650"
  using assms by (auto simp: env_days_def envNumber_def clamp_min_def clamp_max_def Let_def)

lemma env_days_whole: "\<exists>n. env_days vars name fallback lo = of_int n"
proof -
  have whole: "\<exists>n. clamp_max (Some (of_int hi)) (clamp_min (Some (of_int lo)) (of_int k)) = (of_int n :: rat)" for hi k :: int
    by (cases "k < lo"; cases "lo > hi"; cases "k > hi") (auto simp: clamp_min_def clamp_max_def intro: exI [of _ hi])
  obtain v where "env_days vars name fallback lo = clamp_max (Some 3650) (clamp_min (Some (of_int lo)) (truncate_rat v))"
    by (simp add: env_days_def envNumber_def Let_def)
  moreover obtain k where "truncate_rat v = of_int k" by (simp add: truncate_rat_def)
  ultimately show ?thesis using whole [of 3650 k] by simp
qed

text \<open>The cut of a number of days in the bounds is that many days ago.\<close>

lemma cut_of_days:
  assumes "lo \<ge> 1" "of_int lo \<le> fallback" "fallback \<le> 3650" "lo \<le> 3650"
  shows "limiteDeCorte now (Numero (env_days vars name fallback lo)) padrao = now - env_days vars name fallback lo * 86400000"
proof -
  obtain n where n: "env_days vars name fallback lo = of_int n" using env_days_whole by blast
  have "of_int lo \<le> env_days vars name fallback lo" using env_days_bounds [OF assms(2-4)] by blast
  then have "env_days vars name fallback lo > 0" using assms(1) by (simp add: n)
  then show ?thesis by (simp add: limiteDeCorte_def Let_def n)
qed

section \<open>Properties\<close>

text \<open>C38 (history_keeps_trail). An action the helper does not know is a trail, and no row of the trail is
  forgotten before thirty days, whatever the environment says; the noise never before one day, and an
  event that is protected never. An alarm goes ninety days after it was created unless the environment
  says otherwise, open or not and however recently it occurred again.\<close>

theorem history_keeps_trail:
  assumes "h' = limparHistorico env now (expireEvents (he_vars env) prot now h)"
  shows "(\<forall>x\<in>set (hi_audit h). au_createdAt x \<ge> now - 30 * 86400000 \<and> au_action x \<notin> set ACOES_DE_RUIDO \<longrightarrow> x \<in> set (hi_audit h')) \<and>
     (\<forall>x\<in>set (hi_audit h). au_createdAt x \<ge> now - 86400000 \<longrightarrow> x \<in> set (hi_audit h')) \<and>
     (\<forall>x\<in>set (hi_audit h). au_createdAt x < now - 3650 * 86400000 \<and> \<not> he_ruidoFails env \<and> \<not> he_rastroFails env \<longrightarrow> x \<notin> set (hi_audit h')) \<and>
     (\<forall>e\<in>set (hi_events h). ev_id e \<in> set (pr_eventIds prot) \<longrightarrow> e \<in> set (hi_events h')) \<and>
     (he_vars env ''ALARM_RETENTION_DAYS'' = None \<and> \<not> he_alarmesFails env \<longrightarrow>
        hi_alarms h' = filter (\<lambda>x. al_createdAt x \<ge> now - 90 * 86400000) (hi_alarms h))"
proof -
  let ?n = "env_days (he_vars env) ''AUDIT_NOISE_RETENTION_DAYS'' 30 1" and ?t = "env_days (he_vars env) ''AUDIT_TRAIL_RETENTION_DAYS'' 730 30"
  have b: "1 \<le> ?n" "?n \<le> 3650" "30 \<le> ?t" "?t \<le> 3650"
    using env_days_bounds [of 1 30 "he_vars env" "''AUDIT_NOISE_RETENTION_DAYS''"]
      env_days_bounds [of 30 730 "he_vars env" "''AUDIT_TRAIL_RETENTION_DAYS''"] by simp_all
  have cuts: "limiteDeCorte now (Numero ?n) 30 = now - ?n * 86400000" "limiteDeCorte now (Numero ?t) 730 = now - ?t * 86400000"
    by (rule cut_of_days; simp)+
  have audit: "hi_audit h' = filter (\<lambda>x. (he_rastroFails env \<or> \<not> (au_action x \<notin> set ACOES_DE_RUIDO \<and> au_createdAt x < now - ?t * 86400000)) \<and>
      (he_ruidoFails env \<or> \<not> (au_action x \<in> set ACOES_DE_RUIDO \<and> au_createdAt x < now - ?n * 86400000))) (hi_audit h)"
    unfolding assms limparHistorico_def planejarLimpeza_def expireEvents_def Let_def
    by (auto simp: PRAZOS_PADRAO_def cuts intro!: filter_cong)
  have events: "hi_events h' = hi_events (expireEvents (he_vars env) prot now h)" unfolding assms by (simp add: limparHistorico_def Let_def)
  show ?thesis
  proof (intro conjI ballI impI)
    fix e assume "e \<in> set (hi_events h)" "ev_id e \<in> set (pr_eventIds prot)"
    then show "e \<in> set (hi_events h')" unfolding events by (simp add: expireEvents_def)
  next
    assume none: "he_vars env ''ALARM_RETENTION_DAYS'' = None \<and> \<not> he_alarmesFails env"
    have "env_days (he_vars env) ''ALARM_RETENTION_DAYS'' 90 1 = 90"
      using none by (simp add: env_days_def envNumber_def clamp_min_def clamp_max_def truncate_rat_def Let_def)
    moreover have "limiteDeCorte now (Numero (env_days (he_vars env) ''ALARM_RETENTION_DAYS'' 90 1)) 90 =
        now - env_days (he_vars env) ''ALARM_RETENTION_DAYS'' 90 1 * 86400000" by (rule cut_of_days) simp_all
    ultimately have "limiteDeCorte now (Numero (env_days (he_vars env) ''ALARM_RETENTION_DAYS'' 90 1)) 90 = now - 90 * 86400000" by simp
    then show "hi_alarms h' = filter (\<lambda>x. al_createdAt x \<ge> now - 90 * 86400000) (hi_alarms h)"
      unfolding assms limparHistorico_def planejarLimpeza_def expireEvents_def Let_def
      using none by (simp add: PRAZOS_PADRAO_def not_less)
  qed (use b in \<open>auto simp: audit\<close>)
qed

definition sample_history :: history where
  "sample_history = \<lparr>hi_audit = [\<lparr>au_action = ''recording.view'', au_createdAt = 0\<rparr>, \<lparr>au_action = ''ptz.start'', au_createdAt = 0\<rparr>],
     hi_alarms = [\<lparr>al_status = OPEN, al_createdAt = 0, al_lastOccurredAt = 100 * 86400000\<rparr>],
     hi_events = [\<lparr>ev_id = ''e1'', ev_occurredAt = 0\<rparr>]\<rparr>"

definition sample_history_env :: history_env where
  "sample_history_env = \<lparr>he_vars = (\<lambda>_. None), he_ruidoFails = False, he_rastroFails = False, he_alarmesFails = False\<rparr>"

theorem history_keeps_trail_witness:
  "hi_alarms (limparHistorico sample_history_env (100 * 86400000) (expireEvents (he_vars sample_history_env)
      \<lparr>pr_recordingIds = [], pr_clipIds = [], pr_eventIds = [''e1'']\<rparr> (100 * 86400000) sample_history)) = [] \<and>
   \<lparr>ev_id = ''e1'', ev_occurredAt = 0\<rparr> \<in> set (hi_events (limparHistorico sample_history_env (100 * 86400000) (expireEvents (he_vars sample_history_env)
      \<lparr>pr_recordingIds = [], pr_clipIds = [], pr_eventIds = [''e1'']\<rparr> (100 * 86400000) sample_history)))"
  using history_keeps_trail [where env = sample_history_env and now = "100 * 86400000" and h = sample_history and
      prot = "\<lparr>pr_recordingIds = [], pr_clipIds = [], pr_eventIds = [''e1'']\<rparr>", OF refl]
  by (simp add: sample_history_def sample_history_env_def)

end
