(* ===== verification/Retention_Cycle.thy ===== *)
theory Retention_Cycle
  imports Archive_System History_Cleanup
begin

text \<open>
  \<open>handleRetention\<close>: the passes of \<open>Retention\<close>, \<open>History_Cleanup\<close> and \<open>Retention_Guard\<close> in the order of the
  code, with the protections read once at the beginning. The orphans among the derived files are
  left out: they touch no row. So is an error of a query that the code does not catch: it ends the
  cycle where it is, after the passes that were already made.
\<close>

section \<open>The cycle\<close>

text \<open>\<open>ce_configDefault\<close> is \<open>Number(config.retentionDays) || 3\<close>; \<open>ce_configuredDays\<close> is zero when the
  setting cannot be read; \<open>ce_autoCleanupAgain\<close> is the setting as the guard of the disk reads it.\<close>

record cycle_env =
  ce_archive :: archive_env
  ce_guardian :: guardian_env
  ce_history :: history_env
  ce_vars :: variables
  ce_now :: int
  ce_autoCleanup :: bool
  ce_autoCleanupAgain :: bool
  ce_configuredDays :: int
  ce_configDefault :: rat
  ce_cameras :: "(string \<times> entrada_retencao) list"
  ce_hasColumn :: bool
  ce_items :: "investigation_item list"
  ce_pages :: "storage \<Rightarrow> string list option list"
  ce_countFails :: bool

definition globalRetentionDays :: "cycle_env \<Rightarrow> int" where
  "globalRetentionDays ce =
     (if ce_configuredDays ce > 0 then ce_configuredDays ce
      else \<lfloor>fst (envNumber (ce_vars ce ''RECORDING_RETENTION_DAYS'') (ce_configDefault ce) \<lparr>opt_min = Some 1, opt_max = None, opt_integer = True\<rparr>)\<rfloor>)"

definition handleRetention :: "cycle_env \<Rightarrow> archive \<times> history \<Rightarrow> ((archive \<times> history) \<times> cleanup) option" where
  "handleRetention ce st =
     (let (ar, h) = st in
      if \<not> ce_autoCleanup ce then Some (st, no_cleanup)
      else let prot = getProtectionSets (ce_items ce) (ar_clips ar); limits = readBatchLimits (ce_vars ce);
               groups = loadRetentionGroups (ce_cameras ce) (globalRetentionDays ce);
               env = \<lparr>rt_archive = ce_archive ce, rt_protection = prot, rt_policy = readTwoTierPolicy (ce_vars ce),
                      rt_hasColumn = ce_hasColumn ce, rt_now = ce_now ce\<rparr>
           in case expireClipsInBatches env (bl_batchSize limits) groups (ar, no_cleanup) (bl_maxPerCycle limits) of
                None \<Rightarrow> None
              | Some (st1, _) \<Rightarrow>
                  (case expireRecordingsInBatches env (bl_batchSize limits) groups st1 (bl_maxPerCycle limits) of
                     None \<Rightarrow> None
                   | Some ((ar2, res), _) \<Rightarrow>
                       (let h1 = limparHistorico (ce_history ce) (of_int (ce_now ce)) (expireEvents (ce_vars ce) prot (of_int (ce_now ce)) h);
                            ar3 = fst (cleanupOrphanCloudObjects (ce_archive ce) (ce_vars ce) (ce_pages ce) ar2);
                            ar4 = fst (checkDiskUsage (ce_guardian ce) (ce_vars ce) prot (ce_autoCleanupAgain ce) (ce_countFails ce) ar3)
                        in Some ((ar4, h1), res))))"

section \<open>The clips end\<close>

lemma deleteClip_rows:
  assumes "deleteClip env c ar = (ar', res)" "ids_distinct ar"
  shows "ids_distinct ar' \<and> ar_rows ar' = ar_rows ar \<and>
    (res = Inr () \<longrightarrow> cl_id c \<in> cl_id ` set (ar_clips ar) \<and> ar_clips ar' = filter (\<lambda>x. cl_id x \<noteq> cl_id c) (ar_clips ar)) \<and>
    (res \<noteq> Inr () \<longrightarrow> ar_clips ar' = ar_clips ar)"
proof (cases "ensureFileUnderRoot env (cl_filePath c)")
  case None
  then show ?thesis using assms by (auto simp: deleteClip_def)
next
  case (Some p)
  let ?d = "\<lambda>a. if list_ex (\<lambda>x. cl_id x = cl_id c) (ar_clips a) then Some (a\<lparr>ar_clips := filter (\<lambda>x. cl_id x \<noteq> cl_id c) (ar_clips a)\<rparr>) else None"
  have del: "deleteRowsWithFiles env [p] [\<lparr>g_model = exportedClip, g_id = cl_id c\<rparr>] ?d ar = (ar', res)"
    using assms(1) Some by (simp add: deleteClip_def)
  have keep: "ar_files b = ar_files a \<and> ar_storages b = ar_storages a \<and> ar_objects b = ar_objects a \<and> ar_ops b = ar_ops a"
    if "?d a = Some b" for a b using that by (auto split: if_splits)
  note rows = deleteRowsWithFiles_rows [OF del keep]
  show ?thesis
  proof (cases "res = Inr ()")
    case True
    then obtain fs b where b: "?d (ar\<lparr>ar_ops := Suc (ar_ops ar), ar_files := fs\<rparr>) = Some b" "ar_rows ar' = ar_rows b" "ar_clips ar' = ar_clips b"
      using rows(4) by blast
    then have "cl_id c \<in> cl_id ` set (ar_clips ar)" by (auto simp: list_ex_iff image_iff intro: sym split: if_splits)
    then show ?thesis using True assms(2) b by (auto simp: ids_distinct_def distinct_map_filter split: if_splits)
  qed (use rows(5) assms(2) in \<open>simp add: ids_distinct_def\<close>)
qed

lemma expireClip_cases:
  assumes "expireClip env c (ar, res) = ((ar', res'), d)"
  shows "(d = Removed \<and> deleteClip (rt_archive env) c ar = (ar', Inr ())) \<or>
    (d \<noteq> Removed \<and> (ar' = ar \<or> (\<exists>x. x \<noteq> Inr () \<and> deleteClip (rt_archive env) c ar = (ar', x))))"
  using assms by (auto simp: expireClip_def Let_def split: if_splits prod.splits sum.splits)

interpretation clips: batch_handler "clipQuery g cutoff" "expireClip env" "\<lambda>st. ids_distinct (fst st)"
proof
  fix s :: "archive \<times> cleanup"
  assume "ids_distinct (fst s)"
  then have "distinct (ar_clips (fst s))" by (simp add: ids_distinct_def distinct_map)
  then show "distinct (clipQuery g cutoff s)" by (simp add: clipQuery_def)
next
  fix s c s' d
  assume inv: "ids_distinct (fst s)" and r: "expireClip env c s = (s', d)"
  obtain ar res ar' res' where s: "s = (ar, res)" "s' = (ar', res')" by fastforce
  have "ar' = ar \<or> (\<exists>x. deleteClip (rt_archive env) c ar = (ar', x))" using expireClip_cases [OF r [unfolded s]] by blast
  then show "ids_distinct (fst s')" using inv s deleteClip_rows by auto
next
  fix s c s'
  assume inv: "ids_distinct (fst s)" and mem: "c \<in> set (clipQuery g cutoff s)" and r: "expireClip env c s = (s', Removed)"
  obtain ar res ar' res' where s: "s = (ar, res)" "s' = (ar', res')" by fastforce
  have "deleteClip (rt_archive env) c ar = (ar', Inr ())" using expireClip_cases [OF r [unfolded s]] by blast
  from deleteClip_rows [OF this] have rows: "ar_rows ar' = ar_rows ar" "ar_clips ar' = filter (\<lambda>x. cl_id x \<noteq> cl_id c) (ar_clips ar)"
    using inv s by simp_all
  have match: "clip_matches g cutoff ar' = clip_matches g cutoff ar" by (intro ext) (simp add: clip_matches_def rows(1))
  have "c \<in> set (ar_clips ar)" using mem s by (simp add: clipQuery_def)
  then have same: "x = c" if "x \<in> set (ar_clips ar)" "cl_id x = cl_id c" for x
    using inj_key [of cl_id "ar_clips ar" x c] inv s that by (simp add: ids_distinct_def)
  have "filter (clip_matches g cutoff ar) (filter (\<lambda>x. cl_id x \<noteq> cl_id c) (ar_clips ar)) = filter (\<lambda>x. x \<noteq> c) (filter (clip_matches g cutoff ar) (ar_clips ar))"
    using same by (auto simp: conj_commute intro!: filter_cong)
  then show "clipQuery g cutoff s' = filter (\<lambda>x. x \<noteq> c) (clipQuery g cutoff s)"
    by (simp add: clipQuery_def s rows match filter_sort)
next
  fix s c s' d
  assume inv: "ids_distinct (fst s)" and r: "expireClip env c s = (s', d)" and d: "d \<noteq> Removed"
  obtain ar res ar' res' where s: "s = (ar, res)" "s' = (ar', res')" by fastforce
  have "ar' = ar \<or> (\<exists>x. x \<noteq> Inr () \<and> deleteClip (rt_archive env) c ar = (ar', x))" using expireClip_cases [OF r [unfolded s]] d by blast
  then have rows: "ar_rows ar' = ar_rows ar" "ar_clips ar' = ar_clips ar" using deleteClip_rows inv s by auto
  then have "clip_matches g cutoff ar' = clip_matches g cutoff ar" by (intro ext) (simp add: clip_matches_def)
  then show "clipQuery g cutoff s' = clipQuery g cutoff s" by (simp add: clipQuery_def s rows)
qed

lemma clips_end:
  assumes "b > 0"
  shows "ids_distinct (fst st) \<Longrightarrow> \<exists>st' left. expireClipsInBatches env b gs st budget = Some (st', left) \<and> ids_distinct (fst st')"
proof (induction gs arbitrary: st budget)
  case (Cons g gs)
  let ?q = "clipQuery g (rt_now env - rg_days g * DAY_MS)"
  obtain st1 left where run: "drain ?q (expireClip env) b (st, 0, budget) = Some (st1, left)" "st1 = fst (onePass (expireClip env) (?q st) (st, budget))"
    using clips.drain_one_pass [OF Cons.prems assms] by (metis prod.collapse)
  have "ids_distinct (fst st1)"
    using clips.onePass_rows [OF Cons.prems subset_refl clips.rows_distinct [OF Cons.prems]] run(2) by metis
  then show ?case using Cons.IH run(1) by simp
qed auto

section \<open>What is protected stays\<close>

definition spares :: "protection \<Rightarrow> archive \<Rightarrow> archive \<Rightarrow> bool" where
  "spares p ar ar' \<longleftrightarrow> (ids_distinct ar \<longrightarrow> ids_distinct ar' \<and>
     (\<forall>r\<in>set (ar_rows ar). re_id r \<in> set (pr_recordingIds p) \<longrightarrow> (\<exists>l. r\<lparr>re_localDeletedAt := l\<rparr> \<in> set (ar_rows ar'))) \<and>
     (\<forall>c\<in>set (ar_clips ar). cl_id c \<in> set (pr_clipIds p) \<longrightarrow> c \<in> set (ar_clips ar')))"

lemma mark_as_it_was:
  assumes "r \<in> set rs"
  shows "\<exists>l. r\<lparr>re_localDeletedAt := l\<rparr> \<in> set rs"
  by (rule exI [of _ "re_localDeletedAt r"]) (use assms in simp)

lemma spares_refl: "spares p ar ar"
  unfolding spares_def using mark_as_it_was by blast

lemma spares_rows: "ids_distinct ar \<Longrightarrow> ids_distinct ar' \<Longrightarrow> set (ar_rows ar) \<subseteq> set (ar_rows ar') \<Longrightarrow> set (ar_clips ar) \<subseteq> set (ar_clips ar') \<Longrightarrow> spares p ar ar'"
  using spares_refl [of p ar] unfolding spares_def by blast

lemma spares_trans:
  assumes "spares p ar a" "spares p a b"
  shows "spares p ar b"
proof (unfold spares_def, intro impI)
  assume ids: "ids_distinct ar"
  note one = assms(1) [unfolded spares_def, rule_format, OF ids]
  have "ids_distinct a" using one by blast
  note two = assms(2) [unfolded spares_def, rule_format, OF this]
  have "\<exists>l. r\<lparr>re_localDeletedAt := l\<rparr> \<in> set (ar_rows b)" if r: "r \<in> set (ar_rows ar)" "re_id r \<in> set (pr_recordingIds p)" for r
  proof -
    obtain l where l: "r\<lparr>re_localDeletedAt := l\<rparr> \<in> set (ar_rows a)" using one r by blast
    have "re_id (r\<lparr>re_localDeletedAt := l\<rparr>) \<in> set (pr_recordingIds p)" using r(2) by simp
    then obtain m where "r\<lparr>re_localDeletedAt := l\<rparr>\<lparr>re_localDeletedAt := m\<rparr> \<in> set (ar_rows b)" using two l by blast
    then show ?thesis by auto
  qed
  then show "ids_distinct b \<and>
     (\<forall>r\<in>set (ar_rows ar). re_id r \<in> set (pr_recordingIds p) \<longrightarrow> (\<exists>l. r\<lparr>re_localDeletedAt := l\<rparr> \<in> set (ar_rows b))) \<and>
     (\<forall>c\<in>set (ar_clips ar). cl_id c \<in> set (pr_clipIds p) \<longrightarrow> c \<in> set (ar_clips b))" using one two by blast
qed

lemma spares_recording:
  assumes "deleteRecording env p r ar = (ar', res)"
  shows "spares p ar ar'"
proof (cases "ids_distinct ar")
  case ids: True
  note f = deleteRecording_rows [OF assms ids]
  show ?thesis
  proof (cases "res = Inr True")
    case False
    then show ?thesis using f(2,5) ids by (intro spares_rows) auto
  next
    case True
    note g = f(4) [OF True]
    have "r' \<in> set (ar_rows ar')" if "r' \<in> set (ar_rows ar)" "re_id r' \<in> set (pr_recordingIds p)" for r'
      using that g by (auto simp: protectedRow_def)
    moreover have "c \<in> set (ar_clips ar')" if "c \<in> set (ar_clips ar)" "cl_id c \<in> set (pr_clipIds p)" for c
      using that g by (auto simp: protectedRow_def)
    ultimately show ?thesis using f(2) mark_as_it_was unfolding spares_def by blast
  qed
qed (simp add: spares_def)

lemma spares_clip:
  assumes "cl_id c \<notin> set (pr_clipIds p)" "deleteClip env c ar = (ar', res)"
  shows "spares p ar ar'"
proof (cases "ids_distinct ar")
  case ids: True
  note f = deleteClip_rows [OF assms(2) ids]
  have "c' \<in> set (ar_clips ar')" if "c' \<in> set (ar_clips ar)" "cl_id c' \<in> set (pr_clipIds p)" for c'
    using f that assms(1) by (cases "res = Inr ()") auto
  moreover have "ids_distinct ar'" "ar_rows ar' = ar_rows ar" using f by blast+
  ultimately show ?thesis unfolding spares_def using mark_as_it_was by fastforce
qed (simp add: spares_def)

lemma spares_local_space:
  assumes "liberarEspacoLocal env r ar = (ar', res)"
  shows "spares p ar ar'"
proof -
  let ?f = "\<lambda>x. x\<lparr>re_localDeletedAt := Some (gn_now env)\<rparr>"
  have files: "spares p ar (ar\<lparr>ar_files := fs\<rparr>)" for fs
    using spares_refl [of p ar] by (simp add: spares_def ids_distinct_def)
  have "spares p ar (updateRow (re_id r) ?f (ar\<lparr>ar_files := fs\<rparr>))" (is "spares p ar ?b") for fs
  proof -
    have ids: "map re_id (ar_rows ?b) = map re_id (ar_rows ar)" using ids_update [of ?f] by simp
    have "\<exists>l. x\<lparr>re_localDeletedAt := l\<rparr> \<in> set (ar_rows ?b)" if "x \<in> set (ar_rows ar)" for x
    proof (cases "re_id x = re_id r")
      case True
      then have "?f x \<in> set (ar_rows ?b)" using that by (force simp: updateRow_def)
      then show ?thesis by blast
    next
      case False
      then have "x \<in> set (ar_rows ?b)" using that by (force simp: updateRow_def)
      then show ?thesis by (intro exI [of _ "re_localDeletedAt x"]) simp
    qed
    moreover have "ar_clips ?b = ar_clips ar" by (simp add: updateRow_def)
    ultimately show ?thesis unfolding spares_def ids_distinct_def ids by simp
  qed
  then show ?thesis using liberar_shape [OF assms] files spares_refl by auto
qed

interpretation spared: archive_relation "spares p" "\<lambda>_. True" "\<lambda>_. True" "\<lambda>q. q = p"
  by unfold_locales (auto intro: spares_refl spares_trans spares_recording spares_clip spares_local_space)

lemma fullKey_not_slash: "fullKey pre c \<noteq> ''/''"
proof -
  have "strip_slashes c \<noteq> ''/''"
  proof
    assume "strip_slashes c = ''/''"
    then have "dropWhile (\<lambda>c. c = CHR ''/'') (rev (dropWhile (\<lambda>c. c = CHR ''/'') c)) = ''/''"
      unfolding strip_slashes_def by (metis rev_swap singleton_rev_conv)
    then show False using hd_dropWhile [of "\<lambda>c. c = CHR ''/''" "rev (dropWhile (\<lambda>c. c = CHR ''/'') c)"] by simp
  qed
  then show ?thesis by (auto simp: fullKey_def joinS3Key_def Let_def append_eq_Cons_conv)
qed

lemma swept_rows:
  assumes "cleanupOrphanCloudObjects env vars pages ar = (ar', n)"
  shows "ar_rows ar' = ar_rows ar \<and> ar_clips ar' = ar_clips ar"
proof -
  have "only_objects ar ar' \<and> ar_objects ar' ([], []) ''/'' = ar_objects ar ([], []) ''/''"
    by (rule sweep_leaves [OF assms]) (metis fullKey_not_slash)
  then have "ar' = ar\<lparr>ar_objects := ar_objects ar'\<rparr>" by (simp add: only_objects_def)
  then have "ar_rows ar' = ar_rows (ar\<lparr>ar_objects := ar_objects ar'\<rparr>)" "ar_clips ar' = ar_clips (ar\<lparr>ar_objects := ar_objects ar'\<rparr>)"
    by (rule arg_cong)+
  then show ?thesis by simp
qed

section \<open>The whole cycle\<close>

lemma cycle_run:
  assumes "ids_distinct ar"
  obtains ar' h' res where "handleRetention ce (ar, h) = Some ((ar', h'), res)" "spares (getProtectionSets (ce_items ce) (ar_clips ar)) ar ar'"
proof (cases "ce_autoCleanup ce")
  case False
  then show thesis using that [of ar h no_cleanup] spares_refl by (simp add: handleRetention_def)
next
  case auto: True
  define prot where "prot = getProtectionSets (ce_items ce) (ar_clips ar)"
  define limits where "limits = readBatchLimits (ce_vars ce)"
  define groups where "groups = loadRetentionGroups (ce_cameras ce) (globalRetentionDays ce)"
  define env where "env = \<lparr>rt_archive = ce_archive ce, rt_protection = prot, rt_policy = readTwoTierPolicy (ce_vars ce),
    rt_hasColumn = ce_hasColumn ce, rt_now = ce_now ce\<rparr>"
  have b: "bl_batchSize limits > 0" using readBatchLimits_positive by (simp add: limits_def)
  have p: "rt_protection env = prot" by (simp add: env_def)
  obtain st1 left where clips: "expireClipsInBatches env (bl_batchSize limits) groups (ar, no_cleanup) (bl_maxPerCycle limits) = Some (st1, left)"
    and ids1: "ids_distinct (fst st1)" using clips_end [OF b, of "(ar, no_cleanup)"] assms by (metis fst_conv)
  obtain st2 left2 where recs: "expireRecordingsInBatches env (bl_batchSize limits) groups st1 (bl_maxPerCycle limits) = Some (st2, left2)"
    using expiry_any_page [OF ids1 b b] by (metis not_None_eq surj_pair)
  have s1: "spares prot ar (fst st1)" using spared.clips_expiry [OF clips] p by simp
  have s2: "spares prot ar (fst st2)" using spared.follows [OF s1 spared.expiry [OF recs]] p by simp
  obtain ar2 res where st2: "st2 = (ar2, res)" by (cases st2)
  have ids2: "ids_distinct ar2" using s2 st2 assms by (simp add: spares_def)
  obtain ar3 n where sweep: "cleanupOrphanCloudObjects (ce_archive ce) (ce_vars ce) (ce_pages ce) ar2 = (ar3, n)" by fastforce
  have s3: "spares prot ar2 ar3" using swept_rows [OF sweep] ids2 by (intro spares_rows) (simp_all add: ids_distinct_def)
  obtain ar4 m where guard: "checkDiskUsage (ce_guardian ce) (ce_vars ce) prot (ce_autoCleanupAgain ce) (ce_countFails ce) ar3 = (ar4, m)" by fastforce
  have s4: "spares prot ar3 ar4" by (rule spared.disk_guard [OF guard]) simp_all
  have all: "spares prot ar ar4" using spares_trans [OF _ spares_trans [OF s3 s4]] s2 st2 by simp
  let ?h = "limparHistorico (ce_history ce) (of_int (ce_now ce)) (expireEvents (ce_vars ce) prot (of_int (ce_now ce)) h)"
  have "handleRetention ce (ar, h) = Some ((ar4, ?h), res)"
    using auto clips recs sweep guard unfolding handleRetention_def st2 Let_def prod.case prot_def [symmetric] limits_def [symmetric]
      groups_def [symmetric] env_def [symmetric] by simp
  then show thesis using that all unfolding prot_def by blast
qed

text \<open>C29 (retention_cycle_ends). A cycle of the retention ends on every archive whose identifiers are unique,
  whatever the rows, the settings and the environment are and whichever deletions, locks, transactions
  and requests fail.\<close>

theorem retention_cycle_ends:
  assumes "ids_distinct ar"
  shows "\<exists>ar' h' res. handleRetention ce (ar, h) = Some ((ar', h'), res)"
  using cycle_run [OF assms] by metis


definition sample_cycle :: cycle_env where
  "sample_cycle = \<lparr>ce_archive = sample_archive_env, ce_guardian = full_guardian, ce_history = sample_history_env, ce_vars = (\<lambda>_. None),
     ce_now = 10 * DAY_MS, ce_autoCleanup = True, ce_autoCleanupAgain = True, ce_configuredDays = 3, ce_configDefault = 3, ce_cameras = [], ce_hasColumn = True,
     ce_items = sample_hold, ce_pages = (\<lambda>_. []), ce_countFails = False\<rparr>"

theorem retention_cycle_ends_witness: "\<exists>ar' h' res. handleRetention sample_cycle (sample_archive, sample_history) = Some ((ar', h'), res)"
  by (rule retention_cycle_ends [OF sample_archive_ids])


end
