(* ===== verification/Archive_Incidents.thy ===== *)
theory Archive_Incidents
  imports Archive_System
begin

text \<open>
  What \<open>Archive_System\<close> leaves out, shown in general and run on concrete archives: a sweep that overlaps an upload, a sweep
  that cannot read the table of storages, a purge of recordings that are held or whose file is still
  there, and uploads that are never tried again.
\<close>

section \<open>A sweep during an upload\<close>

lemma buildCloudKey_nonempty: "buildCloudKey i c f \<noteq> []"
  by (simp add: buildCloudKey_def Let_def)

lemma confirmed_rows: "subirEConfirmar env s rec ar = (ar1, sent) \<Longrightarrow> ar_rows ar1 = ar_rows ar \<and> ar_storages ar1 = ar_storages ar"
  by (auto simp: subirEConfirmar_def putObject_def Let_def split: option.splits if_splits sum.splits recusa.splits)

text \<open>The upload of a recording reaches its confirmation; the sweep reads a page with its key, asks the
  database for the owner and removes what has none; only then the row is stamped.\<close>

text \<open>C25 (sweep_races_upload). When a sweep, past its first recognised key, handles a page between the confirmation
  of an upload and the stamp of its row, it removes the object that was just confirmed, and the row
  is then stamped all the same: the database says the recording is in the cloud, and nothing is there.\<close>

theorem sweep_races_upload:
  assumes "subirEConfirmar env s rec ar = (ar1, Confirmed n)"
    "k = buildCloudKey (re_id rec) (re_cameraId rec) (re_filePath rec)" "\<forall>r\<in>set (ar_rows ar). re_cloudKey r \<noteq> Some k"
    "sweepPages aenv s teto [Some [k]] True (ar1, 0) = (ar2, m)" "teto > 0" "\<not> ae_deleteFails aenv (bucketOf s) (fullKey (sr_prefix s) k)"
    "carimbar env s rec ar2 = Some ar3"
  shows "objectOf s k ar1 \<noteq> None \<and> objectOf s k ar3 = None \<and>
    (\<exists>y\<in>set (ar_rows ar3). re_id y = re_id rec \<and> re_cloudKey y = Some k \<and> re_cloudStorageId y = sr_id s \<and> re_cloudUploadedAt y = Some (of_now env))"
proof -
  have rows: "ar_rows ar1 = ar_rows ar" using confirmed_rows [OF assms(1)] by simp
  then have "comDono s [k] ar1 = []" using assms(3) by (auto simp: comDono_def map_filter_def filter_empty_conv)
  then have ar2: "ar2 = removeObject s k ar1"
    using assms(4-6) buildCloudKey_nonempty [of "re_id rec" "re_cameraId rec" "re_filePath rec"] assms(2) by (auto simp: Let_def split: if_splits prod.splits)
  have ar3: "ar3 = updateRow (re_id rec) (\<lambda>x. x\<lparr>re_cloudKey := Some k, re_cloudUploadedAt := Some (of_now env), re_cloudStorageId := sr_id s\<rparr>) ar2"
    and mem: "re_id rec \<in> re_id ` set (ar_rows ar2)"
    using assms(7) unfolding assms(2) by (auto simp: carimbar_def split: if_splits)
  have "objectOf s k ar3 = None" by (simp add: ar3 ar2 updateRow_def objectOf_def removeObject_def)
  moreover have "objectOf s k ar1 \<noteq> None" using confirmed_object [OF assms(1)] unfolding assms(2) by fastforce
  moreover obtain x where x: "x \<in> set (ar_rows ar2)" "re_id x = re_id rec" using mem by force
  have "x\<lparr>re_cloudKey := Some k, re_cloudUploadedAt := Some (of_now env), re_cloudStorageId := sr_id s\<rparr> \<in> set (ar_rows ar3)"
    using x by (force simp: ar3 updateRow_def)
  from bexI [OF _ this, of "\<lambda>y. re_id y = re_id rec \<and> re_cloudKey y = Some k \<and> re_cloudStorageId y = sr_id s \<and> re_cloudUploadedAt y = Some (of_now env)"]
  have "\<exists>y\<in>set (ar_rows ar3). re_id y = re_id rec \<and> re_cloudKey y = Some k \<and> re_cloudStorageId y = sr_id s \<and> re_cloudUploadedAt y = Some (of_now env)"
    using x by simp
  ultimately show ?thesis by blast
qed

section \<open>A sweep that cannot read the storages\<close>

lemma sweepKeys_unowned:
  assumes "\<forall>c\<in>set cs. \<not> ae_deleteFails env (bucketOf s) (fullKey (sr_prefix s) c)" "removidos + length cs \<le> teto"
    "sweepKeys env s teto [] cs (ar, removidos) = (ar', n)"
  shows "(\<forall>c\<in>set cs. objectOf s c ar' = None) \<and> (\<forall>c. objectOf s c ar = None \<longrightarrow> objectOf s c ar' = None) \<and>
    ar' = ar\<lparr>ar_objects := ar_objects ar'\<rparr> \<and> n = removidos + length cs"
  using assms
proof (induction cs arbitrary: ar removidos)
  case (Cons c cs)
  have one: "objectOf s c (removeObject s c ar) = None" by (simp add: objectOf_def removeObject_def)
  have keeps: "objectOf s d ar = None \<Longrightarrow> objectOf s d (removeObject s c ar) = None" for d by (simp add: objectOf_def removeObject_def)
  have "sweepKeys env s teto [] cs (removeObject s c ar, Suc removidos) = (ar', n)" using Cons.prems by (simp split: if_splits)
  from Cons.IH [OF _ _ this] have rest: "(\<forall>d\<in>set cs. objectOf s d ar' = None) \<and> (\<forall>d. objectOf s d (removeObject s c ar) = None \<longrightarrow> objectOf s d ar' = None) \<and>
      ar' = (removeObject s c ar)\<lparr>ar_objects := ar_objects ar'\<rparr> \<and> n = Suc removidos + length cs"
    using Cons.prems(1,2) by simp
  moreover have "(removeObject s c ar)\<lparr>ar_objects := objs\<rparr> = ar\<lparr>ar_objects := objs\<rparr>" for objs by (simp add: removeObject_def)
  ultimately show ?case using one keeps by simp
qed simp

text \<open>C24 (blind_sweep_deletes_owned). When the table of storages cannot be read the sweep falls back on the
  configuration of the Central, which has no identifier. In an archive whose rows all name their
  storage no row is an owner there, so the lock that counts owners does not stop it: every object
  that the bucket lists is removed, those of the recordings of the archive included, and no row is
  touched.\<close>

theorem blind_sweep_deletes_owned:
  assumes "ae_listStoragesFails env" "ae_legado env = Some s" "sr_id s = None"
    "\<forall>r\<in>set (ar_rows ar). re_cloudKey r \<noteq> None \<longrightarrow> re_cloudStorageId r \<noteq> None"
    "\<forall>v. vars v = None" "pages s = [Some chaves]" "[] \<notin> set chaves" "length chaves \<le> 5000"
    "\<forall>c\<in>set chaves. \<not> ae_deleteFails env (bucketOf s) (fullKey (sr_prefix s) c)"
    "cleanupOrphanCloudObjects env vars pages ar = (ar', n)"
  shows "(\<forall>c\<in>set chaves. objectOf s c ar' = None) \<and> n = length chaves \<and> ar_rows ar' = ar_rows ar"
proof (cases "chaves = []")
  case True
  then have "ar' = ar \<and> n = 0"
    using assms(10,6) by (auto simp: cleanupOrphanCloudObjects_def todosOsStorages_def assms(1,2) Let_def split: if_splits)
  then show ?thesis using True by simp
next
  case False
  have none: "comDono s chaves ar = []" "donosNoBanco s ar = 0"
    using assms(3,4) by (auto simp: comDono_def donosNoBanco_def map_filter_def filter_empty_conv)
  have teto: "nat (env_whole vars ''RETENTION_CLOUD_ORPHAN_MAX_PER_CYCLE'' 5000 0 100000) = 5000" "fst (envBool (vars ''RETENTION_CLOUD_ORPHAN_SWEEP'') True)"
    using assms(5) by (simp_all add: env_whole_def envNumber_def envBool_def parseBooleanish_def clamp_min_def clamp_max_def truncate_rat_def Let_def)
  have keys: "filter (\<lambda>k. k \<noteq> []) chaves = chaves" using assms(7) by (auto simp: filter_id_conv)
  have todos: "todosOsStorages env ar = [s]" by (simp add: todosOsStorages_def assms(1,2) Let_def)
  have "sweepPages env s 5000 (pages s) False (ar, 0) = (ar', n)"
    using assms(10) by (simp add: cleanupOrphanCloudObjects_def teto todos Let_def split: prod.splits)
  then have "sweepKeys env s 5000 [] chaves (ar, 0) = (ar', n)"
    using False by (simp add: assms(6) keys none Let_def split: prod.splits if_splits)
  from sweepKeys_unowned [OF assms(9) _ this] assms(8) have all: "(\<forall>c\<in>set chaves. objectOf s c ar' = None) \<and> ar' = ar\<lparr>ar_objects := ar_objects ar'\<rparr> \<and> n = length chaves" by simp
  then have "ar' = ar\<lparr>ar_objects := ar_objects ar'\<rparr>" by blast
  then have "ar_rows ar' = ar_rows (ar\<lparr>ar_objects := ar_objects ar'\<rparr>)" by (rule arg_cong)
  then have "ar_rows ar' = ar_rows ar" by simp
  then show ?thesis using all by blast
qed

section \<open>A purge\<close>

text \<open>C32 (purge_ignores_holds_and_files). The purge of a storage the Central removed decides by one mark alone: a
  recording of that storage is deleted exactly when its row says that its local file was removed,
  held for an investigation or not and whether its file is there or not; the others keep their row
  and lose what it said of the cloud. Neither the files nor the objects of the bucket are touched.\<close>

theorem purge_ignores_holds_and_files:
  assumes "expurgarUm env alvo ar = (ar', Some f)"
  shows "\<exists>g\<in>set (ar_storages ar). sameAddress (js_trim (rmv_endpoint alvo)) (js_trim (rmv_bucket alvo)) (js_trim (rmv_prefix alvo)) g \<and>
    ar_rows ar' = map (\<lambda>r. if re_cloudStorageId r = Some (sg_id g)
        then r\<lparr>re_cloudKey := None, re_cloudUploadedAt := None, re_cloudStorageId := None, re_cloudMissingSince := None, re_cloudVerifiedAt := None\<rparr> else r)
      (filter (\<lambda>r. \<not> (re_cloudStorageId r = Some (sg_id g) \<and> re_localDeletedAt r \<noteq> None)) (ar_rows ar)) \<and>
    ar_files ar' = ar_files ar \<and> ar_objects ar' = ar_objects ar \<and> length (ar_rows ar) = length (ar_rows ar') + pg_linhasRemovidas f"
proof -
  let ?same = "sameAddress (js_trim (rmv_endpoint alvo)) (js_trim (rmv_bucket alvo)) (js_trim (rmv_prefix alvo))"
  obtain g where g: "find ?same (ar_storages ar) = Some g" "ar' = deleteStorage (sg_id g) (clearCloud (sg_id g) (deleteUnbacked (sg_id g) ar))"
    "pg_linhasRemovidas f = length (filter (semLastro (sg_id g)) (ar_rows ar))"
    using assms by (auto simp: expurgarUm_def Let_def split: if_splits option.splits purge_failure.splits)
  have "g \<in> set (ar_storages ar)" "?same g" using g(1) by (auto simp: find_Some_iff)
  moreover have "length (ar_rows ar) = length (filter (\<lambda>r. \<not> semLastro (sg_id g) r) (ar_rows ar)) + length (filter (semLastro (sg_id g)) (ar_rows ar))"
    using sum_length_filter_compl [of "semLastro (sg_id g)" "ar_rows ar"] by simp
  ultimately show ?thesis using g(3)
    by (intro bexI [of _ g]) (auto simp: g(2) deleteStorage_def clearCloud_def deleteUnbacked_def semLastro_def Let_def intro!: map_cong)
qed

section \<open>Uploads that cannot be verified\<close>


section \<open>Concrete archives\<close>

definition raced_key :: string where
  "raced_key = buildCloudKey ''r1'' ''c'' ''c/a.mp4''"

definition raced_row :: archive_row where
  "raced_row = sample_archive_row\<lparr>re_triggerMode := ''motion''\<rparr>"

definition pruned_archive :: archive where
  "pruned_archive = os_archive (cycle_of 2 second_resolver after_upload)"

definition blind_env :: archive_env where
  "blind_env = sample_archive_env\<lparr>ae_legado := Some sample_config, ae_listStoragesFails := True\<rparr>"

definition gone_storage :: removal where
  "gone_storage = \<lparr>rmv_endpoint = ''e'', rmv_bucket = ''b'', rmv_prefix = ''p''\<rparr>"

definition purging :: resolver_env where
  "purging = sample_resolver\<lparr>rv_archive := sample_archive_env, rv_state := Some absent, rv_removals := Some [gone_storage]\<rparr>"

definition held :: "investigation_item list" where
  "held = [\<lparr>ii_investigationId = ''i'', ii_legalHold = True, ii_createdAt = 5, ii_recordingId = None, ii_eventId = None,
     ii_metadata = JObj [(''enabled'', JBool True), (''recordingIds'', JArr [JStr ''r1''])]\<rparr>]"

definition stuck_guardian :: guardian_env where
  "stuck_guardian = \<lparr>gn_archive = sample_archive_env, gn_now = 3, gn_rmFails = (\<lambda>_. True), gn_updateFails = (\<lambda>_. False), gn_df = (\<lambda>_. None)\<rparr>"

definition raced_sent :: archive where
  "raced_sent = fst (subirEConfirmar (sample_offload 1) sample_config raced_row (os_archive after_segment))"

definition raced_swept :: archive where
  "raced_swept = fst (sweepPages sample_archive_env sample_config 5000 [Some [raced_key]] True (raced_sent, 0))"

definition raced_stamped :: "archive option" where
  "raced_stamped = carimbar (sample_offload 1) sample_config raced_row raced_swept"

text \<open>With the next cycle the local file goes too, and no copy is left.\<close>

theorem sweep_races_upload_witness:
  "\<exists>ar. raced_stamped = Some ar \<and> objectOf sample_config raced_key ar = None \<and>
     ar_files (fst (fst (pruneUploaded (sample_offload 2) sample_config ar))) ''c/a.mp4'' = None"
proof -
  have sent: "snd (subirEConfirmar (sample_offload 1) sample_config raced_row (os_archive after_segment)) = Confirmed 7" by code_simp
  then have up: "subirEConfirmar (sample_offload 1) sample_config raced_row (os_archive after_segment) = (raced_sent, Confirmed 7)"
    by (metis raced_sent_def prod.collapse)
  obtain m where sw: "sweepPages sample_archive_env sample_config 5000 [Some [raced_key]] True (raced_sent, 0) = (raced_swept, m)"
    by (metis raced_swept_def prod.collapse)
  have "map_option (\<lambda>a. ar_files (fst (fst (pruneUploaded (sample_offload 2) sample_config a))) ''c/a.mp4'') raced_stamped = Some None" by code_simp
  then obtain ar where st: "raced_stamped = Some ar" "ar_files (fst (fst (pruneUploaded (sample_offload 2) sample_config ar))) ''c/a.mp4'' = None" by auto
  have pre: "raced_key = buildCloudKey (re_id raced_row) (re_cameraId raced_row) (re_filePath raced_row)"
    "list_all (\<lambda>r. re_cloudKey r = None) (ar_rows (os_archive after_segment))"
    "ae_deleteFails sample_archive_env (bucketOf sample_config) (fullKey (sr_prefix sample_config) raced_key) = False"
    by code_simp+
  have "\<forall>r\<in>set (ar_rows (os_archive after_segment)). re_cloudKey r \<noteq> Some raced_key" using pre(2) by (auto simp: list_all_iff)
  from sweep_races_upload [OF up pre(1) this sw _ _ st(1) [unfolded raced_stamped_def]] pre(3)
  have "objectOf sample_config raced_key ar = None" by simp
  then show ?thesis using st by blast
qed

theorem blind_sweep_deletes_owned_witness:
  "objectOf sample_config raced_key pruned_archive \<noteq> None \<and> map re_cloudUploadedAt (ar_rows pruned_archive) = [Some 1] \<and>
   ar_files pruned_archive ''c/a.mp4'' = None \<and>
   objectOf sample_config raced_key (fst (cleanupOrphanCloudObjects blind_env (\<lambda>_. None) (\<lambda>_. [Some [raced_key]]) pruned_archive)) = None"
proof -
  obtain ar n where run: "cleanupOrphanCloudObjects blind_env (\<lambda>_. None) (\<lambda>_. [Some [raced_key]]) pruned_archive = (ar, n)" by fastforce
  have facts: "objectOf sample_config raced_key pruned_archive \<noteq> None" "map re_cloudUploadedAt (ar_rows pruned_archive) = [Some 1]"
    "ar_files pruned_archive ''c/a.mp4'' = None" "list_all (\<lambda>r. re_cloudStorageId r \<noteq> None) (ar_rows pruned_archive)"
    "ae_deleteFails blind_env (bucketOf sample_config) (fullKey (sr_prefix sample_config) raced_key) = False" "raced_key \<noteq> []"
    "ae_listStoragesFails blind_env" "ae_legado blind_env = Some sample_config" "sr_id sample_config = None"
    by code_simp+
  have "\<forall>r\<in>set (ar_rows pruned_archive). re_cloudKey r \<noteq> None \<longrightarrow> re_cloudStorageId r \<noteq> None" using facts(4) by (auto simp: list_all_iff)
  from blind_sweep_deletes_owned [OF facts(7-9) this _ refl _ _ _ run] facts(5,6) have "objectOf sample_config raced_key ar = None" by simp
  then show ?thesis using facts(1-3) run by simp
qed

text \<open>The recording is held; in the second archive its file is still there, but the guard of the disk,
  whose removal failed, has marked it as removed.\<close>

theorem purge_ignores_holds_and_files_witness:
  "''r1'' \<in> set (pr_recordingIds (getProtectionSets held [])) \<and>
   map re_id (ar_rows pruned_archive) = [''r1''] \<and> ar_rows (fst (expurgarUm purging gone_storage pruned_archive)) = [] \<and>
   ar_rows (fst (expurgarUm purging gone_storage (fst (liberarEspacoLocal stuck_guardian raced_row (os_archive after_upload))))) = [] \<and>
   ar_files (fst (liberarEspacoLocal stuck_guardian raced_row (os_archive after_upload))) ''c/a.mp4'' = Some (Bytes ''1234567'')"
proof -
  have gone: "map re_id (ar_rows ar) = [''r1''] \<and> ar_rows (fst (expurgarUm purging gone_storage ar)) = []"
    if a: "map re_id (ar_rows ar) = [''r1'']" "snd (expurgarUm purging gone_storage ar) = Some f" "pg_linhasRemovidas f = 1" for ar :: archive and f
  proof -
    obtain ar' where run: "expurgarUm purging gone_storage ar = (ar', Some f)" using a(2) by (metis prod.collapse)
    have "length (ar_rows ar) = length (ar_rows ar') + pg_linhasRemovidas f" using purge_ignores_holds_and_files [OF run] by blast
    moreover have "length (ar_rows ar) = 1" using arg_cong [OF a(1), of length] by simp
    ultimately show ?thesis using a(1,3) run by simp
  qed
  have "''r1'' \<in> set (pr_recordingIds (getProtectionSets held []))" "map re_id (ar_rows pruned_archive) = [''r1'']"
    "map_option pg_linhasRemovidas (snd (expurgarUm purging gone_storage pruned_archive)) = Some 1"
    "map re_id (ar_rows (fst (liberarEspacoLocal stuck_guardian raced_row (os_archive after_upload)))) = [''r1'']"
    "map_option pg_linhasRemovidas (snd (expurgarUm purging gone_storage (fst (liberarEspacoLocal stuck_guardian raced_row (os_archive after_upload))))) = Some 1"
    "ar_files (fst (liberarEspacoLocal stuck_guardian raced_row (os_archive after_upload))) ''c/a.mp4'' = Some (Bytes ''1234567'')"
    by code_simp+
  then show ?thesis using gone by auto
qed

definition refused_offload :: "int \<Rightarrow> offload_env" where
  "refused_offload now = (sample_offload now)\<lparr>of_headFails := (\<lambda>_. if now < 2 then Some (403, ''AccessDenied'') else None)\<rparr>"


end
