(* ===== verification/Storage_Resolver_Properties.thy ===== *)
theory Storage_Resolver_Properties
  imports Archive_System
begin

text \<open>What the storage chosen for writing has of the configuration the Central provisions.\<close>

lemma reconciliar_cases:
  assumes "reconciliar env c ar = (ar', Some s)"
  obtains (hot) g where "find (sameAddress (sr_endpoint c) (sr_bucket c) (sr_prefix c)) (ar_storages ar) = Some g" "sg_isActive g"
      "sg_accessKeyId g = sr_accessKeyId c" "comOperacao (materializar (ae_decrypt (rv_archive env)) (renovar env c g)) c = Some s"
      "ar' = (if renovar env c g = g \<or> rv_updateFails env then ar else putStorage (renovar env c g) ar)"
  | (cold) alvo linha where
      "\<And>g. find (sameAddress (sr_endpoint c) (sr_bucket c) (sr_prefix c)) (ar_storages ar) = Some g \<Longrightarrow> \<not> (sg_isActive g \<and> sg_accessKeyId g = sr_accessKeyId c)"
      "cadastrarStorage env c (find (sameAddress (sr_endpoint c) (sr_bucket c) (sr_prefix c)) (ar_storages ar)) ar = (ar', alvo)"
      "find (\<lambda>g. sg_id g = alvo) (ar_storages ar') = Some linha" "comOperacao (materializar (ae_decrypt (rv_archive env)) linha) c = Some s"
proof -
  let ?e = "find (sameAddress (sr_endpoint c) (sr_bucket c) (sr_prefix c)) (ar_storages ar)"
  let ?hot = "case ?e of Some g \<Rightarrow> if sg_isActive g \<and> sg_accessKeyId g = sr_accessKeyId c then Some g else None | None \<Rightarrow> None"
  have found: "\<not> rv_findFails env" using assms by (auto simp: reconciliar_def)
  show thesis
  proof (cases ?hot)
    case (Some g)
    then have g: "?e = Some g" "sg_isActive g" "sg_accessKeyId g = sr_accessKeyId c" by (auto split: option.splits if_splits)
    show thesis by (rule hot [OF g]) (use assms found Some in \<open>simp_all add: reconciliar_def Let_def\<close>)
  next
    case None
    obtain a alvo where cad: "cadastrarStorage env c ?e ar = (a, alvo)" by fastforce
    let ?linha = "find (\<lambda>g. sg_id g = alvo) (ar_storages a)"
    have run: "(ar', Some s) = (if rv_countFails env \<or> rv_txFails env then (ar, None)
        else (a, if rv_rereadFails env then None else case ?linha of None \<Rightarrow> None
           | Some linha \<Rightarrow> comOperacao (materializar (ae_decrypt (rv_archive env)) linha) c))"
      using assms [symmetric] found unfolding reconciliar_def Let_def None cad prod.case option.case by simp
    have alive: "\<not> (rv_countFails env \<or> rv_txFails env)"
    proof
      assume "rv_countFails env \<or> rv_txFails env"
      then show False using run by simp
    qed
    have alive': "\<not> rv_rereadFails env"
    proof
      assume "rv_rereadFails env"
      then show False using run alive by simp
    qed
    note run = run [unfolded if_not_P [OF alive] if_not_P [OF alive']]
    have run': "a = ar'" "(case ?linha of None \<Rightarrow> None
           | Some linha \<Rightarrow> comOperacao (materializar (ae_decrypt (rv_archive env)) linha) c) = Some s" using run by simp_all
    obtain linha where linha: "?linha = Some linha" using run'(2) by (cases ?linha) simp_all
    then have s: "comOperacao (materializar (ae_decrypt (rv_archive env)) linha) c = Some s" using run'(2) by simp
    have cold': "\<not> (sg_isActive g \<and> sg_accessKeyId g = sr_accessKeyId c)" if "?e = Some g" for g using None that by auto
    show thesis by (rule cold [OF cold' cad [unfolded run'(1)] linha [unfolded run'(1)] s])
  qed
qed

lemma comOperacao_fields:
  assumes "comOperacao (materializar d g) c = Some s"
  shows "sr_id s = Some (sg_id g)" "sr_accessKeyId s = sg_accessKeyId g" "d (sg_secretEncrypted g) = Some (sr_secret s)" "sr_region s = sg_region g"
    "sr_forcePathStyle s = sg_forcePathStyle g"
  using assms by (auto simp: comOperacao_def materializar_def split: option.splits)

text \<open>C35 (writing_storage_as_provisioned). When the Central provisions a storage and the database answers, what
  is new is written at its address, with its credential, mode, window and concurrency, under the one
  storage of the table that is active, whatever was active before and however the credential changed.
  The region and the style of the paths are the configuration's only when the storage was not active
  under the same access key already: there a correction made in the Central never arrives.\<close>

theorem writing_storage_as_provisioned:
  assumes "archive_reach st" "ae_legado (rv_archive env) = Some c" "storageParaEscrita env (os_archive st) = (ar, Some s)"
    "rv_newId env \<notin> insert [] (sg_id ` set (ar_storages (os_archive st)))" "\<forall>x. ae_decrypt (rv_archive env) (rv_encrypt env x) = Some x"
  shows "bucketOf s = bucketOf c \<and> sr_prefix s = sr_prefix c \<and> sr_accessKeyId s = sr_accessKeyId c \<and> sr_secret s = sr_secret c \<and>
     sr_mount s = sr_mount c \<and> sr_localWindowHours s = sr_localWindowHours c \<and> sr_uploadConcurrency s = sr_uploadConcurrency c \<and>
     (\<exists>g\<in>set (ar_storages ar). sr_id s = Some (sg_id g) \<and> {h \<in> set (ar_storages ar). sg_isActive h} = {g}) \<and>
     (case find (sameAddress (sr_endpoint c) (sr_bucket c) (sr_prefix c)) (ar_storages (os_archive st)) of
        Some g \<Rightarrow> sg_isActive g \<and> sg_accessKeyId g = sr_accessKeyId c \<longrightarrow> sr_region s = sg_region g \<and> sr_forcePathStyle s = sg_forcePathStyle g
      | None \<Rightarrow> sr_forcePathStyle s = sr_forcePathStyle c \<and> (sr_region c \<noteq> [] \<longrightarrow> sr_region s = sr_region c))"
proof -
  note t = reach_truthful [OF assms(1)]
  have rec: "reconciliar env c (os_archive st) = (ar, Some s)" using assms(2,3) by (simp add: storageParaEscrita_def)
  note new = reconciliar_truthful [OF t rec assms(4)]
  have ok: "storages_ok (ar_storages ar)" using new by (simp add: truthful_def well_formed_def)
  have only: "{h \<in> set (ar_storages ar). sg_isActive h} = {g}" if "g \<in> set (ar_storages ar)" "sg_isActive g" for g
    using ok that unfolding storages_ok_def by blast
  let ?found = "find (sameAddress (sr_endpoint c) (sr_bucket c) (sr_prefix c)) (ar_storages (os_archive st))"
  have rest: "sr_accessKeyId s = sr_accessKeyId c \<and> sr_secret s = sr_secret c \<and>
     (\<exists>g\<in>set (ar_storages ar). sr_id s = Some (sg_id g) \<and> {h \<in> set (ar_storages ar). sg_isActive h} = {g}) \<and>
     (case ?found of
        Some g \<Rightarrow> sg_isActive g \<and> sg_accessKeyId g = sr_accessKeyId c \<longrightarrow> sr_region s = sg_region g \<and> sr_forcePathStyle s = sg_forcePathStyle g
      | None \<Rightarrow> sr_forcePathStyle s = sr_forcePathStyle c \<and> (sr_region c \<noteq> [] \<longrightarrow> sr_region s = sr_region c))"
    using rec
  proof (cases rule: reconciliar_cases)
    case (hot g)
    note f = comOperacao_fields [OF hot(4)]
    have r: "sg_accessKeyId (renovar env c g) = sg_accessKeyId g" "sg_region (renovar env c g) = sg_region g"
      "sg_forcePathStyle (renovar env c g) = sg_forcePathStyle g" "ae_decrypt (rv_archive env) (sg_secretEncrypted (renovar env c g)) = Some (sr_secret c)"
      using assms(5) by (simp_all add: renovar_def Let_def)
    have mem: "g \<in> set (ar_storages (os_archive st))" using hot(1) by (auto simp: find_Some_iff)
    have "\<exists>h\<in>set (ar_storages ar). sg_id h = sg_id g \<and> sg_isActive h"
      using hot(5) mem hot(2) putStorage_facts(5) [OF mem, of "renovar env c g"] renovar_keeps [of env c g]
      by (cases "renovar env c g = g \<or> rv_updateFails env") auto
    then obtain h where h: "h \<in> set (ar_storages ar)" "sg_id h = sg_id g" "sg_isActive h" by blast
    have "sr_id s = Some (sg_id h)" using f(1) h(2) renovar_keeps(1) [of env c g] by simp
    then show ?thesis using f r hot(1,3) only [OF h(1,3)] h(1) by auto
  next
    case (cold alvo linha)
    note f = comOperacao_fields [OF cold(4)]
    note cad = truthful_cadastrar [OF t cold(2) assms(4) refl]
    obtain g x where g: "g \<in> set (ar_storages ar)" "sg_id g = alvo" "sg_isActive g" "g = dados env c x" using cad by blast
    have "linha \<in> set (ar_storages ar)" "sg_id linha = alvo" using cold(3) by (auto simp: find_Some_iff)
    then have "linha = g" using inj_key [of sg_id "ar_storages ar" linha g] ok g by (simp add: storages_ok_def)
    then have d: "sg_accessKeyId linha = sr_accessKeyId c" "ae_decrypt (rv_archive env) (sg_secretEncrypted linha) = Some (sr_secret c)"
      "sg_forcePathStyle linha = sr_forcePathStyle c" "sr_region c \<noteq> [] \<Longrightarrow> sg_region linha = sr_region c"
      using g(4) assms(5) by (simp_all add: dados_def)
    have "\<exists>h\<in>set (ar_storages ar). sr_id s = Some (sg_id h) \<and> {k \<in> set (ar_storages ar). sg_isActive k} = {h}"
      using only [OF g(1,3)] f(1) \<open>linha = g\<close> g(1) by (intro bexI [of _ g]) simp_all
    then show ?thesis using f d cold(1) by (auto split: option.splits)
  qed
  then show ?thesis using new by (auto simp: for_writing_def)
qed

theorem writing_storage_as_provisioned_witness:
  "case storageParaEscrita (sample_resolver\<lparr>rv_archive := sample_archive_env\<lparr>ae_legado := Some (sample_config\<lparr>sr_secret := ''new''\<rparr>)\<rparr>, rv_newId := ''s2''\<rparr>)
     (os_archive after_upload) of (ar, Some s) \<Rightarrow> sr_secret s = ''new'' \<and> bucketOf s = (''e'', ''b'') | _ \<Rightarrow> False"
proof -
  let ?c = "sample_config\<lparr>sr_secret := ''new''\<rparr>"
  let ?env = "sample_resolver\<lparr>rv_archive := sample_archive_env\<lparr>ae_legado := Some ?c\<rparr>, rv_newId := ''s2''\<rparr>"
  obtain ar r where run: "storageParaEscrita ?env (os_archive after_upload) = (ar, r)" by fastforce
  have "snd (storageParaEscrita ?env (os_archive after_upload)) \<noteq> None" by code_simp
  then obtain s where s: "r = Some s" using run by auto
  have "map sg_id (ar_storages (os_archive after_upload)) = [''s1'']" by code_simp
  then have "sg_id ` set (ar_storages (os_archive after_upload)) = {''s1''}" by (metis list.set_map list.simps(15) list.set(1))
  then have fresh: "rv_newId ?env \<notin> insert [] (sg_id ` set (ar_storages (os_archive after_upload)))" by simp
  have "bucketOf s = bucketOf ?c \<and> sr_secret s = sr_secret ?c"
    using writing_storage_as_provisioned [OF reach_upload _ run [unfolded s] fresh, of ?c]
    by (simp add: sample_resolver_def sample_archive_env_def)
  then show ?thesis unfolding run s by (simp add: bucketOf_def sample_config_def)
qed

end
