(* ===== verification/Spec2Isabelle.thy ===== *)
theory Spec2Isabelle
  imports Camera_Permissions Range_Export Vod_Playlist Gateway_Invariants Timeline_Properties Auth_Properties
    File_Deletion_Recovery Vod_Service Playback_Sync_Properties Camera_Network_Properties Licence
    Http_Range Export_Queue_Properties Recording_Requests Guard_Rotation Recording_Status
    Retention_Cycle Archive_Incidents Storage_Resolver_Properties
begin

text \<open>
  A model of the video surveillance system of this repository: the decisions of its API
  (\<open>src/apps/api/src\<close>, NestJS) and of its web player (\<open>src/apps/web/src/lib\<close>), with the theorems
  that make them correct. The code keeps its decisions apart from the database, the disk and the
  browser; the model takes those decisions as they are written and puts the outside in records of
  state or in arguments.

  The parts and how they interact.

  \<^item> Who may do what. \<open>Access_Control\<close> (\<open>access-control/access-control.service.ts\<close>) answers every
    gate over a database of cameras, groups and permission rows: the owner, direct and group
    permissions, private cameras, suspended groups. \<open>Camera_Permissions\<close> changes those rows
    (\<open>camera-permissions.service.ts\<close>), with the race of two grants on the unique index.
    \<open>Auth_Service\<close> (\<open>auth/auth.service.ts\<close>) is the login with its lock-out, the rotation of refresh
    tokens, logout, password reset and the media tokens; \<open>Auth_Properties\<close> treats it as a
    transition system. \<open>Licence\<close> is what the commercial policy allows an installation.
  \<^item> Where the video comes from. \<open>Source_Gateway\<close> (\<open>camera-stream/source-gateway.service.ts\<close>) is the
    register of sources with leases, cap, circuit breaker and sweep, a step relation in
    \<open>Gateway_Invariants\<close>. \<open>Camera_Network\<close> (\<open>common/network/safe-url.helper.ts\<close>) decides which
    addresses a camera may have, on words of 32 and 128 bits, over \<open>Js_Number\<close> (\<open>Number\<close> of a text)
    and \<open>Env_Settings\<close> (\<open>common/config/env-number.helper.ts\<close>). \<open>Sensitive_Text\<close> takes credentials
    out of texts.
  \<^item> What is recorded. \<open>Recording_Supervisor\<close> (\<open>recordings/recording-process-manager.service.ts\<close>)
    starts, stops, restarts and suspends the processes that record; \<open>Recording_Supervisor_Properties\<close>
    makes it a transition system, \<open>Recording_Intent\<close> follows what was asked for,
    \<open>Recording_Requests\<close> treats manual recordings and the emergency ones of a blind detector,
    \<open>Recording_Guard\<close> and \<open>Guard_Rotation\<close> the guard of the disk, which deletes by \<open>Rotation\<close>
    (\<open>rotacao-por-camera.helper.ts\<close>, \<open>retencao-efetiva.helper.ts\<close>), and \<open>Recording_Status\<close> what the
    operator is shown.
  \<^item> What is kept. \<open>Archive\<close> holds what the next parts share: the rows of recordings, clips and
    storages, the files and the objects of the buckets, and the deletion of a row with its files,
    which goes through the journal of \<open>File_Deletion\<close> (\<open>transactional-file-delete.helper.ts\<close>;
    \<open>File_Deletion_Recovery\<close> recovers from a crash at any move). \<open>Retention\<close> and \<open>Retention_Guard\<close>
    are \<open>recordings/retention.service.ts\<close>: protections, cuts, the expiry in pages (over \<open>Batches\<close>),
    deletions by hand, the guard of the disk, the sweep of objects without a row;
    \<open>History_Cleanup\<close> cleans audit rows, alarms and events
    (\<open>helpers/limpeza-do-historico.helper.ts\<close>), and \<open>Retention_Cycle\<close> is \<open>handleRetention\<close>.
  \<^item> What goes to the cloud. \<open>Storage_Policy\<close> (\<open>cloud-storage/storage-policy.ts\<close>) says what is sent,
    \<open>Storage_Resolver\<close> (\<open>cloud-storage-resolver.service.ts\<close>) where, \<open>S3_Client\<close> (\<open>s3-client.ts\<close>,
    \<open>helpers/upload-verification.helper.ts\<close>) how, and \<open>Cloud_Offload\<close>
    (\<open>cloud-offload.service.ts\<close>) is the cycle that sends, confirms, removes local files and watches.
    \<open>Archive_Safety\<close>, \<open>Archive_Storages\<close> and \<open>Offload_Safety\<close> show for each of them that the rows
    stay true; \<open>Archive_System\<close> is the step relation of all of them over one archive, and
    \<open>Archive_Incidents\<close> what happens outside its assumptions.
  \<^item> What is exported. \<open>Export_Queue\<close> (\<open>jobs/helpers/range-export-job.helper.ts\<close> and
    \<open>recordings.service.ts\<close>) enqueues exports under an identity and recovers those whose process
    died. The queue of BullMQ is a parameter; \<open>bull_ok\<close> states what its documentation promises: a
    job is not added again under an id that is kept.
  \<^item> How it is played back. \<open>Range_Export\<close> plans an export of an interval
    (\<open>range-export.helper.ts\<close>) and \<open>Vod_Playlist\<close> a continuous playlist
    (\<open>vod-playlist.helper.ts\<close>); both rest on the locale \<open>segment_timeline\<close> of
    \<open>Recording_Segments\<close>. \<open>Vod_Service\<close> is \<open>buildVodPlaylist\<close> of \<open>recordings.service.ts\<close>: the access
    gate, the settings, the query, the plan and one media token per segment. Its answer is read by
    \<open>Vod_Player\<close> (\<open>lib/vod-continuous.ts\<close>), and \<open>vod_browser_agrees\<close> says that both sides mean the
    same. \<open>Playback_Sync\<close> (\<open>lib/playback-sync.ts\<close> and the loop of
    \<open>components/SyncedCameraPlayer.tsx\<close>) keeps several such players at one instant.
    \<open>Timeline_Window\<close> (\<open>lib/timeline-window.ts\<close>) is the time line under the player, and
    \<open>Http_Range\<close> (\<open>recordings/helpers/http-range.helper.ts\<close>) the bytes a request asks for.

  Conventions. A database table is a list of records, a \<open>Map\<close> of the code an association list in
  insertion order, a class's state a record passed through and returned. Every exception is a
  constructor of an error type in an \<open>Inl\<close>. Instants are whole milliseconds, seconds of the player
  thousandths; a field that may be absent or of the wrong type is an option. \<open>localeCompare\<close> is an
  order on keys, given as an argument. A failure of the database, a file or a request is a field of the
  record of the surroundings. \<open>Prelude\<close> holds what the components share: texts, decimal
  digits, dates, association lists and the locale \<open>transition_invariant\<close>, which is interpreted on
  the gateway, on the authentication and on the supervisor of the recordings. \<open>level_gate\<close> of
  \<open>Access_Control\<close> is interpreted on the group and on the direct permissions, \<open>segment_timeline\<close> on
  the export and on the playlist, \<open>batch_handler\<close> of \<open>Batches\<close> on the expiry of recordings and of
  clips, and \<open>archive_relation\<close> of \<open>Archive_Frame\<close>, which carries a relation through everything that
  deletes, on \<open>shrinks\<close> (\<open>Archive_Safety\<close>) and on \<open>spares\<close> (\<open>Retention_Cycle\<close>).

  What is proved. Safety: private content stays closed, a playlist names only what its user may
  see, a player never shows another instant than asked for, an address is accepted exactly when the
  policy permits it, protected recordings outlive every deletion of a cycle, a local file is only
  removed when its object is there. Invariants: the register of the gateway, one process per camera
  and the truth of what the rows say of the cloud, each in every reachable state; a rotation that is
  fair. Refinement: a deletion is all or nothing and recovery after a crash completes or undoes it;
  the browser's playlist is the API's plan. Exactness: what a pass of the retention, a deletion by hand
  or a purge takes. Equivalences: lists of cameras against gates, the condition sent to the database
  against the rule in memory. Ends and bounds: paging, the cycle of the retention, the correction of the
  players, back-off and lock-out. Errors: the places where the code does not do what it means to,
  as theorems about it.

  Bounds. \<open>sync_converges\<close> counts 1322 checks: a drift of two seconds less the dead band, in steps
  of at least 0.0014 seconds at the slowest speed. The paging of \<open>Timeline_Properties\<close> is given one
  step per row and one per page. \<open>rodadas\<close> of \<open>Rotation\<close> ends because a round that took something
  leaves fewer recordings in the queues. The loop of \<open>Batches\<close> is partial and is shown to end under
  \<open>batch_handler\<close>; the guard of the disk has the 100 rounds of the code. There is no other fuel.

  Not modelled. The controllers and the database (arguments here; an error of a query that the code
  does not catch is left out); the processes that run ffmpeg, MediaMTX and the analytics; ONVIF and
  PTZ messages; e-mail, push and webhooks; signing and HTTP of the storage; the rest of
  \<open>recordings.service.ts\<close> and \<open>cameras.service.ts\<close>, which call those; React rendering; the mobile
  application and the central server. The steps of \<open>Archive_System\<close> do not overlap, and its sweep
  relies on \<open>sweep_safe\<close>. Cryptographic functions are parameters. The DNS lookup of
  \<open>safe-url.helper.ts\<close> and the texts shown to the operator are left out.
\<close>

end
